(* ===== verification/Prelude.thy ===== *)
theory Prelude
  imports Main "HOL-Library.Word"
begin

text \<open>
  Shared vocabulary of the development: the fixed-width integer types of the C++ code, the
  result type of every operation that can fail, and the lemmas about both that the
  component theories use.

  A C++ function that can end abnormally returns a \<open>'a res\<close>.  \<open>ret x\<close> is a normal
  return, \<open>fail e\<close> says how the program stops (a failing \<open>assert\<close>, an access outside an
  array, a use of a dead object, an uncaught exception, \<open>std::abort\<close>), and \<open>None\<close> is a call
  that never returns.  \<open>CMakeLists.txt\<close> builds without \<open>NDEBUG\<close>, so an \<open>assert\<close> is a check
  of the release build too.
\<close>

section \<open>Machine integers and addresses\<close>

type_synonym u8 = "8 word"
type_synonym u16 = "16 word"
type_synonym u32 = "32 word"
type_synonym u64 = "64 word"

text \<open>An address of a heap object or of a packet; \<open>0\<close> is \<open>nullptr\<close>.\<close>

type_synonym ptr = nat

section \<open>Results\<close>

datatype err =
    AssertFail     \<comment> \<open>a failing \<open>assert\<close>\<close>
  | OutOfBounds    \<comment> \<open>an index outside an array, or a slot never written\<close>
  | Dangling       \<comment> \<open>a use of an object that no longer exists\<close>
  | BadPointer     \<comment> \<open>a null pointer, or a pointer to an object of another type\<close>
  | Thrown         \<comment> \<open>an exception that no handler of the state machine catches\<close>
  | Abort          \<comment> \<open>\<open>std::abort\<close>\<close>

type_synonym 'a res = "(err + 'a) option"

abbreviation ret :: "'a \<Rightarrow> 'a res" where
  "ret x \<equiv> Some (Inr x)"

abbreviation fail :: "err \<Rightarrow> 'a res" where
  "fail e \<equiv> Some (Inl e)"

definition rbind :: "'a res \<Rightarrow> ('a \<Rightarrow> 'b res) \<Rightarrow> 'b res" where
  "rbind m f = (case m of None \<Rightarrow> None | Some (Inl e) \<Rightarrow> fail e | Some (Inr x) \<Rightarrow> f x)"

definition rassert :: "bool \<Rightarrow> unit res" where
  "rassert b = (if b then ret () else fail AssertFail)"

text \<open>A postcondition of the normal returns of a computation.\<close>

definition on_ret :: "('a \<Rightarrow> bool) \<Rightarrow> 'a res \<Rightarrow> bool" where
  "on_ret P m = (\<forall>x. m = ret x \<longrightarrow> P x)"

named_theorems res_simps \<open>equations of the result type\<close>

lemma rbind_simps [simp, res_simps]:
  "rbind (ret x) f = f x"
  "rbind (fail e) f = fail e"
  "rbind None f = None"
  by (simp_all add: rbind_def)

lemma rassert_simps [simp, res_simps]:
  "rassert True = ret ()"
  "rassert False = fail AssertFail"
  by (simp_all add: rassert_def)

lemma rbind_eq_ret:
  "rbind m f = ret y \<longleftrightarrow> (\<exists>x. m = ret x \<and> f x = ret y)"
  by (auto simp: rbind_def split: option.splits sum.splits)

lemma rbind_assoc: "rbind (rbind m f) g = rbind m (\<lambda>x. rbind (f x) g)"
  by (auto simp: rbind_def split: option.splits sum.splits)

lemma rbind_ret: "rbind r ret = r"
  by (simp add: rbind_def split: option.splits sum.splits)

lemma rbind_cong: "(\<And>x. m = ret x \<Longrightarrow> f x = g x) \<Longrightarrow> rbind m f = rbind m g"
  by (auto simp: rbind_def split: option.split sum.split)

lemma rassert_eq_ret [simp]: "rassert b = ret u \<longleftrightarrow> b"
  by (simp add: rassert_def)

lemma on_ret_simps [simp]:
  "on_ret P (ret x) = P x"
  "on_ret P (fail e)"
  "on_ret P None"
  by (simp_all add: on_ret_def)

lemma on_ret_rbind:
  "on_ret P (rbind m f) \<longleftrightarrow> (\<forall>x. m = ret x \<longrightarrow> on_ret P (f x))"
  by (auto simp: on_ret_def rbind_eq_ret)

lemma on_ret_rbindI:
  assumes "on_ret Q m" and "\<And>x. Q x \<Longrightarrow> on_ret P (f x)"
  shows "on_ret P (rbind m f)"
  using assms by (auto simp: on_ret_def rbind_eq_ret)

lemma on_retD: "on_ret P m \<Longrightarrow> m = ret x \<Longrightarrow> P x"
  by (simp add: on_ret_def)

lemma on_ret_mono: "on_ret P m \<Longrightarrow> (\<And>x. P x \<Longrightarrow> Q x) \<Longrightarrow> on_ret Q m"
  by (simp add: on_ret_def)

text \<open>\<open>rbind\<close> may occur around the recursive calls of a \<^theory_text>\<open>partial_function\<close>.\<close>

lemma case_result_mono:
  "(\<And>x. mono_option (C x)) \<Longrightarrow> mono_option (\<lambda>f. case r of Inl e \<Rightarrow> fail e | Inr x \<Rightarrow> C x f)"
  by (cases r) (simp_all add: option.const_mono)

lemma rbind_mono [partial_function_mono]:
  assumes "mono_option B" and "\<And>y. mono_option (\<lambda>f. C y f)"
  shows "mono_option (\<lambda>f. rbind (B f) (\<lambda>y. C y f))"
proof -
  have "mono_option (\<lambda>f. Option.bind (B f) (\<lambda>r. case r of Inl e \<Rightarrow> fail e | Inr x \<Rightarrow> C x f))"
    by (intro bind_mono assms(1) case_result_mono assms(2))
  moreover have "rbind (B f) (\<lambda>y. C y f)
      = Option.bind (B f) (\<lambda>r. case r of Inl e \<Rightarrow> fail e | Inr x \<Rightarrow> C x f)" for f
    by (simp add: rbind_def split: option.split sum.split)
  ultimately show ?thesis by simp
qed

section \<open>Words and lists\<close>

named_theorems word_nat \<open>reading machine integers as natural numbers\<close>

lemma unat_inc [word_nat]:
  fixes x y :: "'a::len word"
  assumes "unat x < unat y"
  shows "unat (x + 1) = Suc (unat x)"
proof -
  have "x + 1 \<noteq> 0"
    using assms by (metis add_diff_cancel_right' diff_0 not_less_iff_gr_or_eq word_less_nat_alt
        word_order.not_eq_extremum)
  then show ?thesis by (simp add: add.commute unatSuc)
qed

lemma unat_of_nat_less [word_nat]:
  "n < 2 ^ LENGTH('a) \<Longrightarrow> unat (of_nat n :: 'a::len word) = n"
  by (simp add: unat_of_nat take_bit_eq_mod)

lemma of_nat_Suc_word: "(of_nat n :: 'a::len word) + 1 = of_nat (Suc n)"
  by (simp add: add.commute)

lemma unat_bound [word_nat]: "unat x < 2 ^ LENGTH('a)" for x :: "'a::len word"
  by (rule unsigned_less)

lemma unat_u8_less: "unat b < 256" for b :: u8
  using unat_bound [of b] by simp

lemma unat_u16_less: "unat b < 65536" for b :: u16
  using unat_bound [of b] by simp

lemma unat_ucast_up [word_nat]:
  fixes x :: "'a::len word"
  assumes "LENGTH('a) \<le> LENGTH('b)"
  shows "unat (ucast x :: 'b::len word) = unat x"
proof -
  have "unat x < 2 ^ LENGTH('b)"
    using unat_bound [of x] assms by (meson less_le_trans one_le_numeral power_increasing)
  then show ?thesis by (simp add: unsigned_ucast_eq take_bit_nat_eq_self)
qed

text \<open>Unrolls a quantifier over the indices below a numeral.\<close>

lemma all_less_numeral_unfold:
  "(\<forall>i < (numeral k :: nat). P i) \<longleftrightarrow> (\<forall>i \<in> set [0..<numeral k]. P i)"
  by auto

lemma drop_nth_Cons: "k < length xs \<Longrightarrow> drop k xs = xs ! k # drop (Suc k) xs"
  by (simp add: Cons_nth_drop_Suc)

lemma drop_take_chunk:
  assumes "t + k \<le> d"
  shows "drop t (take d xs) = take k (drop t xs) @ drop (t + k) (take d xs)"
proof -
  have "take k (drop t (take d xs)) = take k (drop t xs)"
    using assms by (simp add: drop_take min_absorb1)
  then show ?thesis
    using append_take_drop_id [of k "drop t (take d xs)"] by (simp only: drop_drop add.commute)
qed

lemma unat_ucast_le: "unat (ucast x :: 'b::len word) \<le> unat x" for x :: "'a::len word"
  by (simp add: unsigned_ucast_eq)

lemma on_ret_any: "(\<And>x. on_ret P (f x)) \<Longrightarrow> on_ret P (rbind m f)"
  by (simp add: on_ret_rbind)

lemma on_ret_if: "(b \<Longrightarrow> on_ret P x) \<Longrightarrow> (\<not> b \<Longrightarrow> on_ret P y) \<Longrightarrow> on_ret P (if b then x else y)"
  by simp

lemma on_ret_prod: "(\<And>a b. on_ret P (f a b)) \<Longrightarrow> on_ret P (case x of (a, b) \<Rightarrow> f a b)"
  by (cases x) simp

lemmas on_ret_intros = on_ret_any on_ret_if on_ret_prod

end
