(* ===== verification/Buf_Array.thy ===== *)
theory Buf_Array
  imports Prelude "HOL-Library.Multiset"
begin

text \<open>
  The packet batch of \<open>include/bufArray.hpp\<close>: a growable array of packet pointers with one
  send/drop bit per slot.  \<open>pkts\<close> holds one entry per allocated slot (\<open>None\<close> is memory that
  was allocated and never written), \<open>numBufs\<close> and \<open>numSlots\<close> keep the 32-bit width of the
  code.  The release of an outgrown array is not represented, since the code never reads it
  again.  The abstraction \<open>ba_list\<close> is the list of packets with their marks; the operations
  refine the obvious list operations.
\<close>

section \<open>State and operations\<close>

record 'p bufArray =
  pkts :: "'p option list"
  sendMask :: "bool list"
  numBufs :: u32
  numSlots :: u32
  fromLua :: bool

definition new_BufArray :: "'p list \<Rightarrow> u32 \<Rightarrow> bool \<Rightarrow> 'p bufArray res" where
  "new_BufArray ps numPkts lua =
    (if numPkts = 0 then fail Abort
     else ret \<lparr>pkts = map Some ps, sendMask = replicate (unat numPkts) True,
               numBufs = numPkts, numSlots = numPkts, fromLua = lua\<rparr>)"

text \<open>Reading \<open>pkts[idx]\<close> and writing \<open>sendMask[idx]\<close>.\<close>

definition ba_get :: "'p bufArray \<Rightarrow> u32 \<Rightarrow> 'p res" where
  "ba_get ba idx =
    (if unat idx < length (pkts ba)
     then (case pkts ba ! unat idx of None \<Rightarrow> fail OutOfBounds | Some p \<Rightarrow> ret p)
     else fail OutOfBounds)"

definition ba_set_mask :: "u32 \<Rightarrow> bool \<Rightarrow> 'p bufArray \<Rightarrow> 'p bufArray res" where
  "ba_set_mask idx b ba =
    (if unat idx < length (sendMask ba)
     then ret (ba\<lparr>sendMask := (sendMask ba)[unat idx := b]\<rparr>)
     else fail OutOfBounds)"

definition markDropPkt :: "u32 \<Rightarrow> 'p bufArray \<Rightarrow> 'p bufArray res" where
  "markDropPkt pktIdx ba =
    rbind (rassert (pktIdx < numBufs ba)) (\<lambda>_. ba_set_mask pktIdx False ba)"

definition markSendPkt :: "u32 \<Rightarrow> 'p bufArray \<Rightarrow> 'p bufArray res" where
  "markSendPkt pktIdx ba =
    rbind (rassert (pktIdx < numBufs ba)) (\<lambda>_. ba_set_mask pktIdx True ba)"

text \<open>The overload that takes a packet pointer (\<open>None\<close> is \<open>nullptr\<close>).\<close>

definition markDropPkt_ptr :: "'p option \<Rightarrow> 'p bufArray \<Rightarrow> 'p bufArray res" where
  "markDropPkt_ptr pkt ba =
    rbind (rassert (pkt \<noteq> None))
      (\<lambda>_. ret (ba\<lparr>sendMask := fold (\<lambda>i m. if pkts ba ! i = pkt then m[i := False] else m)
                               [0..<unat (numBufs ba)] (sendMask ba)\<rparr>))"

definition vec_resize :: "nat \<Rightarrow> bool list \<Rightarrow> bool list" where
  "vec_resize n xs = take n xs @ replicate (n - length xs) False"

definition ba_grow :: "'p bufArray \<Rightarrow> 'p bufArray" where
  "ba_grow ba =
    (let n = unat (numSlots ba); n' = numSlots ba * 2
     in ba\<lparr>pkts := take n (pkts ba) @ replicate (2 * n - n) None,
          numSlots := n', sendMask := vec_resize (unat n') (sendMask ba), fromLua := False\<rparr>)"

definition addPkt :: "'p \<Rightarrow> 'p bufArray \<Rightarrow> 'p bufArray res" where
  "addPkt pkt ba =
    (let ba1 = (if numBufs ba = numSlots ba then ba_grow ba else ba)
     in rbind (ba_set_mask (numBufs ba1) True ba1)
         (\<lambda>ba2. if unat (numBufs ba2) < length (pkts ba2)
                then ret (ba2\<lparr>pkts := (pkts ba2)[unat (numBufs ba2) := Some pkt],
                              numBufs := numBufs ba2 + 1\<rparr>)
                else fail OutOfBounds))"

definition getSendCount :: "'p bufArray \<Rightarrow> u32" where
  "getSendCount ba = fold (\<lambda>i c. if i then c + 1 else c) (sendMask ba) 0"

definition getFreeCount :: "'p bufArray \<Rightarrow> u32" where
  "getFreeCount ba = numBufs ba - getSendCount ba"

text \<open>
  The loop of \<open>getSendBufs\<close> (\<open>want = True\<close>) and \<open>getFreeBufs\<close> (\<open>want = False\<close>): copy the
  packets whose bit is \<open>want\<close> until \<open>num\<close> of them are copied.
\<close>

partial_function (option) collect_loop ::
  "bool \<Rightarrow> 'p bufArray \<Rightarrow> u32 \<Rightarrow> u32 \<Rightarrow> u32 \<Rightarrow> 'p list \<Rightarrow> 'p list res" where
  "collect_loop want ba num curBufs curPkts out =
    (if curBufs < num then
       (if unat curPkts < length (sendMask ba) then
          (if sendMask ba ! unat curPkts = want
           then rbind (ba_get ba curPkts)
                  (\<lambda>p. collect_loop want ba num (curBufs + 1) (curPkts + 1) (out @ [p]))
           else collect_loop want ba num curBufs (curPkts + 1) out)
        else fail OutOfBounds)
     else ret out)"

definition getSendBufs :: "'p bufArray \<Rightarrow> 'p list res" where
  "getSendBufs ba = collect_loop True ba (getSendCount ba) 0 0 []"

definition getFreeBufs :: "'p bufArray \<Rightarrow> 'p list res" where
  "getFreeBufs ba = collect_loop False ba (getFreeCount ba) 0 0 []"

definition getTotalCount :: "'p bufArray \<Rightarrow> u32" where
  "getTotalCount ba = numBufs ba"

section \<open>Well-formedness and abstraction\<close>

definition ba_wf :: "'p bufArray \<Rightarrow> bool" where
  "ba_wf ba \<longleftrightarrow> 0 < numBufs ba \<and> numBufs ba \<le> numSlots ba \<and>
     length (pkts ba) = unat (numSlots ba) \<and> length (sendMask ba) = unat (numSlots ba) \<and>
     (\<forall>i < unat (numBufs ba). pkts ba ! i \<noteq> None) \<and>
     (\<forall>i < unat (numSlots ba). unat (numBufs ba) \<le> i \<longrightarrow> \<not> sendMask ba ! i)"

definition ba_list :: "'p bufArray \<Rightarrow> ('p \<times> bool) list" where
  "ba_list ba = map (\<lambda>i. (the (pkts ba ! i), sendMask ba ! i)) [0..<unat (numBufs ba)]"

text \<open>There is a free slot, or the doubled slot count still fits 32 bits.\<close>

definition ba_room :: "'p bufArray \<Rightarrow> bool" where
  "ba_room ba \<longleftrightarrow> numBufs ba < numSlots ba \<or> unat (numSlots ba) < 2 ^ 31"

lemma length_ba_list [simp]: "length (ba_list ba) = unat (numBufs ba)"
  by (simp add: ba_list_def)

lemma ba_list_nth: "i < unat (numBufs ba) \<Longrightarrow> ba_list ba ! i = (the (pkts ba ! i), sendMask ba ! i)"
  by (simp add: ba_list_def)

lemma ba_wf_le: "ba_wf ba \<Longrightarrow> unat (numBufs ba) \<le> unat (numSlots ba)"
  by (simp add: ba_wf_def word_le_nat_alt)

lemma ba_get_wf:
  assumes "ba_wf ba" and "i < numBufs ba"
  shows "ba_get ba i = ret (fst (ba_list ba ! unat i))"
proof -
  have i: "unat i < unat (numBufs ba)" using assms(2) by (simp add: word_less_nat_alt)
  then obtain p where "pkts ba ! unat i = Some p" using assms(1) by (auto simp: ba_wf_def)
  then show ?thesis
    using i assms(1) ba_wf_le [OF assms(1)] by (auto simp: ba_get_def ba_list_nth ba_wf_def)
qed

lemma ba_mask_shape:
  assumes "ba_wf ba"
  shows "sendMask ba = map snd (ba_list ba)
           @ replicate (unat (numSlots ba) - unat (numBufs ba)) False"
proof (rule nth_equalityI)
  show "length (sendMask ba) = length (map snd (ba_list ba)
           @ replicate (unat (numSlots ba) - unat (numBufs ba)) False)"
    using assms ba_wf_le [OF assms] by (simp add: ba_wf_def)
next
  fix i assume "i < length (sendMask ba)"
  then show "sendMask ba ! i = (map snd (ba_list ba)
           @ replicate (unat (numSlots ba) - unat (numBufs ba)) False) ! i"
    using assms by (auto simp: ba_wf_def nth_append ba_list_nth)
qed

section \<open>The operations on the abstraction\<close>

lemma new_BufArray_spec:
  assumes "numPkts \<noteq> 0" and "length ps = unat numPkts"
  shows "\<exists>ba. new_BufArray ps numPkts lua = ret ba \<and> ba_wf ba \<and>
           ba_list ba = map (\<lambda>p. (p, True)) ps"
proof -
  let ?ba = "\<lparr>pkts = map Some ps, sendMask = replicate (unat numPkts) True,
               numBufs = numPkts, numSlots = numPkts, fromLua = lua\<rparr>"
  have "ba_wf ?ba" using assms by (auto simp: ba_wf_def word_neq_0_conv)
  moreover have "ba_list ?ba = map (\<lambda>p. (p, True)) ps"
    using assms(2) by (intro nth_equalityI) (auto simp: ba_list_def)
  ultimately show ?thesis using assms(1) by (auto simp: new_BufArray_def)
qed

lemma ba_set_mask_spec:
  fixes b :: bool
  assumes wf: "ba_wf ba" and i: "i < numBufs ba"
    and ba'_def: "ba' = ba\<lparr>sendMask := (sendMask ba)[unat i := b]\<rparr>"
  shows "ba_set_mask i b ba = ret ba' \<and> ba_wf ba' \<and>
           ba_list ba' = (ba_list ba)[unat i := (fst (ba_list ba ! unat i), b)]"
proof -
  have i': "unat i < unat (numBufs ba)" using i by (simp add: word_less_nat_alt)
  moreover have "unat i < length (sendMask ba)"
    using i' wf ba_wf_le [OF wf] by (simp add: ba_wf_def)
  moreover have "ba_wf ba'"
    using wf i' unfolding ba'_def ba_wf_def by (auto simp: nth_list_update)
  moreover have "ba_list ba' = (ba_list ba)[unat i := (fst (ba_list ba ! unat i), b)]"
    using i' \<open>unat i < length (sendMask ba)\<close>
    by (intro nth_equalityI) (auto simp: ba'_def ba_list_def nth_list_update)
  ultimately show ?thesis by (simp add: ba_set_mask_def ba'_def)
qed

lemma markDropPkt_spec:
  assumes "ba_wf ba" and "i < numBufs ba"
  shows "\<exists>ba'. markDropPkt i ba = ret ba' \<and> ba_wf ba' \<and>
           ba_list ba' = (ba_list ba)[unat i := (fst (ba_list ba ! unat i), False)]"
  using ba_set_mask_spec [OF assms refl] assms(2) by (auto simp: markDropPkt_def)

lemma markSendPkt_spec:
  assumes "ba_wf ba" and "i < numBufs ba"
  shows "\<exists>ba'. markSendPkt i ba = ret ba' \<and> ba_wf ba' \<and>
           ba_list ba' = (ba_list ba)[unat i := (fst (ba_list ba ! unat i), True)]"
  using ba_set_mask_spec [OF assms refl] assms(2) by (auto simp: markSendPkt_def)

lemma mark_out_of_range:
  assumes "numBufs ba \<le> i"
  shows "markDropPkt i ba = fail AssertFail" and "markSendPkt i ba = fail AssertFail"
  using assms by (simp_all add: markDropPkt_def markSendPkt_def rassert_def leD)

lemma unat_double:
  fixes x :: u32
  assumes "unat x < 2 ^ 31"
  shows "unat (x * 2) = 2 * unat x"
  using assms by (simp add: unat_word_ariths)

lemma ba_grow_spec:
  assumes wf: "ba_wf ba" and full: "numBufs ba = numSlots ba" and small: "unat (numSlots ba) < 2 ^ 31"
  shows "ba_wf (ba_grow ba) \<and> ba_list (ba_grow ba) = ba_list ba \<and>
         numBufs (ba_grow ba) = numBufs ba \<and> numBufs (ba_grow ba) < numSlots (ba_grow ba)"
proof -
  let ?n = "unat (numSlots ba)"
  note d = unat_double [OF small]
  have pos: "0 < ?n" using wf full by (simp add: ba_wf_def word_less_nat_alt)
  have shape: "length (pkts ba) = ?n" "length (sendMask ba) = ?n"
    using wf by (simp_all add: ba_wf_def)
  have "numBufs (ba_grow ba) < numSlots (ba_grow ba)"
    using pos d full by (simp add: ba_grow_def Let_def word_less_nat_alt)
  moreover have "ba_wf (ba_grow ba)"
    using wf full shape pos d
    by (auto simp: ba_grow_def Let_def ba_wf_def vec_resize_def nth_append word_le_nat_alt word_less_nat_alt)
  moreover have "ba_list (ba_grow ba) = ba_list ba"
    using full shape d by (auto simp: ba_list_def ba_grow_def Let_def vec_resize_def nth_append)
  ultimately show ?thesis by (simp add: ba_grow_def Let_def)
qed

lemma addPkt_room:
  assumes wf: "ba_wf ba" and lt: "numBufs ba < numSlots ba"
    and ba'_def: "ba' = ba\<lparr>sendMask := (sendMask ba)[unat (numBufs ba) := True],
        pkts := (pkts ba)[unat (numBufs ba) := Some pkt], numBufs := numBufs ba + 1\<rparr>"
  shows "addPkt pkt ba = ret ba' \<and> ba_wf ba' \<and> ba_list ba' = ba_list ba @ [(pkt, True)]"
proof -
  let ?n = "unat (numBufs ba)"
  have n: "?n < unat (numSlots ba)" using lt by (simp add: word_less_nat_alt)
  have shape: "length (pkts ba) = unat (numSlots ba)" "length (sendMask ba) = unat (numSlots ba)"
    using wf by (simp_all add: ba_wf_def)
  have suc: "unat (numBufs ba + 1) = Suc ?n" using n by (rule unat_inc)
  have "addPkt pkt ba = ret ba'"
    using less_imp_neq [OF lt] n shape by (simp add: addPkt_def Let_def ba_set_mask_def ba'_def)
  moreover have "ba_wf ba'"
    using wf n suc shape unfolding ba'_def ba_wf_def
    by (auto simp: nth_list_update word_less_nat_alt word_le_nat_alt less_Suc_eq)
  moreover have "ba_list ba' = ba_list ba @ [(pkt, True)]"
  proof (rule nth_equalityI)
    show "length (ba_list ba') = length (ba_list ba @ [(pkt, True)])"
      by (simp add: ba'_def suc)
    fix i assume "i < length (ba_list ba')"
    then have "i < Suc ?n" by (simp add: ba'_def suc)
    then show "ba_list ba' ! i = (ba_list ba @ [(pkt, True)]) ! i"
      using n shape by (auto simp: ba_list_def ba'_def suc nth_append nth_list_update less_Suc_eq)
  qed
  ultimately show ?thesis by simp
qed

lemma addPkt_spec:
  assumes wf: "ba_wf ba" and room: "ba_room ba"
  shows "\<exists>ba'. addPkt pkt ba = ret ba' \<and> ba_wf ba' \<and> ba_list ba' = ba_list ba @ [(pkt, True)]"
proof (cases "numBufs ba = numSlots ba")
  case True
  with room have small: "unat (numSlots ba) < 2 ^ 31" by (simp add: ba_room_def)
  note g = ba_grow_spec [OF wf True small]
  then have "numBufs (ba_grow ba) \<noteq> numSlots (ba_grow ba)" by (metis less_irrefl)
  then have "addPkt pkt (ba_grow ba) = addPkt pkt ba"
    using True by (simp add: addPkt_def)
  with addPkt_room [of "ba_grow ba" _ pkt, OF _ _ refl] g show ?thesis by auto
next
  case False
  with wf have "numBufs ba < numSlots ba" by (simp add: ba_wf_def order_less_le)
  from addPkt_room [OF wf this refl] show ?thesis by blast
qed

lemma fold_count_word:
  "fold (\<lambda>i c. if i then c + 1 else c) bs (c :: 'a::len word) = c + of_nat (length (filter id bs))"
  by (induction bs arbitrary: c) (auto simp: add.assoc)

lemma getSendCount_spec:
  assumes wf: "ba_wf ba"
  shows "unat (getSendCount ba) = length (filter snd (ba_list ba))"
proof -
  have "getSendCount ba = of_nat (length (filter id (sendMask ba)))"
    by (simp add: getSendCount_def fold_count_word)
  moreover have "length (filter id (sendMask ba)) = length (filter snd (ba_list ba))"
    by (simp add: ba_mask_shape [OF wf] filter_map o_def)
  moreover have "unat (numBufs ba) < 2 ^ LENGTH(32)" by (rule unsigned_less)
  then have "length (filter snd (ba_list ba)) < 2 ^ LENGTH(32)"
    using length_filter_le [of snd "ba_list ba"] by simp
  ultimately show ?thesis by (simp add: unat_of_nat_less)
qed

lemma getFreeCount_spec:
  assumes wf: "ba_wf ba"
  shows "unat (getFreeCount ba) = length (filter (Not \<circ> snd) (ba_list ba))"
proof -
  have sum: "length (filter snd (ba_list ba)) + length (filter (Not \<circ> snd) (ba_list ba))
              = unat (numBufs ba)"
    using sum_length_filter_compl [of snd "ba_list ba"] by (simp add: o_def)
  then have "getSendCount ba \<le> numBufs ba"
    by (simp add: word_le_nat_alt getSendCount_spec [OF wf])
  then show ?thesis
    using sum by (simp add: getFreeCount_def unat_sub getSendCount_spec [OF wf])
qed

text \<open>
  The copy loop started at index \<open>curPkts\<close> with as many packets left to copy as there are
  marked ones from there on: it returns all of them, in order.
\<close>

lemma collect_loop_spec:
  assumes wf: "ba_wf ba"
  shows "\<lbrakk>unat curPkts + k = unat (numBufs ba);
     unat curBufs + length (filter (\<lambda>x. snd x = want) (drop (unat curPkts) (ba_list ba))) = unat num\<rbrakk>
   \<Longrightarrow> collect_loop want ba num curBufs curPkts out
       = ret (out @ map fst (filter (\<lambda>x. snd x = want) (drop (unat curPkts) (ba_list ba))))"
proof (induction k arbitrary: curPkts curBufs out)
  case 0
  then have d: "drop (unat curPkts) (ba_list ba) = []" and "unat curBufs = unat num" by simp_all
  then have "\<not> curBufs < num" by (simp add: word_less_nat_alt)
  then show ?case using d by (simp add: collect_loop.simps)
next
  case (Suc k)
  let ?c = "unat curPkts" and ?P = "\<lambda>x. snd x = want"
  have c: "?c < unat (numBufs ba)" using Suc.prems(1) by simp
  then have m: "?c < length (sendMask ba)" and x: "snd (ba_list ba ! ?c) = sendMask ba ! ?c"
    using wf ba_wf_le [OF wf] by (simp_all add: ba_wf_def ba_list_nth)
  have d: "drop ?c (ba_list ba) = ba_list ba ! ?c # drop (Suc ?c) (ba_list ba)"
    using c by (simp add: drop_nth_Cons)
  have c1: "unat (curPkts + 1) = Suc ?c" using c by (rule unat_inc)
  have get: "ba_get ba curPkts = ret (fst (ba_list ba ! ?c))"
    using ba_get_wf [OF wf] c by (simp add: word_less_nat_alt)
  show ?case
  proof (cases "curBufs < num")
    case False
    then have "length (filter ?P (drop ?c (ba_list ba))) = 0"
      using Suc.prems(2) by (simp add: word_less_nat_alt del: length_0_conv)
    with False show ?thesis by (simp add: collect_loop.simps)
  next
    case True
    have b1: "unat (curBufs + 1) = Suc (unat curBufs)"
      using True by (intro unat_inc [of _ num]) (simp add: word_less_nat_alt)
    show ?thesis
    proof (cases "sendMask ba ! ?c = want")
      case want: True
      have "collect_loop want ba num (curBufs + 1) (curPkts + 1) (out @ [fst (ba_list ba ! ?c)])
        = ret ((out @ [fst (ba_list ba ! ?c)]) @ map fst (filter ?P (drop (Suc ?c) (ba_list ba))))"
        using Suc.IH [of "curPkts + 1" "curBufs + 1"] Suc.prems want x d c1 b1 by simp
      then show ?thesis using True m want x d get by (subst collect_loop.simps) simp
    next
      case False
      have "collect_loop want ba num curBufs (curPkts + 1) out
        = ret (out @ map fst (filter ?P (drop (Suc ?c) (ba_list ba))))"
        using Suc.IH [of "curPkts + 1" curBufs] Suc.prems False x d c1 by simp
      then show ?thesis using True m False x d by (subst collect_loop.simps) simp
    qed
  qed
qed

lemma getSendBufs_spec:
  assumes wf: "ba_wf ba"
  shows "getSendBufs ba = ret (map fst (filter snd (ba_list ba)))"
  using collect_loop_spec [OF wf, of 0 "unat (numBufs ba)" 0 True "getSendCount ba"]
  by (simp add: getSendBufs_def getSendCount_spec [OF wf])

lemma getFreeBufs_spec:
  assumes wf: "ba_wf ba"
  shows "getFreeBufs ba = ret (map fst (filter (Not \<circ> snd) (ba_list ba)))"
  using collect_loop_spec [OF wf, of 0 "unat (numBufs ba)" 0 False "getFreeCount ba"]
  by (simp add: getFreeBufs_def getFreeCount_spec [OF wf] o_def)

section \<open>The interface the state machine relies on\<close>

text \<open>
  What a client of a packet batch may assume: every operation on a well-formed batch
  succeeds and acts on the abstract list.  The clients' lemmas (a batch partitions its packets
  into those to send and those to free) are proved from these laws alone.
\<close>

locale packet_batch =
  fixes wf :: "'b \<Rightarrow> bool" and contents :: "'b \<Rightarrow> ('p \<times> bool) list" and room :: "'b \<Rightarrow> bool"
    and add :: "'p \<Rightarrow> 'b \<Rightarrow> 'b res"
    and mark_drop :: "u32 \<Rightarrow> 'b \<Rightarrow> 'b res" and mark_send :: "u32 \<Rightarrow> 'b \<Rightarrow> 'b res"
    and to_send :: "'b \<Rightarrow> 'p list res" and to_free :: "'b \<Rightarrow> 'p list res"
    and send_count :: "'b \<Rightarrow> u32" and free_count :: "'b \<Rightarrow> u32"
  assumes add: "\<lbrakk>wf b; room b\<rbrakk> \<Longrightarrow>
      \<exists>b'. add p b = ret b' \<and> wf b' \<and> contents b' = contents b @ [(p, True)]"
    and mark_drop: "\<lbrakk>wf b; unat i < length (contents b)\<rbrakk> \<Longrightarrow>
      \<exists>b'. mark_drop i b = ret b' \<and> wf b' \<and>
           contents b' = (contents b)[unat i := (fst (contents b ! unat i), False)]"
    and mark_send: "\<lbrakk>wf b; unat i < length (contents b)\<rbrakk> \<Longrightarrow>
      \<exists>b'. mark_send i b = ret b' \<and> wf b' \<and>
           contents b' = (contents b)[unat i := (fst (contents b ! unat i), True)]"
    and to_send: "wf b \<Longrightarrow> to_send b = ret (map fst (filter snd (contents b)))"
    and to_free: "wf b \<Longrightarrow> to_free b = ret (map fst (filter (Not \<circ> snd) (contents b)))"
    and send_count: "wf b \<Longrightarrow> unat (send_count b) = length (filter snd (contents b))"
    and free_count: "wf b \<Longrightarrow> unat (free_count b) = length (filter (Not \<circ> snd) (contents b))"
begin

lemma partition:
  assumes "wf b"
  shows "\<exists>s f. to_send b = ret s \<and> to_free b = ret f \<and>
           length s = unat (send_count b) \<and> length f = unat (free_count b) \<and>
           mset s + mset f = mset (map fst (contents b))"
proof -
  have "mset (filter snd xs) + mset (filter (Not \<circ> snd) xs) = mset xs"
    for xs :: "('p \<times> bool) list"
    by (induction xs) auto
  then have "mset (map fst (filter snd (contents b)))
      + mset (map fst (filter (Not \<circ> snd) (contents b))) = mset (map fst (contents b))"
    by (metis image_mset_union mset_map)
  then show ?thesis
    using assms by (simp add: to_send to_free send_count free_count)
qed

lemma marks_keep_packets:
  assumes "wf b" and "unat i < length (contents b)"
  shows "on_ret (\<lambda>b'. map fst (contents b') = map fst (contents b)) (mark_drop i b)"
    and "on_ret (\<lambda>b'. map fst (contents b') = map fst (contents b)) (mark_send i b)"
  using mark_drop [OF assms] mark_send [OF assms] assms(2)
  by (auto simp: map_update list_update_id) (metis list_update_id nth_map)+

lemma drop_frees:
  assumes "wf b" and "unat i < length (contents b)" and "mark_drop i b = ret b'"
  shows "\<exists>f. to_free b' = ret f \<and> fst (contents b ! unat i) \<in> set f"
proof -
  have w: "wf b'" and c: "contents b' = (contents b)[unat i := (fst (contents b ! unat i), False)]"
    using mark_drop [OF assms(1,2)] assms(3) by auto
  have "(fst (contents b ! unat i), False) \<in> set (contents b')"
    using assms(2) by (simp add: c set_update_memI)
  then show ?thesis by (auto simp: to_free [OF w] image_iff intro!: bexI)
qed

lemma send_sends:
  assumes "wf b" and "unat i < length (contents b)" and "mark_send i b = ret b'"
  shows "\<exists>s. to_send b' = ret s \<and> fst (contents b ! unat i) \<in> set s"
proof -
  have w: "wf b'" and c: "contents b' = (contents b)[unat i := (fst (contents b ! unat i), True)]"
    using mark_send [OF assms(1,2)] assms(3) by auto
  have "(fst (contents b ! unat i), True) \<in> set (contents b')"
    using assms(2) by (simp add: c set_update_memI)
  then show ?thesis by (auto simp: to_send [OF w] image_iff intro!: bexI)
qed

end

interpretation ba: packet_batch ba_wf ba_list ba_room addPkt markDropPkt markSendPkt
  getSendBufs getFreeBufs getSendCount getFreeCount
  by unfold_locales
    (simp_all add: addPkt_spec markDropPkt_spec markSendPkt_spec getSendBufs_spec getFreeBufs_spec
      getSendCount_spec getFreeCount_spec word_less_nat_alt)

section \<open>Properties\<close>

text \<open>
  C12.  A batch partitions its packets.  For a well-formed batch both copy loops terminate;
  \<open>getSendBufs\<close> yields exactly \<open>getSendCount\<close> packets and \<open>getFreeBufs\<close> exactly
  \<open>getFreeCount\<close>, and together they hold every packet of the batch exactly once.
\<close>

theorem send_free_partition:
  assumes "ba_wf ba"
  shows "\<exists>s f. getSendBufs ba = ret s \<and> getFreeBufs ba = ret f \<and>
           length s = unat (getSendCount ba) \<and> length f = unat (getFreeCount ba) \<and>
           mset s + mset f = mset (map fst (ba_list ba))"
  by (rule ba.partition [OF assms])

definition example_batch :: "nat bufArray" where
  "example_batch = \<lparr>pkts = [Some 7, Some 8, Some 9, None], sendMask = [True, False, True, False],
     numBufs = 3, numSlots = 4, fromLua = True\<rparr>"

lemma example_batch_wf: "ba_wf example_batch"
  by (simp add: ba_wf_def example_batch_def all_less_numeral_unfold upt_rec)

lemma example_batch_list: "ba_list example_batch = [(7, True), (8, False), (9, True)]"
  by (simp add: ba_list_def example_batch_def upt_rec)

theorem send_free_partition_witness:
  "getSendBufs example_batch = ret [7, 9] \<and> getFreeBufs example_batch = ret [8] \<and>
   (\<exists>s f. getSendBufs example_batch = ret s \<and> getFreeBufs example_batch = ret f \<and>
      mset s + mset f = {#7, 8, 9#})"
  using send_free_partition [OF example_batch_wf]
  by (auto simp: getSendBufs_spec [OF example_batch_wf] getFreeBufs_spec [OF example_batch_wf]
      example_batch_list)

text \<open>
  \<open>addPkt\<close> refines appending to the list of packets: while the slot count can still be
  doubled within 32 bits it succeeds (growing the array if it is full), keeps the batch
  well-formed, keeps every packet and mark, and the new packet is last and marked to be sent.
\<close>

theorem addPkt_appends:
  assumes "ba_wf ba" and "ba_room ba"
  shows "\<exists>ba'. addPkt pkt ba = ret ba' \<and> ba_wf ba' \<and> ba_list ba' = ba_list ba @ [(pkt, True)]"
  by (rule ba.add [OF assms])

theorem addPkt_appends_witness:
  "\<exists>ba'. addPkt 5 example_batch = ret ba' \<and>
     ba_list ba' = [(7, True), (8, False), (9, True), (5, True)]"
proof -
  have "ba_room example_batch" by (simp add: ba_room_def example_batch_def)
  from addPkt_appends [OF example_batch_wf this, of 5] show ?thesis
    by (auto simp: example_batch_list)
qed

end
