(* ===== verification/Memory.thy ===== *)
theory Memory
  imports Prelude
begin

text \<open>
  Byte memory and the overlay of integers on it.  A packet buffer is a function from offsets
  (relative to the address \<open>getData()\<close> returns) to bytes.  The target is x86-64: the state
  machine code uses \<open>rdtsc\<close> and \<open>pause\<close>, so a multi-byte field of a packed struct is loaded
  and stored in little-endian order, and \<open>ntohs\<close>, \<open>htons\<close>, \<open>ntohl\<close>, \<open>htonl\<close> swap bytes.
  A buffer has no end here; which offsets an operation may write is a property of its own.
\<close>

unbundle bit_operations_syntax

type_synonym mem = "nat \<Rightarrow> u8"

definition load16 :: "mem \<Rightarrow> nat \<Rightarrow> u16" where
  "load16 m a = word_cat (m (a + 1)) (m a)"

definition load32 :: "mem \<Rightarrow> nat \<Rightarrow> u32" where
  "load32 m a = word_cat (load16 m (a + 2)) (load16 m a)"

definition load64 :: "mem \<Rightarrow> nat \<Rightarrow> u64" where
  "load64 m a = word_cat (load32 m (a + 4)) (load32 m a)"

definition store8 :: "nat \<Rightarrow> u8 \<Rightarrow> mem \<Rightarrow> mem" where
  "store8 a v m = m(a := v)"

definition store16 :: "nat \<Rightarrow> u16 \<Rightarrow> mem \<Rightarrow> mem" where
  "store16 a v m = m(a := ucast v, a + 1 := ucast (drop_bit 8 v))"

definition store32 :: "nat \<Rightarrow> u32 \<Rightarrow> mem \<Rightarrow> mem" where
  "store32 a v m = store16 (a + 2) (ucast (drop_bit 16 v)) (store16 a (ucast v) m)"

definition store64 :: "nat \<Rightarrow> u64 \<Rightarrow> mem \<Rightarrow> mem" where
  "store64 a v m = store32 (a + 4) (ucast (drop_bit 32 v)) (store32 a (ucast v) m)"

definition ntohs :: "u16 \<Rightarrow> u16" where
  "ntohs v = word_cat (ucast v :: u8) (ucast (drop_bit 8 v) :: u8)"

definition htons :: "u16 \<Rightarrow> u16" where
  "htons v = ntohs v"

definition ntohl :: "u32 \<Rightarrow> u32" where
  "ntohl v = word_cat (ntohs (ucast v)) (ntohs (ucast (drop_bit 16 v)))"

definition htonl :: "u32 \<Rightarrow> u32" where
  "htonl v = ntohl v"

text \<open>\<open>memcpy\<close> of a byte list to an offset, and the bytes of a range.\<close>

definition store_bytes :: "nat \<Rightarrow> u8 list \<Rightarrow> mem \<Rightarrow> mem" where
  "store_bytes a bs m = (\<lambda>i. if a \<le> i \<and> i < a + length bs then bs ! (i - a) else m i)"

definition load_bytes :: "nat \<Rightarrow> nat \<Rightarrow> mem \<Rightarrow> u8 list" where
  "load_bytes a n m = map (\<lambda>i. m (a + i)) [0..<n]"

section \<open>Bytes of a word\<close>

lemma word_cat_bytes16: "word_cat (ucast (drop_bit 8 v) :: u8) (ucast v :: u8) = (v :: u16)"
  by (rule bit_word_eqI) (auto simp: bit_word_cat_iff bit_ucast_iff bit_drop_bit_eq)

lemma word_cat_bytes32: "word_cat (ucast (drop_bit 16 v) :: u16) (ucast v :: u16) = (v :: u32)"
  by (rule bit_word_eqI) (auto simp: bit_word_cat_iff bit_ucast_iff bit_drop_bit_eq)

lemma word_cat_bytes64: "word_cat (ucast (drop_bit 32 v) :: u32) (ucast v :: u32) = (v :: u64)"
  by (rule bit_word_eqI) (auto simp: bit_word_cat_iff bit_ucast_iff bit_drop_bit_eq)

lemma low_high_cat16 [simp]:
  fixes a b :: u8
  shows "ucast (word_cat a b :: u16) = b" and "ucast (drop_bit 8 (word_cat a b :: u16)) = a"
  by (rule bit_word_eqI; auto simp: bit_word_cat_iff bit_ucast_iff bit_drop_bit_eq)+

lemma low_high_cat32 [simp]:
  fixes a b :: u16
  shows "ucast (word_cat a b :: u32) = b" and "ucast (drop_bit 16 (word_cat a b :: u32)) = a"
  by (rule bit_word_eqI; auto simp: bit_word_cat_iff bit_ucast_iff bit_drop_bit_eq)+

lemma low_high_cat64 [simp]:
  fixes a b :: u32
  shows "ucast (word_cat a b :: u64) = b" and "ucast (drop_bit 32 (word_cat a b :: u64)) = a"
  by (rule bit_word_eqI; auto simp: bit_word_cat_iff bit_ucast_iff bit_drop_bit_eq)+

lemma ntohs_ntohs [simp]: "ntohs (ntohs v) = v"
  by (simp add: ntohs_def word_cat_bytes16)

lemma ntohl_ntohl [simp]: "ntohl (ntohl v) = v"
  by (simp add: ntohl_def word_cat_bytes32)

lemma hton_ntoh [simp]:
  "ntohs (htons v) = v" "htons (ntohs v) = v" "ntohl (htonl w) = w" "htonl (ntohl w) = w"
  by (simp_all add: htons_def htonl_def)

lemma htons_eq_iff [simp]: "htons a = htons b \<longleftrightarrow> a = b"
  by (metis hton_ntoh(1))

lemma htonl_eq_iff [simp]: "htonl a = htonl b \<longleftrightarrow> a = b"
  by (metis hton_ntoh(3))

section \<open>Reading over writing\<close>

named_theorems mem_simps \<open>loads over stores at known distances\<close>

lemma store8_apply [mem_simps]: "store8 a v m i = (if i = a then v else m i)"
  by (simp add: store8_def)

lemma store16_apply:
  "store16 a v m i = (if i = a then ucast v else if i = a + 1 then ucast (drop_bit 8 v) else m i)"
  by (simp add: store16_def)

lemma load_store_same [simp, mem_simps]:
  "load16 (store16 a v m) a = v"
  "load32 (store32 a w m) a = w"
  "load64 (store64 a x m) a = x"
proof -
  show r16: "load16 (store16 a v m) a = v" for a v m
    by (simp add: load16_def store16_def word_cat_bytes16)
  have far: "load16 (store16 b v m) a = load16 m a" if "a + 2 \<le> b" for a b v m
    using that by (simp add: load16_def store16_apply)
  show r32: "load32 (store32 a w m) a = w" for a w m
    by (simp add: load32_def store32_def r16 far word_cat_bytes32)
  have far32: "load32 (store32 b v m) a = load32 m a" if "a + 4 \<le> b" for a b v m
    using that by (simp add: load32_def store32_def far)
  show "load64 (store64 a x m) a = x"
    by (simp add: load64_def store64_def r32 far32 word_cat_bytes64)
qed

text \<open>A store leaves every byte outside its range alone.\<close>

lemma store_frame:
  "i < a \<or> a + 2 \<le> i \<Longrightarrow> store16 a v m i = m i"
  "i < a \<or> a + 4 \<le> i \<Longrightarrow> store32 a w m i = m i"
  "i < a \<or> a + 8 \<le> i \<Longrightarrow> store64 a x m i = m i"
  by (auto simp: store64_def store32_def store16_apply)

text \<open>A load depends only on the bytes of its range.\<close>

lemma load_cong:
  "(\<And>i. a \<le> i \<Longrightarrow> i < a + 2 \<Longrightarrow> m i = m' i) \<Longrightarrow> load16 m a = load16 m' a"
  "(\<And>i. a \<le> i \<Longrightarrow> i < a + 4 \<Longrightarrow> m i = m' i) \<Longrightarrow> load32 m a = load32 m' a"
  "(\<And>i. a \<le> i \<Longrightarrow> i < a + 8 \<Longrightarrow> m i = m' i) \<Longrightarrow> load64 m a = load64 m' a"
  by (simp_all add: load64_def load32_def load16_def)

text \<open>Loads and stores of disjoint ranges.\<close>

lemma load_store_other [mem_simps]:
  "b + 1 \<le> a \<or> a + 2 \<le> b \<Longrightarrow> load16 (store8 b v8 m) a = load16 m a"
  "b + 2 \<le> a \<or> a + 2 \<le> b \<Longrightarrow> load16 (store16 b v16 m) a = load16 m a"
  "b + 4 \<le> a \<or> a + 2 \<le> b \<Longrightarrow> load16 (store32 b v32 m) a = load16 m a"
  "b + 8 \<le> a \<or> a + 2 \<le> b \<Longrightarrow> load16 (store64 b v64 m) a = load16 m a"
  "b + 1 \<le> a \<or> a + 4 \<le> b \<Longrightarrow> load32 (store8 b v8 m) a = load32 m a"
  "b + 2 \<le> a \<or> a + 4 \<le> b \<Longrightarrow> load32 (store16 b v16 m) a = load32 m a"
  "b + 4 \<le> a \<or> a + 4 \<le> b \<Longrightarrow> load32 (store32 b v32 m) a = load32 m a"
  "b + 8 \<le> a \<or> a + 4 \<le> b \<Longrightarrow> load32 (store64 b v64 m) a = load32 m a"
  "b + 1 \<le> a \<or> a + 8 \<le> b \<Longrightarrow> load64 (store8 b v8 m) a = load64 m a"
  "b + 2 \<le> a \<or> a + 8 \<le> b \<Longrightarrow> load64 (store16 b v16 m) a = load64 m a"
  "b + 4 \<le> a \<or> a + 8 \<le> b \<Longrightarrow> load64 (store32 b v32 m) a = load64 m a"
  "b + 8 \<le> a \<or> a + 8 \<le> b \<Longrightarrow> load64 (store64 b v64 m) a = load64 m a"
  by (rule load_cong; auto simp: store_frame store8_apply)+

lemma store_apply_other [mem_simps]:
  "i < b \<or> b + 2 \<le> i \<Longrightarrow> store16 b v16 m i = m i"
  "i < b \<or> b + 4 \<le> i \<Longrightarrow> store32 b v32 m i = m i"
  "i < b \<or> b + 8 \<le> i \<Longrightarrow> store64 b v64 m i = m i"
  by (simp_all add: store_frame)

lemma store_bytes_apply: "store_bytes a bs m i = (if a \<le> i \<and> i < a + length bs then bs ! (i - a) else m i)"
  by (simp add: store_bytes_def)

lemma load_store_bytes_other [mem_simps]:
  "b + length bs \<le> a \<or> a + 2 \<le> b \<Longrightarrow> load16 (store_bytes b bs m) a = load16 m a"
  "b + length bs \<le> a \<or> a + 4 \<le> b \<Longrightarrow> load32 (store_bytes b bs m) a = load32 m a"
  "b + length bs \<le> a \<or> a + 8 \<le> b \<Longrightarrow> load64 (store_bytes b bs m) a = load64 m a"
  "i < b \<or> b + length bs \<le> i \<Longrightarrow> store_bytes b bs m i = m i"
  by (rule load_cong; auto simp: store_bytes_apply)+ (auto simp: store_bytes_apply)

lemma length_load_bytes [simp]: "length (load_bytes a n m) = n"
  by (simp add: load_bytes_def)

lemma load_store_bytes [simp, mem_simps]: "n = length bs \<Longrightarrow> load_bytes a n (store_bytes a bs m) = bs"
  by (intro nth_equalityI) (simp_all add: load_bytes_def store_bytes_apply)

lemma load_bytes_cong:
  "(\<And>i. a \<le> i \<Longrightarrow> i < a + n \<Longrightarrow> m i = m' i) \<Longrightarrow> load_bytes a n m = load_bytes a n m'"
  by (simp add: load_bytes_def)

lemma load_bytes_store_other [mem_simps]:
  "b + 1 \<le> a \<or> a + n \<le> b \<Longrightarrow> load_bytes a n (store8 b v8 m) = load_bytes a n m"
  "b + 2 \<le> a \<or> a + n \<le> b \<Longrightarrow> load_bytes a n (store16 b v16 m) = load_bytes a n m"
  "b + 4 \<le> a \<or> a + n \<le> b \<Longrightarrow> load_bytes a n (store32 b v32 m) = load_bytes a n m"
  "b + 8 \<le> a \<or> a + n \<le> b \<Longrightarrow> load_bytes a n (store64 b v64 m) = load_bytes a n m"
  by (rule load_bytes_cong; auto simp: store_frame store8_apply)+

end
