(* ===== verification/Headers.thy ===== *)
theory Headers
  imports Memory
begin

text \<open>
  The packet headers of \<open>include/headers.hpp\<close>.  A header object is a packed struct laid over
  the packet buffer, so each accessor takes the offset of its \<open>this\<close> pointer and the buffer,
  and each setter returns the new buffer.  Field offsets are those of the packed structs;
  fields keep network byte order in memory, as in the code.
\<close>

section \<open>Ethernet\<close>

definition sizeof_Ethernet :: nat where "sizeof_Ethernet = 14"

definition eth_getPayload :: "nat \<Rightarrow> nat" where
  "eth_getPayload e = e + sizeof_Ethernet"

definition eth_getEthertype :: "nat \<Rightarrow> mem \<Rightarrow> u16" where
  "eth_getEthertype e m = ntohs (load16 m (e + 12))"

definition ETHERTYPE_IPv4 :: u16 where "ETHERTYPE_IPv4 = 0x0800"
definition ETHERTYPE_IPv6 :: u16 where "ETHERTYPE_IPv6 = 0x86dd"

definition eth_setEthertype :: "nat \<Rightarrow> u16 \<Rightarrow> mem \<Rightarrow> mem" where
  "eth_setEthertype e type m = store16 (e + 12) (htons type) m"

definition eth_setSrcAddr :: "nat \<Rightarrow> u8 list \<Rightarrow> mem \<Rightarrow> mem" where
  "eth_setSrcAddr e addr m = store_bytes (e + 6) (take 6 addr) m"

definition eth_setDstAddr :: "nat \<Rightarrow> u8 list \<Rightarrow> mem \<Rightarrow> mem" where
  "eth_setDstAddr e addr m = store_bytes e (take 6 addr) m"

section \<open>IPv4\<close>

definition sizeof_IPv4 :: nat where "sizeof_IPv4 = 20"

definition ip_version :: "nat \<Rightarrow> mem \<Rightarrow> u8 res" where
  "ip_version i m =
    (let r = drop_bit 4 (m i AND 0xf0) in rbind (rassert (4 \<le> r)) (\<lambda>_. ret r))"

definition ip_ihl :: "nat \<Rightarrow> mem \<Rightarrow> u8" where
  "ip_ihl i m = m i AND 0x0f"

definition ip_setVersion :: "nat \<Rightarrow> mem \<Rightarrow> mem" where
  "ip_setVersion i m = store8 i ((m i AND 0x0f) OR 0x40) m"

definition ip_setIHL :: "nat \<Rightarrow> u8 \<Rightarrow> mem \<Rightarrow> mem" where
  "ip_setIHL i len m = store8 i ((m i AND 0xf0) OR (len AND 0x0f)) m"

definition ip_setPayloadLength :: "nat \<Rightarrow> u16 \<Rightarrow> mem \<Rightarrow> mem" where
  "ip_setPayloadLength i len m = store16 (i + 2) (htons (ucast (ip_ihl i m) * 4 + len)) m"

definition ip_getPayloadLength :: "nat \<Rightarrow> mem \<Rightarrow> u16" where
  "ip_getPayloadLength i m = ntohs (load16 m (i + 2)) - ucast (ip_ihl i m) * 4"

text \<open>\<open>flags_fragmentation\<close> is promoted to \<open>int\<close> before the shift and the mask.\<close>

definition ip_fragmentation :: "nat \<Rightarrow> mem \<Rightarrow> u16" where
  "ip_fragmentation i m = load16 m (i + 6) AND 0x1fff"

definition ip_flags :: "nat \<Rightarrow> mem \<Rightarrow> u16" where
  "ip_flags i m = ucast (drop_bit 18 (ucast (load16 m (i + 6)) :: u32))"

definition ip_setTTL :: "nat \<Rightarrow> u8 \<Rightarrow> mem \<Rightarrow> mem" where
  "ip_setTTL i v m = store8 (i + 8) v m"

definition ip_proto :: "nat \<Rightarrow> mem \<Rightarrow> u8" where
  "ip_proto i m = m (i + 9)"

definition PROTO_ICMP :: u8 where "PROTO_ICMP = 1"
definition PROTO_TCP :: u8 where "PROTO_TCP = 6"
definition PROTO_UDP :: u8 where "PROTO_UDP = 17"

definition ip_setProtoICMP :: "nat \<Rightarrow> mem \<Rightarrow> mem" where
  "ip_setProtoICMP i m = store8 (i + 9) PROTO_ICMP m"

definition ip_setProtoTCP :: "nat \<Rightarrow> mem \<Rightarrow> mem" where
  "ip_setProtoTCP i m = store8 (i + 9) PROTO_TCP m"

definition ip_setProtoUDP :: "nat \<Rightarrow> mem \<Rightarrow> mem" where
  "ip_setProtoUDP i m = store8 (i + 9) PROTO_UDP m"

text \<open>The raw fields that the protocols assign directly.\<close>

definition ip_setChecksum :: "nat \<Rightarrow> u16 \<Rightarrow> mem \<Rightarrow> mem" where
  "ip_setChecksum i v m = store16 (i + 10) v m"

definition ip_setId :: "nat \<Rightarrow> u16 \<Rightarrow> mem \<Rightarrow> mem" where
  "ip_setId i v m = store16 (i + 4) v m"

definition ip_srcIP :: "nat \<Rightarrow> mem \<Rightarrow> u32" where "ip_srcIP i m = load32 m (i + 12)"
definition ip_dstIP :: "nat \<Rightarrow> mem \<Rightarrow> u32" where "ip_dstIP i m = load32 m (i + 16)"
definition ip_put_srcIP :: "nat \<Rightarrow> u32 \<Rightarrow> mem \<Rightarrow> mem" where "ip_put_srcIP i v = store32 (i + 12) v"
definition ip_put_dstIP :: "nat \<Rightarrow> u32 \<Rightarrow> mem \<Rightarrow> mem" where "ip_put_dstIP i v = store32 (i + 16) v"

definition ip_setSrcIP :: "nat \<Rightarrow> u32 \<Rightarrow> mem \<Rightarrow> mem" where
  "ip_setSrcIP i ip m = ip_put_srcIP i (htonl ip) m"

definition ip_setDstIP :: "nat \<Rightarrow> u32 \<Rightarrow> mem \<Rightarrow> mem" where
  "ip_setDstIP i ip m = ip_put_dstIP i (htonl ip) m"

definition ip_getSrcIP :: "nat \<Rightarrow> mem \<Rightarrow> u32" where
  "ip_getSrcIP i m = ntohl (ip_srcIP i m)"

definition ip_getDstIP :: "nat \<Rightarrow> mem \<Rightarrow> u32" where
  "ip_getDstIP i m = ntohl (ip_dstIP i m)"

definition ip_getPayload :: "nat \<Rightarrow> mem \<Rightarrow> nat" where
  "ip_getPayload i m = i + 4 * unat (ip_ihl i m)"

definition ip_setLength :: "nat \<Rightarrow> u16 \<Rightarrow> mem \<Rightarrow> mem" where
  "ip_setLength i len m = store16 (i + 2) (htons len) m"

definition ip_getLength :: "nat \<Rightarrow> mem \<Rightarrow> u16" where
  "ip_getLength i m = ntohs (load16 m (i + 2))"

text \<open>One round of the checksum loop: add a 16-bit word and fold the carry bit back.\<close>

definition cksum_add :: "u32 \<Rightarrow> u16 \<Rightarrow> u32" where
  "cksum_add result w =
    (let r = result + ucast w
     in if r AND push_bit 16 1 \<noteq> 0 then (r AND 0xffff) + 1 else r)"

definition ip_sum :: "nat \<Rightarrow> nat \<Rightarrow> mem \<Rightarrow> u32" where
  "ip_sum i n m = fold (\<lambda>k r. cksum_add r (ntohs (load16 m (i + 2 * k)))) [0..<n] 0"

definition ip_calcChecksum :: "nat \<Rightarrow> mem \<Rightarrow> mem" where
  "ip_calcChecksum i m =
    (let m1 = ip_setChecksum i 0 m;
         result = ip_sum i (unat (ip_ihl i m1) * 4) m1
     in ip_setChecksum i (htons (ucast (NOT result))) m1)"

section \<open>TCP\<close>

definition sizeof_Tcp :: nat where "sizeof_Tcp = 20"

definition tcp_getPayload :: "nat \<Rightarrow> nat" where
  "tcp_getPayload t = t + sizeof_Tcp"

definition tcp_setSrcPort :: "nat \<Rightarrow> u16 \<Rightarrow> mem \<Rightarrow> mem" where
  "tcp_setSrcPort t p m = store16 t (htons p) m"

definition tcp_setDstPort :: "nat \<Rightarrow> u16 \<Rightarrow> mem \<Rightarrow> mem" where
  "tcp_setDstPort t p m = store16 (t + 2) (htons p) m"

definition tcp_getSrcPort :: "nat \<Rightarrow> mem \<Rightarrow> u16" where
  "tcp_getSrcPort t m = ntohs (load16 m t)"

definition tcp_getDstPort :: "nat \<Rightarrow> mem \<Rightarrow> u16" where
  "tcp_getDstPort t m = ntohs (load16 m (t + 2))"

definition tcp_getSeq :: "nat \<Rightarrow> mem \<Rightarrow> u32" where "tcp_getSeq t m = ntohl (load32 m (t + 4))"
definition tcp_getAck :: "nat \<Rightarrow> mem \<Rightarrow> u32" where "tcp_getAck t m = ntohl (load32 m (t + 8))"
definition tcp_setSeq :: "nat \<Rightarrow> u32 \<Rightarrow> mem \<Rightarrow> mem" where "tcp_setSeq t s = store32 (t + 4) (htonl s)"
definition tcp_setAck :: "nat \<Rightarrow> u32 \<Rightarrow> mem \<Rightarrow> mem" where "tcp_setAck t a = store32 (t + 8) (htonl a)"

definition tcp_getWindow :: "nat \<Rightarrow> mem \<Rightarrow> u16" where
  "tcp_getWindow t m = ntohs (load16 m (t + 14))"

definition tcp_setWindow :: "nat \<Rightarrow> u16 \<Rightarrow> mem \<Rightarrow> mem" where
  "tcp_setWindow t w m = store16 (t + 14) (htons w) m"

definition tcp_clearFlags :: "nat \<Rightarrow> mem \<Rightarrow> mem" where "tcp_clearFlags t = store8 (t + 13) 0"

definition tcp_getFinFlag :: "nat \<Rightarrow> mem \<Rightarrow> bool" where "tcp_getFinFlag t m \<longleftrightarrow> m (t + 13) AND 0x1 \<noteq> 0"
definition tcp_getSynFlag :: "nat \<Rightarrow> mem \<Rightarrow> bool" where "tcp_getSynFlag t m \<longleftrightarrow> m (t + 13) AND 0x2 \<noteq> 0"
definition tcp_getRstFlag :: "nat \<Rightarrow> mem \<Rightarrow> bool" where "tcp_getRstFlag t m \<longleftrightarrow> m (t + 13) AND 0x4 \<noteq> 0"
definition tcp_getAckFlag :: "nat \<Rightarrow> mem \<Rightarrow> bool" where "tcp_getAckFlag t m \<longleftrightarrow> m (t + 13) AND 0x10 \<noteq> 0"

definition tcp_setFinFlag :: "nat \<Rightarrow> mem \<Rightarrow> mem" where "tcp_setFinFlag t m = store8 (t + 13) (m (t + 13) OR 0x1) m"
definition tcp_setSynFlag :: "nat \<Rightarrow> mem \<Rightarrow> mem" where "tcp_setSynFlag t m = store8 (t + 13) (m (t + 13) OR 0x2) m"
definition tcp_setRstFlag :: "nat \<Rightarrow> mem \<Rightarrow> mem" where "tcp_setRstFlag t m = store8 (t + 13) (m (t + 13) OR 0x4) m"
definition tcp_setAckFlag :: "nat \<Rightarrow> mem \<Rightarrow> mem" where "tcp_setAckFlag t m = store8 (t + 13) (m (t + 13) OR 0x10) m"

definition tcp_setOffset :: "nat \<Rightarrow> u8 \<Rightarrow> mem \<Rightarrow> mem" where
  "tcp_setOffset t offset m = store8 (t + 12) (push_bit 4 offset) m"

definition tcp_getHeaderLen :: "nat \<Rightarrow> mem \<Rightarrow> u8" where
  "tcp_getHeaderLen t m = drop_bit 4 (m (t + 12)) * 4"

section \<open>UDP\<close>

definition sizeof_Udp :: nat where "sizeof_Udp = 8"

definition udp_setSrcPort :: "nat \<Rightarrow> u16 \<Rightarrow> mem \<Rightarrow> mem" where
  "udp_setSrcPort u p m = store16 u (htons p) m"

definition udp_setDstPort :: "nat \<Rightarrow> u16 \<Rightarrow> mem \<Rightarrow> mem" where
  "udp_setDstPort u p m = store16 (u + 2) (htons p) m"

definition udp_getSrcPort :: "nat \<Rightarrow> mem \<Rightarrow> u16" where
  "udp_getSrcPort u m = ntohs (load16 m u)"

definition udp_getDstPort :: "nat \<Rightarrow> mem \<Rightarrow> u16" where
  "udp_getDstPort u m = ntohs (load16 m (u + 2))"

definition udp_getPayloadLength :: "nat \<Rightarrow> mem \<Rightarrow> u16" where
  "udp_getPayloadLength u m = ntohs (load16 m (u + 4)) - of_nat sizeof_Udp"

definition udp_setPayloadLength :: "nat \<Rightarrow> u16 \<Rightarrow> mem \<Rightarrow> mem" where
  "udp_setPayloadLength u l m = store16 (u + 4) (htons (l + of_nat sizeof_Udp)) m"

definition udp_getPayload :: "nat \<Rightarrow> nat" where
  "udp_getPayload u = u + sizeof_Udp"

definition udp_setChecksum :: "nat \<Rightarrow> u16 \<Rightarrow> mem \<Rightarrow> mem" where
  "udp_setChecksum u v m = store16 (u + 6) v m"

text \<open>The raw port fields.\<close>

definition udp_srcPort :: "nat \<Rightarrow> mem \<Rightarrow> u16" where "udp_srcPort u m = load16 m u"
definition udp_dstPort :: "nat \<Rightarrow> mem \<Rightarrow> u16" where "udp_dstPort u m = load16 m (u + 2)"
definition udp_put_srcPort :: "nat \<Rightarrow> u16 \<Rightarrow> mem \<Rightarrow> mem" where "udp_put_srcPort u v = store16 u v"
definition udp_put_dstPort :: "nat \<Rightarrow> u16 \<Rightarrow> mem \<Rightarrow> mem" where "udp_put_dstPort u v = store16 (u + 2) v"

section \<open>Lemmas on single fields\<close>

lemmas hdr_offsets = eth_getPayload_def sizeof_Ethernet_def sizeof_IPv4_def sizeof_Tcp_def
  sizeof_Udp_def udp_getPayload_def tcp_getPayload_def

lemmas ip_defs = ip_setVersion_def ip_setIHL_def ip_setPayloadLength_def ip_getPayloadLength_def
  ip_setTTL_def ip_proto_def ip_setProtoUDP_def ip_setProtoTCP_def ip_setProtoICMP_def
  ip_setChecksum_def ip_setId_def
  ip_srcIP_def ip_dstIP_def ip_put_srcIP_def ip_put_dstIP_def ip_setSrcIP_def ip_setDstIP_def
  ip_getSrcIP_def ip_getDstIP_def ip_setLength_def ip_getLength_def

lemmas udp_defs = udp_setSrcPort_def udp_setDstPort_def udp_getSrcPort_def udp_getDstPort_def
  udp_getPayloadLength_def udp_setPayloadLength_def udp_setChecksum_def udp_srcPort_def
  udp_dstPort_def udp_put_srcPort_def udp_put_dstPort_def

lemmas tcp_defs = tcp_setSrcPort_def tcp_setDstPort_def tcp_getSrcPort_def tcp_getDstPort_def
  tcp_getSeq_def tcp_getAck_def tcp_setSeq_def tcp_setAck_def tcp_getWindow_def tcp_setWindow_def

lemmas tcp_flag_defs = tcp_clearFlags_def tcp_getFinFlag_def tcp_getSynFlag_def tcp_getRstFlag_def
  tcp_getAckFlag_def tcp_setFinFlag_def tcp_setSynFlag_def tcp_setRstFlag_def tcp_setAckFlag_def

lemma ip_ihl_le: "unat (ip_ihl i m) \<le> 15"
proof -
  have "unat (m i AND 15) \<le> unat (15 :: u8)"
    by (rule word_and_le1 [THEN word_le_nat_alt [THEN iffD1]])
  then show ?thesis by (simp add: ip_ihl_def)
qed

lemma ihl_setIHL [simp]: "ip_ihl i (ip_setIHL i len m) = len AND 0x0f"
  by (rule bit_word_eqI) (auto simp: ip_ihl_def ip_setIHL_def store8_def bit_simps
      bit_numeral_rec nth_Cons' split: nat.splits)

lemma ihl_setVersion [simp]: "ip_ihl i (ip_setVersion i m) = ip_ihl i m"
  by (rule bit_word_eqI) (auto simp: ip_ihl_def ip_setVersion_def store8_def bit_simps
      bit_numeral_rec split: nat.splits)

lemma ip_ihl_cong: "m' i = m i \<Longrightarrow> ip_ihl i m' = ip_ihl i m"
  by (simp add: ip_ihl_def)

section \<open>The header checksum\<close>

text \<open>
  RFC 791: the 16-bit words of the header (\<open>2 * ihl\<close> of them), the checksum field included,
  add up to zero in one's complement arithmetic, that is modulo 65535.
\<close>

definition ip_word :: "nat \<Rightarrow> mem \<Rightarrow> nat \<Rightarrow> nat" where
  "ip_word i m k = unat (ntohs (load16 m (i + 2 * k)))"

definition rfc791_verifies :: "nat \<Rightarrow> mem \<Rightarrow> bool" where
  "rfc791_verifies i m \<longleftrightarrow> (\<Sum>k < 2 * unat (ip_ihl i m). ip_word i m k) mod 65535 = 0"

lemma bit16_iff:
  fixes x :: u32
  assumes "unat x < 2 ^ 17"
  shows "bit x 16 \<longleftrightarrow> 65536 \<le> unat x"
proof -
  have "bit x 16 \<longleftrightarrow> bit (unat x) 16" by (simp add: bit_unsigned_iff)
  also have "\<dots> \<longleftrightarrow> odd (unat x div 2 ^ 16)" by (rule bit_iff_odd)
  finally have "bit x 16 \<longleftrightarrow> odd (unat x div 2 ^ 16)" .
  moreover have "unat x div 2 ^ 16 = 0 \<or> unat x div 2 ^ 16 = 1" using assms by auto
  moreover have "unat x div 2 ^ 16 = 0 \<longleftrightarrow> unat x < 65536" by auto
  ultimately show ?thesis by auto
qed

lemma cksum_add_spec:
  assumes "unat r \<le> 65535"
  shows "unat (cksum_add r w) \<le> 65535 \<and>
         unat (cksum_add r w) mod 65535 = (unat r + unat w) mod 65535"
proof -
  have "unat w < 2 ^ LENGTH(16)" by (rule unsigned_less)
  then have w: "unat w < 65536" by simp
  have s: "unat (r + ucast w) = unat r + unat w"
    using assms w by (simp add: unat_word_ariths unsigned_ucast_eq take_bit_eq_mod)
  have b: "r + ucast w AND push_bit 16 1 \<noteq> 0 \<longleftrightarrow> 65536 \<le> unat r + unat w"
    unfolding bit_iff_and_push_bit_not_eq_0 [symmetric] using bit16_iff [of "r + ucast w"] s assms w by simp
  show ?thesis
  proof (cases "65536 \<le> unat r + unat w")
    case True
    have m: "unat (r + ucast w AND 0xffff) = unat r + unat w - 65536"
    proof -
      have "r + ucast w AND 0xffff = take_bit 16 (r + ucast w)"
        by (simp add: take_bit_eq_mask mask_numeral)
      then have "unat (r + ucast w AND 0xffff) = (unat r + unat w) mod 65536"
        using s by (simp add: take_bit_eq_mod unat_mod_distrib)
      then show ?thesis using True assms w by (simp add: mod_if)
    qed
    have "unat ((r + ucast w AND 0xffff) + 1) = unat r + unat w - 65535"
      using m True assms w by (simp add: unat_word_ariths)
    then show ?thesis using b True assms w by (simp add: cksum_add_def Let_def mod_if)
  next
    case False
    then show ?thesis using b s by (simp add: cksum_add_def Let_def)
  qed
qed

lemma ip_sum_spec:
  "unat (ip_sum i n m) \<le> 65535 \<and> unat (ip_sum i n m) mod 65535 = (\<Sum>k < n. ip_word i m k) mod 65535"
proof (induction n)
  case 0
  show ?case by (simp add: ip_sum_def)
next
  case (Suc n)
  have "ip_sum i (Suc n) m = cksum_add (ip_sum i n m) (ntohs (load16 m (i + 2 * n)))"
    by (simp add: ip_sum_def)
  with cksum_add_spec [of "ip_sum i n m" "ntohs (load16 m (i + 2 * n))"] Suc show ?case
    by (simp add: ip_word_def mod_add_left_eq [symmetric, of "unat (ip_sum i n m)"])
      (simp add: mod_add_left_eq)
qed

lemma unat_not_low:
  fixes r :: u32
  assumes "unat r \<le> 65535"
  shows "unat (ucast (NOT r) :: u16) = 65535 - unat r"
proof -
  have c: "unat (ucast r :: u16) = unat r"
    using assms by (simp add: unsigned_ucast_eq take_bit_eq_mod)
  have "ucast (NOT r) = NOT (ucast r :: u16)"
    by (rule bit_word_eqI) (simp add: bit_simps)
  then have "ucast (NOT r) = - 1 - (ucast r :: u16)"
    by (simp add: not_eq_complement)
  moreover have "unat (- 1 - (ucast r :: u16)) = unat (- 1 :: u16) - unat (ucast r :: u16)"
    by (rule unat_sub) simp
  moreover have "unat (- 1 :: u16) = 65535"
    by (simp add: unsigned_minus_1_eq_mask mask_eq_exp_minus_1)
  ultimately show ?thesis using c by simp
qed

lemma sum_update_one:
  fixes f g :: "nat \<Rightarrow> nat"
  assumes "j < n" and "\<And>k. k \<noteq> j \<Longrightarrow> g k = f k" and "f j = 0"
  shows "(\<Sum>k < n. g k) = (\<Sum>k < n. f k) + g j"
proof -
  have "sum f ({..<n} - {j}) = sum g ({..<n} - {j})" using assms(2) by (intro sum.cong) auto
  moreover have "(\<Sum>k < n. h k) = h j + sum h ({..<n} - {j})" for h :: "nat \<Rightarrow> nat"
    using assms(1) by (intro sum.remove) auto
  ultimately show ?thesis using assms(3) by simp
qed

lemma complement_mod_iff:
  fixes a r N :: nat
  assumes "r \<le> N"
  shows "(a + (N - r)) mod N = 0 \<longleftrightarrow> a mod N = r mod N"
proof -
  have "int (a + (N - r)) = (int a - int r) + int N" using assms by simp
  then have "(a + (N - r)) mod N = 0 \<longleftrightarrow> int N dvd (int a - int r) + int N"
    by (metis mod_eq_0_iff_dvd of_nat_dvd_iff)
  also have "\<dots> \<longleftrightarrow> int a mod int N = int r mod int N"
    by (simp add: mod_eq_dvd_iff)
  finally show ?thesis by (simp flip: of_nat_mod)
qed

lemma mod_add_self_iff:
  fixes a e N :: nat
  shows "a mod N = (a + e) mod N \<longleftrightarrow> e mod N = 0"
proof -
  have "a mod N = (a + e) mod N \<longleftrightarrow> int a mod int N = (int a + int e) mod int N"
    by (simp flip: of_nat_mod of_nat_add)
  also have "\<dots> \<longleftrightarrow> int N dvd int e" by (simp add: mod_eq_dvd_iff)
  finally show ?thesis by (simp add: mod_eq_0_iff_dvd)
qed

text \<open>The words that \<open>calcChecksum\<close> adds up after the last word of the header.\<close>

definition ip_excess :: "nat \<Rightarrow> mem \<Rightarrow> nat" where
  "ip_excess i m = (\<Sum>k = 2 * unat (ip_ihl i m)..<4 * unat (ip_ihl i m). ip_word i m k)"

lemma calcChecksum_words:
  assumes "k \<noteq> 5"
  shows "ip_word i (ip_setChecksum i v m) k = ip_word i m k"
proof -
  have "i + 10 + 2 \<le> i + 2 * k \<or> i + 2 * k + 2 \<le> i + 10" using assms by arith
  then show ?thesis unfolding ip_word_def ip_setChecksum_def by (simp only: load_store_other)
qed

lemma checksum_word: "ip_word i (ip_setChecksum i v m) 5 = unat (ntohs v)"
  by (simp add: ip_word_def ip_setChecksum_def)

lemma ihl_setChecksum [simp]: "ip_ihl i (ip_setChecksum i v m) = ip_ihl i m"
  by (rule ip_ihl_cong) (simp add: ip_setChecksum_def mem_simps)

text \<open>
  C40.  What \<open>IPv4::calcChecksum\<close> computes.  The loop runs over \<open>ihl * 4\<close> words of 16 bits,
  twice the header; the header it leaves behind passes the check of RFC 791 exactly when the
  words after the header add up to a multiple of 65535.
\<close>

theorem calcChecksum_verifies_iff:
  assumes ihl: "5 \<le> unat (ip_ihl i m)"
  shows "rfc791_verifies i (ip_calcChecksum i m) \<longleftrightarrow> ip_excess i m mod 65535 = 0"
proof -
  let ?n = "unat (ip_ihl i m)" and ?m1 = "ip_setChecksum i 0 m"
  let ?r = "ip_sum i (?n * 4) ?m1" and ?m2 = "ip_calcChecksum i m"
  have m2: "?m2 = ip_setChecksum i (htons (ucast (NOT ?r))) ?m1"
    by (simp add: ip_calcChecksum_def Let_def)
  have r: "unat ?r \<le> 65535" "unat ?r mod 65535 = (\<Sum>k < 4 * ?n. ip_word i ?m1 k) mod 65535"
    using ip_sum_spec [of i "?n * 4" ?m1] by (simp_all add: mult.commute)
  have c: "ip_word i ?m2 5 = 65535 - unat ?r"
    using unat_not_low [OF r(1)] by (simp add: m2 checksum_word)
  have zero: "ip_word i ?m1 5 = 0"
    by (simp add: checksum_word ntohs_def)
  have head: "(\<Sum>k < 2 * ?n. ip_word i ?m2 k) = (\<Sum>k < 2 * ?n. ip_word i ?m1 k) + (65535 - unat ?r)"
    using sum_update_one [of 5 "2 * ?n" "ip_word i ?m2" "ip_word i ?m1"] ihl zero c
    by (simp add: m2 calcChecksum_words)
  have tail: "ip_excess i m = (\<Sum>k = 2 * ?n..<4 * ?n. ip_word i ?m1 k)"
    unfolding ip_excess_def using ihl by (intro sum.cong) (auto simp: calcChecksum_words)
  have all: "(\<Sum>k < 4 * ?n. ip_word i ?m1 k) = (\<Sum>k < 2 * ?n. ip_word i ?m1 k) + ip_excess i m"
    unfolding tail lessThan_atLeast0 by (simp add: sum.atLeastLessThan_concat)
  have "rfc791_verifies i ?m2 \<longleftrightarrow>
      ((\<Sum>k < 2 * ?n. ip_word i ?m1 k) + (65535 - unat ?r)) mod 65535 = 0"
    using head by (simp add: rfc791_verifies_def m2)
  also have "\<dots> \<longleftrightarrow> (\<Sum>k < 2 * ?n. ip_word i ?m1 k) mod 65535 = unat ?r mod 65535"
    by (rule complement_mod_iff [OF r(1)])
  also have "\<dots> \<longleftrightarrow> ip_excess i m mod 65535 = 0"
    unfolding r(2) all by (rule mod_add_self_iff)
  finally show ?thesis .
qed

text \<open>A 20-byte header whose payload starts with the byte \<open>1\<close>: the stored checksum is wrong.\<close>

definition example_ip :: mem where
  "example_ip = (\<lambda>_. 0)(0 := 0x45, 20 := 1)"

theorem calcChecksum_verifies_iff_witness:
  "ip_excess 0 example_ip = 256 \<and> \<not> rfc791_verifies 0 (ip_calcChecksum 0 example_ip)"
proof -
  have ihl: "ip_ihl 0 example_ip = 5" by (simp add: ip_ihl_def example_ip_def)
  have "ip_word 0 example_ip k = (if k = 10 then 256 else 0)" if "10 \<le> k" for k
    using that by (auto simp: ip_word_def example_ip_def load16_def ntohs_def word_cat_eq)
  then have "ip_excess 0 example_ip = (\<Sum>k::nat = 10..<20. if k = 10 then 256 else 0)"
    unfolding ip_excess_def ihl by (intro sum.cong) auto
  then have e: "ip_excess 0 example_ip = 256" by simp
  with calcChecksum_verifies_iff [of 0 example_ip] ihl show ?thesis by simp
qed

section \<open>Setters and getters\<close>

lemma ip_setPayloadLength_ihl [simp]: "ip_ihl i (ip_setPayloadLength i len m) = ip_ihl i m"
  by (rule ip_ihl_cong) (simp add: ip_setPayloadLength_def mem_simps)

lemma ip_version_set: "ip_version i (ip_setIHL i n (ip_setVersion i m)) = ret 4"
proof -
  have "drop_bit 4 (ip_setIHL i n (ip_setVersion i m) i AND 0xf0) = 4"
    by (rule bit_word_eqI)
      (auto simp: ip_setIHL_def ip_setVersion_def store8_def bit_simps bit_numeral_rec
        less_Suc_eq numeral_eq_Suc)
  then show ?thesis by (simp add: ip_version_def)
qed

lemma ip_payload_length_set: "ip_getPayloadLength i (ip_setPayloadLength i l m) = l"
  by (simp add: ip_getPayloadLength_def) (simp add: ip_defs)

text \<open>
  Every IPv4 setter is read back by its getter: addresses, total length and protocol; the
  payload length is read back for every 16-bit value and every header length (the addition and
  the subtraction of \<open>4 * ihl\<close> wrap around together); and \<open>setVersion\<close> and \<open>setIHL\<close> write
  one nibble each, so neither disturbs the other.
\<close>

theorem ip_setters_read_back:
  "ip_getSrcIP i (ip_setSrcIP i a m) = a \<and> ip_getDstIP i (ip_setDstIP i a m) = a \<and>
   ip_getLength i (ip_setLength i l m) = l \<and>
   ip_getPayloadLength i (ip_setPayloadLength i l m) = l \<and>
   ip_proto i (ip_setProtoUDP i m) = PROTO_UDP \<and> ip_proto i (ip_setProtoTCP i m) = PROTO_TCP \<and>
   ip_ihl i (ip_setVersion i (ip_setIHL i n m)) = n AND 0x0f \<and>
   ip_version i (ip_setIHL i n (ip_setVersion i m)) = ret 4"
  by (simp add: ip_version_set ip_payload_length_set) (simp add: ip_defs store8_def)

text \<open>
  \<open>IPv4::flags()\<close> is 0 for every packet: it shifts the 16-bit field by 18 places.
\<close>

theorem ip_flags_always_zero: "ip_flags i m = 0"
proof -
  have "drop_bit 18 (ucast w :: u32) = 0" for w :: u16
    by (rule bit_word_eqI) (auto simp: bit_simps dest: bit_imp_le_length)
  then show ?thesis by (simp add: ip_flags_def)
qed

lemma tcp_setters_read_back:
  "tcp_getSrcPort t (tcp_setSrcPort t p m) = p" "tcp_getDstPort t (tcp_setDstPort t p m) = p"
  "tcp_getSeq t (tcp_setSeq t s m) = s" "tcp_getAck t (tcp_setAck t s m) = s"
  "tcp_getWindow t (tcp_setWindow t p m) = p"
  by (simp_all add: tcp_defs)

lemma tcp_offset_5: "tcp_getHeaderLen t (tcp_setOffset t 5 m) = 20"
  by (simp add: tcp_getHeaderLen_def tcp_setOffset_def store8_def)

lemma udp_setters_read_back:
  "udp_getSrcPort u (udp_setSrcPort u p m) = p" "udp_getDstPort u (udp_setDstPort u p m) = p"
  "udp_getPayloadLength u (udp_setPayloadLength u l m) = l"
  by (simp_all add: udp_defs)

end
