(* ===== verification/Common_Types.thy ===== *)
theory Common_Types
  imports Memory
begin

text \<open>
  The 48-bit and 24-bit integers of \<open>include/common.hpp\<close>: arrays of six and three bytes with a
  \<open>set\<close> from and a \<open>get\<close> to an ordinary integer.  The array is a list of bytes.
\<close>

type_synonym StateID = u16

definition uint48_set :: "u64 \<Rightarrow> u8 list res" where
  "uint48_set val =
    rbind (rassert (drop_bit 48 val = 0))
      (\<lambda>_. ret [ucast (val AND 0xff), ucast (drop_bit 8 val AND 0xff), ucast (drop_bit 16 val AND 0xff),
           ucast (drop_bit 24 val AND 0xff), ucast (drop_bit 32 val AND 0xff),
           ucast (drop_bit 40 val AND 0xff)])"

definition uint48_get :: "u8 list \<Rightarrow> u64" where
  "uint48_get arr =
    (let val = 0; val = val OR ucast (arr ! 0); val = push_bit 8 val;
         val = val OR ucast (arr ! 1); val = push_bit 8 val;
         val = val OR ucast (arr ! 2); val = push_bit 8 val;
         val = val OR ucast (arr ! 3); val = push_bit 8 val;
         val = val OR ucast (arr ! 4); val = push_bit 8 val;
         val = val OR ucast (arr ! 5)
     in val)"

definition uint24_set :: "u32 \<Rightarrow> u8 list res" where
  "uint24_set val =
    rbind (rassert (drop_bit 24 val = 0))
      (\<lambda>_. ret [ucast (val AND 0xff), ucast (drop_bit 8 val AND 0xff), ucast (drop_bit 16 val AND 0xff)])"

definition uint24_get :: "u8 list \<Rightarrow> u32" where
  "uint24_get arr =
    (let val = 0; val = val OR ucast (arr ! 0); val = push_bit 8 val;
         val = val OR ucast (arr ! 1); val = push_bit 8 val;
         val = val OR ucast (arr ! 2)
     in val)"

text \<open>The value of a byte list, least significant byte first.\<close>

fun le_value :: "u8 list \<Rightarrow> nat" where
  "le_value [] = 0"
| "le_value (b # bs) = unat b + 256 * le_value bs"

lemma unat_byte: "unat (ucast (w AND 0xff) :: u8) = unat w mod 256" for w :: "'a::len word"
proof -
  have "ucast (w AND 0xff) = (ucast w :: u8)"
    by (rule bit_word_eqI) (auto simp: bit_simps bit_numeral_rec less_Suc_eq numeral_eq_Suc dest: bit_imp_le_length)
  then show ?thesis by (simp add: unsigned_ucast_eq take_bit_eq_mod)
qed

lemma unat_drop: "unat (drop_bit n w) = unat w div 2 ^ n" for w :: "'a::len word"
  unfolding unat_drop_bit_eq by (rule drop_bit_eq_div)

lemma unat_shift_or:
  fixes v :: "'a::len word" and b :: u8
  assumes "unat v < 2 ^ n" and "n + 8 \<le> LENGTH('a)"
  shows "unat (push_bit 8 v OR ucast b) = 256 * unat v + unat b"
    and "unat (push_bit 8 v OR ucast b) < 2 ^ (n + 8)"
proof -
  note b = unat_u8_less [of b]
  have le: "(2::nat) ^ (n + 8) \<le> 2 ^ LENGTH('a)" using assms(2) by (intro power_increasing) auto
  have lt: "256 * unat v + unat b < 2 ^ (n + 8)" using assms(1) b by (simp add: power_add)
  have "push_bit 8 v OR ucast b = push_bit 8 v + ucast b"
    by (rule disjunctive_add_eq_or [symmetric])
      (rule bit_word_eqI, auto simp: bit_simps dest: bit_imp_le_length)
  moreover have "unat (ucast b :: 'a word) = unat b"
    using assms(2) by (simp add: unat_ucast_up)
  moreover have "unat (push_bit 8 v) = 256 * unat v"
  proof -
    have "256 * unat v < 2 ^ LENGTH('a)" using lt le by linarith
    then show ?thesis
      unfolding unsigned_push_bit_eq by (simp add: push_bit_eq_mult take_bit_eq_mod mult.commute)
  qed
  moreover have "256 * unat v + unat b < 2 ^ LENGTH('a)" using lt le by linarith
  ultimately show "unat (push_bit 8 v OR ucast b) = 256 * unat v + unat b"
    by (simp only: unat_word_ariths mod_less)
  with lt show "unat (push_bit 8 v OR ucast b) < 2 ^ (n + 8)" by simp
qed

lemma uint24_get_value:
  assumes "length arr = 3"
  shows "unat (uint24_get arr) = le_value (rev arr)"
proof -
  obtain a b c where arr: "arr = [a, b, c]" using assms by (auto simp: length_Suc_conv numeral_3_eq_3)
  note s = unat_shift_or [where 'a = 32]
  have a: "unat (ucast a :: u32) = unat a" and a8: "unat a < 2 ^ 8"
    using unat_u8_less [of a] by (simp_all add: unat_ucast_up)
  have 1: "unat (ucast a :: u32) < 2 ^ 8" using a a8 by simp
  note 2 = s [OF 1, of b] note 3 = s [OF 2(2), of c]
  show ?thesis using a 2 3 by (simp add: arr uint24_get_def)
qed

lemma uint48_get_value:
  assumes "length arr = 6"
  shows "unat (uint48_get arr) = le_value (rev arr)"
proof -
  obtain a b c d e f where arr: "arr = [a, b, c, d, e, f]"
    using assms by (auto simp: length_Suc_conv numeral_eq_Suc)
  note s = unat_shift_or [where 'a = 64]
  have a: "unat (ucast a :: u64) = unat a" and a8: "unat a < 2 ^ 8"
    using unat_u8_less [of a] by (simp_all add: unat_ucast_up)
  have 1: "unat (ucast a :: u64) < 2 ^ 8" using a a8 by simp
  note 2 = s [OF 1, of b] note 3 = s [OF 2(2), of c] note 4 = s [OF 3(2), of d]
  note 5 = s [OF 4(2), of e] note 6 = s [OF 5(2), of f]
  show ?thesis using a 2 3 4 5 6 by (simp add: arr uint48_get_def)
qed

lemma small_drop: "drop_bit n w = 0 \<longleftrightarrow> unat w < 2 ^ n" for w :: "'a::len word"
proof -
  have "drop_bit n w = 0 \<longleftrightarrow> unat (drop_bit n w) = 0" by (simp only: unsigned_eq_0_iff)
  then show ?thesis unfolding unat_drop by (simp add: div_eq_0_iff)
qed

lemma digit_step: "x div 2 ^ n mod 256 + 256 * (x div 2 ^ (n + 8)) = x div 2 ^ n" for x :: nat
  by (simp add: power_add div_mult2_eq)

lemma six_digits:
  fixes x a b c d e m :: nat
  assumes "x mod m + m * a = x" "a mod m + m * b = a" "b mod m + m * c = b"
    "c mod m + m * d = c" "d mod m + m * e = d"
  shows "x mod m + m * (a mod m + m * (b mod m + m * (c mod m + m * (d mod m + m * e)))) = x"
  using assms by simp

lemma uint48_set_value:
  assumes "uint48_set v = ret arr"
  shows "length arr = 6 \<and> le_value arr = unat v"
proof -
  have v: "unat v < 2 ^ 48" using assms by (simp add: uint48_set_def rbind_eq_ret small_drop)
  have "arr = [ucast (v AND 0xff), ucast (drop_bit 8 v AND 0xff), ucast (drop_bit 16 v AND 0xff),
      ucast (drop_bit 24 v AND 0xff), ucast (drop_bit 32 v AND 0xff), ucast (drop_bit 40 v AND 0xff)]"
    using assms by (simp add: uint48_set_def rbind_eq_ret)
  then have "length arr = 6" and "le_value arr = unat v mod 256 + 256 * (unat v div 2 ^ 8 mod 256
      + 256 * (unat v div 2 ^ 16 mod 256 + 256 * (unat v div 2 ^ 24 mod 256
      + 256 * (unat v div 2 ^ 32 mod 256 + 256 * (unat v div 2 ^ 40 mod 256)))))"
    by (simp_all only: le_value.simps unat_byte unat_drop length_Cons list.size) simp_all
  moreover have "unat v div 2 ^ 40 mod 256 = unat v div 2 ^ 40" using v by simp
  ultimately show ?thesis
    using six_digits [of "unat v" 256 "unat v div 2 ^ 8" "unat v div 2 ^ 16" "unat v div 2 ^ 24"
        "unat v div 2 ^ 32" "unat v div 2 ^ 40"] digit_step [of "unat v" 0]
      digit_step [of "unat v" 8] digit_step [of "unat v" 16] digit_step [of "unat v" 24]
      digit_step [of "unat v" 32]
    by (simp only: add_0 power_0 div_by_1 numeral_plus_numeral add_num_simps)
qed

text \<open>
  \<open>uint48::set\<close> stores the least significant byte first and \<open>uint48::get\<close> reads the most
  significant byte first.  So \<open>get\<close> after \<open>set\<close> returns the value with its six bytes in
  reverse order, not the value itself.
\<close>

theorem uint48_get_reverses:
  assumes "uint48_set v = ret arr"
  shows "unat v = le_value arr \<and> unat (uint48_get arr) = le_value (rev arr)"
  using uint48_set_value [OF assms] uint48_get_value [of arr] by simp

theorem uint48_get_reverses_witness:
  "\<exists>arr. uint48_set 1 = ret arr \<and> uint48_get arr = 0x010000000000"
proof -
  have s: "uint48_set 1 = ret [1, 0, 0, 0, 0, 0]" by (simp add: uint48_set_def)
  have "unat (uint48_get [1, 0, 0, 0, 0, 0]) = 0x010000000000"
    using uint48_get_reverses [OF s] by simp
  then have "uint48_get [1, 0, 0, 0, 0, 0] = 0x010000000000" by (simp add: word_unat_eq_iff)
  with s show ?thesis by blast
qed

end
