(* ===== verification/Ident.thy ===== *)
theory Ident
  imports Headers Common_Types
begin

text \<open>
  The packet identifier \<open>IPv4_5TupleL2Ident\<close>: the connection a packet belongs to is its IPv4
  five-tuple.  The identifier reads the raw header fields, so a \<open>ConnectionID\<close> holds addresses
  and ports in network byte order.  The keyed hash \<open>crypto_shorthash\<close> of libsodium is a
  parameter of \<open>Hasher\<close>.

  The state machine needs two laws of any identifier, which the locale \<open>packet_ident\<close> states: the
  two reserved keys of the connection table are different, and no packet is identified as one
  of them.  The interpretation \<open>five_tuple\<close> discharges them for this identifier.
\<close>

record ConnectionID =
  dstIP :: u32
  srcIP :: u32
  dstPort :: u16
  srcPort :: u16
  proto :: u8

definition cid_eq :: "ConnectionID \<Rightarrow> ConnectionID \<Rightarrow> bool" where
  "cid_eq a c \<longleftrightarrow> dstIP a = dstIP c \<and> srcIP a = srcIP c \<and> dstPort a = dstPort c \<and>
     srcPort a = srcPort c \<and> proto a = proto c"

definition new_ConnectionID :: ConnectionID where
  "new_ConnectionID = \<lparr>dstIP = 0, srcIP = 0, dstPort = 0, srcPort = 0, proto = 0\<rparr>"

text \<open>The bytes of the packed structure that is hashed.\<close>

definition hash_mem :: "ConnectionID \<Rightarrow> mem" where
  "hash_mem c = store8 12 (proto c) (store16 10 (dstPort c) (store16 8 (srcPort c)
       (store32 4 (dstIP c) (store32 0 (srcIP c) (\<lambda>_. 0)))))"

definition hashContent :: "ConnectionID \<Rightarrow> u8 list" where
  "hashContent c = load_bytes 0 13 (hash_mem c)"

definition crypto_shorthash_KEYBYTES :: nat where "crypto_shorthash_KEYBYTES = 16"

definition Hasher :: "(u8 list \<Rightarrow> u8 list \<Rightarrow> u64) \<Rightarrow> ConnectionID \<Rightarrow> u64" where
  "Hasher shorthash c = shorthash (hashContent c) (replicate crypto_shorthash_KEYBYTES 0)"

definition cid_less :: "(u8 list \<Rightarrow> u8 list \<Rightarrow> u64) \<Rightarrow> ConnectionID \<Rightarrow> ConnectionID \<Rightarrow> bool" where
  "cid_less shorthash a c \<longleftrightarrow> Hasher shorthash a < Hasher shorthash c"

text \<open>\<open>None\<close> is the exception \<open>PacketNotIdentified\<close>.\<close>

definition identify :: "mem \<Rightarrow> ConnectionID option" where
  "identify pkt =
    (let ip = 14; id = new_ConnectionID;
         id = id\<lparr>dstIP := ip_dstIP ip pkt\<rparr>;
         id = id\<lparr>srcIP := ip_srcIP ip pkt\<rparr>;
         id = id\<lparr>proto := ip_proto ip pkt\<rparr>
     in if proto id = 17 then
          let udp = ip_getPayload ip pkt
          in Some (id\<lparr>dstPort := udp_dstPort udp pkt, srcPort := udp_srcPort udp pkt\<rparr>)
        else if proto id = 6 then
          let tcp = ip_getPayload ip pkt
          in Some (id\<lparr>dstPort := load16 pkt (tcp + 2), srcPort := load16 pkt tcp\<rparr>)
        else None)"

definition getDelKey :: ConnectionID where
  "getDelKey = new_ConnectionID\<lparr>dstIP := 0, srcIP := 0, dstPort := 0, srcPort := 0, proto := 253\<rparr>"

definition getEmptyKey :: ConnectionID where
  "getEmptyKey = new_ConnectionID\<lparr>dstIP := 0, srcIP := 0, dstPort := 0, srcPort := 0, proto := 254\<rparr>"

section \<open>Identity and hash\<close>

lemma cid_eq_iff: "cid_eq a c \<longleftrightarrow> a = c"
  by (auto simp: cid_eq_def intro: ConnectionID.equality)

lemma hash_mem_fields:
  "load32 (hash_mem c) 0 = srcIP c" "load32 (hash_mem c) 4 = dstIP c"
  "load16 (hash_mem c) 8 = srcPort c" "load16 (hash_mem c) 10 = dstPort c" "hash_mem c 12 = proto c"
  by (simp_all add: hash_mem_def mem_simps)

lemma load_bytes_eqD:
  assumes "load_bytes a n m = load_bytes a n m'" and "a \<le> i" and "i < a + n"
  shows "m i = m' i"
proof -
  have "i - a < n" using assms(2,3) by linarith
  then show ?thesis
    using arg_cong [OF assms(1), of "\<lambda>bs. bs ! (i - a)"] assms(2) by (simp add: load_bytes_def)
qed

lemma hashContent_inj:
  assumes "hashContent a = hashContent c"
  shows "a = c"
proof -
  have b: "hash_mem a i = hash_mem c i" if "i < 13" for i
    using load_bytes_eqD [of 0 13 "hash_mem a" "hash_mem c" i] assms that by (simp add: hashContent_def)
  have "load32 (hash_mem a) 0 = load32 (hash_mem c) 0" "load32 (hash_mem a) 4 = load32 (hash_mem c) 4"
    "load16 (hash_mem a) 8 = load16 (hash_mem c) 8" "load16 (hash_mem a) 10 = load16 (hash_mem c) 10"
    by (rule load_cong; simp add: b)+
  with b [of 12] show ?thesis by (intro ConnectionID.equality) (simp_all add: hash_mem_fields)
qed

text \<open>
  Two five-tuples are equal under \<open>operator==\<close> exactly when the 13 bytes that are hashed
  are equal, so every field takes part in the hash; and \<open>operator<\<close>, which compares hash
  values only, never holds between equal five-tuples.
\<close>

theorem hash_covers_identity:
  "(cid_eq a c \<longleftrightarrow> hashContent a = hashContent c) \<and> length (hashContent a) = 13 \<and>
   \<not> (cid_eq a c \<and> cid_less h a c)"
  by (auto simp: cid_eq_iff cid_less_def dest: hashContent_inj) (simp add: hashContent_def)

section \<open>The reserved keys\<close>

lemma identify_proto: "identify m = Some k \<Longrightarrow> proto k = 17 \<or> proto k = 6"
  by (auto simp: identify_def Let_def split: if_splits)

lemma identify_udp:
  assumes "ip_proto 14 m = PROTO_UDP" and "ip_getPayload 14 m = 34"
  shows "identify m = Some \<lparr>dstIP = load32 m 30, srcIP = load32 m 26, dstPort = load16 m 36, srcPort = load16 m 34, proto = 17\<rparr>"
  using assms by (simp add: identify_def Let_def new_ConnectionID_def PROTO_UDP_def ip_dstIP_def ip_srcIP_def
      udp_dstPort_def udp_srcPort_def)

locale packet_ident =
  fixes ident :: "'pkt \<Rightarrow> 'id option" and del_key :: 'id and empty_key :: 'id
  assumes keys_distinct: "del_key \<noteq> empty_key"
    and ident_not_del: "ident p \<noteq> Some del_key"
    and ident_not_empty: "ident p \<noteq> Some empty_key"
begin

definition key_ok :: "'id \<Rightarrow> bool" where
  "key_ok k \<longleftrightarrow> k \<noteq> del_key \<and> k \<noteq> empty_key"

lemma identified_key_ok: "ident p = Some k \<Longrightarrow> key_ok k"
  using ident_not_del [of p] ident_not_empty [of p] by (auto simp: key_ok_def)

end

interpretation five_tuple: packet_ident identify getDelKey getEmptyKey
  by unfold_locales
    (auto simp: getDelKey_def getEmptyKey_def new_ConnectionID_def dest: identify_proto)

text \<open>
  The five-tuple identifier identifies exactly the UDP and TCP packets, and never as one
  of the two keys that the connection table reserves for deleted and empty slots.
\<close>

theorem identify_avoids_reserved_keys:
  "(identify m = None \<longleftrightarrow> ip_proto 14 m \<noteq> PROTO_UDP \<and> ip_proto 14 m \<noteq> PROTO_TCP) \<and>
   identify m \<noteq> Some getDelKey \<and> identify m \<noteq> Some getEmptyKey \<and> getDelKey \<noteq> getEmptyKey"
  using five_tuple.keys_distinct five_tuple.ident_not_del [of m] five_tuple.ident_not_empty [of m]
  by (auto simp: identify_def Let_def PROTO_UDP_def PROTO_TCP_def new_ConnectionID_def)

section \<open>Replies\<close>

text \<open>The five-tuple of the opposite direction.\<close>

definition cid_mirror :: "ConnectionID \<Rightarrow> ConnectionID" where
  "cid_mirror c = c\<lparr>dstIP := srcIP c, srcIP := dstIP c, dstPort := srcPort c, srcPort := dstPort c\<rparr>"

lemma cid_mirror_mirror [simp]: "cid_mirror (cid_mirror c) = c"
  by (simp add: cid_mirror_def)

end
