(* ===== verification/Hash_Map.thy ===== *)
theory Hash_Map
  imports Prelude "HOL-Library.AList"
begin

text \<open>
  The interface of the two hash maps the state machine keeps its connections in:
  \<open>google::dense_hash_map\<close> (one per state machine) and \<open>tbb::concurrent_hash_map\<close> (the
  connection pool).  Both are third-party templates, so a map is a parameter: its operations
  are a \<open>map_ops\<close> record and the locale \<open>hash_map\<close> states the documented laws the code relies
  on.  \<open>insert\<close> leaves an entry that is already there alone.  \<open>key_ok\<close> singles out the keys a
  map accepts: a dense map reserves two keys, the concurrent map none.  The interpretation
  \<open>alist\<close> shows the laws on association lists, which the examples run on.
\<close>

record ('m, 'k, 'v) map_ops =
  hm_empty :: 'm
  hm_find :: "'m \<Rightarrow> 'k \<Rightarrow> 'v option"
  hm_insert :: "'k \<Rightarrow> 'v \<Rightarrow> 'm \<Rightarrow> 'm"
  hm_set :: "'k \<Rightarrow> 'v \<Rightarrow> 'm \<Rightarrow> 'm"      \<comment> \<open>assignment through an iterator to the entry of the key\<close>
  hm_erase :: "'k \<Rightarrow> 'm \<Rightarrow> 'm"
  hm_size :: "'m \<Rightarrow> nat"

locale hash_map =
  fixes ops :: "('m, 'k, 'v) map_ops" and inv :: "'m \<Rightarrow> bool" and key_ok :: "'k \<Rightarrow> bool"
  assumes find_empty: "inv (hm_empty ops) \<and> hm_find ops (hm_empty ops) = Map.empty"
    and find_insert: "\<lbrakk>inv m; key_ok k\<rbrakk> \<Longrightarrow> inv (hm_insert ops k v m) \<and>
      hm_find ops (hm_insert ops k v m) =
        (if hm_find ops m k = None then (hm_find ops m)(k \<mapsto> v) else hm_find ops m)"
    and find_set: "\<lbrakk>inv m; hm_find ops m k \<noteq> None\<rbrakk> \<Longrightarrow>
      inv (hm_set ops k v m) \<and> hm_find ops (hm_set ops k v m) = (hm_find ops m)(k \<mapsto> v)"
    and find_erase: "\<lbrakk>inv m; key_ok k\<rbrakk> \<Longrightarrow>
      inv (hm_erase ops k m) \<and> hm_find ops (hm_erase ops k m) = (hm_find ops m)(k := None)"
    and keys_ok: "\<lbrakk>inv m; hm_find ops m k = Some v\<rbrakk> \<Longrightarrow> key_ok k"
    and find_finite: "inv m \<Longrightarrow> finite (dom (hm_find ops m))"
    and size_card: "inv m \<Longrightarrow> hm_size ops m = card (dom (hm_find ops m))"
begin

lemma size_insert:
  assumes "inv m" and "key_ok k"
  shows "hm_size ops (hm_insert ops k v m) =
    (if hm_find ops m k = None then Suc (hm_size ops m) else hm_size ops m)"
  using find_insert [OF assms, of v] find_finite [OF assms(1)] assms(1)
  by (auto simp: size_card domIff)

lemma size_set:
  assumes "inv m" and "hm_find ops m k \<noteq> None"
  shows "hm_size ops (hm_set ops k v m) = hm_size ops m"
proof -
  have "insert k (dom (hm_find ops m)) = dom (hm_find ops m)" using assms(2) by (auto simp: domIff)
  then show ?thesis using find_set [OF assms, of v] assms(1) by (simp add: size_card)
qed

lemma size_erase:
  assumes "inv m" and "hm_find ops m k \<noteq> None"
  shows "hm_size ops m = Suc (hm_size ops (hm_erase ops k m))"
proof -
  have k: "key_ok k" using keys_ok assms by blast
  have "k \<in> dom (hm_find ops m)" using assms(2) by (simp add: domIff)
  then have "card (dom (hm_find ops m)) = Suc (card (dom (hm_find ops m) - {k}))"
    using find_finite [OF assms(1)] by (metis card_Suc_Diff1)
  then show ?thesis using find_erase [OF assms(1) k] assms(1) by (simp add: size_card)
qed

end

section \<open>Association lists\<close>

definition alist_ops :: "(('k \<times> 'v) list, 'k, 'v) map_ops" where
  "alist_ops = \<lparr>hm_empty = [], hm_find = map_of,
     hm_insert = \<lambda>k v m. if map_of m k = None then (k, v) # m else m,
     hm_set = AList.update, hm_erase = AList.delete, hm_size = length\<rparr>"

definition alist_inv :: "('k \<Rightarrow> bool) \<Rightarrow> ('k \<times> 'v) list \<Rightarrow> bool" where
  "alist_inv ok m \<longleftrightarrow> distinct (map fst m) \<and> (\<forall>k \<in> set (map fst m). ok k)"

interpretation alist: hash_map alist_ops "alist_inv ok" ok for ok
proof
  fix m :: "('a \<times> 'b) list" and k v
  show "alist_inv ok (hm_empty alist_ops) \<and> hm_find alist_ops (hm_empty alist_ops) = Map.empty"
    by (simp add: alist_ops_def alist_inv_def)
  { assume "alist_inv ok m" "ok k"
    then show "alist_inv ok (hm_insert alist_ops k v m) \<and> hm_find alist_ops (hm_insert alist_ops k v m) =
        (if hm_find alist_ops m k = None then (hm_find alist_ops m)(k \<mapsto> v) else hm_find alist_ops m)"
      by (auto simp: alist_ops_def alist_inv_def map_of_eq_None_iff) }
  { assume "alist_inv ok m" "hm_find alist_ops m k \<noteq> None"
    then show "alist_inv ok (hm_set alist_ops k v m) \<and>
        hm_find alist_ops (hm_set alist_ops k v m) = (hm_find alist_ops m)(k \<mapsto> v)"
      by (auto simp: alist_ops_def alist_inv_def update_conv' distinct_update dom_update
          dest!: map_of_SomeD) }
  { assume "alist_inv ok m" "ok k"
    then show "alist_inv ok (hm_erase alist_ops k m) \<and>
        hm_find alist_ops (hm_erase alist_ops k m) = (hm_find alist_ops m)(k := None)"
      by (auto simp: alist_ops_def alist_inv_def delete_conv' delete_keys distinct_removeAll
          simp del: set_map) }
  { assume "alist_inv ok m" "hm_find alist_ops m k = Some v"
    then show "ok k" by (auto simp: alist_ops_def alist_inv_def dest!: map_of_SomeD) }
  { assume "alist_inv ok m"
    then show "finite (dom (hm_find alist_ops m))" by (simp add: alist_ops_def finite_dom_map_of) }
  { assume "alist_inv ok m"
    then show "hm_size alist_ops m = card (dom (hm_find alist_ops m))"
      using distinct_card [of "map fst m"]
      by (simp add: alist_ops_def alist_inv_def dom_map_of_conv_image_fst) }
qed

end
