(* ===== verification/Timers.thy ===== *)
theory Timers
  imports Prelude "HOL-Library.Multiset"
begin

text \<open>
  The timeout queue of the state machine: \<open>struct Timeout\<close>, its comparator and the
  \<open>std::priority_queue\<close> built from it.  The standard fixes which element \<open>top\<close> returns only up
  to the order, so the model keeps the queue as a list sorted by the comparator and the proofs
  use nothing but the laws of the locale \<open>priority_queue\<close>.
\<close>

record Timeout =
  t_time :: int        \<comment> \<open>a \<open>steady_clock\<close> time point, in nanoseconds\<close>
  t_timeoutID :: u32

definition Compare :: "Timeout \<Rightarrow> Timeout \<Rightarrow> bool" where
  "Compare a b \<longleftrightarrow> t_time a < t_time b"

text \<open>\<open>std::priority_queue\<close> over a comparator \<open>lt\<close>: the top is an element no other is above.\<close>

primrec pq_push :: "('a \<Rightarrow> 'a \<Rightarrow> bool) \<Rightarrow> 'a \<Rightarrow> 'a list \<Rightarrow> 'a list" where
  "pq_push lt x [] = [x]"
| "pq_push lt x (y # q) = (if lt x y then y # pq_push lt x q else x # y # q)"

definition pq_top :: "'a list \<Rightarrow> 'a option" where
  "pq_top q = (case q of [] \<Rightarrow> None | x # _ \<Rightarrow> Some x)"

definition pq_pop :: "'a list \<Rightarrow> 'a list" where
  "pq_pop q = tl q"

definition pq_inv :: "('a \<Rightarrow> 'a \<Rightarrow> bool) \<Rightarrow> 'a list \<Rightarrow> bool" where
  "pq_inv lt q \<longleftrightarrow> sorted_wrt (\<lambda>a b. \<not> lt a b) q"

locale priority_queue =
  fixes lt :: "'a \<Rightarrow> 'a \<Rightarrow> bool" and inv :: "'q \<Rightarrow> bool" and elems :: "'q \<Rightarrow> 'a multiset"
    and push :: "'a \<Rightarrow> 'q \<Rightarrow> 'q" and top :: "'q \<Rightarrow> 'a option" and pop :: "'q \<Rightarrow> 'q"
  assumes push: "inv q \<Longrightarrow> inv (push x q) \<and> elems (push x q) = add_mset x (elems q)"
    and top_None: "top q = None \<longleftrightarrow> elems q = {#}"
    and top_mem: "top q = Some x \<Longrightarrow> x \<in># elems q"
    and top_max: "\<lbrakk>inv q; top q = Some x; y \<in># elems q\<rbrakk> \<Longrightarrow> \<not> lt x y"
    and pop: "\<lbrakk>inv q; top q = Some x\<rbrakk> \<Longrightarrow> inv (pop q) \<and> add_mset x (elems (pop q)) = elems q"
begin

text \<open>If a queue holds an element above \<open>b\<close>, the top of the queue is not below it.\<close>

lemma top_above:
  assumes "inv q" and "y \<in># elems q"
  shows "\<exists>x. top q = Some x \<and> \<not> lt x y"
proof (cases "top q")
  case None
  with assms(2) show ?thesis by (simp add: top_None)
next
  case (Some x)
  with top_max [OF assms(1) this assms(2)] show ?thesis by blast
qed

lemma pop_size: "\<lbrakk>inv q; top q = Some x\<rbrakk> \<Longrightarrow> size (elems q) = Suc (size (elems (pop q)))"
  using pop [of q x] by (metis size_add_mset)

end

lemma pq_push_set: "set (pq_push lt x q) = insert x (set q)"
  by (induction q) auto

lemma pq_push_inv:
  assumes "pq_inv Compare q"
  shows "pq_inv Compare (pq_push Compare x q)"
  using assms by (induction q) (auto simp: pq_inv_def pq_push_set Compare_def)

lemma pq_push_mset: "mset (pq_push lt x q) = add_mset x (mset q)"
  by (induction q) auto

interpretation tq: priority_queue Compare "pq_inv Compare" mset "pq_push Compare" pq_top pq_pop
proof
  show "pq_inv Compare q \<Longrightarrow>
      pq_inv Compare (pq_push Compare x q) \<and> mset (pq_push Compare x q) = add_mset x (mset q)" for x q
    by (simp add: pq_push_inv pq_push_mset)
  show "pq_top q = None \<longleftrightarrow> mset q = {#}" for q :: "Timeout list"
    by (simp add: pq_top_def split: list.split)
  show "pq_top q = Some x \<Longrightarrow> x \<in># mset q" for q and x :: Timeout
    by (auto simp: pq_top_def split: list.splits)
  show "\<lbrakk>pq_inv Compare q; pq_top q = Some x; y \<in># mset q\<rbrakk> \<Longrightarrow> \<not> Compare x y" for q x y
    by (auto simp: pq_top_def pq_inv_def Compare_def split: list.splits)
  show "\<lbrakk>pq_inv Compare q; pq_top q = Some x\<rbrakk> \<Longrightarrow>
      pq_inv Compare (pq_pop q) \<and> add_mset x (mset (pq_pop q)) = mset q" for q x
    by (auto simp: pq_top_def pq_inv_def pq_pop_def split: list.splits)
qed

lemma top_latest:
  assumes "pq_inv Compare q" and "y \<in> set q"
  shows "\<exists>x. pq_top q = Some x \<and> t_time y \<le> t_time x"
  using tq.top_above [of q y] assms by (auto simp: Compare_def)

end
