(* ===== verification/Fun_Iface.thy ===== *)
theory Fun_Iface
  imports Buf_Array Common_Types Timers
begin

text \<open>
  The data of a connection (\<open>struct State\<close>) and the interface a state function is given
  (\<open>class FunIface\<close> of \<open>include/stateMachine.hpp\<close>).  A \<open>FunIface\<close> holds references: to the
  batch, to the state of the connection and to the members of the state machine its methods
  touch (\<open>smIface\<close>: the packet callback and the timeout bookkeeping).  The model passes the
  referenced objects by value and the caller stores them back.  \<open>'w\<close> is everything else a
  state function may reach: packet contents, heap, clock, random numbers.

  A timeout function is a C++ closure; it is represented by a tag \<open>'k\<close>, and the environment
  of the state machine says what running a tag does.
\<close>

section \<open>State\<close>

record State =
  stateData :: ptr
  state :: StateID
  timeoutID :: u32

definition StateIDInvalid :: StateID where "StateIDInvalid = - 1"
definition timeoutIDInvalid :: u32 where "timeoutIDInvalid = - 1"

definition new_State :: State where
  "new_State = \<lparr>stateData = 0, state = StateIDInvalid, timeoutID = timeoutIDInvalid\<rparr>"

definition State_of :: "StateID \<Rightarrow> ptr \<Rightarrow> State" where
  "State_of sid sdata = \<lparr>stateData = sdata, state = sid, timeoutID = timeoutIDInvalid\<rparr>"

definition State_set :: "State \<Rightarrow> State \<Rightarrow> State" where
  "State_set s this = this\<lparr>stateData := stateData s, state := state s, timeoutID := timeoutID s\<rparr>"

lemma State_set_eq [simp]: "State_set s this = s"
  by (simp add: State_set_def)

section \<open>The interface object\<close>

record ('c, 'p, 'w, 'k) smIface =
  getPktCB :: "('w \<Rightarrow> ('p \<times> 'w) res) option"
  curTimeoutID :: u32
  timeoutsQ :: "Timeout list"
  timeoutFunctions :: "u32 \<rightharpoonup> 'c \<times> 'k"

record ('c, 'p, 'w, 'k) FunIface =
  fi_sm :: "('c, 'p, 'w, 'k) smIface"
  pktIdx :: u32
  pktsBA :: "'p bufArray"
  cID :: 'c
  st :: State
  sendPkt :: bool
  immediateTransition :: bool
  world :: 'w

type_synonym ('c, 'p, 'w, 'k) stateFun =
  "'p \<Rightarrow> ('c, 'p, 'w, 'k) FunIface \<Rightarrow> ('c, 'p, 'w, 'k) FunIface res"

definition new_FunIface ::
  "('c, 'p, 'w, 'k) smIface \<Rightarrow> u32 \<Rightarrow> 'p bufArray \<Rightarrow> 'c \<Rightarrow> State \<Rightarrow> 'w \<Rightarrow> ('c, 'p, 'w, 'k) FunIface" where
  "new_FunIface sm idx ba c s w =
    \<lparr>fi_sm = sm, pktIdx = idx, pktsBA = ba, cID = c, st = s, sendPkt = True,
     immediateTransition = False, world = w\<rparr>"

definition freePkt :: "('c, 'p, 'w, 'k) FunIface \<Rightarrow> ('c, 'p, 'w, 'k) FunIface" where
  "freePkt fi = fi\<lparr>sendPkt := False\<rparr>"

definition getPkt :: "('c, 'p, 'w, 'k) FunIface \<Rightarrow> ('p \<times> ('c, 'p, 'w, 'k) FunIface) res" where
  "getPkt fi =
    rbind (rassert (getPktCB (fi_sm fi) \<noteq> None)) (\<lambda>_.
    rbind (the (getPktCB (fi_sm fi)) (world fi)) (\<lambda>(pkt, w).
    rbind (addPkt pkt (pktsBA fi)) (\<lambda>ba.
    ret (pkt, fi\<lparr>pktsBA := ba, world := w\<rparr>))))"

definition transition :: "StateID \<Rightarrow> ('c, 'p, 'w, 'k) FunIface \<Rightarrow> ('c, 'p, 'w, 'k) FunIface" where
  "transition newState fi = fi\<lparr>st := (st fi)\<lparr>state := newState\<rparr>\<rparr>"

definition transitionNow :: "StateID \<Rightarrow> ('c, 'p, 'w, 'k) FunIface \<Rightarrow> ('c, 'p, 'w, 'k) FunIface" where
  "transitionNow newState fi = fi\<lparr>st := (st fi)\<lparr>state := newState\<rparr>, immediateTransition := True\<rparr>"

text \<open>\<open>now\<close> reads \<open>steady_clock::now()\<close>; the timeout is given in milliseconds.\<close>

definition setTimeout ::
  "('w \<Rightarrow> int \<times> 'w) \<Rightarrow> int \<Rightarrow> 'k \<Rightarrow> ('c, 'p, 'w, 'k) FunIface \<Rightarrow> ('c, 'p, 'w, 'k) FunIface" where
  "setTimeout now ms k fi =
    (let (t, w) = now (world fi);
         sm = fi_sm fi;
         tid = curTimeoutID sm;
         sm = sm\<lparr>curTimeoutID := tid + 1,
                 timeoutsQ := pq_push Compare \<lparr>t_time = t + ms * 1000000, t_timeoutID = tid\<rparr> (timeoutsQ sm),
                 timeoutFunctions := (if timeoutFunctions sm tid = None
                                      then (timeoutFunctions sm)(tid \<mapsto> (cID fi, k))
                                      else timeoutFunctions sm)\<rparr>
     in fi\<lparr>st := (st fi)\<lparr>timeoutID := tid\<rparr>, fi_sm := sm, world := w\<rparr>)"

section \<open>What the interface guarantees about its users\<close>

text \<open>
  A state function can reach the batch, the connection and the state machine only through
  the interface, so whatever it does, it leaves the packets of the batch where they are and
  can only append packets that are marked to be sent; it does not change which packet and
  which connection it was called for.  \<open>fi_frame\<close> is that relation between the object before
  and after.  The locale \<open>state_function\<close> is the contract; the operations of the interface
  compose to functions that meet it.
\<close>

definition fi_frame :: "('c, 'p, 'w, 'k) FunIface \<Rightarrow> ('c, 'p, 'w, 'k) FunIface \<Rightarrow> bool" where
  "fi_frame fi fi' \<longleftrightarrow> pktIdx fi' = pktIdx fi \<and> cID fi' = cID fi \<and>
     ba_wf (pktsBA fi') \<and> getPktCB (fi_sm fi') = getPktCB (fi_sm fi) \<and>
     pq_inv Compare (timeoutsQ (fi_sm fi')) \<and>
     (\<exists>new. ba_list (pktsBA fi') = ba_list (pktsBA fi) @ map (\<lambda>p. (p, True)) new)"

definition fi_ok :: "('c, 'p, 'w, 'k) FunIface \<Rightarrow> bool" where
  "fi_ok fi \<longleftrightarrow> ba_wf (pktsBA fi) \<and> pq_inv Compare (timeoutsQ (fi_sm fi))"

lemma fi_frame_refl: "fi_ok fi \<Longrightarrow> fi_frame fi fi"
  by (auto simp: fi_frame_def fi_ok_def intro: exI [of _ "[]"])

lemma fi_frame_same:
  assumes "fi_ok fi" and "pktIdx fi' = pktIdx fi" and "cID fi' = cID fi"
    and "pktsBA fi' = pktsBA fi" and "fi_sm fi' = fi_sm fi"
  shows "fi_frame fi fi'"
  using fi_frame_refl [OF assms(1)] assms by (simp add: fi_frame_def)

lemma fi_frame_ok: "fi_frame fi fi' \<Longrightarrow> fi_ok fi'"
  by (simp add: fi_frame_def fi_ok_def)

lemma fi_frame_trans:
  assumes "fi_frame a b" and "fi_frame b c"
  shows "fi_frame a c"
proof -
  obtain n1 n2 where "ba_list (pktsBA b) = ba_list (pktsBA a) @ map (\<lambda>p. (p, True)) n1"
    and "ba_list (pktsBA c) = ba_list (pktsBA b) @ map (\<lambda>p. (p, True)) n2"
    using assms by (auto simp: fi_frame_def)
  then have "ba_list (pktsBA c) = ba_list (pktsBA a) @ map (\<lambda>p. (p, True)) (n1 @ n2)" by simp
  then have "\<exists>new. ba_list (pktsBA c) = ba_list (pktsBA a) @ map (\<lambda>p. (p, True)) new" by blast
  with assms show ?thesis by (simp add: fi_frame_def)
qed

lemma fi_frame_step:
  assumes "fi_ok fi"
  shows "fi_frame fi (freePkt fi)" and "fi_frame fi (transition s fi)"
    and "fi_frame fi (transitionNow s fi)" and "fi_frame fi (setTimeout now ms k fi)"
    and "fi_frame fi (fi\<lparr>world := w\<rparr>)" and "fi_frame fi (fi\<lparr>st := s'\<rparr>)"
  using fi_frame_refl [OF assms] assms
  by (simp_all add: fi_frame_def freePkt_def transition_def transitionNow_def setTimeout_def
      fi_ok_def pq_push_inv Let_def split: prod.split)

text \<open>A packet is only ever added to a well-formed batch by growing it properly.\<close>

lemma addPkt_ret:
  assumes wf: "ba_wf ba" and r: "addPkt p ba = ret ba'"
  shows "ba_wf ba' \<and> ba_list ba' = ba_list ba @ [(p, True)]"
proof -
  have "ba_room ba"
  proof (rule ccontr)
    assume "\<not> ba_room ba"
    then have eq: "numBufs ba = numSlots ba" and big: "2 ^ 31 \<le> unat (numSlots ba)"
      using wf by (auto simp: ba_room_def ba_wf_def)
    let ?n = "unat (numSlots ba)"
    have lt: "?n < 2 ^ 32" using unat_bound [of "numSlots ba"] by simp
    have "unat (numSlots ba * 2) = 2 * ?n mod 2 ^ 32" by (simp add: unat_word_ariths mult.commute)
    also have "2 * ?n mod 2 ^ 32 < ?n"
    proof -
      have "2 * ?n mod 2 ^ 32 = (2 * ?n - 2 ^ 32) mod 2 ^ 32"
        using big by (intro le_mod_geq) simp
      also have "\<dots> \<le> 2 * ?n - 2 ^ 32" by (rule mod_less_eq_dividend)
      also have "\<dots> < ?n" using lt big by simp
      finally show ?thesis .
    qed
    finally have "\<not> ?n < length (sendMask (ba_grow ba))"
      by (simp add: ba_grow_def Let_def vec_resize_def)
    moreover have "numBufs (ba_grow ba) = numSlots ba" using eq by (simp add: ba_grow_def Let_def)
    ultimately have "addPkt p ba = fail OutOfBounds"
      using eq by (simp add: addPkt_def ba_set_mask_def)
    with r show False by simp
  qed
  from addPkt_spec [OF wf this, of p] r show ?thesis by auto
qed

lemma fi_frame_getPkt:
  assumes "fi_ok fi" and "getPkt fi = ret (p, fi')"
  shows "fi_frame fi fi'"
proof -
  obtain w ba where fi': "fi' = fi\<lparr>pktsBA := ba, world := w\<rparr>" and "addPkt p (pktsBA fi) = ret ba"
    using assms(2) by (auto simp: getPkt_def rbind_eq_ret)
  then have "ba_wf ba" and "ba_list ba = ba_list (pktsBA fi) @ [(p, True)]"
    using addPkt_ret [of "pktsBA fi" p ba] assms(1) by (simp_all add: fi_ok_def)
  then have "\<exists>new. ba_list (pktsBA fi') = ba_list (pktsBA fi) @ map (\<lambda>p. (p, True)) new"
    by (auto simp: fi' intro: exI [of _ "[p]"])
  then show ?thesis using assms(1) \<open>ba_wf ba\<close> by (simp add: fi_frame_def fi_ok_def fi')
qed

lemma fi_simps [simp]:
  "pktIdx (freePkt fi) = pktIdx fi" "pktIdx (transition s fi) = pktIdx fi"
  "cID (freePkt fi) = cID fi" "cID (transition s fi) = cID fi"
  "pktsBA (freePkt fi) = pktsBA fi" "pktsBA (transition s fi) = pktsBA fi"
  "fi_sm (freePkt fi) = fi_sm fi" "fi_sm (transition s fi) = fi_sm fi"
  "world (freePkt fi) = world fi" "world (transition s fi) = world fi"
  "immediateTransition (freePkt fi) = immediateTransition fi"
  "immediateTransition (transition s fi) = immediateTransition fi"
  "sendPkt (freePkt fi) = False" "sendPkt (transition s fi) = sendPkt fi"
  "st (freePkt fi) = st fi" "st (transition s fi) = (st fi)\<lparr>state := s\<rparr>"
  by (simp_all add: freePkt_def transition_def)

definition well_behaved :: "('c, 'p, 'w, 'k) stateFun \<Rightarrow> bool" where
  "well_behaved f \<longleftrightarrow> (\<forall>p fi fi'. fi_ok fi \<longrightarrow> f p fi = ret fi' \<longrightarrow> fi_frame fi fi')"

locale state_function =
  fixes f :: "('c, 'p, 'w, 'k) stateFun"
  assumes frame: "\<lbrakk>fi_ok fi; f p fi = ret fi'\<rbrakk> \<Longrightarrow> fi_frame fi fi'"
begin

lemma well_behaved: "well_behaved f"
  using frame by (simp add: well_behaved_def)

text \<open>The packets present before the call are kept, with their marks and positions.\<close>

lemma packets_kept:
  assumes "fi_ok fi" and "f p fi = ret fi'" and "i < length (ba_list (pktsBA fi))"
  shows "i < length (ba_list (pktsBA fi')) \<and> ba_list (pktsBA fi') ! i = ba_list (pktsBA fi) ! i"
proof -
  obtain new where "ba_list (pktsBA fi') = ba_list (pktsBA fi) @ map (\<lambda>p. (p, True)) new"
    using frame [OF assms(1,2)] by (auto simp: fi_frame_def)
  with assms(3) show ?thesis by (simp add: nth_append)
qed

end

text \<open>A well-behaved function followed by another is well behaved.\<close>

lemma well_behaved_seq:
  assumes "well_behaved f" and "well_behaved g"
  shows "well_behaved (\<lambda>p fi. rbind (f p fi) (g p))"
  using assms fi_frame_trans fi_frame_ok unfolding well_behaved_def rbind_eq_ret by blast

lemma well_behaved_ret:
  assumes "\<And>p fi. fi_ok fi \<Longrightarrow> fi_frame fi (g p fi)"
  shows "well_behaved (\<lambda>p fi. ret (g p fi))"
  using assms by (auto simp: well_behaved_def)

section \<open>Where new packets come from\<close>

text \<open>
  A function reaches its batch through the interface only: what it does is a sequence of calls of
  \<open>getPkt\<close> and of steps of its own, which may change its connection, its mark, the timeouts and the world, but
  not the batch.  \<open>took w ps w'\<close> is a ledger kept on the world: between \<open>w\<close> and \<open>w'\<close> the packets \<open>ps\<close>
  were handed out.  A step of its own hands out nothing, and a callback of \<open>getPkt\<close> that is \<open>hands_out\<close> hands
  out the packet it returns; so a function that is \<open>interface_only\<close> appends to the batch precisely the packets
  it was handed.
\<close>

definition own_step ::
  "('w \<Rightarrow> 'p list \<Rightarrow> 'w \<Rightarrow> bool) \<Rightarrow> ('c, 'p, 'w, 'k) FunIface \<Rightarrow> ('c, 'p, 'w, 'k) FunIface \<Rightarrow> bool" where
  "own_step took a b \<longleftrightarrow> pktIdx b = pktIdx a \<and> cID b = cID a \<and> pktsBA b = pktsBA a \<and>
     getPktCB (fi_sm b) = getPktCB (fi_sm a) \<and>
     (pq_inv Compare (timeoutsQ (fi_sm a)) \<longrightarrow> pq_inv Compare (timeoutsQ (fi_sm b))) \<and> took (world a) [] (world b)"

inductive uses_iface ::
  "('w \<Rightarrow> 'p list \<Rightarrow> 'w \<Rightarrow> bool) \<Rightarrow> ('c, 'p, 'w, 'k) FunIface \<Rightarrow> ('c, 'p, 'w, 'k) FunIface \<Rightarrow> bool"
  for took fi where
  start: "uses_iface took fi fi"
| fetch: "uses_iface took fi a \<Longrightarrow> getPkt a = ret (p, b) \<Longrightarrow> uses_iface took fi b"
| own: "uses_iface took fi a \<Longrightarrow> own_step took a b \<Longrightarrow> uses_iface took fi b"

definition interface_only :: "('w \<Rightarrow> 'p list \<Rightarrow> 'w \<Rightarrow> bool) \<Rightarrow> ('c, 'p, 'w, 'k) stateFun \<Rightarrow> bool" where
  "interface_only took f \<longleftrightarrow> (\<forall>p fi fi'. f p fi = ret fi' \<longrightarrow> uses_iface took fi fi')"

definition hands_out :: "('w \<Rightarrow> 'p list \<Rightarrow> 'w \<Rightarrow> bool) \<Rightarrow> ('w \<Rightarrow> ('p \<times> 'w) res) option \<Rightarrow> bool" where
  "hands_out took cb \<longleftrightarrow> (\<forall>f w p w'. cb = Some f \<longrightarrow> f w = ret (p, w') \<longrightarrow> took w [p] w')"

lemma uses_iface_trans: "uses_iface took b c \<Longrightarrow> uses_iface took a b \<Longrightarrow> uses_iface took a c"
  by (induction rule: uses_iface.induct) (auto intro: uses_iface.intros)

lemmas uses_own = uses_iface.own [OF uses_iface.start]
lemmas uses_fetch = uses_iface.fetch [OF uses_iface.start]

lemma getPkt_took:
  assumes "getPkt a = ret (p, b)" and "fi_ok a" and "hands_out took (getPktCB (fi_sm a))"
  shows "fi_frame a b \<and> ba_list (pktsBA b) = ba_list (pktsBA a) @ [(p, True)] \<and> took (world a) [p] (world b)"
proof -
  obtain f w ba where cb: "getPktCB (fi_sm a) = Some f" "f (world a) = ret (p, w)"
    and ba: "addPkt p (pktsBA a) = ret ba" and b: "b = a\<lparr>pktsBA := ba, world := w\<rparr>"
    using assms(1) by (auto simp: getPkt_def rbind_eq_ret)
  have "took (world a) [p] w" using assms(3) cb by (simp add: hands_out_def)
  moreover have "ba_list ba = ba_list (pktsBA a) @ [(p, True)]"
    using addPkt_ret [OF _ ba] assms(2) by (simp add: fi_ok_def)
  ultimately show ?thesis using fi_frame_getPkt [OF assms(2,1)] by (simp add: b)
qed

text \<open>A ledger adds up: nothing is handed out in no time, and what follows is handed out after.\<close>

locale packet_ledger =
  fixes took :: "'w \<Rightarrow> 'p list \<Rightarrow> 'w \<Rightarrow> bool"
  assumes took_none: "took w [] w" and took_append: "\<lbrakk>took u a v; took v b w\<rbrakk> \<Longrightarrow> took u (a @ b) w"
begin

lemma uses_iface_took:
  assumes "uses_iface took fi fi'" and "fi_ok fi" and "hands_out took (getPktCB (fi_sm fi))"
  shows "fi_frame fi fi' \<and> (\<exists>new. ba_list (pktsBA fi') = ba_list (pktsBA fi) @ map (\<lambda>p. (p, True)) new \<and>
    took (world fi) new (world fi'))"
  using assms
proof (induction rule: uses_iface.induct)
  case start
  then show ?case using fi_frame_refl took_none by (intro conjI exI [of _ "[]"]) simp_all
next
  case (fetch a p b)
  then obtain new where fr: "fi_frame fi a" and l: "ba_list (pktsBA a) = ba_list (pktsBA fi) @ map (\<lambda>p. (p, True)) new"
    and t: "took (world fi) new (world a)" by blast
  have "hands_out took (getPktCB (fi_sm a))" using fetch.prems(2) fr by (simp add: fi_frame_def)
  note g = getPkt_took [OF fetch.hyps(2) fi_frame_ok [OF fr] this]
  show ?case using fi_frame_trans [OF fr] g l took_append [OF t] by (intro conjI exI [of _ "new @ [p]"]) simp_all
next
  case (own a b)
  then obtain new where fr: "fi_frame fi a" and l: "ba_list (pktsBA a) = ba_list (pktsBA fi) @ map (\<lambda>p. (p, True)) new"
    and t: "took (world fi) new (world a)" by blast
  have "fi_frame a b" using own.hyps(2) fi_frame_ok [OF fr]
    by (auto simp: own_step_def fi_frame_def fi_ok_def intro: exI [of _ "[]"])
  then show ?case
    using fi_frame_trans [OF fr] l own.hyps(2) took_append [OF t, of "[]" "world b"]
    by (intro conjI exI [of _ new]) (simp_all add: own_step_def)
qed

end

text \<open>Two ledgers: a log of all packets handed out, and the set of packets that are out.\<close>

definition logged :: "('w \<Rightarrow> 'p list) \<Rightarrow> 'w \<Rightarrow> 'p list \<Rightarrow> 'w \<Rightarrow> bool" where
  "logged log w ps w' \<longleftrightarrow> log w' = log w @ ps"

definition made_live :: "('w \<Rightarrow> 'p set) \<Rightarrow> 'w \<Rightarrow> 'p list \<Rightarrow> 'w \<Rightarrow> bool" where
  "made_live live w ps w' \<longleftrightarrow> distinct ps \<and> set ps \<inter> live w = {} \<and> live w' = live w \<union> set ps"

lemma made_live_none [simp]: "made_live live w [] w' \<longleftrightarrow> live w' = live w"
  by (simp add: made_live_def)

interpretation log_ledger: packet_ledger "logged log" for log
  by unfold_locales (simp_all add: logged_def)

interpretation live_ledger: packet_ledger "made_live live" for live
  by unfold_locales (auto simp: made_live_def)

interpretation any_ledger: packet_ledger "\<lambda>_ _ _. True"
  by unfold_locales simp_all

text \<open>A function that only uses the interface respects it, whatever the ledger.\<close>

lemma uses_iface_any: "uses_iface took fi fi' \<Longrightarrow> uses_iface (\<lambda>_ _ _. True) fi fi'"
  by (induction rule: uses_iface.induct) (auto intro: uses_iface.intros simp: own_step_def)

lemma uses_iface_frame: "uses_iface took fi fi' \<Longrightarrow> fi_ok fi \<Longrightarrow> fi_frame fi fi'"
  using any_ledger.uses_iface_took [OF uses_iface_any, of took fi fi'] by (simp add: hands_out_def)

lemma interface_only_well_behaved: "interface_only took f \<Longrightarrow> well_behaved f"
  unfolding interface_only_def well_behaved_def using uses_iface_frame by blast

end
