(* ===== verification/State_Machine.thy ===== *)
theory State_Machine
  imports Fun_Iface Hash_Map
begin

text \<open>
  The state machine of \<open>include/stateMachine.hpp\<close>.  An object is an \<open>SM\<close> record; the pools it
  may share with other objects are in a store \<open>nat \<Rightarrow> 'n\<close> that \<open>connPool\<close> points into (pool \<open>0\<close>
  is \<open>connPoolStatic\<close>).  An \<open>env\<close> holds what the template and its user supply: the operations of
  the two hash maps, the packet identifier, the clock and the meaning of timeout functions.
  A call acts on a context \<open>ctx\<close>: the object, the pools, the batch and the world.

  An iterator into the connection table is the key it points to; a reference to an entry is
  written back to the table (\<open>write_entry\<close>) when the call that received it returns.
  Debug output, the \<open>measureData\<close> counters and exceptions thrown by user functions (which no
  handler of the class catches, but for \<open>PacketNotIdentified\<close>, thrown by identifiers only) are
  not represented.
\<close>

section \<open>The object and its environment\<close>

record ('c, 'p, 'w, 'k, 'm) SM =
  smi :: "('c, 'p, 'w, 'k) smIface"
  stateTable :: 'm
  sm_functions :: "('c, 'p, 'w, 'k) stateFun option list"
  startStateID :: StateID
  startStateFun :: "('c \<Rightarrow> 'w \<Rightarrow> (ptr \<times> 'w) res) option"
  endStateID :: StateID
  listenToConnections :: bool
  connPool :: nat
  stat_statesAdded :: u64
  stat_statesClosed :: u64

record ('c, 'p, 'w, 'k, 'm, 'n) env =
  dense :: "('m, 'c, State) map_ops"
  poolOps :: "('n, 'c, State) map_ops"
  ident :: "'w \<Rightarrow> 'p \<Rightarrow> 'c option"
  clock :: "'w \<Rightarrow> int \<times> 'w"
  timeoutFun :: "'k \<Rightarrow> ('c, 'p, 'w, 'k) FunIface \<Rightarrow> ('c, 'p, 'w, 'k) FunIface res"

record ('c, 'p, 'w, 'k, 'm, 'n) ctx =
  c_sm :: "('c, 'p, 'w, 'k, 'm) SM"
  c_pools :: "nat \<Rightarrow> 'n"
  c_batch :: "'p bufArray"
  c_world :: 'w

definition new_StateMachine :: "('c, 'p, 'w, 'k, 'm, 'n) env \<Rightarrow> ('c, 'p, 'w, 'k, 'm) SM" where
  "new_StateMachine env =
    \<lparr>smi = \<lparr>getPktCB = None, curTimeoutID = 0, timeoutsQ = [], timeoutFunctions = Map.empty\<rparr>,
     stateTable = hm_empty (dense env), sm_functions = [], startStateID = 0, startStateFun = None,
     endStateID = StateIDInvalid, listenToConnections = False, connPool = 0,
     stat_statesAdded = 0, stat_statesClosed = 0\<rparr>"

definition getStateTableSize :: "('c, 'p, 'w, 'k, 'm, 'n) env \<Rightarrow> ('c, 'p, 'w, 'k, 'm) SM \<Rightarrow> nat" where
  "getStateTableSize env sm = hm_size (dense env) (stateTable sm)"

definition registerFunction ::
  "StateID \<Rightarrow> ('c, 'p, 'w, 'k) stateFun option \<Rightarrow> ('c, 'p, 'w, 'k, 'm) SM \<Rightarrow> ('c, 'p, 'w, 'k, 'm) SM" where
  "registerFunction sid f sm =
    (let n = unat sid; fs = sm_functions sm;
         fs = (if int (length fs) - 1 < int n then fs @ replicate (n + 1 - length fs) None else fs)
     in sm\<lparr>sm_functions := fs[n := f]\<rparr>)"

definition registerEndStateID :: "StateID \<Rightarrow> ('c, 'p, 'w, 'k, 'm) SM \<Rightarrow> ('c, 'p, 'w, 'k, 'm) SM" where
  "registerEndStateID sid sm = sm\<lparr>endStateID := sid\<rparr>"

definition registerStartStateID ::
  "StateID \<Rightarrow> ('c \<Rightarrow> 'w \<Rightarrow> (ptr \<times> 'w) res) option \<Rightarrow> ('c, 'p, 'w, 'k, 'm) SM \<Rightarrow> ('c, 'p, 'w, 'k, 'm) SM" where
  "registerStartStateID sid f sm =
    sm\<lparr>startStateID := sid, startStateFun := f, listenToConnections := True\<rparr>"

definition registerGetPktCB ::
  "('w \<Rightarrow> ('p \<times> 'w) res) option \<Rightarrow> ('c, 'p, 'w, 'k, 'm) SM \<Rightarrow> ('c, 'p, 'w, 'k, 'm) SM" where
  "registerGetPktCB f sm = sm\<lparr>smi := (smi sm)\<lparr>getPktCB := f\<rparr>\<rparr>"

definition setConnectionPool :: "nat \<Rightarrow> ('c, 'p, 'w, 'k, 'm) SM \<Rightarrow> ('c, 'p, 'w, 'k, 'm) SM" where
  "setConnectionPool cp sm = sm\<lparr>connPool := cp\<rparr>"

section \<open>The connection table and the pool\<close>

definition removeState ::
  "('c, 'p, 'w, 'k, 'm, 'n) env \<Rightarrow> 'c \<Rightarrow> ('c, 'p, 'w, 'k, 'm) SM \<Rightarrow> ('c, 'p, 'w, 'k, 'm) SM" where
  "removeState env c sm = sm\<lparr>stateTable := hm_erase (dense env) c (stateTable sm)\<rparr>"

definition write_entry ::
  "('c, 'p, 'w, 'k, 'm, 'n) env \<Rightarrow> 'c \<Rightarrow> State \<Rightarrow> ('c, 'p, 'w, 'k, 'm) SM \<Rightarrow> ('c, 'p, 'w, 'k, 'm) SM" where
  "write_entry env c s sm = sm\<lparr>stateTable := hm_set (dense env) c s (stateTable sm)\<rparr>"

definition pool_add :: "('c, 'p, 'w, 'k, 'm, 'n) env \<Rightarrow> 'c \<Rightarrow> State \<Rightarrow> 'n \<Rightarrow> 'n" where
  "pool_add env c s n = hm_insert (poolOps env) c s n"

text \<open>The state found, if any, and the pool without it.\<close>

definition findAndErase :: "('c, 'p, 'w, 'k, 'm, 'n) env \<Rightarrow> 'c \<Rightarrow> 'n \<Rightarrow> State option \<times> 'n" where
  "findAndErase env c n =
    (case hm_find (poolOps env) n c of
       Some s \<Rightarrow> (Some (State_set s new_State), hm_erase (poolOps env) c n)
     | None \<Rightarrow> (None, n))"

text \<open>The entry the returned iterator points to; \<open>None\<close> is \<open>stateTable.end()\<close>.\<close>

partial_function (option) findState ::
  "('c, 'p, 'w, 'k, 'm, 'n) env \<Rightarrow> 'c \<Rightarrow> ('c, 'p, 'w, 'k, 'm, 'n) ctx \<Rightarrow>
     (State option \<times> ('c, 'p, 'w, 'k, 'm, 'n) ctx) res" where
  "findState env c x =
    (case hm_find (dense env) (stateTable (c_sm x)) c of
       Some s \<Rightarrow> ret (Some s, x)
     | None \<Rightarrow>
        (case findAndErase env c (c_pools x (connPool (c_sm x))) of
           (Some s, n) \<Rightarrow>
             findState env c
               (x\<lparr>c_pools := (c_pools x)(connPool (c_sm x) := n),
                  c_sm := (c_sm x)\<lparr>stateTable := hm_insert (dense env) c s (stateTable (c_sm x)),
                                   stat_statesAdded := stat_statesAdded (c_sm x) + 1\<rparr>\<rparr>)
         | (None, n) \<Rightarrow>
             (if listenToConnections (c_sm x) then
                rbind (case startStateFun (c_sm x) of
                         None \<Rightarrow> ret (0, c_world x) | Some f \<Rightarrow> f c (c_world x)) (\<lambda>(sdata, w).
                findState env c
                  (x\<lparr>c_world := w,
                     c_sm := (c_sm x)\<lparr>stateTable := hm_insert (dense env) c
                                        (State_of (startStateID (c_sm x)) sdata) (stateTable (c_sm x)),
                                      stat_statesAdded := stat_statesAdded (c_sm x) + 1\<rparr>\<rparr>))
              else ret (None, x))))"

section \<open>Running state functions\<close>

text \<open>
  The lookup in \<open>functions\<close>.  \<open>functions.size() - 1\<close> is a \<open>size_t\<close>: on an empty vector it
  wraps around, the assertion holds and the access is out of range.
\<close>

definition lookupFun :: "('c, 'p, 'w, 'k, 'm) SM \<Rightarrow> StateID \<Rightarrow> ('c, 'p, 'w, 'k) stateFun res" where
  "lookupFun sm sid =
    rbind (rassert ((ucast sid :: u64) \<le> of_nat (length (sm_functions sm)) - 1)) (\<lambda>_.
    if unat sid < length (sm_functions sm)
    then (case sm_functions sm ! unat sid of None \<Rightarrow> fail AssertFail | Some f \<Rightarrow> ret f)
    else fail OutOfBounds)"

text \<open>
  Where the reference \<open>state\<close> of a \<open>FunIface\<close> points when its destructor runs: an entry of the
  table, a local variable (\<open>addState\<close>), or an entry that has been removed.
\<close>

datatype slot = InTable | Local | Gone

definition FunIface_destroy ::
  "('c, 'p, 'w, 'k, 'm, 'n) env \<Rightarrow> slot \<Rightarrow> ('c, 'p, 'w, 'k, 'm) SM \<Rightarrow> ('c, 'p, 'w, 'k) FunIface \<Rightarrow>
     (('c, 'p, 'w, 'k, 'm) SM \<times> ('c, 'p, 'w, 'k) FunIface) res" where
  "FunIface_destroy env slt sm fi =
    rbind (if \<not> sendPkt fi then markDropPkt (pktIdx fi) (pktsBA fi)
           else markSendPkt (pktIdx fi) (pktsBA fi)) (\<lambda>ba.
    let fi = fi\<lparr>pktsBA := ba\<rparr> in
    if immediateTransition fi then
      (if slt = Gone then fail Dangling else
       rbind (lookupFun sm (state (st fi))) (\<lambda>f.
       rbind (ba_get (pktsBA fi) (pktIdx fi)) (\<lambda>p.
       rbind (f p fi) (\<lambda>fi.
       let sm = (if slt = InTable then write_entry env (cID fi) (st fi) sm else sm);
           sm = (if state (st fi) = endStateID sm then removeState env (cID fi) sm else sm)
       in ret (sm, fi)))))
    else ret (sm, fi))"

text \<open>Storing back what the object refers to.\<close>

definition put_back ::
  "('c, 'p, 'w, 'k, 'm) SM \<Rightarrow> ('c, 'p, 'w, 'k) FunIface \<Rightarrow> ('c, 'p, 'w, 'k, 'm, 'n) ctx \<Rightarrow>
     ('c, 'p, 'w, 'k, 'm, 'n) ctx" where
  "put_back sm fi x = x\<lparr>c_sm := sm\<lparr>smi := fi_sm fi\<rparr>, c_batch := pktsBA fi, c_world := world fi\<rparr>"

definition invalidate_timeout :: "State \<Rightarrow> ('c, 'p, 'w, 'k, 'm) SM \<Rightarrow> State \<times> ('c, 'p, 'w, 'k, 'm) SM" where
  "invalidate_timeout s sm =
    (if timeoutID s \<noteq> timeoutIDInvalid
     then (s\<lparr>timeoutID := timeoutIDInvalid\<rparr>,
           sm\<lparr>smi := (smi sm)\<lparr>timeoutFunctions := (timeoutFunctions (smi sm))(timeoutID s := None)\<rparr>\<rparr>)
     else (s, sm))"

definition runPkt ::
  "('c, 'p, 'w, 'k, 'm, 'n) env \<Rightarrow> u32 \<Rightarrow> ('c, 'p, 'w, 'k, 'm, 'n) ctx \<Rightarrow> ('c, 'p, 'w, 'k, 'm, 'n) ctx res" where
  "runPkt env cur x =
    rbind (ba_get (c_batch x) cur) (\<lambda>pktIn.
    case ident env (c_world x) pktIn of
      None \<Rightarrow> rbind (markDropPkt cur (c_batch x)) (\<lambda>ba. ret (x\<lparr>c_batch := ba\<rparr>))
    | Some identity \<Rightarrow>
        rbind (findState env identity x) (\<lambda>(found, x).
        case found of
          None \<Rightarrow> rbind (markDropPkt cur (c_batch x)) (\<lambda>ba. ret (x\<lparr>c_batch := ba\<rparr>))
        | Some s \<Rightarrow>
            let (s, sm) = invalidate_timeout s (c_sm x);
                sm = write_entry env identity s sm
            in rbind (lookupFun sm (state s)) (\<lambda>f.
               rbind (f pktIn (new_FunIface (smi sm) cur (c_batch x) identity s (c_world x))) (\<lambda>fi.
               let sm = write_entry env identity (st fi) sm;
                   (slt, sm) = (if state (st fi) = endStateID sm
                                then (Gone, (removeState env identity sm)
                                              \<lparr>stat_statesClosed := stat_statesClosed sm + 1\<rparr>)
                                else (InTable, sm))
               in rbind (FunIface_destroy env slt sm fi) (\<lambda>(sm, fi). ret (put_back sm fi x))))))"

section \<open>Timeouts\<close>

text \<open>The rest of the loop body once a timeout is due and valid.\<close>

definition fire_timeout ::
  "('c, 'p, 'w, 'k, 'm, 'n) env \<Rightarrow> u32 \<Rightarrow> 'c \<Rightarrow> 'k \<Rightarrow> ('c, 'p, 'w, 'k, 'm, 'n) ctx \<Rightarrow>
     ('c, 'p, 'w, 'k, 'm, 'n) ctx res" where
  "fire_timeout env tid c k x =
    rbind (findState env c x) (\<lambda>(found, x).
    case found of
      None \<Rightarrow> fail AssertFail
    | Some s \<Rightarrow>
        let s = s\<lparr>timeoutID := timeoutIDInvalid\<rparr>;
            sm = write_entry env c s (c_sm x)
        in rbind (timeoutFun env k (new_FunIface (smi sm) (- 1) (c_batch x) c s (c_world x))) (\<lambda>fi.
           let sm = write_entry env c (st fi) sm;
               (slt, sm) = (if state (st fi) = endStateID sm
                            then (Gone, removeState env c sm) else (InTable, sm));
               ifc = fi_sm fi;
               ifc = ifc\<lparr>timeoutsQ := pq_pop (timeoutsQ ifc),
                         timeoutFunctions := (timeoutFunctions ifc)(tid := None)\<rparr>
           in rbind (FunIface_destroy env slt sm (fi\<lparr>fi_sm := ifc\<rparr>)) (\<lambda>(sm, fi). ret (put_back sm fi x))))"

partial_function (option) run_timeouts ::
  "('c, 'p, 'w, 'k, 'm, 'n) env \<Rightarrow> ('c, 'p, 'w, 'k, 'm, 'n) ctx \<Rightarrow> ('c, 'p, 'w, 'k, 'm, 'n) ctx res" where
  "run_timeouts env x =
    (case pq_top (timeoutsQ (smi (c_sm x))) of
       None \<Rightarrow> ret x
     | Some t \<Rightarrow>
        (let (now, w) = clock env (c_world x); x = x\<lparr>c_world := w\<rparr> in
         if t_time t > now then ret x
         else (case timeoutFunctions (smi (c_sm x)) (t_timeoutID t) of
             None \<Rightarrow>
               run_timeouts env
                 (x\<lparr>c_sm := (c_sm x)\<lparr>smi := (smi (c_sm x))
                    \<lparr>timeoutsQ := pq_pop (timeoutsQ (smi (c_sm x)))\<rparr>\<rparr>\<rparr>)
           | Some (c, k) \<Rightarrow>
               rbind (fire_timeout env (t_timeoutID t) c k x) (run_timeouts env))))"

section \<open>The public operations\<close>

definition addState ::
  "('c, 'p, 'w, 'k, 'm, 'n) env \<Rightarrow> 'c \<Rightarrow> State \<Rightarrow> ('c, 'p, 'w, 'k, 'm, 'n) ctx \<Rightarrow> ('c, 'p, 'w, 'k, 'm, 'n) ctx res" where
  "addState env c s x =
    rbind (lookupFun (c_sm x) (state s)) (\<lambda>f.
    rbind (ba_get (c_batch x) 0) (\<lambda>p.
    rbind (f p (new_FunIface (smi (c_sm x)) 0 (c_batch x) c s (c_world x))) (\<lambda>fi.
    let sm = c_sm x;
        x = (if state (st fi) = endStateID sm then x
             else x\<lparr>c_pools := (c_pools x)(connPool sm := pool_add env c (st fi) (c_pools x (connPool sm)))\<rparr>)
    in rbind (FunIface_destroy env Local sm fi) (\<lambda>(sm, fi). ret (put_back sm fi x)))))"

definition addStateNoFun ::
  "('c, 'p, 'w, 'k, 'm, 'n) env \<Rightarrow> 'c \<Rightarrow> State \<Rightarrow> ('c, 'p, 'w, 'k, 'm, 'n) ctx \<Rightarrow> ('c, 'p, 'w, 'k, 'm, 'n) ctx" where
  "addStateNoFun env c s x =
    (let sm = c_sm x in
     if state s = endStateID sm then x
     else x\<lparr>c_pools := (c_pools x)(connPool sm := pool_add env c s (c_pools x (connPool sm)))\<rparr>)"

text \<open>The packets \<open>i, i + 1, \<dots>\<close> of a batch, \<open>n\<close> of them.\<close>

primrec run_from ::
  "('c, 'p, 'w, 'k, 'm, 'n) env \<Rightarrow> nat \<Rightarrow> u32 \<Rightarrow> ('c, 'p, 'w, 'k, 'm, 'n) ctx \<Rightarrow> ('c, 'p, 'w, 'k, 'm, 'n) ctx res" where
  "run_from env 0 i x = ret x"
| "run_from env (Suc n) i x = rbind (runPkt env i x) (run_from env n (i + 1))"

definition runPktBatch ::
  "('c, 'p, 'w, 'k, 'm, 'n) env \<Rightarrow> ('c, 'p, 'w, 'k, 'm, 'n) ctx \<Rightarrow> ('c, 'p, 'w, 'k, 'm, 'n) ctx res" where
  "runPktBatch env x =
    (let inCount = getTotalCount (c_batch x)
     in rbind (run_timeouts env x) (run_from env (unat inCount) 0))"

end
