(* ===== verification/State_Machine_Spec.thy ===== *)
theory State_Machine_Spec
  imports State_Machine
begin

text \<open>
  What the state machine guarantees.  The locale \<open>machine_maps\<close> is the contract with its
  surroundings: the two hash maps obey their laws, and a timeout function cannot write the
  private \<open>pktIdx\<close> of its \<open>FunIface\<close>; \<open>machine_env\<close> adds that the identifier never produces a
  reserved key.  Inside it every operation is described by its effect on the finite maps the tables
  stand for; the properties at the end of the theory state the consequences.
\<close>

section \<open>Views and invariants\<close>

definition tbl :: "('c, 'p, 'w, 'k, 'm, 'n) env \<Rightarrow> ('c, 'p, 'w, 'k, 'm, 'n) ctx \<Rightarrow> 'c \<rightharpoonup> State" where
  "tbl env x = hm_find (dense env) (stateTable (c_sm x))"

definition pool_at :: "('c, 'p, 'w, 'k, 'm, 'n) env \<Rightarrow> ('c, 'p, 'w, 'k, 'm, 'n) ctx \<Rightarrow> nat \<Rightarrow> 'c \<rightharpoonup> State" where
  "pool_at env x i = hm_find (poolOps env) (c_pools x i)"

definition my_pool :: "('c, 'p, 'w, 'k, 'm, 'n) env \<Rightarrow> ('c, 'p, 'w, 'k, 'm, 'n) ctx \<Rightarrow> 'c \<rightharpoonup> State" where
  "my_pool env x = pool_at env x (connPool (c_sm x))"

definition packets :: "('c, 'p, 'w, 'k, 'm, 'n) ctx \<Rightarrow> ('p \<times> bool) list" where
  "packets x = ba_list (c_batch x)"

text \<open>The parts of the object that are fixed once it is configured.\<close>

definition same_config :: "('c, 'p, 'w, 'k, 'm) SM \<Rightarrow> ('c, 'p, 'w, 'k, 'm) SM \<Rightarrow> bool" where
  "same_config sm sm' \<longleftrightarrow> sm_functions sm' = sm_functions sm \<and> startStateID sm' = startStateID sm \<and>
     startStateFun sm' = startStateFun sm \<and> endStateID sm' = endStateID sm \<and>
     listenToConnections sm' = listenToConnections sm \<and> connPool sm' = connPool sm \<and>
     getPktCB (smi sm') = getPktCB (smi sm)"

definition ctx_ok ::
  "('m \<Rightarrow> bool) \<Rightarrow> ('n \<Rightarrow> bool) \<Rightarrow> ('c, 'p, 'w, 'k, 'm, 'n) ctx \<Rightarrow> bool" where
  "ctx_ok tinv pinv x \<longleftrightarrow> tinv (stateTable (c_sm x)) \<and> (\<forall>i. pinv (c_pools x i)) \<and>
     ba_wf (c_batch x) \<and> pq_inv Compare (timeoutsQ (smi (c_sm x))) \<and>
     (\<forall>f. Some f \<in> set (sm_functions (c_sm x)) \<longrightarrow> well_behaved f)"

text \<open>No stored connection is in the end state, in the table or in the machine's own pool.\<close>

definition no_end :: "('c, 'p, 'w, 'k, 'm, 'n) env \<Rightarrow> ('c, 'p, 'w, 'k, 'm, 'n) ctx \<Rightarrow> bool" where
  "no_end env x \<longleftrightarrow>
     (\<forall>s. s \<in> ran (tbl env x) \<union> ran (my_pool env x) \<longrightarrow> state s \<noteq> endStateID (c_sm x)) \<and>
     (listenToConnections (c_sm x) \<longrightarrow> startStateID (c_sm x) \<noteq> endStateID (c_sm x))"

text \<open>
  Everything but connection \<open>c\<close> is untouched: the other entries of the table, the other
  pools, the other entries of the machine's pool.
\<close>

definition only_touches ::
  "('c, 'p, 'w, 'k, 'm, 'n) env \<Rightarrow> 'c \<Rightarrow> ('c, 'p, 'w, 'k, 'm, 'n) ctx \<Rightarrow> ('c, 'p, 'w, 'k, 'm, 'n) ctx \<Rightarrow> bool" where
  "only_touches env c x x' \<longleftrightarrow>
     (\<forall>c'. c' \<noteq> c \<longrightarrow> tbl env x' c' = tbl env x c' \<and> (\<forall>i. pool_at env x' i c' = pool_at env x i c')) \<and>
     (\<forall>i. i \<noteq> connPool (c_sm x) \<longrightarrow> pool_at env x' i = pool_at env x i)"

text \<open>The effect on the batch: packet \<open>i\<close> is marked anew, packets to be sent are appended.\<close>

definition batch_step :: "nat \<Rightarrow> ('p \<times> bool) list \<Rightarrow> ('p \<times> bool) list \<Rightarrow> bool" where
  "batch_step i l l' \<longleftrightarrow> (\<exists>b new. l' = l[i := (fst (l ! i), b)] @ map (\<lambda>p. (p, True)) new)"

definition marks_dropped :: "nat \<Rightarrow> ('p \<times> bool) list \<Rightarrow> ('p \<times> bool) list" where
  "marks_dropped i l = l[i := (fst (l ! i), False)]"

lemmas view_defs = tbl_def pool_at_def my_pool_def packets_def

section \<open>The connection lookup\<close>

text \<open>A connection moves from the pool to the table, or a new one is accepted.\<close>

definition adopt ::
  "('c, 'p, 'w, 'k, 'm, 'n) env \<Rightarrow> 'c \<Rightarrow> State \<Rightarrow> ('c, 'p, 'w, 'k, 'm, 'n) ctx \<Rightarrow> ('c, 'p, 'w, 'k, 'm, 'n) ctx" where
  "adopt env c s x =
     x\<lparr>c_pools := (c_pools x)(connPool (c_sm x) := hm_erase (poolOps env) c (c_pools x (connPool (c_sm x)))),
       c_sm := (c_sm x)\<lparr>stateTable := hm_insert (dense env) c s (stateTable (c_sm x)),
                        stat_statesAdded := stat_statesAdded (c_sm x) + 1\<rparr>\<rparr>"

definition start_data ::
  "'c \<Rightarrow> ('c, 'p, 'w, 'k, 'm, 'n) ctx \<Rightarrow> (ptr \<times> 'w) res" where
  "start_data c x = (case startStateFun (c_sm x) of None \<Rightarrow> ret (0, c_world x) | Some f \<Rightarrow> f c (c_world x))"

definition accept ::
  "('c, 'p, 'w, 'k, 'm, 'n) env \<Rightarrow> 'c \<Rightarrow> ptr \<Rightarrow> 'w \<Rightarrow> ('c, 'p, 'w, 'k, 'm, 'n) ctx \<Rightarrow> ('c, 'p, 'w, 'k, 'm, 'n) ctx" where
  "accept env c sdata w x =
     x\<lparr>c_world := w,
       c_sm := (c_sm x)\<lparr>stateTable := hm_insert (dense env) c
                          (State_of (startStateID (c_sm x)) sdata) (stateTable (c_sm x)),
                        stat_statesAdded := stat_statesAdded (c_sm x) + 1\<rparr>\<rparr>"

locale machine_maps =
  fixes env :: "('c, 'p, 'w, 'k, 'm, 'n) env" and tinv :: "'m \<Rightarrow> bool" and pinv :: "'n \<Rightarrow> bool"
    and key_ok :: "'c \<Rightarrow> bool"
  assumes dense_laws: "hash_map (dense env) tinv key_ok"
    and pool_laws: "hash_map (poolOps env) pinv (\<lambda>_. True)"
    and timeout_ok: "timeoutFun env k fi = ret fi' \<Longrightarrow> pktIdx fi' = pktIdx fi"

locale machine_env = machine_maps env tinv pinv key_ok
  for env :: "('c, 'p, 'w, 'k, 'm, 'n) env" and tinv :: "'m \<Rightarrow> bool" and pinv :: "'n \<Rightarrow> bool"
    and key_ok :: "'c \<Rightarrow> bool" +
  assumes ident_ok: "ident env w p = Some c \<Longrightarrow> key_ok c"

sublocale machine_maps \<subseteq> dm: hash_map "dense env" tinv key_ok
  by (rule dense_laws)

sublocale machine_maps \<subseteq> pm: hash_map "poolOps env" pinv "\<lambda>_. True"
  by (rule pool_laws)

context machine_maps
begin

lemma findState_hit: "tbl env x c = Some s \<Longrightarrow> findState env c x = ret (Some s, x)"
  by (subst findState.simps) (simp add: tbl_def)

lemma tbl_adopt:
  assumes "tinv (stateTable (c_sm x))" and "key_ok c" and "tbl env x c = None"
  shows "tbl env (adopt env c s x) = (tbl env x)(c \<mapsto> s) \<and> tinv (stateTable (c_sm (adopt env c s x)))"
  using dm.find_insert [OF assms(1,2)] assms(3) by (simp add: tbl_def adopt_def)

lemma tbl_accept:
  assumes "tinv (stateTable (c_sm x))" and "key_ok c" and "tbl env x c = None"
  shows "tbl env (accept env c sdata w x) = (tbl env x)(c \<mapsto> State_of (startStateID (c_sm x)) sdata) \<and>
    tinv (stateTable (c_sm (accept env c sdata w x)))"
  using dm.find_insert [OF assms(1,2)] assms(3) by (simp add: tbl_def accept_def)

lemma findState_eq:
  assumes "tinv (stateTable (c_sm x))" and "key_ok c"
  shows "findState env c x =
    (case tbl env x c of Some s \<Rightarrow> ret (Some s, x)
     | None \<Rightarrow> (case my_pool env x c of Some s \<Rightarrow> ret (Some s, adopt env c s x)
       | None \<Rightarrow> if listenToConnections (c_sm x)
                 then rbind (start_data c x) (\<lambda>(sdata, w).
                   ret (Some (State_of (startStateID (c_sm x)) sdata), accept env c sdata w x))
                 else ret (None, x)))"
proof (cases "tbl env x c")
  case (Some s)
  then show ?thesis by (simp add: findState_hit)
next
  case None
  note adopted = tbl_adopt [OF assms None] and accepted = tbl_accept [OF assms None]
  have "findState env c (adopt env c s x) = ret (Some s, adopt env c s x)" for s
    using adopted by (intro findState_hit) simp
  moreover have "findState env c (accept env c sdata w x)
      = ret (Some (State_of (startStateID (c_sm x)) sdata), accept env c sdata w x)" for sdata w
    using accepted by (intro findState_hit) simp
  ultimately show ?thesis
    using None
    by (subst findState.simps)
      (auto simp: findAndErase_def tbl_def my_pool_def pool_at_def adopt_def accept_def start_data_def
        split: option.split intro!: arg_cong [where f = "rbind _"])
qed

end

section \<open>Marks and state functions\<close>

lemma mark_ret:
  assumes wf: "ba_wf ba"
    and r: "(if \<not> s then markDropPkt i ba else markSendPkt i ba) = ret ba'"
  shows "unat i < length (ba_list ba) \<and> ba_wf ba' \<and>
    ba_list ba' = (ba_list ba)[unat i := (fst (ba_list ba ! unat i), s)]"
proof -
  have i: "i < numBufs ba"
  proof (rule ccontr)
    assume "\<not> i < numBufs ba"
    then have "numBufs ba \<le> i" by simp
    then show False using r mark_out_of_range [of ba i] by (simp split: if_splits)
  qed
  then show ?thesis
    using markDropPkt_spec [OF wf i] markSendPkt_spec [OF wf i] r
    by (cases s) (auto simp: word_less_nat_alt)
qed

lemma lookupFun_mem: "lookupFun sm sid = ret f \<Longrightarrow> Some f \<in> set (sm_functions sm)"
  by (auto simp: lookupFun_def rbind_eq_ret in_set_conv_nth split: if_splits option.splits)

lemma lookupFun_well_behaved:
  assumes "ctx_ok tinv pinv x" and "lookupFun (c_sm x) sid = ret f"
  shows "well_behaved f"
  using assms lookupFun_mem unfolding ctx_ok_def by blast

lemma batch_step_mark: "batch_step i l (l[i := (fst (l ! i), b)])"
  unfolding batch_step_def by (rule exI [of _ b], rule exI [of _ "[]"]) simp

lemma batch_step_append:
  assumes "batch_step i l l'"
  shows "batch_step i l (l' @ map (\<lambda>p. (p, True)) new)"
proof -
  obtain b n where "l' = l[i := (fst (l ! i), b)] @ map (\<lambda>p. (p, True)) n"
    using assms by (auto simp: batch_step_def)
  then have "l' @ map (\<lambda>p. (p, True)) new
      = l[i := (fst (l ! i), b)] @ map (\<lambda>p. (p, True)) (n @ new)" by simp
  then show ?thesis unfolding batch_step_def by blast
qed

lemma batch_step_append_mark:
  assumes "i < length l"
  shows "batch_step i l ((l @ map (\<lambda>p. (p, True)) new)[i := (fst ((l @ map (\<lambda>p. (p, True)) new) ! i), b)])"
  using assms unfolding batch_step_def
  by (intro exI [of _ b] exI [of _ new]) (simp add: list_update_append nth_append)

text \<open>
  The destructor: it marks the packet as the state function left it, and only then runs the
  function of the state an immediate transition selected.
\<close>

lemma destroy_effect:
  assumes r: "FunIface_destroy env slt sm fi = ret (sm', fi')" and ok: "fi_ok fi"
    and wb: "\<And>f. Some f \<in> set (sm_functions sm) \<Longrightarrow> well_behaved f"
  shows "unat (pktIdx fi) < length (ba_list (pktsBA fi)) \<and> fi_ok fi' \<and> cID fi' = cID fi \<and>
    getPktCB (fi_sm fi') = getPktCB (fi_sm fi) \<and>
    (\<exists>new. ba_list (pktsBA fi') =
      (ba_list (pktsBA fi))[unat (pktIdx fi) := (fst (ba_list (pktsBA fi) ! unat (pktIdx fi)), sendPkt fi)]
      @ map (\<lambda>p. (p, True)) new) \<and>
    (if immediateTransition fi
     then slt \<noteq> Gone \<and>
       (\<exists>sm1. sm1 = (if slt = InTable then write_entry env (cID fi) (st fi') sm else sm) \<and>
        sm' = (if state (st fi') = endStateID sm then removeState env (cID fi) sm1 else sm1))
     else sm' = sm \<and> st fi' = st fi \<and> fi_sm fi' = fi_sm fi \<and> world fi' = world fi)"
proof -
  obtain ba where m: "(if \<not> sendPkt fi then markDropPkt (pktIdx fi) (pktsBA fi)
      else markSendPkt (pktIdx fi) (pktsBA fi)) = ret ba"
    using r by (auto simp: FunIface_destroy_def rbind_eq_ret)
  have wf: "ba_wf (pktsBA fi)" using ok by (simp add: fi_ok_def)
  note mm = mark_ret [OF wf m]
  let ?fi = "fi\<lparr>pktsBA := ba\<rparr>"
  have ok1: "fi_ok ?fi" using ok mm by (simp add: fi_ok_def)
  show ?thesis
  proof (cases "immediateTransition fi")
    case False
    then have "sm' = sm \<and> fi' = ?fi" using r m by (auto simp: FunIface_destroy_def)
    then show ?thesis using False mm ok1 by (auto intro: exI [of _ "[]"])
  next
    case True
    then have slt: "slt \<noteq> Gone" using r m by (auto simp: FunIface_destroy_def)
    obtain f p where f: "lookupFun sm (state (st fi)) = ret f" and run: "f p ?fi = ret fi'"
      and sm': "sm' = (let sm1 = if slt = InTable then write_entry env (cID fi') (st fi') sm else sm
        in if state (st fi') = endStateID sm1 then removeState env (cID fi') sm1 else sm1)"
      using r m True slt
      by (auto simp: FunIface_destroy_def rbind_eq_ret Let_def split: if_splits)
    have fr: "fi_frame ?fi fi'"
      using wb [OF lookupFun_mem [OF f]] ok1 run by (simp add: well_behaved_def)
    have e: "endStateID (write_entry env c s sm) = endStateID sm" for c s by (simp add: write_entry_def)
    show ?thesis
      using True slt mm fr fi_frame_ok [OF fr] sm' e
      by (auto simp: fi_frame_def Let_def)
  qed
qed


section \<open>One packet\<close>

definition cancel_timeout :: "State \<Rightarrow> ('c, 'p, 'w, 'k) smIface \<Rightarrow> ('c, 'p, 'w, 'k) smIface" where
  "cancel_timeout s ifc =
    (if timeoutID s = timeoutIDInvalid then ifc
     else ifc\<lparr>timeoutFunctions := (timeoutFunctions ifc)(timeoutID s := None)\<rparr>)"

text \<open>The interface a state function gets, with the timeout of the connection cancelled.\<close>

definition packet_iface ::
  "u32 \<Rightarrow> 'c \<Rightarrow> State \<Rightarrow> ('c, 'p, 'w, 'k, 'm, 'n) ctx \<Rightarrow> ('c, 'p, 'w, 'k) FunIface" where
  "packet_iface cur c s x =
    new_FunIface (cancel_timeout s (smi (c_sm x))) cur (c_batch x) c (s\<lparr>timeoutID := timeoutIDInvalid\<rparr>) (c_world x)"

lemma invalidate_timeout_eq:
  "invalidate_timeout s sm = (s\<lparr>timeoutID := timeoutIDInvalid\<rparr>, sm\<lparr>smi := cancel_timeout s (smi sm)\<rparr>)"
  by (simp add: invalidate_timeout_def cancel_timeout_def)

text \<open>The rest of \<open>runPkt\<close> once the connection is found.\<close>

definition run_found ::
  "('c, 'p, 'w, 'k, 'm, 'n) env \<Rightarrow> u32 \<Rightarrow> 'p \<Rightarrow> 'c \<Rightarrow> State \<Rightarrow> ('c, 'p, 'w, 'k, 'm, 'n) ctx \<Rightarrow>
     ('c, 'p, 'w, 'k, 'm, 'n) ctx res" where
  "run_found env cur pktIn c s x =
    (let (s, sm) = invalidate_timeout s (c_sm x); sm = write_entry env c s sm
     in rbind (lookupFun sm (state s)) (\<lambda>f.
        rbind (f pktIn (new_FunIface (smi sm) cur (c_batch x) c s (c_world x))) (\<lambda>fi.
        let sm = write_entry env c (st fi) sm;
            (slt, sm) = (if state (st fi) = endStateID sm
                         then (Gone, (removeState env c sm)\<lparr>stat_statesClosed := stat_statesClosed sm + 1\<rparr>)
                         else (InTable, sm))
        in rbind (FunIface_destroy env slt sm fi) (\<lambda>(sm, fi). ret (put_back sm fi x)))))"

definition run_dropped :: "u32 \<Rightarrow> ('c, 'p, 'w, 'k, 'm, 'n) ctx \<Rightarrow> ('c, 'p, 'w, 'k, 'm, 'n) ctx res" where
  "run_dropped cur x = rbind (markDropPkt cur (c_batch x)) (\<lambda>ba. ret (x\<lparr>c_batch := ba\<rparr>))"

lemma runPkt_eq:
  "runPkt env cur x =
    rbind (ba_get (c_batch x) cur) (\<lambda>p.
    case ident env (c_world x) p of None \<Rightarrow> run_dropped cur x
    | Some c \<Rightarrow> rbind (findState env c x) (\<lambda>(found, x).
        case found of None \<Rightarrow> run_dropped cur x | Some s \<Rightarrow> run_found env cur p c s x))"
  unfolding runPkt_def run_found_def run_dropped_def by (rule refl)

lemma invalidate_timeout_simps [simp]:
  "state (fst (invalidate_timeout s sm)) = state s"
  "stateTable (snd (invalidate_timeout s sm)) = stateTable sm"
  "sm_functions (snd (invalidate_timeout s sm)) = sm_functions sm"
  "endStateID (snd (invalidate_timeout s sm)) = endStateID sm"
  "timeoutsQ (smi (snd (invalidate_timeout s sm))) = timeoutsQ (smi sm)"
  "same_config sm (snd (invalidate_timeout s sm))"
  "stat_statesClosed (snd (invalidate_timeout s sm)) = stat_statesClosed sm"
  "stat_statesAdded (snd (invalidate_timeout s sm)) = stat_statesAdded sm"
  by (simp_all add: invalidate_timeout_def same_config_def)

lemma same_config_refl [simp]: "same_config sm sm"
  by (simp add: same_config_def)

lemma same_config_trans: "same_config a b \<Longrightarrow> same_config b c \<Longrightarrow> same_config a c"
  by (simp add: same_config_def)

text \<open>The machine when the state function has run, before the destructor of its interface does.\<close>

definition handled ::
  "('c, 'p, 'w, 'k, 'm, 'n) env \<Rightarrow> 'c \<Rightarrow> State \<Rightarrow> ('c, 'p, 'w, 'k) FunIface \<Rightarrow> ('c, 'p, 'w, 'k, 'm, 'n) ctx \<Rightarrow>
     ('c, 'p, 'w, 'k, 'm) SM" where
  "handled env c s fi x =
    (let sm = write_entry env c (st fi) (write_entry env c (s\<lparr>timeoutID := timeoutIDInvalid\<rparr>)
           ((c_sm x)\<lparr>smi := cancel_timeout s (smi (c_sm x))\<rparr>))
     in if state (st fi) = endStateID (c_sm x)
        then (removeState env c sm)\<lparr>stat_statesClosed := stat_statesClosed (c_sm x) + 1\<rparr> else sm)"

definition entry_slot :: "('c, 'p, 'w, 'k) FunIface \<Rightarrow> ('c, 'p, 'w, 'k, 'm, 'n) ctx \<Rightarrow> slot" where
  "entry_slot fi x = (if state (st fi) = endStateID (c_sm x) then Gone else InTable)"

lemma lookupFun_config: "sm_functions sm' = sm_functions sm \<Longrightarrow> lookupFun sm' = lookupFun sm"
  by (simp add: fun_eq_iff lookupFun_def)

lemma run_found_eq:
  "run_found env cur p c s x =
    rbind (lookupFun (c_sm x) (state s)) (\<lambda>f.
    rbind (f p (packet_iface cur c s x)) (\<lambda>fi.
    rbind (FunIface_destroy env (entry_slot fi x) (handled env c s fi x) fi) (\<lambda>(sm, fi). ret (put_back sm fi x))))"
proof -
  let ?sm = "write_entry env c (s\<lparr>timeoutID := timeoutIDInvalid\<rparr>) ((c_sm x)\<lparr>smi := cancel_timeout s (smi (c_sm x))\<rparr>)"
  have "lookupFun ?sm = lookupFun (c_sm x)" by (rule lookupFun_config) (simp add: write_entry_def)
  moreover have "smi ?sm = cancel_timeout s (smi (c_sm x))" by (simp add: write_entry_def)
  moreover have "endStateID (write_entry env c s' ?sm) = endStateID (c_sm x)"
    "stat_statesClosed (write_entry env c s' ?sm) = stat_statesClosed (c_sm x)" for s' by (simp_all add: write_entry_def)
  ultimately show ?thesis
    by (simp add: run_found_def invalidate_timeout_eq handled_def entry_slot_def packet_iface_def Let_def
        if_distrib [of "\<lambda>p. case p of (a, b) \<Rightarrow> _ a b"] cong: if_cong) (auto intro!: rbind_cong)
qed

lemma packet_iface_frame:
  assumes "fi_frame (packet_iface cur c s x) fi"
  shows "pktIdx fi = cur \<and> cID fi = c \<and> (\<forall>i < length (packets x). i < length (ba_list (pktsBA fi)) \<and> ba_list (pktsBA fi) ! i = packets x ! i)"
proof -
  obtain new where "ba_list (pktsBA fi) = packets x @ map (\<lambda>p. (p, True)) new"
    using assms by (auto simp: fi_frame_def packet_iface_def new_FunIface_def packets_def)
  then show ?thesis
    using assms by (simp add: fi_frame_def packet_iface_def new_FunIface_def nth_append del: length_ba_list)
qed

context machine_maps
begin

lemma write_entry_effect:
  assumes "tinv (stateTable sm)" and "hm_find (dense env) (stateTable sm) c \<noteq> None"
  shows "tinv (stateTable (write_entry env c s sm)) \<and>
    hm_find (dense env) (stateTable (write_entry env c s sm)) = (hm_find (dense env) (stateTable sm))(c \<mapsto> s)"
  using dm.find_set [OF assms] by (simp add: write_entry_def)

lemma removeState_effect:
  assumes "tinv (stateTable sm)" and "key_ok c"
  shows "tinv (stateTable (removeState env c sm)) \<and>
    hm_find (dense env) (stateTable (removeState env c sm)) = (hm_find (dense env) (stateTable sm))(c := None)"
  using dm.find_erase [OF assms] by (simp add: removeState_def)

lemma tbl_key: "ctx_ok tinv pinv x \<Longrightarrow> tbl env x c = Some s \<Longrightarrow> key_ok c"
  using dm.keys_ok [of "stateTable (c_sm x)"] by (simp add: ctx_ok_def tbl_def)

lemma handled_effect:
  assumes ok: "ctx_ok tinv pinv x" and hit: "tbl env x c = Some s"
  shows "tinv (stateTable (handled env c s fi x)) \<and> same_config (c_sm x) (handled env c s fi x) \<and>
    hm_find (dense env) (stateTable (handled env c s fi x)) =
      (tbl env x)(c := if state (st fi) = endStateID (c_sm x) then None else Some (st fi)) \<and>
    stat_statesClosed (handled env c s fi x) =
      stat_statesClosed (c_sm x) + (if state (st fi) = endStateID (c_sm x) then 1 else 0)"
proof -
  let ?s0 = "s\<lparr>timeoutID := timeoutIDInvalid\<rparr>" and ?sm0 = "(c_sm x)\<lparr>smi := cancel_timeout s (smi (c_sm x))\<rparr>"
  have t: "tinv (stateTable ?sm0)" using ok by (simp add: ctx_ok_def)
  have w1: "tinv (stateTable (write_entry env c ?s0 ?sm0))"
    "hm_find (dense env) (stateTable (write_entry env c ?s0 ?sm0)) = (tbl env x)(c \<mapsto> ?s0)"
    using write_entry_effect [OF t, of c ?s0] hit by (simp_all add: tbl_def)
  have w2: "tinv (stateTable (write_entry env c (st fi) (write_entry env c ?s0 ?sm0)))"
    "hm_find (dense env) (stateTable (write_entry env c (st fi) (write_entry env c ?s0 ?sm0))) = (tbl env x)(c \<mapsto> st fi)"
    using write_entry_effect [OF w1(1), of c "st fi"] w1(2) by simp_all
  show ?thesis
    using w2 removeState_effect [OF w2(1) tbl_key [OF ok hit]]
    by (auto simp: handled_def Let_def)
      (simp_all add: same_config_def removeState_def write_entry_def cancel_timeout_def)
qed

lemma called_frame:
  assumes ok: "ctx_ok tinv pinv x" and f: "lookupFun (c_sm x) (state s) = ret f"
    and run: "f p (packet_iface cur c s x) = ret fi"
  shows "fi_frame (packet_iface cur c s x) fi" and "fi_ok fi"
proof -
  have "fi_ok (packet_iface cur c s x)"
    using ok by (simp add: packet_iface_def new_FunIface_def fi_ok_def ctx_ok_def cancel_timeout_def)
  then show fr: "fi_frame (packet_iface cur c s x) fi"
    using lookupFun_well_behaved [OF ok f] run by (simp add: well_behaved_def)
  then show "fi_ok fi" using fi_frame_ok by blast
qed

text \<open>The destructor leaves the table with the connection in its next state, or without it.\<close>

lemma destroy_tbl:
  assumes d: "FunIface_destroy env slt sm fi = ret (sm', fi')" and ok: "fi_ok fi" and key: "key_ok (cID fi)"
    and wb: "\<And>f. Some f \<in> set (sm_functions sm) \<Longrightarrow> well_behaved f"
    and t: "tinv (stateTable sm)" "hm_find (dense env) (stateTable sm) = t(cID fi := if slt = Gone then None else Some (st fi))"
    and slt: "slt = (if state (st fi) = endStateID sm then Gone else InTable)"
  shows "tinv (stateTable sm') \<and> same_config sm sm' \<and>
    (\<exists>e. hm_find (dense env) (stateTable sm') = t(cID fi := e) \<and> (\<forall>s. e = Some s \<longrightarrow> state s \<noteq> endStateID sm))"
proof -
  let ?c = "cID fi"
  note D = destroy_effect [OF d ok wb]
  show ?thesis
  proof (cases "immediateTransition fi")
    case False
    then have "sm' = sm" using D by simp
    then show ?thesis using t slt by (auto split: if_splits)
  next
    case True
    then have "slt = InTable" using D slt by (auto split: if_splits)
    then have s1: "hm_find (dense env) (stateTable sm) ?c \<noteq> None"
      and sm': "sm' = (if state (st fi') = endStateID sm then removeState env ?c (write_entry env ?c (st fi') sm)
        else write_entry env ?c (st fi') sm)" using D True t(2) by auto
    note w = write_entry_effect [OF t(1) s1, of "st fi'"]
    have cfg: "same_config sm sm'" by (simp add: sm' removeState_def write_entry_def same_config_def)
    show ?thesis
    proof (cases "state (st fi') = endStateID sm")
      case True
      then have "hm_find (dense env) (stateTable sm') = t(?c := None) \<and> tinv (stateTable sm')"
        using removeState_effect [of "write_entry env ?c (st fi') sm" ?c] w key t(2) by (simp add: sm')
      then show ?thesis using cfg by blast
    qed (use w cfg t(2) in \<open>auto simp: sm'\<close>)
  qed
qed

lemma run_found_effect:
  assumes ok: "ctx_ok tinv pinv x" and hit: "tbl env x c = Some s"
    and len: "unat cur < length (packets x)" and r: "run_found env cur p c s x = ret x'"
  shows "ctx_ok tinv pinv x' \<and> same_config (c_sm x) (c_sm x') \<and> c_pools x' = c_pools x \<and>
    batch_step (unat cur) (packets x) (packets x') \<and>
    (\<exists>e. tbl env x' = (tbl env x)(c := e) \<and> (\<forall>s'. e = Some s' \<longrightarrow> state s' \<noteq> endStateID (c_sm x)))"
proof -
  obtain f fi sm' fi' where f: "lookupFun (c_sm x) (state s) = ret f" and run: "f p (packet_iface cur c s x) = ret fi"
    and d: "FunIface_destroy env (entry_slot fi x) (handled env c s fi x) fi = ret (sm', fi')" and x': "x' = put_back sm' fi' x"
    using r by (auto simp: run_found_eq rbind_eq_ret)
  note fr = called_frame [OF ok f run] and h = handled_effect [OF ok hit, of fi]
  note pf = packet_iface_frame [OF fr(1)]
  have cfg: "sm_functions (handled env c s fi x) = sm_functions (c_sm x)" "endStateID (handled env c s fi x) = endStateID (c_sm x)"
    using h by (simp_all add: same_config_def)
  have wb: "well_behaved g" if "Some g \<in> set (sm_functions (handled env c s fi x))" for g
    using ok that by (simp add: ctx_ok_def cfg)
  have T: "tinv (stateTable sm') \<and> same_config (handled env c s fi x) sm' \<and>
      (\<exists>e. hm_find (dense env) (stateTable sm') = (tbl env x)(c := e) \<and> (\<forall>s'. e = Some s' \<longrightarrow> state s' \<noteq> endStateID (c_sm x)))"
    using destroy_tbl [OF d fr(2) _ wb, of "tbl env x"] h pf cfg tbl_key [OF ok hit] by (simp add: entry_slot_def)
  note D = destroy_effect [OF d fr(2) wb]
  have cb: "getPktCB (fi_sm fi') = getPktCB (smi (c_sm x))"
    using D fr(1) by (simp add: fi_frame_def packet_iface_def new_FunIface_def cancel_timeout_def)
  have same: "same_config (c_sm x) (c_sm x')"
    using h T cb unfolding x' by (auto simp: same_config_def put_back_def)
  have "\<exists>n1. ba_list (pktsBA fi) = packets x @ map (\<lambda>p. (p, True)) n1"
    using fr(1) by (simp add: fi_frame_def packet_iface_def new_FunIface_def packets_def)
  then obtain n1 n2 where 1: "ba_list (pktsBA fi) = packets x @ map (\<lambda>p. (p, True)) n1"
    and 2: "packets x' = (ba_list (pktsBA fi))[unat cur := (fst (ba_list (pktsBA fi) ! unat cur), sendPkt fi)]
       @ map (\<lambda>p. (p, True)) n2"
    using D pf by (auto simp: x' put_back_def packets_def)
  have "batch_step (unat cur) (packets x) (packets x')"
    unfolding 2 unfolding 1 by (intro batch_step_append batch_step_append_mark len)
  moreover have "ctx_ok tinv pinv x'"
    using ok D T same by (simp add: ctx_ok_def x' put_back_def fi_ok_def same_config_def)
  ultimately show ?thesis using same T by (simp add: x' put_back_def tbl_def)
qed

end


context machine_maps
begin

text \<open>What a lookup that returns \<open>found\<close> has done.\<close>

definition lookup_effect ::
  "'c \<Rightarrow> ('c, 'p, 'w, 'k, 'm, 'n) ctx \<Rightarrow> State option \<Rightarrow> ('c, 'p, 'w, 'k, 'm, 'n) ctx \<Rightarrow> bool" where
  "lookup_effect c x found x1 \<longleftrightarrow> ctx_ok tinv pinv x1 \<and> same_config (c_sm x) (c_sm x1) \<and> c_batch x1 = c_batch x \<and>
    tbl env x1 = (tbl env x)(c := found) \<and> only_touches env c x x1 \<and>
    my_pool env x1 \<subseteq>\<^sub>m my_pool env x \<and> (found = None \<longrightarrow> x1 = x)"

lemma lookup_same: "ctx_ok tinv pinv x \<Longrightarrow> found = tbl env x c \<Longrightarrow> lookup_effect c x found x"
  by (auto simp: lookup_effect_def only_touches_def map_le_def)

lemma adopt_effect:
  assumes ok: "ctx_ok tinv pinv x" and key: "key_ok c" and miss: "tbl env x c = None"
  shows "lookup_effect c x (Some s) (adopt env c s x)"
proof -
  let ?x1 = "adopt env c s x"
  have t: "tinv (stateTable (c_sm x))" and p: "pinv (c_pools x (connPool (c_sm x)))" using ok by (simp_all add: ctx_ok_def)
  note e = pm.find_erase [OF p, of c, simplified] and a = tbl_adopt [OF t key miss, of s]
  have pool: "pool_at env ?x1 i = (if i = connPool (c_sm x) then (pool_at env x i)(c := None) else pool_at env x i)" for i
    using e by (simp add: adopt_def pool_at_def)
  have "ctx_ok tinv pinv ?x1" using ok a e by (simp add: ctx_ok_def adopt_def)
  moreover have "my_pool env ?x1 \<subseteq>\<^sub>m my_pool env x" using pool by (auto simp: my_pool_def adopt_def map_le_def)
  ultimately show ?thesis
    using a pool by (auto simp: lookup_effect_def only_touches_def) (simp_all add: adopt_def same_config_def)
qed

lemma accept_effect:
  assumes ok: "ctx_ok tinv pinv x" and key: "key_ok c" and miss: "tbl env x c = None"
  shows "lookup_effect c x (Some (State_of (startStateID (c_sm x)) sdata)) (accept env c sdata w x)"
proof -
  let ?x1 = "accept env c sdata w x"
  have t: "tinv (stateTable (c_sm x))" using ok by (simp add: ctx_ok_def)
  note a = tbl_accept [OF t key miss, of sdata w]
  have "ctx_ok tinv pinv ?x1" using ok a by (simp add: ctx_ok_def accept_def)
  moreover have "\<forall>i. pool_at env ?x1 i = pool_at env x i" by (simp add: accept_def pool_at_def)
  ultimately show ?thesis
    using a by (auto simp: lookup_effect_def only_touches_def my_pool_def map_le_def)
      (simp_all add: accept_def same_config_def)
qed

lemma findState_effect:
  assumes ok: "ctx_ok tinv pinv x" and key: "key_ok c" and r: "findState env c x = ret (found, x1)"
  shows "ctx_ok tinv pinv x1 \<and> same_config (c_sm x) (c_sm x1) \<and> c_batch x1 = c_batch x \<and>
    tbl env x1 = (tbl env x)(c := found) \<and> only_touches env c x x1 \<and>
    my_pool env x1 \<subseteq>\<^sub>m my_pool env x \<and> (found = None \<longrightarrow> x1 = x)"
proof -
  have t: "tinv (stateTable (c_sm x))" using ok by (simp add: ctx_ok_def)
  have "lookup_effect c x found x1"
  proof (cases "tbl env x c")
    case (Some s)
    then show ?thesis using r findState_eq [OF t key] lookup_same [OF ok, of found c] by simp
  next
    case None
    show ?thesis
    proof (cases "my_pool env x c")
      case (Some s)
      then show ?thesis using r findState_eq [OF t key] None adopt_effect [OF ok key None, of s] by auto
    next
      case no_pool: None
      show ?thesis
      proof (cases "listenToConnections (c_sm x)")
        case True
        then show ?thesis using r findState_eq [OF t key] None no_pool accept_effect [OF ok key None]
          by (auto simp: rbind_eq_ret)
      next
        case False
        then show ?thesis using r findState_eq [OF t key] None no_pool lookup_same [OF ok, of found c] by simp
      qed
    qed
  qed
  then show ?thesis by (simp add: lookup_effect_def)
qed

lemma run_dropped_effect:
  assumes ok: "ctx_ok tinv pinv x" and len: "unat cur < length (packets x)"
  shows "\<exists>ba. run_dropped cur x = ret (x\<lparr>c_batch := ba\<rparr>) \<and> ctx_ok tinv pinv (x\<lparr>c_batch := ba\<rparr>) \<and>
    ba_list ba = marks_dropped (unat cur) (packets x)"
  using markDropPkt_spec [of "c_batch x" cur] ok len
  by (auto simp: run_dropped_def ctx_ok_def marks_dropped_def packets_def word_less_nat_alt)

lemma ba_get_packets:
  assumes ok: "ctx_ok tinv pinv x" and len: "unat cur < length (packets x)"
  shows "ba_get (c_batch x) cur = ret (fst (packets x ! unat cur))"
  using ba_get_wf [of "c_batch x" cur] ok len by (simp add: ctx_ok_def packets_def word_less_nat_alt)

end

context machine_env
begin

text \<open>What one packet can change, whatever the state functions do.\<close>

definition pkt_effect :: "'c option \<Rightarrow> ('c, 'p, 'w, 'k, 'm, 'n) ctx \<Rightarrow> ('c, 'p, 'w, 'k, 'm, 'n) ctx \<Rightarrow> bool" where
  "pkt_effect oc x x' \<longleftrightarrow> ctx_ok tinv pinv x' \<and> same_config (c_sm x) (c_sm x') \<and>
    (case oc of None \<Rightarrow> c_sm x' = c_sm x \<and> c_pools x' = c_pools x
     | Some c \<Rightarrow> only_touches env c x x' \<and> my_pool env x' \<subseteq>\<^sub>m my_pool env x \<and>
         (\<forall>s. tbl env x' c = Some s \<longrightarrow> state s \<noteq> endStateID (c_sm x)))"

lemma pkt_effect_found:
  assumes ok: "ctx_ok tinv pinv x" and key: "key_ok c" and f: "findState env c x = ret (Some s, x1)"
    and len: "unat cur < length (packets x)" and r: "run_found env cur p c s x1 = ret x'"
  shows "batch_step (unat cur) (packets x) (packets x') \<and> pkt_effect (Some c) x x'"
proof -
  note fe = findState_effect [OF ok key f]
  have pk: "packets x1 = packets x" using fe by (simp add: packets_def)
  have rf: "ctx_ok tinv pinv x' \<and> same_config (c_sm x1) (c_sm x') \<and> c_pools x' = c_pools x1 \<and>
    batch_step (unat cur) (packets x) (packets x') \<and>
    (\<exists>e. tbl env x' = (tbl env x1)(c := e) \<and> (\<forall>s'. e = Some s' \<longrightarrow> state s' \<noteq> endStateID (c_sm x1)))"
    using run_found_effect [of x1 c s cur p x'] fe len r by (simp add: pk)
  then have e: "endStateID (c_sm x1) = endStateID (c_sm x)" "connPool (c_sm x') = connPool (c_sm x)"
    "connPool (c_sm x1) = connPool (c_sm x)"
    using fe by (simp_all add: same_config_def)
  have pools: "pool_at env x' = pool_at env x1" using rf by (simp add: fun_eq_iff pool_at_def)
  have "only_touches env c x x'" using fe rf pools by (auto simp: only_touches_def)
  moreover have "my_pool env x' \<subseteq>\<^sub>m my_pool env x" using fe pools e by (simp add: my_pool_def)
  ultimately show ?thesis using fe rf same_config_trans e by (fastforce simp: pkt_effect_def)
qed

lemma runPkt_effect:
  assumes ok: "ctx_ok tinv pinv x" and len: "unat cur < length (packets x)"
    and r: "runPkt env cur x = ret x'"
  shows "batch_step (unat cur) (packets x) (packets x') \<and>
    pkt_effect (ident env (c_world x) (fst (packets x ! unat cur))) x x'"
proof -
  let ?p = "fst (packets x ! unat cur)"
  note eq = runPkt_eq [of env cur x, unfolded ba_get_packets [OF ok len] rbind_simps]
  obtain ba where d: "run_dropped cur x = ret (x\<lparr>c_batch := ba\<rparr>)" "ctx_ok tinv pinv (x\<lparr>c_batch := ba\<rparr>)"
    "ba_list ba = marks_dropped (unat cur) (packets x)"
    using run_dropped_effect [OF ok len] by blast
  have dropped: "batch_step (unat cur) (packets x) (packets (x\<lparr>c_batch := ba\<rparr>))"
    using d(3) batch_step_mark by (simp add: packets_def marks_dropped_def)
  show ?thesis
  proof (cases "ident env (c_world x) ?p")
    case None
    then have "x' = x\<lparr>c_batch := ba\<rparr>" using r eq d by simp
    then show ?thesis using None dropped d by (simp add: pkt_effect_def)
  next
    case (Some c)
    note key = ident_ok [OF Some]
    obtain found x1 where f: "findState env c x = ret (found, x1)"
      and r1: "(case found of None \<Rightarrow> run_dropped cur x1 | Some s \<Rightarrow> run_found env cur ?p c s x1) = ret x'"
      using r eq Some by (auto simp: rbind_eq_ret)
    note fe = findState_effect [OF ok key f]
    show ?thesis
    proof (cases found)
      case None
      then have x1: "x1 = x" and miss: "tbl env x c = None" using fe
        by simp_all (metis fe fun_upd_same)
      then have "x' = x\<lparr>c_batch := ba\<rparr>" using r1 d None by simp
      then show ?thesis
        using Some dropped d(2) miss
        by (auto simp: pkt_effect_def only_touches_def view_defs)
    next
      case (Some s)
      then show ?thesis using pkt_effect_found [OF ok key, of s x1 cur ?p x'] f r1 len \<open>ident env _ _ = Some c\<close> by simp
    qed
  qed
qed

end


section \<open>Timeouts\<close>

lemma mark_no_packet:
  "markDropPkt (- 1) ba = fail AssertFail" "markSendPkt (- 1) ba = fail AssertFail"
  by (simp_all add: mark_out_of_range)

lemma rbind_total: "\<exists>y. m = ret y \<Longrightarrow> rbind m (\<lambda>_. fail e) = fail e"
  by auto

lemma destroy_no_packet: "pktIdx fi = - 1 \<Longrightarrow> FunIface_destroy env slt sm fi = fail AssertFail"
  by (simp add: FunIface_destroy_def mark_no_packet)

context machine_maps
begin

text \<open>A timeout function is run with no packet, so its \<open>FunIface\<close> cannot be destroyed.\<close>

lemma fire_timeout_eq:
  "fire_timeout env tid c k x = rbind (findState env c x) (\<lambda>(found, x).
     case found of None \<Rightarrow> fail AssertFail
     | Some s \<Rightarrow> rbind (timeoutFun env k (new_FunIface
           (smi (write_entry env c (s\<lparr>timeoutID := timeoutIDInvalid\<rparr>) (c_sm x))) (- 1) (c_batch x) c
           (s\<lparr>timeoutID := timeoutIDInvalid\<rparr>) (c_world x))) (\<lambda>_. fail AssertFail))"
proof -
  have pkt: "pktIdx fi = - 1"
    if "timeoutFun env k (new_FunIface sm (- 1) ba c s w) = ret fi" for sm ba s w fi
    using timeout_ok [OF that] by (simp add: new_FunIface_def)
  show ?thesis
    unfolding fire_timeout_def
    by (rule rbind_cong)
      (auto simp: Let_def split_beta destroy_no_packet pkt intro!: rbind_cong split: option.split)
qed

lemma fire_timeout_asserts:
  assumes "tinv (stateTable (c_sm x))" and "key_ok c" and "\<forall>fi. \<exists>fi'. timeoutFun env k fi = ret fi'"
    and "\<forall>f v. startStateFun (c_sm x) = Some f \<longrightarrow> (\<exists>r. f c v = ret r)"
  shows "fire_timeout env tid c k x = fail AssertFail"
proof -
  have "\<exists>r. start_data c x = ret r" using assms(4) by (auto simp: start_data_def split: option.split)
  then have "\<exists>found x1. findState env c x = ret (found, x1)"
    using findState_eq [OF assms(1,2)] by (cases "listenToConnections (c_sm x)") (auto split: option.split)
  then obtain found x1 where "findState env c x = ret (found, x1)" by blast
  then show ?thesis using assms(3) by (simp add: fire_timeout_eq rbind_total split: option.split)
qed

lemma fire_timeout_fails: "fire_timeout env tid c k x \<noteq> ret x'"
  by (auto simp: fire_timeout_eq rbind_eq_ret split: option.splits)

lemma pop_timeout_ok:
  assumes "ctx_ok tinv pinv x" and "pq_top (timeoutsQ (smi (c_sm x))) = Some t"
  shows "ctx_ok tinv pinv (x\<lparr>c_world := w, c_sm := (c_sm x)\<lparr>smi := (smi (c_sm x))
     \<lparr>timeoutsQ := pq_pop (timeoutsQ (smi (c_sm x)))\<rparr>\<rparr>\<rparr>)"
  using tq.pop [OF _ assms(2)] assms(1) by (simp add: ctx_ok_def)

text \<open>Whatever the loop over the timeouts does when it returns: it drops queue entries.\<close>

definition only_timers :: "('c, 'p, 'w, 'k, 'm, 'n) ctx \<Rightarrow> ('c, 'p, 'w, 'k, 'm, 'n) ctx \<Rightarrow> bool" where
  "only_timers x x' \<longleftrightarrow> ctx_ok tinv pinv x' \<and>
     (\<exists>q w. x' = x\<lparr>c_world := w, c_sm := (c_sm x)\<lparr>smi := (smi (c_sm x))\<lparr>timeoutsQ := q\<rparr>\<rparr>\<rparr> \<and>
        mset q \<subseteq># mset (timeoutsQ (smi (c_sm x))) \<and>
        (\<forall>t \<in># mset (timeoutsQ (smi (c_sm x))) - mset q. timeoutFunctions (smi (c_sm x)) (t_timeoutID t) = None))"

lemma only_timersI:
  assumes "ctx_ok tinv pinv x" and "x' = x\<lparr>c_world := w\<rparr>"
  shows "only_timers x x'"
proof -
  have "x' = x\<lparr>c_world := w, c_sm := (c_sm x)\<lparr>smi := (smi (c_sm x))\<lparr>timeoutsQ := timeoutsQ (smi (c_sm x))\<rparr>\<rparr>\<rparr>"
    using assms(2) by simp
  moreover have "ctx_ok tinv pinv x'" using assms by (simp add: ctx_ok_def)
  ultimately show ?thesis unfolding only_timers_def
    by (intro conjI exI [of _ "timeoutsQ (smi (c_sm x))"] exI [of _ w]) simp_all
qed

text \<open>One turn of the loop.\<close>

definition popped :: "'w \<Rightarrow> ('c, 'p, 'w, 'k, 'm, 'n) ctx \<Rightarrow> ('c, 'p, 'w, 'k, 'm, 'n) ctx" where
  "popped w x = x\<lparr>c_world := w, c_sm := (c_sm x)\<lparr>smi := (smi (c_sm x))\<lparr>timeoutsQ := pq_pop (timeoutsQ (smi (c_sm x)))\<rparr>\<rparr>\<rparr>"

lemma run_timeouts_turn:
  assumes "run_timeouts env x = ret x'"
  obtains (stop) w where "x' = x\<lparr>c_world := w\<rparr>"
  | (dead) t w where "pq_top (timeoutsQ (smi (c_sm x))) = Some t" "timeoutFunctions (smi (c_sm x)) (t_timeoutID t) = None"
      "run_timeouts env (popped w x) = ret x'"
proof (cases "pq_top (timeoutsQ (smi (c_sm x)))")
  case None
  then have "x' = x\<lparr>c_world := c_world x\<rparr>" using assms by (subst (asm) run_timeouts.simps) simp
  then show ?thesis by (rule stop)
next
  case (Some t)
  obtain now w where clk: "clock env (c_world x) = (now, w)" by fastforce
  show ?thesis
  proof (cases "t_time t > now")
    case True
    then show ?thesis using assms Some clk stop [of w] by (subst (asm) run_timeouts.simps) simp
  next
    case due: False
    show ?thesis
    proof (cases "timeoutFunctions (smi (c_sm x)) (t_timeoutID t)")
      case None
      then show ?thesis using assms Some clk due dead [of t w] unfolding popped_def by (subst (asm) run_timeouts.simps) simp
    next
      case ck: (Some ck)
      obtain c k where "ck = (c, k)" by fastforce
      then have "rbind (fire_timeout env (t_timeoutID t) c k (x\<lparr>c_world := w\<rparr>)) (run_timeouts env) = ret x'"
        using assms Some clk due ck by (subst (asm) run_timeouts.simps) simp
      then show ?thesis using fire_timeout_fails by (auto simp: rbind_eq_ret)
    qed
  qed
qed

lemma only_timers_popped:
  assumes ok: "ctx_ok tinv pinv x" and top: "pq_top (timeoutsQ (smi (c_sm x))) = Some t"
    and gone: "timeoutFunctions (smi (c_sm x)) (t_timeoutID t) = None" and o: "only_timers (popped w x) x'"
  shows "only_timers x x'"
proof -
  let ?Q = "timeoutsQ (smi (c_sm x))"
  have Q: "mset ?Q = add_mset t (mset (pq_pop ?Q))" using tq.pop [OF _ top] ok by (simp add: ctx_ok_def)
  obtain q w' where x': "x' = (popped w x)\<lparr>c_world := w', c_sm := (c_sm (popped w x))\<lparr>smi := (smi (c_sm (popped w x)))\<lparr>timeoutsQ := q\<rparr>\<rparr>\<rparr>"
    and ok': "ctx_ok tinv pinv x'" and sub: "mset q \<subseteq># mset (pq_pop ?Q)"
    and dead: "\<forall>u \<in># mset (pq_pop ?Q) - mset q. timeoutFunctions (smi (c_sm x)) (t_timeoutID u) = None"
    using o by (auto simp: only_timers_def popped_def)
  have diff: "mset ?Q - mset q = add_mset t (mset (pq_pop ?Q) - mset q)"
    unfolding Q using sub by (simp add: subset_mset.add_diff_assoc2 multiset_eq_iff subseteq_mset_def Suc_diff_le)
  have "mset q \<subseteq># mset ?Q" unfolding Q using sub by (simp add: subset_mset.order_trans [OF sub])
  moreover have "x' = x\<lparr>c_world := w', c_sm := (c_sm x)\<lparr>smi := (smi (c_sm x))\<lparr>timeoutsQ := q\<rparr>\<rparr>\<rparr>"
    by (simp add: x' popped_def)
  ultimately show ?thesis
    unfolding only_timers_def using ok' dead gone diff
    by (intro conjI exI [of _ q] exI [of _ w']) simp_all
qed

lemma run_timeouts_effect:
  assumes "ctx_ok tinv pinv x" and "run_timeouts env x = ret x'"
  shows "only_timers x x'"
  using assms
proof (induction "length (timeoutsQ (smi (c_sm x)))" arbitrary: x rule: less_induct)
  case less
  from less.prems(2) show ?case
  proof (cases rule: run_timeouts_turn)
    case (stop w)
    then show ?thesis by (rule only_timersI [OF less.prems(1)])
  next
    case (dead t w)
    have "length (timeoutsQ (smi (c_sm (popped w x)))) < length (timeoutsQ (smi (c_sm x)))"
      using tq.pop_size [OF _ dead(1)] less.prems(1) by (simp add: popped_def ctx_ok_def)
    then have "only_timers (popped w x) x'"
      using less.hyps pop_timeout_ok [OF less.prems(1) dead(1)] dead(3) by (simp add: popped_def)
    then show ?thesis by (rule only_timers_popped [OF less.prems(1) dead(1,2)])
  qed
qed

end


section \<open>Whole batches\<close>

text \<open>
  The effect of a batch of \<open>n\<close> packets: they keep their places and get new marks; whatever is
  appended is to be sent.
\<close>

definition batch_run :: "nat \<Rightarrow> ('p \<times> bool) list \<Rightarrow> ('p \<times> bool) list \<Rightarrow> bool" where
  "batch_run n l l' \<longleftrightarrow>
     (\<exists>bs new. length bs = n \<and> l' = zip (map fst (take n l)) bs @ drop n l @ map (\<lambda>p. (p, True)) new)"

lemma batch_run_refl: "n \<le> length l \<Longrightarrow> batch_run n l l"
  unfolding batch_run_def
  by (rule exI [of _ "map snd (take n l)"], rule exI [of _ "[]"]) (simp add: zip_map_fst_snd)

lemma batch_run_step:
  assumes "batch_run n l l'" and "batch_step i l' l''" and "i < n" and "n \<le> length l"
  shows "batch_run n l l''"
proof -
  obtain bs new where bs: "length bs = n"
    and l': "l' = zip (map fst (take n l)) bs @ drop n l @ map (\<lambda>p. (p, True)) new"
    using assms(1) by (auto simp: batch_run_def)
  obtain b new' where l'': "l'' = l'[i := (fst (l' ! i), b)] @ map (\<lambda>p. (p, True)) new'"
    using assms(2) by (auto simp: batch_step_def)
  have i: "i < length (zip (map fst (take n l)) bs)" using assms(3,4) bs by simp
  have "fst (l' ! i) = map fst (take n l) ! i" using i by (simp add: l' nth_append)
  then have "l'[i := (fst (l' ! i), b)]
      = zip (map fst (take n l)) (bs[i := b]) @ drop n l @ map (\<lambda>p. (p, True)) new"
    using i list_update_id [of "map fst (take n l)" i]
    by (simp add: l' list_update_append1 update_zip del: list_update_id)
  then have "l'' = zip (map fst (take n l)) (bs[i := b]) @ drop n l @ map (\<lambda>p. (p, True)) (new @ new')"
    by (simp add: l'')
  moreover have "length (bs[i := b]) = n" using bs by simp
  ultimately show ?thesis unfolding batch_run_def by blast
qed

text \<open>The packets present before and after, counted: nothing is lost, nothing duplicated.\<close>

lemma batch_run_mset:
  assumes "batch_run (length l) l l'"
  shows "\<exists>new. mset (map fst l') = mset (map fst l) + mset new"
proof -
  obtain bs new where "length bs = length l" and "l' = zip (map fst l) bs @ map (\<lambda>p. (p, True)) new"
    using assms by (auto simp: batch_run_def)
  then have "map fst l' = map fst l @ new" by (simp add: o_def)
  then have "mset (map fst l') = mset (map fst l) + mset new" by simp
  then show ?thesis ..
qed

context machine_env
begin

lemma pkt_effect_no_end: "pkt_effect oc x x' \<Longrightarrow> no_end env x \<Longrightarrow> no_end env x'"
proof (cases oc)
  case None
  moreover assume "pkt_effect oc x x'" "no_end env x"
  ultimately show "no_end env x'" by (simp add: pkt_effect_def no_end_def view_defs)
next
  case (Some c)
  moreover assume e: "pkt_effect oc x x'" and n: "no_end env x"
  ultimately have cfg: "same_config (c_sm x) (c_sm x')" and only: "only_touches env c x x'"
    and pool: "my_pool env x' \<subseteq>\<^sub>m my_pool env x"
    and c: "\<And>s. tbl env x' c = Some s \<Longrightarrow> state s \<noteq> endStateID (c_sm x)"
    by (simp_all add: pkt_effect_def)
  have "state s \<noteq> endStateID (c_sm x)" if "tbl env x' c' = Some s" for c' s
    using that only n c by (cases "c' = c") (auto simp: only_touches_def no_end_def ran_def)
  moreover have "state s \<noteq> endStateID (c_sm x)" if "my_pool env x' c' = Some s" for c' s
  proof -
    have "my_pool env x c' = Some s" using pool that by (force simp: map_le_def dom_def)
    then show ?thesis using n by (auto simp: no_end_def ran_def)
  qed
  ultimately show "no_end env x'" using cfg n by (auto simp: no_end_def same_config_def ran_def)
qed

lemma run_from_effect:
  assumes "ctx_ok tinv pinv x" and "unat i + k \<le> n" and "n \<le> length (packets x)"
    and "run_from env k i x = ret x'"
  shows "ctx_ok tinv pinv x' \<and> same_config (c_sm x) (c_sm x') \<and> batch_run n (packets x) (packets x') \<and>
    (no_end env x \<longrightarrow> no_end env x')"
proof -
  have "ctx_ok tinv pinv x' \<and> same_config (c_sm x) (c_sm x') \<and> batch_run n l (packets x') \<and>
      (no_end env x \<longrightarrow> no_end env x')"
    if "batch_run n l (packets x)" "n \<le> length l" for l
    using assms that
  proof (induction k arbitrary: i x)
    case 0
    then show ?case by simp
  next
    case (Suc k)
    obtain y where y: "runPkt env i x = ret y" and rest: "run_from env k (i + 1) y = ret x'"
      using Suc.prems(4) by (auto simp: rbind_eq_ret)
    have i: "unat i < n" "unat i < length (packets x)" using Suc.prems(2,3) by simp_all
    note e = runPkt_effect [OF Suc.prems(1) i(2) y]
    let ?oc = "ident env (c_world x) (fst (packets x ! unat i))"
    have pe: "pkt_effect ?oc x y" and st: "batch_step (unat i) (packets x) (packets y)"
      using e by simp_all
    have "unat (i + 1) = Suc (unat i)"
      using i(2) by (intro unat_inc [of _ "numBufs (c_batch x)"]) (simp add: packets_def)
    then have "unat (i + 1) + k \<le> n" using Suc.prems(2) by simp
    moreover have "n \<le> length (packets y)"
      using st Suc.prems(3) by (auto simp: batch_step_def)
    moreover have "batch_run n l (packets y)"
      using batch_run_step [OF Suc.prems(5) st i(1)] Suc.prems(6) by simp
    ultimately have "ctx_ok tinv pinv x' \<and> same_config (c_sm y) (c_sm x') \<and> batch_run n l (packets x') \<and>
        (no_end env y \<longrightarrow> no_end env x')"
      using Suc.IH [of y "i + 1"] pe rest Suc.prems(6) by (simp add: pkt_effect_def)
    then show ?case
      using pe pkt_effect_no_end [OF pe] same_config_trans by (auto simp: pkt_effect_def)
  qed
  then show ?thesis using batch_run_refl [OF assms(3)] assms(3) by simp
qed

lemma runPktBatch_effect:
  assumes ok: "ctx_ok tinv pinv x" and r: "runPktBatch env x = ret x'"
  shows "ctx_ok tinv pinv x' \<and> same_config (c_sm x) (c_sm x') \<and>
    batch_run (length (packets x)) (packets x) (packets x') \<and> (no_end env x \<longrightarrow> no_end env x')"
proof -
  obtain y where y: "run_timeouts env x = ret y"
    and run: "run_from env (unat (numBufs (c_batch x))) 0 y = ret x'"
    using r by (auto simp: runPktBatch_def getTotalCount_def rbind_eq_ret)
  have t: "ctx_ok tinv pinv y" and same: "packets y = packets x" "same_config (c_sm x) (c_sm y)"
    "no_end env x \<longrightarrow> no_end env y"
    using run_timeouts_effect [OF ok y]
    by (auto simp: only_timers_def same_config_def no_end_def view_defs)
  have "unat (0 :: u32) + unat (numBufs (c_batch x)) \<le> length (packets x)" by (simp add: packets_def)
  from run_from_effect [OF t this _ run] same show ?thesis
    using same_config_trans by auto
qed

end


end
