(* ===== verification/State_Machine_Props.thy ===== *)
theory State_Machine_Props
  imports State_Machine_Spec
begin

text \<open>
  The properties of the state machine, each with an example it applies to.  The examples run
  on a small machine: connections and packets are numbers, packet \<open>0\<close> is not identified,
  packet \<open>p\<close> belongs to connection \<open>p\<close>, both tables are association lists.
\<close>

section \<open>A small machine\<close>

definition ex_keep :: "(nat, nat, unit, unit) stateFun" where
  "ex_keep p fi = ret (transition 1 fi)"

definition ex_close :: "(nat, nat, unit, unit) stateFun" where
  "ex_close p fi = ret (freePkt (transition 3 fi))"

definition ex_now :: "(nat, nat, unit, unit) stateFun" where
  "ex_now p fi = ret (transitionNow 1 fi)"

definition ex_now_end :: "(nat, nat, unit, unit) stateFun" where
  "ex_now_end p fi = ret (transitionNow 3 fi)"

definition ex_env :: "(nat, nat, unit, unit, (nat \<times> State) list, (nat \<times> State) list) env" where
  "ex_env = \<lparr>dense = alist_ops, poolOps = alist_ops, ident = \<lambda>w p. if p = 0 then None else Some p,
     clock = \<lambda>w. (100, w), timeoutFun = \<lambda>k fi. ret (transition 3 fi)\<rparr>"

definition ex_sm :: "(nat, nat, unit, unit, (nat \<times> State) list) SM" where
  "ex_sm = (registerEndStateID 3 (registerFunction 0 (Some ex_keep) (registerFunction 1 (Some ex_close)
     (registerFunction 2 (Some ex_now) (registerFunction 4 (Some ex_now_end) (new_StateMachine ex_env))))))"

definition ex_ctx ::
  "(nat \<times> State) list \<Rightarrow> (nat \<times> State) list \<Rightarrow> nat list \<Rightarrow> (nat, nat, unit, unit, (nat \<times> State) list, (nat \<times> State) list) ctx" where
  "ex_ctx t p ps =
    \<lparr>c_sm = ex_sm\<lparr>stateTable := t\<rparr>, c_pools = (\<lambda>i. if i = 0 then p else []),
     c_batch = \<lparr>pkts = map Some ps, sendMask = replicate (length ps) True, numBufs = of_nat (length ps),
                numSlots = of_nat (length ps), fromLua = False\<rparr>, c_world = ()\<rparr>"

lemma ex_env_maps: "machine_maps ex_env (alist_inv (\<lambda>_. True)) (alist_inv (\<lambda>_. True)) (\<lambda>_. True)"
proof (rule machine_maps.intro)
  show "hash_map (dense ex_env) (alist_inv (\<lambda>_. True)) (\<lambda>_. True)"
    using alist.hash_map_axioms by (simp add: ex_env_def)
  show "hash_map (poolOps ex_env) (alist_inv (\<lambda>_. True)) (\<lambda>_. True)"
    using alist.hash_map_axioms by (simp add: ex_env_def)
qed (auto simp: ex_env_def transition_def)

lemma ex_env_machine: "machine_env ex_env (alist_inv (\<lambda>_. True)) (alist_inv (\<lambda>_. True)) (\<lambda>_. True)"
  by (intro machine_env.intro ex_env_maps machine_env_axioms.intro) simp

lemma ex_well_behaved:
  "well_behaved ex_keep" "well_behaved ex_close" "well_behaved ex_now" "well_behaved ex_now_end"
proof -
  have f: "fi_frame fi (freePkt (transition s fi))" if "fi_ok fi" for s and fi :: "(nat, nat, unit, unit) FunIface"
    using fi_frame_step(2) [OF that, of s]
      fi_frame_step(1) [OF fi_frame_ok [OF fi_frame_step(2) [OF that, of s]]] by (rule fi_frame_trans)
  show "well_behaved ex_keep" "well_behaved ex_close" "well_behaved ex_now" "well_behaved ex_now_end"
    using f by (auto simp: well_behaved_def ex_keep_def ex_close_def ex_now_def ex_now_end_def
        intro: fi_frame_step)
qed

lemma ex_sm_fields [simp]:
  "sm_functions ex_sm = [Some ex_keep, Some ex_close, Some ex_now, None, Some ex_now_end]"
  "endStateID ex_sm = 3" "listenToConnections ex_sm = False" "connPool ex_sm = 0"
  "smi ex_sm = \<lparr>getPktCB = None, curTimeoutID = 0, timeoutsQ = [], timeoutFunctions = Map.empty\<rparr>"
  "stat_statesClosed ex_sm = 0" "stat_statesAdded ex_sm = 0"
  by (simp_all add: ex_sm_def registerEndStateID_def registerFunction_def new_StateMachine_def Let_def)
    (simp add: numeral_eq_Suc)

lemma ex_ctx_ok:
  assumes "distinct (map fst t)" and "distinct (map fst p)" and "ps \<noteq> []" and "length ps < 2 ^ 32"
  shows "ctx_ok (alist_inv (\<lambda>_. True)) (alist_inv (\<lambda>_. True)) (ex_ctx t p ps)"
proof -
  have n: "unat (of_nat (length ps) :: u32) = length ps" using assms(4) by (simp add: unat_of_nat_less)
  then have "(0 :: u32) < of_nat (length ps)" using assms(3) by (simp add: word_less_nat_alt)
  then show ?thesis
    using assms n ex_well_behaved
    by (auto simp: ctx_ok_def ex_ctx_def alist_inv_def ba_wf_def pq_inv_def)
qed

lemma ex_views [simp]:
  "tbl ex_env (ex_ctx t p ps) = map_of t"
  "my_pool ex_env (ex_ctx t p ps) = map_of p"
  "c_sm (ex_ctx t p ps) = ex_sm\<lparr>stateTable := t\<rparr>"
  by (simp_all add: view_defs ex_ctx_def ex_env_def alist_ops_def)

lemma ex_packets:
  assumes "length ps < 2 ^ 32"
  shows "packets (ex_ctx t p ps) = map (\<lambda>q. (q, True)) ps"
  using assms by (intro nth_equalityI) (simp_all add: packets_def ex_ctx_def ba_list_def unat_of_nat_less)

section \<open>Configuration\<close>

lemma lookupFun_eq:
  assumes "length (sm_functions sm) \<le> 2 ^ 16"
  shows "lookupFun sm sid =
    (if sm_functions sm = [] then fail OutOfBounds
     else if unat sid < length (sm_functions sm)
     then (case sm_functions sm ! unat sid of None \<Rightarrow> fail AssertFail | Some f \<Rightarrow> ret f)
     else fail AssertFail)"
proof (cases "sm_functions sm")
  case Nil
  have "(ucast sid :: u64) \<le> - 1" by simp
  then show ?thesis using Nil by (simp add: lookupFun_def)
next
  case (Cons a fs)
  have n: "length fs < 2 ^ LENGTH(64)" using assms Cons by simp
  have "(ucast sid :: u64) \<le> of_nat (length fs) \<longleftrightarrow> unat sid \<le> length fs"
    using n by (simp add: word_le_nat_alt unat_of_nat_less unat_ucast_up)
  then show ?thesis using Cons by (simp add: lookupFun_def rassert_def less_Suc_eq_le)
qed

lemma ex_lookup [simp]:
  "lookupFun (ex_sm\<lparr>stateTable := t\<rparr>) 0 = ret ex_keep"
  "lookupFun (ex_sm\<lparr>stateTable := t\<rparr>) 1 = ret ex_close"
  "lookupFun (ex_sm\<lparr>stateTable := t\<rparr>) 2 = ret ex_now"
  "lookupFun (ex_sm\<lparr>stateTable := t\<rparr>) 4 = ret ex_now_end"
  by (simp_all add: lookupFun_eq)

text \<open>
  A registered state function is the one found for its state, and registering it leaves
  the functions of the other registered states alone; the vector never has more than \<open>2 ^ 16\<close>
  entries.  With no function registered at all the assertion of the lookup does not catch the
  error, because \<open>functions.size() - 1\<close> wraps around: the access is out of range.
\<close>

theorem registerFunction_lookup:
  assumes "length (sm_functions sm) \<le> 2 ^ 16"
  shows "length (sm_functions (registerFunction sid (Some f) sm)) \<le> 2 ^ 16 \<and>
   lookupFun (registerFunction sid (Some f) sm) sid = ret f \<and>
   (\<forall>sid' g. sid' \<noteq> sid \<longrightarrow> lookupFun sm sid' = ret g \<longrightarrow>
     lookupFun (registerFunction sid (Some f) sm) sid' = ret g) \<and>
   (sm_functions sm = [] \<longrightarrow> (\<forall>sid'. lookupFun sm sid' = fail OutOfBounds))"
proof -
  let ?sm = "registerFunction sid (Some f) sm" and ?n = "unat sid" and ?fs = "sm_functions sm"
  have n: "?n < 2 ^ 16" using unat_u16_less [of sid] by simp
  have fs: "sm_functions ?sm = (?fs @ replicate (?n + 1 - length ?fs) None)[?n := Some f]"
  proof (cases "int (length ?fs) - 1 < int ?n")
    case True
    then show ?thesis by (simp add: registerFunction_def Let_def)
  next
    case False
    then have "?n + 1 - length ?fs = 0" by linarith
    with False show ?thesis by (simp add: registerFunction_def Let_def)
  qed
  have len: "length (sm_functions ?sm) \<le> 2 ^ 16" using assms n by (simp add: fs)
  have self: "lookupFun ?sm sid = ret f" using lookupFun_eq [OF len, of sid] by (auto simp: fs)
  have other: "lookupFun ?sm sid' = ret g" if "sid' \<noteq> sid" "lookupFun sm sid' = ret g" for sid' g
  proof -
    have i: "unat sid' < length ?fs" "?fs ! unat sid' = Some g"
      using that(2) lookupFun_eq [OF assms, of sid'] by (auto split: if_splits option.splits)
    have "unat sid' \<noteq> ?n" using that(1) by (simp add: word_unat_eq_iff)
    then show ?thesis using lookupFun_eq [OF len, of sid'] i by (auto simp: fs nth_append)
  qed
  show ?thesis using len self other lookupFun_eq [OF assms] by auto
qed

theorem registerFunction_lookup_witness:
  "lookupFun (registerFunction 3 (Some ex_keep) ex_sm) 3 = ret ex_keep \<and>
   lookupFun (registerFunction 3 (Some ex_keep) ex_sm) 1 = ret ex_close"
proof -
  have l: "length (sm_functions ex_sm) \<le> 2 ^ 16" by simp
  have "lookupFun ex_sm 1 = ret ex_close" using lookupFun_eq [OF l, of 1] by simp
  then show ?thesis using registerFunction_lookup [OF l, of 3 ex_keep] by simp
qed

section \<open>Finding a connection\<close>

text \<open>
  C1.  The lookup terminates, and it takes a connection from the first place that has it: the
  table, then the pool (from which it is removed), then, if the machine listens, a new
  connection in the start state.  What it returns is the entry of the table afterwards.
\<close>

theorem findState_resolves:
  assumes "machine_maps env tinv pinv key_ok" and "ctx_ok tinv pinv x" and "key_ok c"
  shows
   "(\<forall>s. tbl env x c = Some s \<longrightarrow> findState env c x = ret (Some s, x)) \<and>
    (\<forall>s. tbl env x c = None \<and> my_pool env x c = Some s \<longrightarrow>
       (\<exists>x1. findState env c x = ret (Some s, x1) \<and> tbl env x1 = (tbl env x)(c \<mapsto> s) \<and>
          my_pool env x1 = (my_pool env x)(c := None) \<and> c_world x1 = c_world x)) \<and>
    (\<forall>sdata w. tbl env x c = None \<and> my_pool env x c = None \<and> listenToConnections (c_sm x) \<and>
         start_data c x = ret (sdata, w) \<longrightarrow>
       (\<exists>x1. findState env c x = ret (Some (State_of (startStateID (c_sm x)) sdata), x1) \<and>
          tbl env x1 = (tbl env x)(c \<mapsto> State_of (startStateID (c_sm x)) sdata) \<and>
          my_pool env x1 = my_pool env x \<and> c_world x1 = w)) \<and>
    (tbl env x c = None \<and> my_pool env x c = None \<and> \<not> listenToConnections (c_sm x) \<longrightarrow>
       findState env c x = ret (None, x))"
proof -
  have t: "tinv (stateTable (c_sm x))" and p: "pinv (c_pools x i)" for i
    using assms(2) by (simp_all add: ctx_ok_def)
  note eq = machine_maps.findState_eq [OF assms(1) t assms(3)]
  have e: "hm_find (poolOps env) (hm_erase (poolOps env) c (c_pools x i)) = (pool_at env x i)(c := None)" for i
    using hash_map.find_erase [OF machine_maps.pool_laws [OF assms(1)] p, of c] by (simp add: pool_at_def)
  have "tbl env (adopt env c s x) = (tbl env x)(c \<mapsto> s) \<and>
      my_pool env (adopt env c s x) = (my_pool env x)(c := None) \<and> c_world (adopt env c s x) = c_world x"
    if "tbl env x c = None" for s
    using machine_maps.tbl_adopt [OF assms(1) t assms(3) that, of s] e
    by (simp add: my_pool_def pool_at_def adopt_def)
  moreover have "my_pool env (accept env c sdata w x) = my_pool env x \<and> c_world (accept env c sdata w x) = w" for sdata w
    by (simp add: view_defs accept_def)
  ultimately show ?thesis
    using eq machine_maps.tbl_accept [OF assms(1) t assms(3)] by simp
qed

theorem findState_resolves_witness:
  "\<exists>x1. findState ex_env 7 (ex_ctx [] [(7, State_of 1 0)] [7]) = ret (Some (State_of 1 0), x1) \<and>
     tbl ex_env x1 7 = Some (State_of 1 0) \<and> my_pool ex_env x1 7 = None"
  using findState_resolves [OF ex_env_maps ex_ctx_ok, of "[]" "[(7, State_of 1 0)]" "[7]" 7]
  by force

section \<open>One packet\<close>

text \<open>
  C3.  A packet only affects its own connection.  When \<open>runPkt\<close> returns, whatever the state
  functions did: the connections of other packets, their pool entries and every pool but the
  machine's own are as before; a packet that is not identified changes no connection and no
  pool at all.  In the batch, only the mark of this packet can change, and packets can only be
  appended, marked to be sent.
\<close>

theorem runPkt_isolated:
  assumes "machine_env env tinv pinv key_ok" and "ctx_ok tinv pinv x"
    and "unat cur < length (packets x)" and "runPkt env cur x = ret x'"
  shows "ctx_ok tinv pinv x' \<and> same_config (c_sm x) (c_sm x') \<and>
    batch_step (unat cur) (packets x) (packets x') \<and>
    (case ident env (c_world x) (fst (packets x ! unat cur)) of
       None \<Rightarrow> c_sm x' = c_sm x \<and> c_pools x' = c_pools x
     | Some c \<Rightarrow> only_touches env c x x')"
  using machine_env.runPkt_effect [OF assms] assms(1)
  by (simp add: machine_env.pkt_effect_def split: option.splits)

lemma runPkt_known:
  fixes env :: "('c, 'p, 'w, 'k, 'm, 'n) env"
  assumes m: "machine_maps env tinv pinv key_ok" and ok: "ctx_ok tinv pinv x"
    and len: "unat cur < length (packets x)"
    and c: "ident env (c_world x) (fst (packets x ! unat cur)) = Some c" and hit: "tbl env x c = Some s"
    and f: "lookupFun (c_sm x) (state s) = ret f"
    and run: "f (fst (packets x ! unat cur)) (packet_iface cur c s x) = ret fi"
  shows "\<exists>sm2. runPkt env cur x =
      rbind (FunIface_destroy env (if state (st fi) = endStateID (c_sm x) then Gone else InTable) sm2 fi)
        (\<lambda>(sm, fi). ret (put_back sm fi x)) \<and>
    tinv (stateTable sm2) \<and> same_config (c_sm x) sm2 \<and>
    hm_find (dense env) (stateTable sm2) =
      (tbl env x)(c := if state (st fi) = endStateID (c_sm x) then None else Some (st fi)) \<and>
    stat_statesClosed sm2 = stat_statesClosed (c_sm x) + (if state (st fi) = endStateID (c_sm x) then 1 else 0) \<and>
    fi_frame (packet_iface cur c s x) fi \<and>
    (\<forall>x'. runPkt env cur x = ret x' \<longrightarrow> ctx_ok tinv pinv x' \<and> same_config (c_sm x) (c_sm x'))"
proof -
  have found: "runPkt env cur x = run_found env cur (fst (packets x ! unat cur)) c s x"
    using runPkt_eq [of env cur x] machine_maps.ba_get_packets [OF m ok len] c
      machine_maps.findState_hit [OF m hit] by simp
  have "runPkt env cur x = rbind (FunIface_destroy env (entry_slot fi x) (handled env c s fi x) fi)
      (\<lambda>(sm, fi). ret (put_back sm fi x))"
    unfolding found run_found_eq using f run by simp
  moreover have "ctx_ok tinv pinv x' \<and> same_config (c_sm x) (c_sm x')" if "runPkt env cur x = ret x'" for x'
    using machine_maps.run_found_effect [OF m ok hit len] that unfolding found by blast
  ultimately show ?thesis
    using machine_maps.handled_effect [OF m ok hit, of fi] machine_maps.called_frame [OF m ok f run]
    unfolding entry_slot_def by blast
qed

lemma mark_total:
  assumes "ba_wf ba" and "unat i < length (ba_list ba)"
  shows "\<exists>ba'. (if \<not> s then markDropPkt i ba else markSendPkt i ba) = ret ba' \<and> ba_wf ba' \<and>
    ba_list ba' = (ba_list ba)[unat i := (fst (ba_list ba ! unat i), s)]"
  using markDropPkt_spec [OF assms(1), of i] markSendPkt_spec [OF assms(1), of i] assms(2)
  by (cases s) (simp_all add: word_less_nat_alt)

lemma destroy_plain:
  assumes "fi_ok fi" and "unat (pktIdx fi) < length (ba_list (pktsBA fi))" and "\<not> immediateTransition fi"
  shows "\<exists>ba. FunIface_destroy env slt sm fi = ret (sm, fi\<lparr>pktsBA := ba\<rparr>) \<and>
    ba_list ba = (ba_list (pktsBA fi))
      [unat (pktIdx fi) := (fst (ba_list (pktsBA fi) ! unat (pktIdx fi)), sendPkt fi)] \<and>
    (if \<not> sendPkt fi then markDropPkt (pktIdx fi) (pktsBA fi) else markSendPkt (pktIdx fi) (pktsBA fi)) = ret ba"
proof -
  have "ba_wf (pktsBA fi)" using assms(1) by (simp add: fi_ok_def)
  from mark_total [OF this assms(2), of "sendPkt fi"]
  obtain ba where "(if \<not> sendPkt fi then markDropPkt (pktIdx fi) (pktsBA fi)
      else markSendPkt (pktIdx fi) (pktsBA fi)) = ret ba"
    and "ba_list ba = (ba_list (pktsBA fi))
      [unat (pktIdx fi) := (fst (ba_list (pktsBA fi) ! unat (pktIdx fi)), sendPkt fi)]" by blast
  then show ?thesis using assms(3) by (auto simp: FunIface_destroy_def)
qed

lemma runPkt_plain:
  assumes "machine_maps env tinv pinv key_ok" and "ctx_ok tinv pinv x" and "unat cur < length (packets x)"
    and "ident env (c_world x) (fst (packets x ! unat cur)) = Some c" and "tbl env x c = Some s"
    and "lookupFun (c_sm x) (state s) = ret f"
    and "f (fst (packets x ! unat cur)) (packet_iface cur c s x) = ret fi"
    and "\<not> immediateTransition fi"
  shows "\<exists>x'. runPkt env cur x = ret x' \<and>
    tbl env x' = (tbl env x)(c := if state (st fi) = endStateID (c_sm x) then None else Some (st fi)) \<and>
    stat_statesClosed (c_sm x') = stat_statesClosed (c_sm x) + (if state (st fi) = endStateID (c_sm x) then 1 else 0) \<and>
    smi (c_sm x') = fi_sm fi \<and> c_world x' = world fi \<and> c_pools x' = c_pools x \<and>
    packets x' = (ba_list (pktsBA fi))[unat cur := (fst (ba_list (pktsBA fi) ! unat cur), sendPkt fi)] \<and>
    ctx_ok tinv pinv x' \<and> same_config (c_sm x) (c_sm x') \<and>
    (if \<not> sendPkt fi then markDropPkt cur (pktsBA fi) else markSendPkt cur (pktsBA fi)) = ret (c_batch x')"
proof -
  obtain sm2 where run: "runPkt env cur x =
      rbind (FunIface_destroy env (if state (st fi) = endStateID (c_sm x) then Gone else InTable) sm2 fi)
        (\<lambda>(sm, fi). ret (put_back sm fi x))"
    and sm2: "hm_find (dense env) (stateTable sm2) =
      (tbl env x)(c := if state (st fi) = endStateID (c_sm x) then None else Some (st fi))"
    "stat_statesClosed sm2 = stat_statesClosed (c_sm x) + (if state (st fi) = endStateID (c_sm x) then 1 else 0)"
    and fr: "fi_frame (packet_iface cur c s x) fi"
    and keep: "\<forall>x'. runPkt env cur x = ret x' \<longrightarrow> ctx_ok tinv pinv x' \<and> same_config (c_sm x) (c_sm x')"
    using runPkt_known [OF assms(1-7)] by blast
  have idx: "pktIdx fi = cur" and len: "unat cur < length (ba_list (pktsBA fi))"
    using packet_iface_frame [OF fr] assms(3) by blast+
  from destroy_plain [OF fi_frame_ok [OF fr] _ assms(8)] len idx
  obtain ba where d: "FunIface_destroy env (if state (st fi) = endStateID (c_sm x) then Gone else InTable) sm2 fi
      = ret (sm2, fi\<lparr>pktsBA := ba\<rparr>)"
    and ba: "ba_list ba = (ba_list (pktsBA fi))[unat cur := (fst (ba_list (pktsBA fi) ! unat cur), sendPkt fi)]"
      "(if \<not> sendPkt fi then markDropPkt cur (pktsBA fi) else markSendPkt cur (pktsBA fi)) = ret ba"
    by blast
  have "runPkt env cur x = ret (put_back sm2 (fi\<lparr>pktsBA := ba\<rparr>) x)" using run d by simp
  then show ?thesis using keep sm2 ba by (simp add: put_back_def view_defs)
qed

text \<open>
  C2.  A packet of a known connection is handed to the function registered for the state of
  the connection.  The function sees the connection with its pending timeout cancelled.  What
  the function leaves in the state is what the table holds afterwards, except that a
  connection left in the end state is removed and counted as closed; the packet is marked to
  be sent or freed as the function said.
\<close>

theorem runPkt_dispatch:
  assumes "machine_maps env tinv pinv key_ok" and "ctx_ok tinv pinv x" and "unat cur < length (packets x)"
    and "ident env (c_world x) (fst (packets x ! unat cur)) = Some c" and "tbl env x c = Some s"
    and "lookupFun (c_sm x) (state s) = ret f"
    and "f (fst (packets x ! unat cur)) (packet_iface cur c s x) = ret fi"
    and "\<not> immediateTransition fi"
  shows "\<exists>x'. runPkt env cur x = ret x' \<and>
    tbl env x' = (tbl env x)(c := if state (st fi) = endStateID (c_sm x) then None else Some (st fi)) \<and>
    stat_statesClosed (c_sm x') = stat_statesClosed (c_sm x) + (if state (st fi) = endStateID (c_sm x) then 1 else 0) \<and>
    smi (c_sm x') = fi_sm fi \<and> c_world x' = world fi \<and> c_pools x' = c_pools x \<and>
    packets x' = (ba_list (pktsBA fi))[unat cur := (fst (ba_list (pktsBA fi) ! unat cur), sendPkt fi)]"
  using runPkt_plain [OF assms] by blast

lemma packet_iface_simps [simp]:
  "pktsBA (packet_iface cur c s x) = c_batch x" "pktIdx (packet_iface cur c s x) = cur"
  "cID (packet_iface cur c s x) = c" "st (packet_iface cur c s x) = s\<lparr>timeoutID := timeoutIDInvalid\<rparr>"
  "sendPkt (packet_iface cur c s x)" "\<not> immediateTransition (packet_iface cur c s x)"
  "world (packet_iface cur c s x) = c_world x"
  by (simp_all add: packet_iface_def new_FunIface_def)

lemma ex_ctx_ok1: "distinct (map fst t) \<Longrightarrow> ctx_ok (alist_inv (\<lambda>_. True)) (alist_inv (\<lambda>_. True)) (ex_ctx t [] [7])"
  by (rule ex_ctx_ok) simp_all

lemma ex_packets1 [simp]: "packets (ex_ctx t p [7]) = [(7, True)]"
  "ba_list (c_batch (ex_ctx t p [7])) = [(7, True)]"
  using ex_packets [of "[7]" t p] by (simp_all add: packets_def)

lemma ex_ident [simp]: "ident ex_env w p = (if p = 0 then None else Some p)"
  by (simp add: ex_env_def)

theorem runPkt_dispatch_witness:
  "\<exists>x'. runPkt ex_env 0 (ex_ctx [(7, State_of 1 0)] [] [7]) = ret x' \<and> tbl ex_env x' = Map.empty \<and>
     stat_statesClosed (c_sm x') = 1 \<and> packets x' = [(7, False)]"
  using runPkt_dispatch [OF ex_env_maps ex_ctx_ok1, of "[(7, State_of 1 0)]" 0 7 "State_of 1 0" ex_close
      "freePkt (transition 3 (packet_iface 0 7 (State_of 1 0) (ex_ctx [(7, State_of 1 0)] [] [7])))"]
  by (auto simp: ex_close_def State_of_def freePkt_def transition_def)

text \<open>
  C9.  An immediate transition: the function of the new state runs with the same packet once
  the first one has returned.  The packet is marked before that second function runs, as the
  first function left it, so a \<open>freePkt\<close> in the second function has no effect; neither has a
  further \<open>transitionNow\<close>.  A connection the second function leaves in the end state is removed
  but not counted as closed.
\<close>

theorem runPkt_immediate:
  assumes "machine_maps env tinv pinv key_ok" and "ctx_ok tinv pinv x" and "unat cur < length (packets x)"
    and "ident env (c_world x) (fst (packets x ! unat cur)) = Some c" and "tbl env x c = Some s"
    and "lookupFun (c_sm x) (state s) = ret f"
    and "f (fst (packets x ! unat cur)) (packet_iface cur c s x) = ret fi"
    and "immediateTransition fi" and "state (st fi) \<noteq> endStateID (c_sm x)"
    and "(if \<not> sendPkt fi then markDropPkt cur (pktsBA fi) else markSendPkt cur (pktsBA fi)) = ret ba"
    and "lookupFun (c_sm x) (state (st fi)) = ret g"
    and "g (fst (packets x ! unat cur)) (fi\<lparr>pktsBA := ba\<rparr>) = ret fi2"
  shows "\<exists>x'. runPkt env cur x = ret x' \<and>
    tbl env x' = (tbl env x)(c := if state (st fi2) = endStateID (c_sm x) then None else Some (st fi2)) \<and>
    stat_statesClosed (c_sm x') = stat_statesClosed (c_sm x) \<and>
    smi (c_sm x') = fi_sm fi2 \<and> c_world x' = world fi2 \<and> packets x' = ba_list (pktsBA fi2) \<and>
    snd (packets x' ! unat cur) = sendPkt fi"
proof -
  have ne: "(state (st fi) = endStateID (c_sm x)) = False" using assms(9) by simp
  obtain sm2 where run: "runPkt env cur x = rbind (FunIface_destroy env InTable sm2 fi)
        (\<lambda>(sm, fi). ret (put_back sm fi x))"
    and sm2: "tinv (stateTable sm2)" "same_config (c_sm x) sm2"
    "hm_find (dense env) (stateTable sm2) = (tbl env x)(c \<mapsto> st fi)"
    "stat_statesClosed sm2 = stat_statesClosed (c_sm x)"
    and fr: "fi_frame (packet_iface cur c s x) fi"
    using runPkt_known [OF assms(1-7)] unfolding ne if_False by auto
  have idx: "pktIdx fi = cur" "cID fi = c" and len: "unat cur < length (ba_list (pktsBA fi))"
    and first: "fst (ba_list (pktsBA fi) ! unat cur) = fst (packets x ! unat cur)"
    using packet_iface_frame [OF fr] assms(3) by (simp_all del: length_ba_list)
  have wf: "ba_wf (pktsBA fi)" using fi_frame_ok [OF fr] by (simp add: fi_ok_def)
  note mk = mark_ret [OF wf assms(10)]
  let ?fi = "fi\<lparr>pktsBA := ba\<rparr>"
  have ok1: "fi_ok ?fi" using fi_frame_ok [OF fr] mk by (simp add: fi_ok_def)
  have get: "ba_get ba cur = ret (fst (packets x ! unat cur))"
  proof -
    have "cur < numBufs ba" using mk len by (metis length_ba_list length_list_update word_less_nat_alt)
    then show ?thesis using ba_get_wf [of ba cur] mk first len by simp
  qed
  have g: "well_behaved g" by (rule lookupFun_well_behaved [OF assms(2,11)])
  then have fr2: "fi_frame ?fi fi2" using ok1 assms(12) by (simp add: well_behaved_def)
  then have c2: "cID fi2 = c" using idx by (simp add: fi_frame_def)
  have cfg: "lookupFun sm2 = lookupFun (c_sm x)" "endStateID sm2 = endStateID (c_sm x)"
    using sm2(2) by (simp_all add: same_config_def lookupFun_def fun_eq_iff)
  define sm3 where "sm3 = write_entry env c (st fi2) sm2"
  have t3: "tinv (stateTable sm3) \<and> hm_find (dense env) (stateTable sm3) = (tbl env x)(c \<mapsto> st fi2)"
    using machine_maps.write_entry_effect [OF assms(1), of sm2 c "st fi2"] sm2 by (simp add: sm3_def)
  define sm4 where "sm4 = (if state (st fi2) = endStateID (c_sm x) then removeState env c sm3 else sm3)"
  have key: "key_ok c"
    using hash_map.keys_ok [OF machine_maps.dense_laws [OF assms(1)]] assms(2,5) by (auto simp: tbl_def ctx_ok_def)
  have t4: "hm_find (dense env) (stateTable sm4) =
      (tbl env x)(c := if state (st fi2) = endStateID (c_sm x) then None else Some (st fi2))"
    using t3 machine_maps.removeState_effect [OF assms(1) _ key, of sm3] by (simp add: sm4_def)
  have d: "FunIface_destroy env InTable sm2 fi = ret (sm4, fi2)"
    using assms(8,10,11,12) idx get c2 cfg
    by (simp add: FunIface_destroy_def Let_def sm4_def sm3_def write_entry_def cong: if_cong split del: if_split)
  have mark: "snd (ba_list (pktsBA fi2) ! unat cur) = sendPkt fi"
    using fr2 mk len by (auto simp: fi_frame_def nth_append)
  have "stat_statesClosed sm4 = stat_statesClosed (c_sm x)"
    using sm2(4) by (simp add: sm4_def sm3_def removeState_def write_entry_def)
  then show ?thesis using run d t4 mark by (simp add: put_back_def view_defs)
qed

lemma ex_batch_wf: "ba_wf (c_batch (ex_ctx t p [7]))"
  by (simp add: ex_ctx_def ba_wf_def)

lemma ex_mark_send: "\<exists>ba. markSendPkt 0 (c_batch (ex_ctx t p [7])) = ret ba"
  using mark_total [OF ex_batch_wf, of 0 t p True] by (simp del: length_ba_list) blast

theorem runPkt_immediate_witness:
  "\<exists>x'. runPkt ex_env 0 (ex_ctx [(7, State_of 2 0)] [] [7]) = ret x' \<and> tbl ex_env x' = Map.empty \<and>
     stat_statesClosed (c_sm x') = 0 \<and> snd (packets x' ! 0) = True"
proof -
  let ?x = "ex_ctx [(7, State_of 2 0)] [] [7]"
  let ?fi = "transitionNow 1 (packet_iface 0 7 (State_of 2 0) ?x)"
  obtain ba where ba: "markSendPkt 0 (c_batch ?x) = ret ba" using ex_mark_send by blast
  have s: "state (State_of n 0) = n" for n by (simp add: State_of_def)
  show ?thesis
    using runPkt_immediate [OF ex_env_maps ex_ctx_ok1, of "[(7, State_of 2 0)]" 0 7 "State_of 2 0" ex_now
        ?fi ba ex_close "freePkt (transition 3 (?fi\<lparr>pktsBA := ba\<rparr>))"] ba
    by (auto simp: ex_close_def ex_now_def s freePkt_def transition_def transitionNow_def)
qed

text \<open>
  \<open>transitionNow\<close> to the end state does not work: the connection is removed when the state
  function returns, and the destructor then reads the state of the removed entry.  (The comment
  on \<open>transitionNow\<close> says that reaching the end state is checked.)
\<close>

theorem transitionNow_end_fails:
  assumes "machine_maps env tinv pinv key_ok" and "ctx_ok tinv pinv x" and "unat cur < length (packets x)"
    and "ident env (c_world x) (fst (packets x ! unat cur)) = Some c" and "tbl env x c = Some s"
    and "lookupFun (c_sm x) (state s) = ret f"
    and "f (fst (packets x ! unat cur)) (packet_iface cur c s x) = ret fi"
    and "immediateTransition fi" and "state (st fi) = endStateID (c_sm x)"
  shows "runPkt env cur x = fail Dangling"
proof -
  obtain sm2 where run: "runPkt env cur x = rbind (FunIface_destroy env Gone sm2 fi)
        (\<lambda>(sm, fi). ret (put_back sm fi x))"
    and fr: "fi_frame (packet_iface cur c s x) fi"
    using runPkt_known [OF assms(1-7)] assms(9) by auto
  have wf: "ba_wf (pktsBA fi)" using fi_frame_ok [OF fr] by (simp add: fi_ok_def)
  have "unat (pktIdx fi) < length (ba_list (pktsBA fi))"
    using packet_iface_frame [OF fr] assms(3) by blast
  from mark_total [OF wf this, of "sendPkt fi"] show ?thesis
    using run assms(8) by (auto simp: FunIface_destroy_def)
qed

theorem transitionNow_end_fails_witness:
  "runPkt ex_env 0 (ex_ctx [(7, State_of 4 0)] [] [7]) = fail Dangling"
proof -
  let ?x = "ex_ctx [(7, State_of 4 0)] [] [7]"
  have s: "state (State_of n 0) = n" for n by (simp add: State_of_def)
  show ?thesis
    using transitionNow_end_fails [OF ex_env_maps ex_ctx_ok1, of "[(7, State_of 4 0)]" 0 7 "State_of 4 0"
        ex_now_end "transitionNow 3 (packet_iface 0 7 (State_of 4 0) ?x)"]
    by (simp add: ex_now_end_def s transitionNow_def)
qed

lemma ex_run:
  assumes "distinct (map fst t)" and "map_of t 7 = Some (State_of 0 0)"
  shows "\<exists>x'. runPkt ex_env 0 (ex_ctx t [] [7]) = ret x'"
proof -
  let ?x = "ex_ctx t [] [7]" and ?s = "State_of 0 0"
  let ?fi = "transition 1 (packet_iface 0 7 ?s ?x)"
  obtain sm2 where run: "runPkt ex_env 0 ?x = rbind (FunIface_destroy ex_env InTable sm2 ?fi)
        (\<lambda>(sm, fi). ret (put_back sm fi ?x))" and fr: "fi_frame (packet_iface 0 7 ?s ?x) ?fi"
    using runPkt_known [OF ex_env_maps ex_ctx_ok1, of t 0 7 ?s ex_keep ?fi] assms
    by (auto simp: ex_keep_def transition_def State_of_def)
  show ?thesis
    using run destroy_plain [OF fi_frame_ok [OF fr], of ex_env InTable sm2]
    by (auto simp: transition_def simp del: length_ba_list)
qed

theorem runPkt_isolated_witness:
  "\<exists>x'. runPkt ex_env 0 (ex_ctx [(7, State_of 0 0), (8, State_of 0 5)] [] [7]) = ret x' \<and>
     tbl ex_env x' 8 = Some (State_of 0 5)"
proof -
  let ?x = "ex_ctx [(7, State_of 0 0), (8, State_of 0 5)] [] [7]"
  obtain x' where r: "runPkt ex_env 0 ?x = ret x'" using ex_run [of "[(7, State_of 0 0), (8, State_of 0 5)]"] by auto
  have "only_touches ex_env 7 ?x x'"
    using runPkt_isolated [OF ex_env_machine ex_ctx_ok1 _ r] by simp
  then show ?thesis using r by (simp add: only_touches_def)
qed

text \<open>
  A packet that is not identified, or that belongs to no known connection of a machine
  that does not listen, is dropped: the call returns, the packet is marked to be freed and
  nothing else changes.
\<close>

theorem unwanted_packet_dropped:
  assumes "machine_maps env tinv pinv key_ok" and "ctx_ok tinv pinv x" and "unat cur < length (packets x)"
    and "case ident env (c_world x) (fst (packets x ! unat cur)) of None \<Rightarrow> True
         | Some c \<Rightarrow> key_ok c \<and> tbl env x c = None \<and> my_pool env x c = None \<and> \<not> listenToConnections (c_sm x)"
  shows "\<exists>ba. runPkt env cur x = ret (x\<lparr>c_batch := ba\<rparr>) \<and> ba_list ba = marks_dropped (unat cur) (packets x)"
proof -
  have t: "tinv (stateTable (c_sm x))" using assms(2) by (simp add: ctx_ok_def)
  have "runPkt env cur x = run_dropped cur x"
    using assms(4) runPkt_eq [of env cur x] machine_maps.ba_get_packets [OF assms(1-3)]
      machine_maps.findState_eq [OF assms(1) t]
    by (auto split: option.splits)
  then show ?thesis using machine_maps.run_dropped_effect [OF assms(1-3)] by auto
qed

theorem unwanted_packet_dropped_witness:
  "\<exists>ba. runPkt ex_env 0 (ex_ctx [(8, State_of 0 5)] [] [7]) = ret ((ex_ctx [(8, State_of 0 5)] [] [7])\<lparr>c_batch := ba\<rparr>) \<and>
     ba_list ba = [(7, False)]"
  using unwanted_packet_dropped [OF ex_env_maps ex_ctx_ok1, of "[(8, State_of 0 5)]" 0]
  by (simp add: marks_dropped_def)

section \<open>Batches\<close>

lemma mset_fst_split:
  "mset (map fst (filter snd l)) + mset (map fst (filter (Not \<circ> snd) l)) = mset (map fst l)"
  by (induction l) auto

lemma batch_returned:
  assumes "machine_env env tinv pinv key_ok" and "ctx_ok tinv pinv x" and "runPktBatch env x = ret x'"
  shows "\<exists>sent freed new. getSendBufs (c_batch x') = ret sent \<and> getFreeBufs (c_batch x') = ret freed \<and>
    mset sent + mset freed = mset (map fst (packets x)) + mset new \<and> mset new \<subseteq># mset sent \<and>
    unat (getSendCount (c_batch x')) = length sent \<and> unat (getFreeCount (c_batch x')) = length freed"
proof -
  have e: "ctx_ok tinv pinv x'" "batch_run (length (packets x)) (packets x) (packets x')"
    using machine_env.runPktBatch_effect [OF assms] by simp_all
  have wf: "ba_wf (c_batch x')" using e(1) by (simp add: ctx_ok_def)
  let ?l = "packets x'"
  obtain bs new where bs: "length bs = length (packets x)"
    and l: "?l = zip (map fst (packets x)) bs @ map (\<lambda>p. (p, True)) new"
    using e(2) by (auto simp: batch_run_def)
  let ?sent = "map fst (filter snd ?l)" and ?freed = "map fst (filter (Not \<circ> snd) ?l)"
  have "mset ?sent + mset ?freed = mset (map fst ?l)"
    by (rule mset_fst_split)
  moreover have "map fst ?l = map fst (packets x) @ new" using bs by (simp add: l o_def)
  moreover have "mset new \<subseteq># mset ?sent" by (simp add: l o_def)
  moreover have "getSendBufs (c_batch x') = ret ?sent" "getFreeBufs (c_batch x') = ret ?freed"
    "unat (getSendCount (c_batch x')) = length ?sent" "unat (getFreeCount (c_batch x')) = length ?freed"
    using getSendBufs_spec [OF wf] getFreeBufs_spec [OF wf] getSendCount_spec [OF wf] getFreeCount_spec [OF wf]
    by (simp_all add: packets_def)
  ultimately show ?thesis by (metis mset_append)
qed

lemma ex_run_batch:
  assumes "distinct (map fst t)" and "map_of t 7 = Some (State_of 0 0)"
  shows "\<exists>x'. runPktBatch ex_env (ex_ctx t [] [7]) = ret x'"
proof -
  obtain x' where "runPkt ex_env 0 (ex_ctx t [] [7]) = ret x'" using ex_run [OF assms] by blast
  moreover have "run_timeouts ex_env (ex_ctx t [] [7]) = ret (ex_ctx t [] [7])"
    by (subst run_timeouts.simps) (simp add: pq_top_def)
  moreover have "getTotalCount (c_batch (ex_ctx t [] [7])) = 1" by (simp add: getTotalCount_def ex_ctx_def)
  ultimately show ?thesis by (simp add: runPktBatch_def)
qed

section \<open>Opening connections\<close>

lemma addState_effect:
  assumes m: "machine_maps env tinv pinv key_ok" and ok: "ctx_ok tinv pinv x" and key: "key_ok c"
    and f: "lookupFun (c_sm x) (state s) = ret f"
    and run: "f (fst (packets x ! 0)) (new_FunIface (smi (c_sm x)) 0 (c_batch x) c s (c_world x)) = ret fi"
    and r: "addState env c s x = ret x'"
  shows "ctx_ok tinv pinv x' \<and> same_config (c_sm x) (c_sm x') \<and> (\<forall>i. pinv (c_pools x' i)) \<and>
    (tbl env x' = tbl env x \<or> immediateTransition fi \<and> tbl env x' = (tbl env x)(c := None)) \<and>
    my_pool env x' = (if state (st fi) \<noteq> endStateID (c_sm x) \<and> my_pool env x c = None
                      then (my_pool env x)(c \<mapsto> st fi) else my_pool env x)"
proof -
  have len: "unat (0 :: u32) < length (packets x)"
    using ok by (simp add: ctx_ok_def ba_wf_def packets_def word_less_nat_alt)
  note get = machine_maps.ba_get_packets [OF m ok len, simplified]
  define x1 where "x1 = (if state (st fi) = endStateID (c_sm x) then x
     else x\<lparr>c_pools := (c_pools x)(connPool (c_sm x) := pool_add env c (st fi) (c_pools x (connPool (c_sm x))))\<rparr>)"
  obtain sm3 fi' where d: "FunIface_destroy env Local (c_sm x) fi = ret (sm3, fi')"
    and x': "x' = put_back sm3 fi' x1"
    using r f run get by (auto simp: addState_def rbind_eq_ret Let_def x1_def)
  have pinv: "pinv (c_pools x i)" for i using ok by (simp add: ctx_ok_def)
  note ins = hash_map.find_insert [OF machine_maps.pool_laws [OF m] pinv, of c, simplified]
  have pools: "c_pools x' = c_pools x1" by (simp add: x' put_back_def)
  have pinv1: "pinv (c_pools x1 i)" for i using pinv ins by (simp add: x1_def pool_add_def)
  have wb: "well_behaved f" by (rule lookupFun_well_behaved [OF ok f])
  let ?fi0 = "new_FunIface (smi (c_sm x)) 0 (c_batch x) c s (c_world x)"
  have "fi_ok ?fi0" using ok by (simp add: fi_ok_def new_FunIface_def ctx_ok_def)
  then have fr: "fi_frame ?fi0 fi" using wb run by (simp add: well_behaved_def)
  then have c: "cID fi = c" and cb: "getPktCB (fi_sm fi) = getPktCB (smi (c_sm x))"
    by (simp_all add: fi_frame_def new_FunIface_def)
  have D: "getPktCB (fi_sm fi') = getPktCB (fi_sm fi)" "fi_ok fi'"
    and sm3: "sm3 = c_sm x \<or> immediateTransition fi \<and> sm3 = removeState env c (c_sm x)"
    using destroy_effect [OF d fi_frame_ok [OF fr]] ok c by (auto simp: ctx_ok_def split: if_splits)
  have t: "tinv (stateTable (c_sm x))" using ok by (simp add: ctx_ok_def)
  have cfg: "same_config (c_sm x) (c_sm x')"
    using sm3 D cb by (auto simp: x' put_back_def same_config_def removeState_def)
  have "tinv (stateTable (c_sm x'))"
    using sm3 t machine_maps.removeState_effect [OF m t key] by (auto simp: x' put_back_def)
  moreover have "sm_functions (c_sm x') = sm_functions (c_sm x)" using cfg by (simp add: same_config_def)
  ultimately have "ctx_ok tinv pinv x'"
    using ok D(2) pinv1 by (simp add: ctx_ok_def pools) (simp add: x' put_back_def fi_ok_def)
  moreover have "tbl env x' = tbl env x \<or> immediateTransition fi \<and> tbl env x' = (tbl env x)(c := None)"
    using sm3 machine_maps.removeState_effect [OF m t key] by (auto simp: x' put_back_def tbl_def)
  moreover have "my_pool env x' = (if state (st fi) \<noteq> endStateID (c_sm x) \<and> my_pool env x c = None
                      then (my_pool env x)(c \<mapsto> st fi) else my_pool env x)"
    using cfg pools ins by (auto simp: my_pool_def pool_at_def x1_def pool_add_def same_config_def)
  ultimately show ?thesis using cfg pinv1 pools by simp
qed

lemma addState_runs:
  assumes "machine_maps env tinv pinv key_ok" and "ctx_ok tinv pinv x" and "addState env c s x = ret x'"
  obtains f fi where "lookupFun (c_sm x) (state s) = ret f"
    "f (fst (packets x ! 0)) (new_FunIface (smi (c_sm x)) 0 (c_batch x) c s (c_world x)) = ret fi"
proof -
  have "unat (0 :: u32) < length (packets x)"
    using assms(2) by (simp add: ctx_ok_def ba_wf_def packets_def word_less_nat_alt)
  from machine_maps.ba_get_packets [OF assms(1,2) this] show ?thesis
    using assms(3) that by (auto simp: addState_def rbind_eq_ret)
qed

text \<open>
  C4.  No connection is stored in the end state.  Every public operation that runs state
  functions or stores connections keeps it so, whatever the state functions do: a connection
  that reaches the end state leaves the table, and one opened in it never enters the pool.
\<close>

theorem end_state_never_stored:
  assumes "machine_env env tinv pinv key_ok" and "ctx_ok tinv pinv x" and "no_end env x"
  shows "(\<forall>x'. runPktBatch env x = ret x' \<longrightarrow> no_end env x') \<and>
    (\<forall>c s x'. key_ok c \<and> addState env c s x = ret x' \<longrightarrow> no_end env x') \<and>
    (\<forall>c s. no_end env (addStateNoFun env c s x))"
proof (intro conjI allI impI)
  fix x' assume "runPktBatch env x = ret x'"
  then show "no_end env x'" using machine_env.runPktBatch_effect [OF assms(1,2)] assms(3) by blast
next
  fix c s x' assume a: "key_ok c \<and> addState env c s x = ret x'"
  obtain f fi where f: "lookupFun (c_sm x) (state s) = ret f"
    and run: "f (fst (packets x ! 0)) (new_FunIface (smi (c_sm x)) 0 (c_batch x) c s (c_world x)) = ret fi"
    by (rule addState_runs [OF machine_env.axioms(1) [OF assms(1)] assms(2) conjunct2 [OF a]])
  note e = addState_effect [OF machine_env.axioms(1) [OF assms(1)] assms(2) conjunct1 [OF a] f run conjunct2 [OF a]]
  have "ran (tbl env x') \<subseteq> ran (tbl env x)" using e by (auto simp: ran_def split: if_splits)
  moreover have "ran (my_pool env x') \<subseteq> ran (my_pool env x) \<union> {s'. state s' \<noteq> endStateID (c_sm x)}"
    using e by (auto simp: ran_def split: if_splits)
  ultimately show "no_end env x'" using assms(3) e by (auto simp: no_end_def same_config_def)
next
  fix c s
  have pinv: "pinv (c_pools x i)" for i using assms(2) by (simp add: ctx_ok_def)
  note ins = hash_map.find_insert [OF machine_maps.pool_laws [OF machine_env.axioms(1) [OF assms(1)]] pinv, of c, simplified]
  show "no_end env (addStateNoFun env c s x)"
    using assms(3) ins
    by (auto simp: no_end_def addStateNoFun_def Let_def view_defs pool_add_def ran_def split: if_splits)
qed

theorem end_state_never_stored_witness:
  "\<exists>x'. runPktBatch ex_env (ex_ctx [(7, State_of 0 0), (8, State_of 1 0)] [] [7]) = ret x' \<and> no_end ex_env x'"
proof -
  let ?t = "[(7 :: nat, State_of 0 0), (8, State_of 1 0)]"
  obtain x' where r: "runPktBatch ex_env (ex_ctx ?t [] [7]) = ret x'" using ex_run_batch [of ?t] by auto
  have n: "no_end ex_env (ex_ctx ?t [] [7])"
  proof -
    have "ran (map_of ?t) = {State_of 0 0, State_of 1 0}" by (subst ran_distinct) auto
    then show ?thesis unfolding no_end_def ex_views by (simp add: State_of_def)
  qed
  have d: "distinct (map fst ?t)" by simp
  show ?thesis
    using conjunct1 [OF end_state_never_stored [OF ex_env_machine ex_ctx_ok1 [OF d] n]] r by blast
qed

text \<open>
  C7.  A connection opened on one machine is found by another that shares the pool.  \<open>addState\<close>
  runs the function of the start state and leaves the connection, in the state the function
  chose, in the pool and not in its own table; the next packet of the connection on any
  machine with that pool finds it, and takes it out of the pool.  A connection that already is
  in the pool is not replaced: the new state is lost.
\<close>

theorem opened_connection_migrates:
  assumes "machine_maps env tinv pinv key_ok" and "ctx_ok tinv pinv x" and "key_ok c"
    and "lookupFun (c_sm x) (state s) = ret f"
    and "f (fst (packets x ! 0)) (new_FunIface (smi (c_sm x)) 0 (c_batch x) c s (c_world x)) = ret fi"
    and "\<not> immediateTransition fi" and "state (st fi) \<noteq> endStateID (c_sm x)"
    and "addState env c s x = ret x'"
  shows "tbl env x' = tbl env x \<and>
    my_pool env x' c = Some (case my_pool env x c of None \<Rightarrow> st fi | Some s0 \<Rightarrow> s0) \<and>
    (\<forall>y. ctx_ok tinv pinv y \<and> connPool (c_sm y) = connPool (c_sm x) \<and> c_pools y = c_pools x' \<and> tbl env y c = None \<longrightarrow>
      (\<exists>y'. findState env c y = ret (Some (case my_pool env x c of None \<Rightarrow> st fi | Some s0 \<Rightarrow> s0), y') \<and>
         my_pool env y' c = None))"
proof -
  note e = addState_effect [OF assms(1-5,8)]
  have pool: "my_pool env x' c = Some (case my_pool env x c of None \<Rightarrow> st fi | Some s0 \<Rightarrow> s0)"
    using e assms(7) by (auto split: option.split)
  have "\<exists>y'. findState env c y = ret (Some (case my_pool env x c of None \<Rightarrow> st fi | Some s0 \<Rightarrow> s0), y') \<and>
         my_pool env y' c = None"
    if y: "ctx_ok tinv pinv y" "connPool (c_sm y) = connPool (c_sm x)" "c_pools y = c_pools x'" "tbl env y c = None" for y
  proof -
    have t: "tinv (stateTable (c_sm y))" and p: "pinv (c_pools y i)" for i using y(1) by (simp_all add: ctx_ok_def)
    have "my_pool env y = my_pool env x'" using y e by (simp add: my_pool_def pool_at_def same_config_def)
    then have "findState env c y = ret (Some (case my_pool env x c of None \<Rightarrow> st fi | Some s0 \<Rightarrow> s0),
        adopt env c (case my_pool env x c of None \<Rightarrow> st fi | Some s0 \<Rightarrow> s0) y)"
      using machine_maps.findState_eq [OF assms(1) t assms(3)] y(4) pool by simp
    moreover have "my_pool env (adopt env c s' y) c = None" for s'
      using hash_map.find_erase [OF machine_maps.pool_laws [OF assms(1)] p, of c]
      by (simp add: my_pool_def pool_at_def adopt_def)
    ultimately show ?thesis by blast
  qed
  then show ?thesis using e assms(6) pool by blast
qed

theorem opened_connection_migrates_witness:
  "\<exists>x'. addState ex_env 9 (State_of 0 5) (ex_ctx [] [] [7]) = ret x' \<and>
     my_pool ex_env x' 9 = Some (State_of 1 5)"
proof -
  let ?x = "ex_ctx [] [] [7]"
  let ?start = "new_FunIface (smi (c_sm ?x)) 0 (c_batch ?x) 9 (State_of 0 5) (c_world ?x)"
  let ?fi = "transition 1 ?start"
  have ok: "fi_ok ?start" using ex_ctx_ok1 [of "[]"] by (simp add: fi_ok_def new_FunIface_def ctx_ok_def)
  note fr = fi_frame_step(2) [OF ok, of 1]
  have f: "lookupFun (c_sm ?x) (state (State_of 0 5)) = ret ex_keep" by (simp add: State_of_def)
  have run: "ex_keep (fst (packets ?x ! 0)) ?start = ret ?fi" by (simp add: ex_keep_def)
  have get: "ba_get (c_batch ?x) 0 = ret 7" by (simp add: ex_ctx_def ba_get_def)
  obtain ba where d: "FunIface_destroy ex_env Local (c_sm ?x) ?fi = ret (c_sm ?x, ?fi\<lparr>pktsBA := ba\<rparr>)"
    using destroy_plain [OF fi_frame_ok [OF fr], of ex_env Local "c_sm ?x"]
    by (auto simp: transition_def new_FunIface_def simp del: length_ba_list ex_views)
  obtain x' where r: "addState ex_env 9 (State_of 0 5) ?x = ret x'"
    using f run get d by (simp add: addState_def Let_def del: ex_views)
  show ?thesis
    using opened_connection_migrates [OF ex_env_maps ex_ctx_ok1 _ f run _ _ r] r
    by (simp add: transition_def new_FunIface_def State_of_def)
qed

section \<open>Timeouts\<close>

text \<open>
  A timeout set far in the future blocks every other one.  The comparator orders the
  queue by \<open>a.time < b.time\<close>, and \<open>std::priority_queue\<close> puts the greatest element on top; so as
  long as any timeout in the queue is not due, the loop over the timeouts stops at once,
  however many others are overdue.
\<close>

theorem pending_timeout_blocks_all:
  assumes "pq_inv Compare (timeoutsQ (smi (c_sm x)))" and "clock env (c_world x) = (now, w)"
    and "t \<in> set (timeoutsQ (smi (c_sm x)))" and "now < t_time t"
  shows "run_timeouts env x = ret (x\<lparr>c_world := w\<rparr>)"
proof -
  obtain t0 where "pq_top (timeoutsQ (smi (c_sm x))) = Some t0" and "t_time t \<le> t_time t0"
    using top_latest [OF assms(1,3)] by blast
  then show ?thesis using assms(2,4) by (subst run_timeouts.simps) simp
qed

definition ex_timers :: "Timeout list \<Rightarrow> (u32 \<rightharpoonup> nat \<times> unit) \<Rightarrow>
    (nat, nat, unit, unit, (nat \<times> State) list, (nat \<times> State) list) ctx" where
  "ex_timers q fs = (ex_ctx [(7, (State_of 1 0)\<lparr>timeoutID := 0\<rparr>)] [] [7])
     \<lparr>c_sm := (ex_sm\<lparr>stateTable := [(7, (State_of 1 0)\<lparr>timeoutID := 0\<rparr>)]\<rparr>)
        \<lparr>smi := (smi ex_sm)\<lparr>timeoutsQ := q, timeoutFunctions := fs\<rparr>\<rparr>\<rparr>"

text \<open>The clock shows 100: the timeout of time 50 is due, the one of time 200 is not.\<close>

theorem pending_timeout_blocks_all_witness:
  "run_timeouts ex_env (ex_timers [\<lparr>t_time = 200, t_timeoutID = 1\<rparr>, \<lparr>t_time = 50, t_timeoutID = 0\<rparr>]
     [0 \<mapsto> (7, ()), 1 \<mapsto> (7, ())])
   = ret (ex_timers [\<lparr>t_time = 200, t_timeoutID = 1\<rparr>, \<lparr>t_time = 50, t_timeoutID = 0\<rparr>]
     [0 \<mapsto> (7, ()), 1 \<mapsto> (7, ())])"
proof -
  let ?x = "ex_timers [\<lparr>t_time = 200, t_timeoutID = 1\<rparr>, \<lparr>t_time = 50, t_timeoutID = 0\<rparr>]
     [0 \<mapsto> (7, ()), 1 \<mapsto> (7, ())]"
  have q: "timeoutsQ (smi (c_sm ?x)) = [\<lparr>t_time = 200, t_timeoutID = 1\<rparr>, \<lparr>t_time = 50, t_timeoutID = 0\<rparr>]"
    by (simp add: ex_timers_def)
  have "run_timeouts ex_env ?x = ret (?x\<lparr>c_world := ()\<rparr>)"
    by (rule pending_timeout_blocks_all [where now = 100 and t = "\<lparr>t_time = 200, t_timeoutID = 1\<rparr>"])
      (simp_all add: q pq_inv_def Compare_def ex_env_def)
  then show ?thesis by simp
qed

text \<open>
  C10.  A timeout that is due and still valid stops the program: its function is called with
  no packet (index \<open>UINT32_MAX\<close>), and when its \<open>FunIface\<close> is destroyed, marking that packet
  fails the assertion of the batch.  So if the timeout function returns, and the function that makes the data of a new
  connection does, \<open>runPktBatch\<close> fails this assertion (or, if the connection is gone, the one before it); and in no
  case does it return.  When it returns, its timeout loop has run no timeout function: it only discarded timeouts that had
  been cancelled, and left the connections, the pools and the batch to the packets.
\<close>

theorem timeouts_never_complete:
  assumes "machine_maps env tinv pinv key_ok" and "ctx_ok tinv pinv x"
  shows "(\<forall>t now w c k. pq_top (timeoutsQ (smi (c_sm x))) = Some t \<and> clock env (c_world x) = (now, w) \<and>
       t_time t \<le> now \<and> timeoutFunctions (smi (c_sm x)) (t_timeoutID t) = Some (c, k) \<longrightarrow>
       (\<forall>x'. runPktBatch env x \<noteq> ret x') \<and>
       (key_ok c \<and> (\<forall>fi. \<exists>fi'. timeoutFun env k fi = ret fi') \<and>
          (\<forall>f v. startStateFun (c_sm x) = Some f \<longrightarrow> (\<exists>r. f c v = ret r)) \<longrightarrow>
        runPktBatch env x = fail AssertFail)) \<and>
    (\<forall>x'. run_timeouts env x = ret x' \<longrightarrow>
       (\<exists>q w. x' = x\<lparr>c_world := w, c_sm := (c_sm x)\<lparr>smi := (smi (c_sm x))\<lparr>timeoutsQ := q\<rparr>\<rparr>\<rparr> \<and>
        mset q \<subseteq># mset (timeoutsQ (smi (c_sm x))) \<and>
        (\<forall>t \<in># mset (timeoutsQ (smi (c_sm x))) - mset q.
           timeoutFunctions (smi (c_sm x)) (t_timeoutID t) = None)))"
proof (intro conjI allI impI)
  fix t now w c k
  assume a: "pq_top (timeoutsQ (smi (c_sm x))) = Some t \<and> clock env (c_world x) = (now, w) \<and>
       t_time t \<le> now \<and> timeoutFunctions (smi (c_sm x)) (t_timeoutID t) = Some (c, k)"
  have run: "run_timeouts env x = rbind (fire_timeout env (t_timeoutID t) c k (x\<lparr>c_world := w\<rparr>)) (run_timeouts env)"
    using a by (subst run_timeouts.simps) simp
  then show "runPktBatch env x \<noteq> ret x'" for x'
    using machine_maps.fire_timeout_fails [OF assms(1)] by (auto simp: runPktBatch_def Let_def rbind_eq_ret)
  assume h: "key_ok c \<and> (\<forall>fi. \<exists>fi'. timeoutFun env k fi = ret fi') \<and>
          (\<forall>f v. startStateFun (c_sm x) = Some f \<longrightarrow> (\<exists>r. f c v = ret r))"
  have "fire_timeout env (t_timeoutID t) c k (x\<lparr>c_world := w\<rparr>) = fail AssertFail"
    by (rule machine_maps.fire_timeout_asserts [OF assms(1)]) (use assms(2) h in \<open>auto simp: ctx_ok_def\<close>)
  then show "runPktBatch env x = fail AssertFail" by (simp add: runPktBatch_def run)
next
  fix x' assume "run_timeouts env x = ret x'"
  from machine_maps.run_timeouts_effect [OF assms this]
  show "\<exists>q w. x' = x\<lparr>c_world := w, c_sm := (c_sm x)\<lparr>smi := (smi (c_sm x))\<lparr>timeoutsQ := q\<rparr>\<rparr>\<rparr> \<and>
        mset q \<subseteq># mset (timeoutsQ (smi (c_sm x))) \<and>
        (\<forall>t \<in># mset (timeoutsQ (smi (c_sm x))) - mset q.
           timeoutFunctions (smi (c_sm x)) (t_timeoutID t) = None)"
    by (simp add: machine_maps.only_timers_def [OF assms(1)])
qed

lemma ex_timers_ok:
  assumes "pq_inv Compare q"
  shows "ctx_ok (alist_inv (\<lambda>_. True)) (alist_inv (\<lambda>_. True)) (ex_timers q fs)"
  using ex_ctx_ok1 [of "[(7, (State_of 1 0)\<lparr>timeoutID := 0\<rparr>)]"] assms
  by (simp add: ctx_ok_def ex_timers_def)

theorem timeouts_never_complete_witness:
  "runPktBatch ex_env (ex_timers [\<lparr>t_time = 50, t_timeoutID = 0\<rparr>] [0 \<mapsto> (7, ())]) = fail AssertFail"
proof -
  let ?q = "[\<lparr>t_time = 50, t_timeoutID = 0\<rparr>]"
  have "pq_inv Compare ?q" by (simp add: pq_inv_def)
  from timeouts_never_complete [OF ex_env_maps ex_timers_ok [OF this, of "[0 \<mapsto> (7, ())]"]]
  show ?thesis by (simp add: ex_timers_def pq_top_def ex_env_def ex_sm_def registerEndStateID_def registerFunction_def new_StateMachine_def Let_def)
qed

text \<open>
  C11.  The timeout loop ends: on every well-formed queue it returns or fails, provided the
  state functions and the function that makes the data of a new connection do.
\<close>

theorem timeout_loop_terminates:
  assumes "machine_maps env tinv pinv key_ok" and "ctx_ok tinv pinv x"
    and "\<And>k fi. timeoutFun env k fi \<noteq> None" and "\<And>f c w. startStateFun (c_sm x) = Some f \<Longrightarrow> f c w \<noteq> None"
    and "\<And>tid c k. timeoutFunctions (smi (c_sm x)) tid = Some (c, k) \<Longrightarrow> key_ok c"
  shows "run_timeouts env x \<noteq> None"
  using assms(2,4,5)
proof (induction "length (timeoutsQ (smi (c_sm x)))" arbitrary: x rule: less_induct)
  case less
  let ?Q = "timeoutsQ (smi (c_sm x))"
  show ?case
  proof (cases "pq_top ?Q")
    case None
    then show ?thesis by (subst run_timeouts.simps) simp
  next
    case (Some t)
    obtain now w where clk: "clock env (c_world x) = (now, w)" by fastforce
    have inv: "pq_inv Compare ?Q" using less.prems(1) by (simp add: ctx_ok_def)
    show ?thesis
    proof (cases "now < t_time t \<or> timeoutFunctions (smi (c_sm x)) (t_timeoutID t) = None")
      case True
      let ?x1 = "x\<lparr>c_world := w, c_sm := (c_sm x)\<lparr>smi := (smi (c_sm x))\<lparr>timeoutsQ := pq_pop ?Q\<rparr>\<rparr>\<rparr>"
      have "length (pq_pop ?Q) < length ?Q" using tq.pop_size [OF inv Some] by simp
      then have "run_timeouts env ?x1 \<noteq> None"
        using less.hyps [of ?x1] machine_maps.pop_timeout_ok [OF assms(1) less.prems(1) Some] less.prems(2,3) by simp
      then show ?thesis using True Some clk by (subst run_timeouts.simps) (auto simp: Let_def)
    next
      case False
      then obtain c k where ck: "timeoutFunctions (smi (c_sm x)) (t_timeoutID t) = Some (c, k)" by auto
      let ?x1 = "x\<lparr>c_world := w\<rparr>"
      have t: "tinv (stateTable (c_sm ?x1))" using less.prems(1) by (simp add: ctx_ok_def)
      have "start_data c ?x1 \<noteq> None" using less.prems(2) by (auto simp: start_data_def split: option.split)
      then have "findState env c ?x1 \<noteq> None"
        using machine_maps.findState_eq [OF assms(1) t less.prems(3) [OF ck]]
        by (auto simp: rbind_def split: option.split sum.split)
      then have "fire_timeout env (t_timeoutID t) c k ?x1 \<noteq> None"
        unfolding machine_maps.fire_timeout_eq [OF assms(1)]
        by (auto simp: rbind_def assms(3) split: option.split sum.split)
      then obtain e where "fire_timeout env (t_timeoutID t) c k ?x1 = fail e"
        using machine_maps.fire_timeout_fails [OF assms(1)] by (metis option.exhaust sum.exhaust)
      then show ?thesis using False Some clk ck by (subst run_timeouts.simps) simp
    qed
  qed
qed

theorem timeout_loop_terminates_witness:
  "run_timeouts ex_env (ex_timers [\<lparr>t_time = 60, t_timeoutID = 3\<rparr>, \<lparr>t_time = 50, t_timeoutID = 0\<rparr>] [0 \<mapsto> (7, ())]) \<noteq> None"
proof -
  let ?q = "[\<lparr>t_time = 60, t_timeoutID = 3\<rparr>, \<lparr>t_time = 50, t_timeoutID = 0\<rparr>]"
  have "pq_inv Compare ?q" by (simp add: pq_inv_def Compare_def)
  from timeout_loop_terminates [OF ex_env_maps ex_timers_ok [OF this, of "[0 \<mapsto> (7, ())]"]]
  show ?thesis
    by (simp add: ex_env_def ex_timers_def ex_sm_def registerEndStateID_def registerFunction_def
        new_StateMachine_def Let_def)
qed

end
