(* ===== verification/Machine_Run.thy ===== *)
theory Machine_Run
  imports State_Machine_Props
begin

text \<open>
  A state machine over many calls.  Between two calls a machine is \<open>idle_ok\<close>: everything but the batch,
  which every call replaces.  \<open>serve\<close> is the program around a machine: for each batch it receives, it calls the
  C function that processes the batch, takes the packets back and sends them; what it sends and frees is the
  observable behaviour of the machine.
\<close>

section \<open>Configurations\<close>

lemma registered_option:
  assumes "Some f \<in> set (sm_functions (registerFunction sid g sm))"
  shows "g = Some f \<or> Some f \<in> set (sm_functions sm)"
  using assms set_update_subset_insert
  by (fastforce simp: registerFunction_def Let_def split: if_splits)

lemma registered_functions:
  assumes "Some f \<in> set (sm_functions (registerFunction sid (Some g) sm))"
  shows "f = g \<or> Some f \<in> set (sm_functions sm)"
  using registered_option [OF assms] by auto

lemma registrations [simp]:
  "sm_functions (registerStartStateID sid g sm) = sm_functions sm" "sm_functions (registerGetPktCB cb sm) = sm_functions sm"
  "sm_functions (registerEndStateID sid sm) = sm_functions sm" "sm_functions (new_StateMachine env) = []"
  by (simp_all add: registerStartStateID_def registerGetPktCB_def registerEndStateID_def new_StateMachine_def)

section \<open>One call\<close>

text \<open>A machine between two calls: everything of \<open>ctx_ok\<close> but the batch, which each call replaces.\<close>

definition idle_ok :: "('m \<Rightarrow> bool) \<Rightarrow> ('n \<Rightarrow> bool) \<Rightarrow> ('c, 'p, 'w, 'k, 'm, 'n) ctx \<Rightarrow> bool" where
  "idle_ok tinv pinv x \<longleftrightarrow> tinv (stateTable (c_sm x)) \<and> (\<forall>i. pinv (c_pools x i)) \<and>
     pq_inv Compare (timeoutsQ (smi (c_sm x)))"

lemma run_new_batch:
  assumes m: "machine_env env tinv pinv key_ok" and ok: "idle_ok tinv pinv x"
    and wb: "\<forall>f. Some f \<in> set (sm_functions (c_sm x)) \<longrightarrow> well_behaved f"
    and n: "length ps = unat inCount" and ba: "new_BufArray ps inCount True = ret ba"
    and r: "runPktBatch env (x\<lparr>c_batch := ba\<rparr>) = ret x'"
  shows "idle_ok tinv pinv x' \<and> sm_functions (c_sm x') = sm_functions (c_sm x) \<and>
    (\<exists>s f new. getSendBufs (c_batch x') = ret s \<and> getFreeBufs (c_batch x') = ret f \<and>
       mset s + mset f = mset ps + mset new \<and> mset new \<subseteq># mset s \<and>
       unat (getSendCount (c_batch x')) = length s \<and> unat (getFreeCount (c_batch x')) = length f)"
proof -
  have "inCount \<noteq> 0" using ba by (auto simp: new_BufArray_def split: if_splits)
  from new_BufArray_spec [OF this n, of True] ba have b: "ba_wf ba" "ba_list ba = map (\<lambda>p. (p, True)) ps" by auto
  let ?x = "x\<lparr>c_batch := ba\<rparr>"
  have c: "ctx_ok tinv pinv ?x" and p: "packets ?x = map (\<lambda>p. (p, True)) ps"
    using ok wb b by (auto simp: ctx_ok_def idle_ok_def packets_def)
  from machine_env.runPktBatch_effect [OF m c r]
  have "idle_ok tinv pinv x'" "sm_functions (c_sm x') = sm_functions (c_sm x)"
    by (auto simp: ctx_ok_def idle_ok_def same_config_def)
  then show ?thesis using batch_returned [OF m c r] p by (simp add: o_def)
qed

section \<open>Well-formed machines\<close>

text \<open>
  C5.  A well-formed machine stays one: its table and pools are valid maps, the batch is well-formed, the queue
  of timeouts is a heap, and its functions respect the interface they are given.  Every public operation of the class that
  changes a machine keeps all of it when it returns, whatever the state functions do: a whole batch; opening a
  connection, with or without running its function; removing one (under an identifier that is not a reserved key of the map); and each of the registration functions, the one of
  state functions provided it is given a function that respects the interface (or none).  So does the private
  \<open>findState\<close>, and a machine that has just been made is well-formed.
\<close>

theorem operations_keep_well_formed:
  assumes "machine_env env tinv pinv key_ok" and "ctx_ok tinv pinv x"
  shows "(\<forall>x'. runPktBatch env x = ret x' \<longrightarrow> ctx_ok tinv pinv x') \<and>
    (\<forall>c s x'. key_ok c \<and> addState env c s x = ret x' \<longrightarrow> ctx_ok tinv pinv x') \<and>
    (\<forall>c s. ctx_ok tinv pinv (addStateNoFun env c s x)) \<and>
    (\<forall>c found x'. key_ok c \<and> findState env c x = ret (found, x') \<longrightarrow> ctx_ok tinv pinv x') \<and>
    (\<forall>c. key_ok c \<longrightarrow> ctx_ok tinv pinv (x\<lparr>c_sm := removeState env c (c_sm x)\<rparr>)) \<and>
    (\<forall>sid g. (\<forall>f. g = Some f \<longrightarrow> well_behaved f) \<longrightarrow> ctx_ok tinv pinv (x\<lparr>c_sm := registerFunction sid g (c_sm x)\<rparr>)) \<and>
    (\<forall>sid. ctx_ok tinv pinv (x\<lparr>c_sm := registerEndStateID sid (c_sm x)\<rparr>)) \<and>
    (\<forall>sid f. ctx_ok tinv pinv (x\<lparr>c_sm := registerStartStateID sid f (c_sm x)\<rparr>)) \<and>
    (\<forall>cb. ctx_ok tinv pinv (x\<lparr>c_sm := registerGetPktCB cb (c_sm x)\<rparr>)) \<and>
    (\<forall>i. ctx_ok tinv pinv (x\<lparr>c_sm := setConnectionPool i (c_sm x)\<rparr>)) \<and>
    ctx_ok tinv pinv (x\<lparr>c_sm := new_StateMachine env\<rparr>)"
proof (intro conjI allI impI; (elim conjE)?)
  note m = machine_env.axioms(1) [OF assms(1)]
  show "runPktBatch env x = ret x' \<Longrightarrow> ctx_ok tinv pinv x'" for x'
    using machine_env.runPktBatch_effect [OF assms] by blast
  show "ctx_ok tinv pinv x'" if "key_ok c" and r: "addState env c s x = ret x'" for c s x'
  proof -
    obtain f fi where "lookupFun (c_sm x) (state s) = ret f"
      "f (fst (packets x ! 0)) (new_FunIface (smi (c_sm x)) 0 (c_batch x) c s (c_world x)) = ret fi"
      by (rule addState_runs [OF m assms(2) r])
    from addState_effect [OF m assms(2) \<open>key_ok c\<close> this r] show ?thesis by simp
  qed
  show "ctx_ok tinv pinv (addStateNoFun env c s x)" for c s
    using assms(2) hash_map.find_insert [OF machine_maps.pool_laws [OF m], of _ c]
    by (auto simp: addStateNoFun_def Let_def ctx_ok_def pool_add_def)
  show "key_ok c \<Longrightarrow> findState env c x = ret (found, x') \<Longrightarrow> ctx_ok tinv pinv x'" for c found x'
    using machine_maps.findState_effect [OF m assms(2)] by blast
  have t: "tinv (stateTable (c_sm x))" using assms(2) by (simp add: ctx_ok_def)
  show "key_ok c \<Longrightarrow> ctx_ok tinv pinv (x\<lparr>c_sm := removeState env c (c_sm x)\<rparr>)" for c
    using assms(2) machine_maps.removeState_effect [OF m t, of c] by (simp add: ctx_ok_def) (simp add: removeState_def)
  show "ctx_ok tinv pinv (x\<lparr>c_sm := registerFunction sid g (c_sm x)\<rparr>)" if "\<forall>f. g = Some f \<longrightarrow> well_behaved f" for sid g
    using assms(2) registered_option [of _ sid g "c_sm x"] that
    by (auto simp: ctx_ok_def) (auto simp: registerFunction_def Let_def)
  show "ctx_ok tinv pinv (x\<lparr>c_sm := new_StateMachine env\<rparr>)"
    using assms(2) hash_map.find_empty [OF machine_maps.dense_laws [OF m]]
    by (simp add: ctx_ok_def new_StateMachine_def pq_inv_def)
  show "ctx_ok tinv pinv (x\<lparr>c_sm := registerEndStateID sid (c_sm x)\<rparr>)" for sid
    using assms(2) by (simp add: ctx_ok_def registerEndStateID_def)
  show "ctx_ok tinv pinv (x\<lparr>c_sm := registerStartStateID sid f (c_sm x)\<rparr>)" for sid f
    using assms(2) by (simp add: ctx_ok_def registerStartStateID_def)
  show "ctx_ok tinv pinv (x\<lparr>c_sm := registerGetPktCB cb (c_sm x)\<rparr>)" for cb
    using assms(2) by (simp add: ctx_ok_def registerGetPktCB_def)
  show "ctx_ok tinv pinv (x\<lparr>c_sm := setConnectionPool i (c_sm x)\<rparr>)" for i
    using assms(2) by (simp add: ctx_ok_def setConnectionPool_def)
qed

theorem operations_keep_well_formed_witness:
  "ctx_ok (alist_inv (\<lambda>_. True)) (alist_inv (\<lambda>_. True)) (addStateNoFun ex_env 8 (State_of 0 0) (ex_ctx [(7, State_of 0 0)] [] [7]))"
  using operations_keep_well_formed [OF ex_env_machine ex_ctx_ok1] by simp

section \<open>A program around a machine\<close>

text \<open>
  The shape that the C functions of all protocols share: \<open>process\<close> makes a batch of the packets and runs it,
  \<open>getPkts\<close> hands the packets back.
\<close>

definition process_batch ::
  "('c, 'p, 'w, 'k, 'm, 'n) env \<Rightarrow> 'p list \<Rightarrow> u32 \<Rightarrow> ('c, 'p, 'w, 'k, 'm, 'n) ctx \<Rightarrow>
     (('c, 'p, 'w, 'k, 'm, 'n) ctx \<times> u32 \<times> u32) res" where
  "process_batch env inPkts inCount x =
    rbind (new_BufArray inPkts inCount True) (\<lambda>ba.
    rbind (runPktBatch env (x\<lparr>c_batch := ba\<rparr>)) (\<lambda>x.
    ret (x, getSendCount (c_batch x), getFreeCount (c_batch x))))"

definition take_packets :: "'p bufArray \<Rightarrow> ('p list \<times> 'p list) res" where
  "take_packets ba = rbind (getSendBufs ba) (\<lambda>s. rbind (getFreeBufs ba) (\<lambda>f. ret (s, f)))"

text \<open>A machine that was just configured, in a program that has no other.\<close>

definition fresh_ctx ::
  "('n, 'c, State) map_ops \<Rightarrow> ('c, 'p, 'w, 'k, 'm) SM \<Rightarrow> 'p bufArray \<Rightarrow> 'w \<Rightarrow> ('c, 'p, 'w, 'k, 'm, 'n) ctx" where
  "fresh_ctx n sm ba w = \<lparr>c_sm = sm, c_pools = \<lambda>_. hm_empty n, c_batch = ba, c_world = w\<rparr>"

text \<open>
  The program receives batches, each a list of packets and the contents of all packet buffers, and reports for each
  the two counts, the packets it sends with their contents, and the packets it frees.  \<open>rd\<close> and \<open>wr\<close> read and
  write the packet buffers of the world.
\<close>

type_synonym ('p, 'b) report = "u32 \<times> u32 \<times> ('p \<times> 'b option) list \<times> 'p list"

fun serve ::
  "('w \<Rightarrow> 'p \<rightharpoonup> 'b) \<Rightarrow> (('p \<rightharpoonup> 'b) \<Rightarrow> 'w \<Rightarrow> 'w) \<Rightarrow>
   ('p list \<Rightarrow> u32 \<Rightarrow> ('c, 'p, 'w, 'k, 'm, 'n) ctx \<Rightarrow> (('c, 'p, 'w, 'k, 'm, 'n) ctx \<times> u32 \<times> u32) res) \<Rightarrow>
   ('p bufArray \<Rightarrow> ('p list \<times> 'p list) res) \<Rightarrow> ('p list \<times> ('p \<rightharpoonup> 'b)) list \<Rightarrow> ('c, 'p, 'w, 'k, 'm, 'n) ctx \<Rightarrow>
   (('p, 'b) report list \<times> ('c, 'p, 'w, 'k, 'm, 'n) ctx) res" where
  "serve rd wr process getPkts [] x = ret ([], x)"
| "serve rd wr process getPkts ((ps, P) # bs) x =
    rbind (process ps (of_nat (length ps)) (x\<lparr>c_world := wr P (c_world x)\<rparr>)) (\<lambda>(x, sc, fc).
    rbind (getPkts (c_batch x)) (\<lambda>(s, f).
    rbind (serve rd wr process getPkts bs x) (\<lambda>(out, x').
    ret ((sc, fc, map (\<lambda>p. (p, rd (c_world x) p)) s, f) # out, x'))))"

end
