(* ===== verification/Packet_Ledger.thy ===== *)
theory Packet_Ledger
  imports Machine_Run
begin

text \<open>
  Where the packets of a batch come from.  The functions of a machine use their interface only, the callback behind
  \<open>getPkt\<close> hands out the packet it returns, and the clock and the start function hand out none: then the
  ledger accounts for every packet that a call adds to the batch.  The locale \<open>ledger_machine\<close> is this contract, for any
  ledger; its lemmas follow the machine through one packet, the timeouts and a whole batch.
\<close>

section \<open>Machines that keep a ledger\<close>

definition tracked :: "('w \<Rightarrow> 'p list \<Rightarrow> 'w \<Rightarrow> bool) \<Rightarrow> ('c, 'p, 'w, 'k, 'm) SM \<Rightarrow> bool" where
  "tracked took sm \<longleftrightarrow> (\<forall>f. Some f \<in> set (sm_functions sm) \<longrightarrow> interface_only took f) \<and>
     hands_out took (getPktCB (smi sm)) \<and>
     (\<forall>f c w d w'. startStateFun sm = Some f \<longrightarrow> f c w = ret (d, w') \<longrightarrow> took w [] w')"

definition grew :: "('w \<Rightarrow> 'p list \<Rightarrow> 'w \<Rightarrow> bool) \<Rightarrow> ('c, 'p, 'w, 'k, 'm, 'n) ctx \<Rightarrow> ('c, 'p, 'w, 'k, 'm, 'n) ctx \<Rightarrow> bool" where
  "grew took x x' \<longleftrightarrow> (\<exists>new. map fst (packets x') = map fst (packets x) @ new \<and> took (c_world x) new (c_world x'))"

lemma tracked_config: "tracked took sm \<Longrightarrow> same_config sm sm' \<Longrightarrow> tracked took sm'"
  by (simp add: tracked_def same_config_def)

text \<open>A mark does not move a packet.\<close>

lemma map_fst_mark: "map fst (l[i := (fst (l ! i), b)]) = map fst l"
  by (cases "i < length l") (simp_all add: map_update list_update_same_conv list_update_beyond)

lemma grewI: "map fst (packets x') = map fst (packets x) @ new \<Longrightarrow> took (c_world x) new (c_world x') \<Longrightarrow> grew took x x'"
  by (auto simp: grew_def)

locale ledger_machine = machine_env env tinv pinv key_ok + packet_ledger took
  for env :: "('c, 'p, 'w, 'k, 'm, 'n) env" and tinv :: "'m \<Rightarrow> bool" and pinv :: "'n \<Rightarrow> bool"
    and key_ok :: "'c \<Rightarrow> bool" and took :: "'w \<Rightarrow> 'p list \<Rightarrow> 'w \<Rightarrow> bool" +
  assumes clock_quiet: "clock env w = (t, w') \<Longrightarrow> took w [] w'"
begin

lemma grew_refl: "grew took x x"
  by (rule grewI [of _ _ "[]"]) (simp_all add: took_none)

lemma grew_trans:
  assumes "grew took x y" and "grew took y z"
  shows "grew took x z"
proof -
  obtain a b where "map fst (packets y) = map fst (packets x) @ a" "took (c_world x) a (c_world y)"
    "map fst (packets z) = map fst (packets y) @ b" "took (c_world y) b (c_world z)"
    using assms by (auto simp: grew_def)
  then show ?thesis by (intro grewI [of _ _ "a @ b"]) (simp_all add: took_append)
qed

lemma findState_took:
  assumes ok: "ctx_ok tinv pinv x" and tr: "tracked took (c_sm x)" and key: "key_ok c"
    and r: "findState env c x = ret (found, x1)"
  shows "took (c_world x) [] (c_world x1)"
proof -
  have t: "tinv (stateTable (c_sm x))" using ok by (simp add: ctx_ok_def)
  have s: "took (c_world x) [] w" if "start_data c x = ret (d, w)" for d w
    using that tr took_none by (auto simp: start_data_def tracked_def split: option.splits)
  show ?thesis
    using r took_none s unfolding findState_eq [OF t key]
    by (auto simp: adopt_def accept_def rbind_eq_ret split: option.splits if_splits)
qed

text \<open>The destructor may run one more function; the ledger covers what that one adds.\<close>

lemma destroy_took:
  assumes r: "FunIface_destroy env slt sm fi = ret (sm', fi')" and ok: "fi_ok fi"
    and tr: "\<And>f. Some f \<in> set (sm_functions sm) \<Longrightarrow> interface_only took f" and cb: "hands_out took (getPktCB (fi_sm fi))"
  shows "\<exists>new. map fst (ba_list (pktsBA fi')) = map fst (ba_list (pktsBA fi)) @ new \<and> took (world fi) new (world fi')"
proof -
  obtain ba where m: "(if \<not> sendPkt fi then markDropPkt (pktIdx fi) (pktsBA fi)
      else markSendPkt (pktIdx fi) (pktsBA fi)) = ret ba"
    using r by (auto simp: FunIface_destroy_def rbind_eq_ret)
  have wf: "ba_wf (pktsBA fi)" using ok by (simp add: fi_ok_def)
  note mm = mark_ret [OF wf m]
  let ?fi = "fi\<lparr>pktsBA := ba\<rparr>"
  have ok1: "fi_ok ?fi" using ok mm by (simp add: fi_ok_def)
  have kept: "map fst (ba_list ba) = map fst (ba_list (pktsBA fi))"
    using mm by (simp only: map_fst_mark)
  show ?thesis
  proof (cases "immediateTransition fi")
    case False
    then have "fi' = ?fi" using r m by (auto simp: FunIface_destroy_def)
    then show ?thesis using kept took_none by (intro exI [of _ "[]"]) simp
  next
    case True
    then obtain f p where f: "lookupFun sm (state (st fi)) = ret f" and run: "f p ?fi = ret fi'"
      using r m by (auto simp: FunIface_destroy_def rbind_eq_ret Let_def split: if_splits)
    have "uses_iface took ?fi fi'" using tr [OF lookupFun_mem [OF f]] run by (simp add: interface_only_def)
    from uses_iface_took [OF this ok1] cb
    obtain new where "ba_list (pktsBA fi') = ba_list ba @ map (\<lambda>p. (p, True)) new" "took (world fi) new (world fi')" by auto
    then show ?thesis using kept by (intro exI [of _ new]) (simp add: o_def)
  qed
qed

lemma run_found_grew:
  assumes ok: "ctx_ok tinv pinv x" and tr: "tracked took (c_sm x)" and hit: "tbl env x c = Some s"
    and r: "run_found env cur p c s x = ret x'"
  shows "grew took x x'"
proof -
  obtain f fi sm' fi' where f: "lookupFun (c_sm x) (state s) = ret f" and run: "f p (packet_iface cur c s x) = ret fi"
    and d: "FunIface_destroy env (entry_slot fi x) (handled env c s fi x) fi = ret (sm', fi')" and x': "x' = put_back sm' fi' x"
    using r by (auto simp: run_found_eq rbind_eq_ret)
  have h: "same_config (c_sm x) (handled env c s fi x)" using handled_effect [OF ok hit, of fi] by blast
  have i: "getPktCB (fi_sm (packet_iface cur c s x)) = getPktCB (smi (c_sm x))"
    "ba_list (pktsBA (packet_iface cur c s x)) = packets x" "world (packet_iface cur c s x) = c_world x"
    by (simp_all add: packet_iface_def new_FunIface_def cancel_timeout_def packets_def)
  have ok1: "fi_ok (packet_iface cur c s x)"
    using ok by (simp add: packet_iface_def new_FunIface_def fi_ok_def ctx_ok_def cancel_timeout_def)
  have "uses_iface took (packet_iface cur c s x) fi"
    using tr lookupFun_mem [OF f] run by (auto simp: tracked_def interface_only_def)
  from uses_iface_took [OF this ok1] obtain n1 where fr: "fi_frame (packet_iface cur c s x) fi"
    and 1: "ba_list (pktsBA fi) = packets x @ map (\<lambda>p. (p, True)) n1" "took (c_world x) n1 (world fi)"
    using tr i by (auto simp: tracked_def)
  have cb: "hands_out took (getPktCB (fi_sm fi))" using fr tr i by (simp add: fi_frame_def tracked_def)
  have "interface_only took g" if "Some g \<in> set (sm_functions (handled env c s fi x))" for g
    using tracked_config [OF tr h] that by (simp add: tracked_def)
  from destroy_took [OF d fi_frame_ok [OF fr] this cb] obtain n2
    where 2: "map fst (ba_list (pktsBA fi')) = map fst (ba_list (pktsBA fi)) @ n2" "took (world fi) n2 (world fi')" by blast
  show ?thesis
    using 1 2 took_append [OF 1(2) 2(2)] by (intro grewI [of _ _ "n1 @ n2"]) (simp_all add: x' put_back_def packets_def o_def)
qed

lemma run_dropped_grew:
  assumes ok: "ctx_ok tinv pinv x" and len: "unat cur < length (packets x)" and r: "run_dropped cur x = ret x'"
  shows "grew took x x'"
proof -
  have "map fst (packets x') = map fst (packets x)" "c_world x' = c_world x"
    using run_dropped_effect [OF ok len] r map_fst_mark [of "packets x" "unat cur" False]
    by (auto simp: packets_def marks_dropped_def)
  then show ?thesis using took_none by (intro grewI [of _ _ "[]"]) simp_all
qed

lemma runPkt_grew:
  assumes ok: "ctx_ok tinv pinv x" and tr: "tracked took (c_sm x)" and len: "unat cur < length (packets x)"
    and r: "runPkt env cur x = ret x'"
  shows "grew took x x'"
proof -
  let ?p = "fst (packets x ! unat cur)"
  note eq = runPkt_eq [of env cur x, unfolded ba_get_packets [OF ok len] rbind_simps]
  show ?thesis
  proof (cases "ident env (c_world x) ?p")
    case None
    then show ?thesis using r eq run_dropped_grew [OF ok len] by simp
  next
    case (Some c)
    note key = ident_ok [OF Some]
    obtain found x1 where f: "findState env c x = ret (found, x1)"
      and r1: "(case found of None \<Rightarrow> run_dropped cur x1 | Some s \<Rightarrow> run_found env cur ?p c s x1) = ret x'"
      using r eq Some by (auto simp: rbind_eq_ret)
    note fe = findState_effect [OF ok key f]
    have pk: "packets x1 = packets x" using fe by (simp add: packets_def)
    have g1: "grew took x x1"
      using findState_took [OF ok tr key f] pk by (intro grewI [of _ _ "[]"]) simp_all
    have "grew took x1 x'"
    proof (cases found)
      case None
      then show ?thesis using r1 run_dropped_grew [of x1 cur x'] fe len pk ok by simp
    next
      case (Some s)
      then show ?thesis using r1 run_found_grew [of x1 c s cur ?p x'] fe tracked_config [OF tr] by simp
    qed
    then show ?thesis by (rule grew_trans [OF g1])
  qed
qed

lemma run_timeouts_took:
  assumes "ctx_ok tinv pinv x" and "run_timeouts env x = ret x'"
  shows "took (c_world x) [] (c_world x')"
  using assms
proof (induction "length (timeoutsQ (smi (c_sm x)))" arbitrary: x rule: less_induct)
  case less
  show ?case
  proof (cases "pq_top (timeoutsQ (smi (c_sm x)))")
    case None
    then show ?thesis using less.prems(2) took_none by (subst (asm) run_timeouts.simps) simp
  next
    case (Some t)
    obtain now w where clk: "clock env (c_world x) = (now, w)" by fastforce
    note q = clock_quiet [OF clk]
    show ?thesis
    proof (cases "t_time t > now")
      case True
      then show ?thesis using less.prems(2) Some clk q by (subst (asm) run_timeouts.simps) auto
    next
      case due: False
      show ?thesis
      proof (cases "timeoutFunctions (smi (c_sm x)) (t_timeoutID t)")
        case None
        then have r: "run_timeouts env (popped w x) = ret x'"
          using less.prems(2) Some clk due unfolding popped_def by (subst (asm) run_timeouts.simps) simp
        have "length (timeoutsQ (smi (c_sm (popped w x)))) < length (timeoutsQ (smi (c_sm x)))"
          using tq.pop_size [OF _ Some] less.prems(1) by (simp add: popped_def ctx_ok_def)
        from less.hyps [OF this _ r] pop_timeout_ok [OF less.prems(1) Some]
        have "took w [] (c_world x')" by (simp add: popped_def)
        from took_append [OF q this] show ?thesis by simp
      next
        case (Some ck)
        then have "\<exists>c k. rbind (fire_timeout env (t_timeoutID t) c k (x\<lparr>c_world := w\<rparr>)) (run_timeouts env) = ret x'"
          using less.prems(2) \<open>pq_top _ = Some t\<close> clk due by (subst (asm) run_timeouts.simps) (cases ck, auto)
        then show ?thesis using fire_timeout_fails by (auto simp: rbind_eq_ret)
      qed
    qed
  qed
qed

lemma run_from_grew:
  assumes "ctx_ok tinv pinv x" and "tracked took (c_sm x)" and "unat i + k \<le> length (packets x)"
    and "run_from env k i x = ret x'"
  shows "grew took x x'"
  using assms
proof (induction k arbitrary: i x)
  case 0
  then show ?case by (simp add: grew_refl)
next
  case (Suc k)
  obtain y where y: "runPkt env i x = ret y" and rest: "run_from env k (i + 1) y = ret x'"
    using Suc.prems(4) by (auto simp: rbind_eq_ret)
  have i: "unat i < length (packets x)" using Suc.prems(3) by simp
  note e = runPkt_effect [OF Suc.prems(1) i y] and g = runPkt_grew [OF Suc.prems(1,2) i y]
  have "unat (i + 1) = Suc (unat i)"
    using i by (intro unat_inc [of _ "numBufs (c_batch x)"]) (simp add: packets_def)
  moreover have "length (packets x) \<le> length (packets y)" using e unfolding batch_step_def
    by (metis length_append length_list_update le_add1)
  ultimately have "unat (i + 1) + k \<le> length (packets y)" using Suc.prems(3) by linarith
  with Suc.IH [OF _ _ this rest] e tracked_config [OF Suc.prems(2)] show ?case
    by (simp add: pkt_effect_def grew_trans [OF g])
qed

lemma runPktBatch_grew:
  assumes ok: "ctx_ok tinv pinv x" and tr: "tracked took (c_sm x)" and r: "runPktBatch env x = ret x'"
  shows "grew took x x'"
proof -
  obtain y where y: "run_timeouts env x = ret y"
    and run: "run_from env (unat (numBufs (c_batch x))) 0 y = ret x'"
    using r by (auto simp: runPktBatch_def getTotalCount_def rbind_eq_ret)
  have t: "ctx_ok tinv pinv y" and same: "packets y = packets x" "same_config (c_sm x) (c_sm y)"
    using run_timeouts_effect [OF ok y] by (auto simp: only_timers_def same_config_def view_defs)
  have g: "grew took x y" using run_timeouts_took [OF ok y] same(1) by (intro grewI [of _ _ "[]"]) simp_all
  have "unat (0 :: u32) + unat (numBufs (c_batch x)) \<le> length (packets y)"
    unfolding same(1) by (simp add: packets_def)
  from run_from_grew [OF t tracked_config [OF tr same(2)] this run] show ?thesis by (rule grew_trans [OF g])
qed

text \<open>The packets a batch gives back: its own, with the marks it got, and those handed out meanwhile.\<close>

lemma batch_accounted:
  assumes ok: "ctx_ok tinv pinv x" and tr: "tracked took (c_sm x)" and r: "runPktBatch env x = ret x'"
  shows "\<exists>bs new. length bs = length (packets x) \<and> took (c_world x) new (c_world x') \<and>
    getSendBufs (c_batch x') = ret (map fst (filter snd (zip (map fst (packets x)) bs)) @ new) \<and>
    getFreeBufs (c_batch x') = ret (map fst (filter (Not \<circ> snd) (zip (map fst (packets x)) bs)))"
proof -
  note e = runPktBatch_effect [OF ok r]
  then have wf: "ba_wf (c_batch x')" by (simp add: ctx_ok_def)
  obtain bs n0 where bs: "length bs = length (packets x)"
    and l: "packets x' = zip (map fst (packets x)) bs @ map (\<lambda>p. (p, True)) n0"
    using e by (auto simp: batch_run_def)
  obtain new where new: "map fst (packets x') = map fst (packets x) @ new" "took (c_world x) new (c_world x')"
    using runPktBatch_grew [OF assms] by (auto simp: grew_def)
  have "n0 = new" using new(1) bs by (simp add: l o_def)
  then show ?thesis
    using bs new(2) l getSendBufs_spec [OF wf] getFreeBufs_spec [OF wf]
    by (intro exI [of _ bs] exI [of _ new]) (simp add: packets_def o_def)
qed

end

text \<open>The counts of a batch are the lengths of what the two loops copy.\<close>

lemma batch_counts:
  assumes "ba_wf ba" and "getSendBufs ba = ret (map fst (filter snd (zip ps bs)) @ new)"
    and "getFreeBufs ba = ret (map fst (filter (Not \<circ> snd) (zip ps bs)))" and "length bs = length ps"
  shows "unat (getSendCount ba) = length (filter id bs) + length new \<and> unat (getFreeCount ba) = length (filter Not bs)"
proof -
  have l: "length (filter snd (zip ps bs)) = length (filter id bs)"
    "length (filter (Not \<circ> snd) (zip ps bs)) = length (filter Not bs)"
    using assms(4) by (induction ps bs rule: list_induct2') auto
  have "map fst (filter snd (ba_list ba)) = map fst (filter snd (zip ps bs)) @ new"
    "map fst (filter (Not \<circ> snd) (ba_list ba)) = map fst (filter (Not \<circ> snd) (zip ps bs))"
    using getSendBufs_spec [OF assms(1)] getFreeBufs_spec [OF assms(1)] assms(2,3) by simp_all
  from this [THEN arg_cong [where f = length]]
  have "length (filter snd (ba_list ba)) = length (filter snd (zip ps bs)) + length new"
    "length (filter (Not \<circ> snd) (ba_list ba)) = length (filter (Not \<circ> snd) (zip ps bs))"
    by (simp_all only: length_map length_append)
  then show ?thesis using getSendCount_spec [OF assms(1)] getFreeCount_spec [OF assms(1)] l by simp
qed

section \<open>Nothing is lost and nothing is invented\<close>

text \<open>
  C6.  A batch loses no packet and invents none.  Suppose the world keeps a log of the packets the callback of
  \<open>getPkt\<close> returns: the callback appends each to it, and nothing else writes it; and the state functions
  reach the batch through the interface only.  Then after \<open>runPktBatch\<close> the packets to send are those packets of
  the batch that are marked so, in their order, followed by precisely the packets logged during the call, each once
  and in the order they were obtained; the packets to free are the other packets of the batch, in their order; and the
  counts are the lengths of the two lists.
\<close>

theorem batch_conserves_packets:
  assumes "machine_env env tinv pinv key_ok" and "ctx_ok tinv pinv x" and "runPktBatch env x = ret x'"
    and "\<And>f. Some f \<in> set (sm_functions (c_sm x)) \<Longrightarrow> interface_only (logged log) f"
    and "\<And>cb w p w'. \<lbrakk>getPktCB (smi (c_sm x)) = Some cb; cb w = ret (p, w')\<rbrakk> \<Longrightarrow> log w' = log w @ [p]"
    and "\<And>f c w d w'. \<lbrakk>startStateFun (c_sm x) = Some f; f c w = ret (d, w')\<rbrakk> \<Longrightarrow> log w' = log w"
    and "\<And>w t w'. clock env w = (t, w') \<Longrightarrow> log w' = log w"
  shows "\<exists>bs new. length bs = length (packets x) \<and> log (c_world x') = log (c_world x) @ new \<and>
    getSendBufs (c_batch x') = ret (map fst (filter snd (zip (map fst (packets x)) bs)) @ new) \<and>
    getFreeBufs (c_batch x') = ret (map fst (filter (Not \<circ> snd) (zip (map fst (packets x)) bs))) \<and>
    unat (getSendCount (c_batch x')) = length (filter id bs) + length new \<and>
    unat (getFreeCount (c_batch x')) = length (filter Not bs)"
proof -
  have m: "ledger_machine env tinv pinv key_ok (logged log)"
    using assms(1,7) log_ledger.packet_ledger_axioms
    by (intro ledger_machine.intro ledger_machine_axioms.intro) (simp_all add: logged_def)
  have t: "tracked (logged log) (c_sm x)"
    unfolding tracked_def hands_out_def logged_def [abs_def] using assms(4-6) by (auto simp: logged_def [abs_def])
  have wf: "ba_wf (c_batch x')" using machine_env.runPktBatch_effect [OF assms(1-3)] by (simp add: ctx_ok_def)
  from ledger_machine.batch_accounted [OF m assms(2) t assms(3)]
  show ?thesis using batch_counts [OF wf] by (fastforce simp: logged_def)
qed

text \<open>
  A machine whose world is the log: its only function obtains a packet, to answer, and goes to state 1.
\<close>

definition lx_reply :: "(nat, nat, nat list, unit) stateFun" where
  "lx_reply p fi = rbind (getPkt fi) (\<lambda>(q, fi). ret (transition 1 fi))"

definition lx_env :: "(nat, nat, nat list, unit, (nat \<times> State) list, (nat \<times> State) list) env" where
  "lx_env = \<lparr>dense = alist_ops, poolOps = alist_ops, ident = \<lambda>w p. Some p, clock = \<lambda>w. (100, w), timeoutFun = \<lambda>k fi. ret fi\<rparr>"

definition lx_ctx :: "(nat, nat, nat list, unit, (nat \<times> State) list, (nat \<times> State) list) ctx" where
  "lx_ctx = \<lparr>c_sm = (registerGetPktCB (Some (\<lambda>w. ret (100 + length w, w @ [100 + length w])))
       (registerEndStateID 3 (registerFunction 0 (Some lx_reply) (new_StateMachine lx_env))))\<lparr>stateTable := [(7, State_of 0 0)]\<rparr>,
     c_pools = \<lambda>_. [], c_batch = \<lparr>pkts = [Some 7], sendMask = [True], numBufs = 1, numSlots = 1, fromLua = False\<rparr>,
     c_world = []\<rparr>"

lemma lx_machine: "machine_env lx_env (alist_inv (\<lambda>_. True)) (alist_inv (\<lambda>_. True)) (\<lambda>_. True)"
  using alist.hash_map_axioms
  by (intro machine_env.intro machine_maps.intro machine_env_axioms.intro) (simp_all add: lx_env_def)

lemma lx_reply_iface: "interface_only (logged id) lx_reply"
  unfolding interface_only_def lx_reply_def
  by (auto simp: rbind_eq_ret logged_def own_step_def transition_def intro!: uses_iface.own [OF uses_fetch])

lemma lx_fields [simp]:
  "sm_functions (c_sm lx_ctx) = [Some lx_reply]" "startStateFun (c_sm lx_ctx) = None" "endStateID (c_sm lx_ctx) = 3"
  "smi (c_sm lx_ctx) = \<lparr>getPktCB = Some (\<lambda>w. ret (100 + length w, w @ [100 + length w])), curTimeoutID = 0, timeoutsQ = [],
     timeoutFunctions = Map.empty\<rparr>" "c_world lx_ctx = []" "stateTable (c_sm lx_ctx) = [(7, State_of 0 0)]"
  by (simp_all add: lx_ctx_def registerGetPktCB_def registerEndStateID_def registerFunction_def new_StateMachine_def Let_def)

lemma lx_batch: "ba_wf (c_batch lx_ctx)" "packets lx_ctx = [(7, True)]"
  by (simp_all add: lx_ctx_def ba_wf_def packets_def ba_list_def)

lemma lx_ok: "ctx_ok (alist_inv (\<lambda>_. True)) (alist_inv (\<lambda>_. True)) lx_ctx"
  using lx_batch(1) interface_only_well_behaved [OF lx_reply_iface]
  by (simp add: ctx_ok_def pq_inv_def alist_inv_def) (simp add: lx_ctx_def)

lemma lx_runs: "\<exists>x'. runPktBatch lx_env lx_ctx = ret x' \<and> c_world x' = [100]"
proof -
  let ?fi = "packet_iface 0 7 (State_of 0 0) lx_ctx"
  obtain ba where ba: "addPkt 100 (c_batch lx_ctx) = ret ba"
    using ba.add [OF lx_batch(1), of 100] by (auto simp: lx_ctx_def ba_room_def)
  have run: "lx_reply (fst (packets lx_ctx ! unat (0 :: u32))) ?fi = ret (transition 1 (?fi\<lparr>pktsBA := ba, world := [100]\<rparr>))"
    using ba by (simp add: lx_reply_def getPkt_def packet_iface_def new_FunIface_def cancel_timeout_def lx_batch)
  have id: "ident lx_env (c_world lx_ctx) (fst (packets lx_ctx ! unat (0 :: u32))) = Some 7"
    by (simp add: lx_env_def lx_batch)
  have hit: "tbl lx_env lx_ctx 7 = Some (State_of 0 0)" by (simp add: tbl_def lx_env_def alist_ops_def)
  have f: "lookupFun (c_sm lx_ctx) (state (State_of 0 0)) = ret lx_reply" by (simp add: lookupFun_eq State_of_def)
  have len: "unat (0 :: u32) < length (packets lx_ctx)" unfolding lx_batch by simp
  have "\<exists>x'. runPkt lx_env 0 lx_ctx = ret x' \<and> c_world x' = [100]"
    using runPkt_plain [OF machine_env.axioms(1) [OF lx_machine] lx_ok len id hit f run]
    by (auto simp: packet_iface_def new_FunIface_def transition_def)
  moreover have "run_timeouts lx_env lx_ctx = ret lx_ctx" by (subst run_timeouts.simps) (simp add: pq_top_def)
  moreover have "getTotalCount (c_batch lx_ctx) = 1" by (simp add: getTotalCount_def lx_ctx_def)
  ultimately show ?thesis by (auto simp: runPktBatch_def)
qed

theorem batch_conserves_packets_witness:
  "\<exists>x' b. runPktBatch lx_env lx_ctx = ret x' \<and>
     getSendBufs (c_batch x') = ret ((if b then [7] else []) @ [100]) \<and> getFreeBufs (c_batch x') = ret (if b then [] else [7])"
proof -
  obtain x' where r: "runPktBatch lx_env lx_ctx = ret x'" and w: "c_world x' = [100]" using lx_runs by blast
  have f: "interface_only (logged id) f" if "Some f \<in> set (sm_functions (c_sm lx_ctx))" for f
    using that lx_reply_iface by simp
  have cb: "id w' = id w @ [p]" if "getPktCB (smi (c_sm lx_ctx)) = Some cb" "cb w = ret (p, w')" for cb w p w'
    using that by auto
  have start: "id w' = id w" if "startStateFun (c_sm lx_ctx) = Some f" "f c w = ret (d, w')" for f c w d w'
    using that by simp
  have clk: "id w' = id w" if "clock lx_env w = (t, w')" for w t w' using that by (simp add: lx_env_def)
  have "\<exists>bs new. length bs = length (packets lx_ctx) \<and> id (c_world x') = id (c_world lx_ctx) @ new \<and>
    getSendBufs (c_batch x') = ret (map fst (filter snd (zip (map fst (packets lx_ctx)) bs)) @ new) \<and>
    getFreeBufs (c_batch x') = ret (map fst (filter (Not \<circ> snd) (zip (map fst (packets lx_ctx)) bs))) \<and>
    unat (getSendCount (c_batch x')) = length (filter id bs) + length new \<and>
    unat (getFreeCount (c_batch x')) = length (filter Not bs)"
    by (rule batch_conserves_packets [OF lx_machine lx_ok r]) (fact f cb start clk)+
  then obtain bs new where "length bs = length (packets lx_ctx)" "id (c_world x') = id (c_world lx_ctx) @ new"
    "getSendBufs (c_batch x') = ret (map fst (filter snd (zip (map fst (packets lx_ctx)) bs)) @ new)"
    "getFreeBufs (c_batch x') = ret (map fst (filter (Not \<circ> snd) (zip (map fst (packets lx_ctx)) bs)))"
    by blast
  then have "length bs = 1" "getSendBufs (c_batch x') = ret (map fst (filter snd (zip [7] bs)) @ [100])"
    "getFreeBufs (c_batch x') = ret (map fst (filter (Not \<circ> snd) (zip [7] bs)))"
    unfolding lx_batch using w by simp_all
  then show ?thesis using r by (intro exI [of _ x'] exI [of _ "hd bs"]) (cases bs, simp_all)
qed

end
