(* ===== verification/Machine_Spec.thy ===== *)
theory Machine_Spec
  imports Machine_Run
begin

text \<open>
  A server as a specification.  A \<open>service\<close> says on an abstract state what one packet does: which connection it belongs
  to, how a connection is opened, and what the packet changes.  \<open>spec_serve\<close> is the whole server made of it:
  batches of packets in, reports out, without hash tables, addresses, callbacks or batch arrays.

  The locale \<open>machine_spec\<close> states what the state functions of a machine must do on one connection to implement
  a service.  Inside the locale this is lifted to one packet, to a batch and, in \<open>service_spec\<close>, to a program that
  serves any number of batches.  A machine that implements a service fails exactly when the service does.
\<close>

section \<open>Services\<close>

record ('a, 'p, 'c) service =
  sp_ident :: "'a \<Rightarrow> 'p \<Rightarrow> 'c option"
  sp_tracked :: "'a \<Rightarrow> 'c \<Rightarrow> bool"
  sp_open :: "'c \<Rightarrow> 'a \<Rightarrow> 'a res"
  sp_handle :: "'p \<Rightarrow> 'c \<Rightarrow> 'a \<Rightarrow> bool \<times> 'a"   \<comment> \<open>is the packet sent?\<close>

definition spec_packet :: "('a, 'p, 'c) service \<Rightarrow> 'p \<Rightarrow> 'a \<Rightarrow> (bool \<times> 'a) res" where
  "spec_packet sp p s =
    (case sp_ident sp s p of None \<Rightarrow> ret (False, s)
     | Some c \<Rightarrow> rbind (if sp_tracked sp s c then ret s else sp_open sp c s) (\<lambda>s. ret (sp_handle sp p c s)))"

fun spec_batch :: "('a, 'p, 'c) service \<Rightarrow> 'p list \<Rightarrow> 'a \<Rightarrow> (bool list \<times> 'a) res" where
  "spec_batch sp [] s = ret ([], s)"
| "spec_batch sp (p # ps) s =
    rbind (spec_packet sp p s) (\<lambda>(b, s). rbind (spec_batch sp ps s) (\<lambda>(bs, s). ret (b # bs, s)))"

definition report_of :: "('p \<rightharpoonup> 'b) \<Rightarrow> ('p \<times> bool) list \<Rightarrow> ('p, 'b) report" where
  "report_of P l = (let sent = map fst (filter snd l); freed = map fst (filter (Not \<circ> snd) l)
     in (of_nat (length sent), of_nat (length freed), map (\<lambda>p. (p, P p)) sent, freed))"

fun spec_serve ::
  "('a, 'p, 'c) service \<Rightarrow> ('a \<Rightarrow> 'p \<rightharpoonup> 'b) \<Rightarrow> (('p \<rightharpoonup> 'b) \<Rightarrow> 'a \<Rightarrow> 'a) \<Rightarrow> ('p list \<times> ('p \<rightharpoonup> 'b)) list \<Rightarrow> 'a \<Rightarrow>
     (('p, 'b) report list \<times> 'a) res" where
  "spec_serve sp rd wr [] s = ret ([], s)"
| "spec_serve sp rd wr ((ps, P) # bs) s =
    rbind (spec_batch sp ps (wr P s)) (\<lambda>(marks, s).
    rbind (spec_serve sp rd wr bs s) (\<lambda>(out, s').
    ret (report_of (rd s) (zip ps marks) # out, s')))"

text \<open>Results that correspond: both return corresponding values, or both stop with the same error.\<close>

abbreviation res_rel :: "('a \<Rightarrow> 'b \<Rightarrow> bool) \<Rightarrow> 'a res \<Rightarrow> 'b res \<Rightarrow> bool" where
  "res_rel Q \<equiv> rel_option (rel_sum (=) Q)"

lemma res_rel_ret [simp]: "res_rel Q (ret a) r \<longleftrightarrow> (\<exists>b. r = ret b \<and> Q a b)"
  by (cases r rule: option.exhaust; simp) (metis rel_sum.simps sum.distinct(1) sum.inject(2))

lemma res_rel_rbind:
  assumes "res_rel Q r r'" and "\<And>a b. r = ret a \<Longrightarrow> r' = ret b \<Longrightarrow> Q a b \<Longrightarrow> res_rel Q' (f a) (g b)"
  shows "res_rel Q' (rbind r f) (rbind r' g)"
proof (cases rule: option.rel_cases [OF assms(1)])
  case 1
  then show ?thesis by simp
next
  case (2 x y)
  from this(3) show ?thesis by (cases rule: rel_sum.cases) (use 2 assms(2) in auto)
qed

lemma res_rel_mono: "res_rel Q r r' \<Longrightarrow> (\<And>a b. Q a b \<Longrightarrow> Q' a b) \<Longrightarrow> res_rel Q' r r'"
  by (erule option.rel_mono_strong) (erule sum.rel_mono_strong, auto)

lemma spec_batch_length: "spec_batch sp ps s = ret (bs, s') \<Longrightarrow> length bs = length ps"
  by (induction ps arbitrary: s bs s') (auto simp: rbind_eq_ret)

text \<open>A service always reports, or stops with an error it opens connections with.\<close>

definition stops_with :: "(err \<Rightarrow> bool) \<Rightarrow> 'a res \<Rightarrow> bool" where
  "stops_with may r \<longleftrightarrow> (case r of None \<Rightarrow> False | Some (Inl e) \<Rightarrow> may e | Some (Inr _) \<Rightarrow> True)"

lemma stops_with_simps [simp]: "stops_with may (ret a)" "stops_with may (fail e) = may e" "\<not> stops_with may None"
  by (simp_all add: stops_with_def)

lemma stops_with_rbind: "stops_with may r \<Longrightarrow> (\<And>a. r = ret a \<Longrightarrow> stops_with may (f a)) \<Longrightarrow> stops_with may (rbind r f)"
  by (auto simp: rbind_def stops_with_def split: option.splits sum.splits)

lemma stops_with_cases: "stops_with may r \<longleftrightarrow> (\<exists>a. r = ret a) \<or> (\<exists>e. r = fail e \<and> may e)"
  by (auto simp: stops_with_def split: option.splits sum.splits)

lemma spec_batch_stops:
  assumes "\<And>c s. stops_with may (sp_open sp c s)"
  shows "stops_with may (spec_batch sp ps s)"
proof (induction ps arbitrary: s)
  case (Cons p ps)
  have "stops_with may (spec_packet sp p s)"
    using assms by (auto simp: spec_packet_def split: option.splits intro!: stops_with_rbind)
  then show ?case using Cons.IH by (auto intro!: stops_with_rbind)
qed simp

lemma spec_serve_stops:
  assumes "\<And>c s. stops_with may (sp_open sp c s)"
  shows "stops_with may (spec_serve sp rd wr bs s)"
proof (induction bs arbitrary: s)
  case (Cons b bs)
  obtain ps P where b: "b = (ps, P)" by fastforce
  show ?case using Cons.IH spec_batch_stops [of may sp, OF assms] by (auto simp: b intro!: stops_with_rbind)
qed simp

section \<open>Configurations and calls\<close>

text \<open>No packet callback and no timeout was ever set.\<close>

definition plain_smi :: "('c, 'p, 'w, 'k) smIface" where
  "plain_smi = \<lparr>getPktCB = None, curTimeoutID = 0, timeoutsQ = [], timeoutFunctions = Map.empty\<rparr>"

text \<open>A server listens, with a factory \<open>start\<close> for new connections; a client has none and does not listen.\<close>

definition conf_is ::
  "('c, 'p, 'w, 'k) stateFun option list \<Rightarrow> ('c \<Rightarrow> 'w \<Rightarrow> (ptr \<times> 'w) res) option \<Rightarrow> StateID \<Rightarrow> StateID \<Rightarrow>
     ('c, 'p, 'w, 'k, 'm) SM \<Rightarrow> bool" where
  "conf_is fs start s0 e sm \<longleftrightarrow> sm_functions sm = fs \<and> endStateID sm = e \<and> smi sm = plain_smi \<and>
     listenToConnections sm = (start \<noteq> None) \<and>
     (start \<noteq> None \<longrightarrow> startStateFun sm = start \<and> startStateID sm = s0)"

text \<open>
  The connections a machine has: those of its table, and those that wait in its pool since they were opened.  Taking a
  connection from the pool into the table does not change them.
\<close>

definition known :: "('c, 'p, 'w, 'k, 'm, 'n) env \<Rightarrow> ('c, 'p, 'w, 'k, 'm, 'n) ctx \<Rightarrow> 'c \<rightharpoonup> State" where
  "known env x = my_pool env x ++ tbl env x"

definition apart :: "('c, 'p, 'w, 'k, 'm, 'n) env \<Rightarrow> ('c, 'p, 'w, 'k, 'm, 'n) ctx \<Rightarrow> bool" where
  "apart env x \<longleftrightarrow> (\<forall>c. tbl env x c \<noteq> None \<longrightarrow> my_pool env x c = None)"

lemma known_none: "known env x c = None \<longleftrightarrow> tbl env x c = None \<and> my_pool env x c = None"
  by (auto simp: known_def map_add_None)

lemma known_table: "my_pool env x = Map.empty \<Longrightarrow> known env x = tbl env x"
  by (simp add: known_def)

definition fun_at :: "('c, 'p, 'w, 'k) stateFun option list \<Rightarrow> StateID \<Rightarrow> ('c, 'p, 'w, 'k) stateFun \<Rightarrow> bool" where
  "fun_at fs sid f \<longleftrightarrow> length fs \<le> 2 ^ 16 \<and> unat sid < length fs \<and> fs ! unat sid = Some f"

definition call_of :: "u32 \<Rightarrow> 'p bufArray \<Rightarrow> 'c \<Rightarrow> State \<Rightarrow> 'w \<Rightarrow> ('c, 'p, 'w, 'k) FunIface" where
  "call_of i ba c s w = new_FunIface plain_smi i ba c (s\<lparr>timeoutID := timeoutIDInvalid\<rparr>) w"

definition quiet :: "('c, 'p, 'w, 'k) FunIface \<Rightarrow> ('c, 'p, 'w, 'k) FunIface \<Rightarrow> bool" where
  "quiet fi fi' \<longleftrightarrow> fi_sm fi' = fi_sm fi \<and> pktsBA fi' = pktsBA fi \<and> immediateTransition fi' = immediateTransition fi"

definition after :: "StateID \<Rightarrow> 'c \<Rightarrow> State \<Rightarrow> ('c \<rightharpoonup> State) \<Rightarrow> 'c \<rightharpoonup> State" where
  "after e c s t = t(c := if state s = e then None else Some s)"

lemma call_of_simps [simp]:
  "fi_sm (call_of i ba c s w) = plain_smi" "pktsBA (call_of i ba c s w) = ba" "\<not> immediateTransition (call_of i ba c s w)"
  "stateData (st (call_of i ba c s w)) = stateData s" "state (st (call_of i ba c s w)) = state s"
  "world (call_of i ba c s w) = w" "sendPkt (call_of i ba c s w)" "pktIdx (call_of i ba c s w) = i" "cID (call_of i ba c s w) = c"
  by (simp_all add: call_of_def new_FunIface_def)

lemma fun_at_lookup: "fun_at fs sid f \<Longrightarrow> sm_functions sm = fs \<Longrightarrow> lookupFun sm sid = ret f"
  using lookupFun_eq [of sm sid] by (auto simp: fun_at_def)

lemma plain_iface: "smi (c_sm x) = plain_smi \<Longrightarrow> packet_iface i c s x = call_of i (c_batch x) c s (c_world x)"
  by (simp add: packet_iface_def call_of_def cancel_timeout_def plain_smi_def)

section \<open>The contract\<close>

locale machine_spec = machine_maps env tinv pinv key_ok
  for env :: "('c, 'p, 'w, 'k, 'm, 'n) env" and tinv pinv key_ok +
  fixes fs :: "('c, 'p, 'w, 'k) stateFun option list" and start :: "('c \<Rightarrow> 'w \<Rightarrow> (ptr \<times> 'w) res) option" and s0 e :: StateID
    and sp :: "('a, 'p, 'c) service" and A :: "'a \<Rightarrow> ('c \<rightharpoonup> State) \<Rightarrow> 'w \<Rightarrow> bool"
  assumes ident_abs: "A s t w \<Longrightarrow> ident env w p = sp_ident sp s p"
    and tracked_abs: "A s t w \<Longrightarrow> sp_tracked sp s c \<longleftrightarrow> t c \<noteq> None"
    and open_impl: "\<lbrakk>A s t w; t c = None; start = Some f\<rbrakk> \<Longrightarrow> res_rel (\<lambda>s' (p, v). A s' (t(c \<mapsto> State_of s0 p)) v \<and>
        (\<forall>q. sp_ident sp s' q = sp_ident sp s q)) (sp_open sp c s) (f c w)"
    and refuse_impl: "\<lbrakk>A s t w; t c = None; start = None\<rbrakk> \<Longrightarrow> sp_open sp c s = ret s \<and> sp_handle sp p c s = (False, s)"
    and handle_impl: "\<lbrakk>A s t w; t c = Some a; sp_ident sp s p = Some c; sp_handle sp p c s = (b, s')\<rbrakk> \<Longrightarrow>
      \<exists>f fi. fun_at fs (state a) f \<and> f p (call_of i ba c a w) = ret fi \<and> quiet (call_of i ba c a w) fi \<and>
        sendPkt fi = b \<and> A s' (after e c (st fi) t) (world fi) \<and> (\<forall>q. q \<noteq> p \<longrightarrow> sp_ident sp s' q = sp_ident sp s q)"
begin

definition impl :: "'a \<Rightarrow> ('c, 'p, 'w, 'k, 'm, 'n) ctx \<Rightarrow> bool" where
  "impl s x \<longleftrightarrow> ctx_ok tinv pinv x \<and> conf_is fs start s0 e (c_sm x) \<and> apart env x \<and> A s (known env x) (c_world x)"

lemma implD:
  assumes "impl s x"
  shows "ctx_ok tinv pinv x" "conf_is fs start s0 e (c_sm x)" "apart env x" "A s (known env x) (c_world x)"
    "tinv (stateTable (c_sm x))" "ident env (c_world x) p = sp_ident sp s p" "sp_tracked sp s c \<longleftrightarrow> known env x c \<noteq> None"
  using assms ident_abs tracked_abs unfolding impl_def ctx_ok_def by blast+

text \<open>The lookup of a connection that waits in the pool.\<close>

lemma known_adopt:
  assumes ok: "ctx_ok tinv pinv x" and ap: "apart env x" and key: "key_ok c" and miss: "tbl env x c = None" and a: "my_pool env x c = Some a"
  shows "known env (adopt env c a x) = known env x \<and> apart env (adopt env c a x) \<and> tbl env (adopt env c a x) c = Some a"
proof -
  let ?x1 = "adopt env c a x"
  have t: "tbl env ?x1 = (tbl env x)(c \<mapsto> a)" using adopt_effect [OF ok key miss, of a] by (simp add: lookup_effect_def)
  have "pinv (c_pools x (connPool (c_sm x)))" using ok by (simp add: ctx_ok_def)
  then have p: "my_pool env ?x1 = (my_pool env x)(c := None)"
    using pm.find_erase [of _ c] by (simp add: my_pool_def pool_at_def adopt_def)
  have "known env ?x1 = known env x" using miss a by (auto simp: known_def t p map_add_def fun_eq_iff split: option.splits)
  then show ?thesis using t p ap by (simp add: apart_def)
qed

text \<open>Opening a connection.\<close>

lemma known_accept:
  assumes ok: "ctx_ok tinv pinv x" and ap: "apart env x" and key: "key_ok c" and miss: "known env x c = None"
  shows "known env (accept env c p v x) = (known env x)(c \<mapsto> State_of (startStateID (c_sm x)) p) \<and> apart env (accept env c p v x)"
proof -
  let ?x1 = "accept env c p v x"
  have m: "tbl env x c = None" "my_pool env x c = None" using miss by (simp_all add: known_none)
  have "tbl env ?x1 = (tbl env x)(c \<mapsto> State_of (startStateID (c_sm x)) p)"
    using accept_effect [OF ok key m(1), of p v] by (simp add: lookup_effect_def)
  moreover have "my_pool env ?x1 = my_pool env x" by (simp add: my_pool_def pool_at_def accept_def)
  ultimately show ?thesis using m ap by (simp add: known_def apart_def)
qed

lemma impl_open:
  assumes s: "impl s x" and key: "key_ok c" and miss: "known env x c = None" and st: "start = Some g"
  shows "res_rel (\<lambda>s' (found, x'). \<exists>a. found = Some a \<and> impl s' x' \<and> tbl env x' c = Some a \<and> c_batch x' = c_batch x \<and>
    (\<forall>q. sp_ident sp s' q = sp_ident sp s q)) (sp_open sp c s) (findState env c x)"
proof -
  note D = implD [OF s]
  have m: "tbl env x c = None" "my_pool env x c = None" using miss by (simp_all add: known_none)
  have sd: "start_data c x = g c (c_world x)" using D(2) st by (simp add: start_data_def conf_is_def)
  have ls: "listenToConnections (c_sm x)" "startStateID (c_sm x) = s0" using D(2) st by (simp_all add: conf_is_def)
  have f: "findState env c x = rbind (g c (c_world x)) (\<lambda>(p, v). ret (Some (State_of s0 p), accept env c p v x))"
    using findState_eq [OF D(5) key] m ls sd by simp
  have "impl s' (accept env c p v x)" and "tbl env (accept env c p v x) c = Some (State_of s0 p)"
      and "c_batch (accept env c p v x) = c_batch x"
    if A: "A s' ((known env x)(c \<mapsto> State_of s0 p)) v" for s' p v
  proof -
    note e = accept_effect [OF D(1) key m(1), of p v, unfolded lookup_effect_def]
    have "conf_is fs start s0 e (c_sm (accept env c p v x))"
      using e D(2) by (simp add: conf_is_def same_config_def) (simp add: accept_def)
    moreover have "c_world (accept env c p v x) = v" by (simp add: accept_def)
    ultimately show "impl s' (accept env c p v x)" using e A known_accept [OF D(1,3) key miss, of p v] ls by (simp add: impl_def)
    show "tbl env (accept env c p v x) c = Some (State_of s0 p)" "c_batch (accept env c p v x) = c_batch x"
      using e ls by simp_all
  qed
  then have "res_rel (\<lambda>s' (found, x'). \<exists>a. found = Some a \<and> impl s' x' \<and> tbl env x' c = Some a \<and> c_batch x' = c_batch x \<and>
      (\<forall>q. sp_ident sp s' q = sp_ident sp s q)) (rbind (sp_open sp c s) ret) (findState env c x)"
    unfolding f by (intro res_rel_rbind [OF open_impl [OF D(4) miss st]]) (auto split: prod.splits)
  then show ?thesis by (simp add: rbind_ret)
qed

text \<open>A packet of a connection in the table.\<close>

lemma impl_table:
  assumes s: "impl s x" and len: "unat cur < length (packets x)" and p: "p = fst (packets x ! unat cur)"
    and c: "sp_ident sp s p = Some c" and hit: "tbl env x c = Some a" and h: "sp_handle sp p c s = (b, s')"
  shows "\<exists>x'. runPkt env cur x = ret x' \<and> impl s' x' \<and> packets x' = (packets x)[unat cur := (p, b)] \<and>
    (\<forall>q. q \<noteq> p \<longrightarrow> sp_ident sp s' q = sp_ident sp s q)"
proof -
  note D = implD [OF s]
  have k: "known env x c = Some a" "my_pool env x c = None" using hit D(3) by (simp_all add: known_def apart_def)
  from handle_impl [OF D(4) k(1) c h, of cur "c_batch x"]
  obtain f fi where f: "fun_at fs (state a) f" and run: "f p (call_of cur (c_batch x) c a (c_world x)) = ret fi"
    and q: "quiet (call_of cur (c_batch x) c a (c_world x)) fi" and b: "sendPkt fi = b"
    and A: "A s' (after e c (st fi) (known env x)) (world fi)" and idn: "\<forall>q. q \<noteq> p \<longrightarrow> sp_ident sp s' q = sp_ident sp s q"
    by blast
  have look: "lookupFun (c_sm x) (state a) = ret f" using fun_at_lookup [OF f, of "c_sm x"] D(2) by (simp add: conf_is_def)
  have i: "packet_iface cur c a x = call_of cur (c_batch x) c a (c_world x)"
    using D(2) by (simp add: conf_is_def plain_iface)
  have "ident env (c_world x) (fst (packets x ! unat cur)) = Some c" using D(6) c p by simp
  from runPkt_plain [OF machine_maps_axioms D(1) len this hit look run [folded i, unfolded p]] q
  obtain x' where x': "runPkt env cur x = ret x'" "tbl env x' = after e c (st fi) (tbl env x)"
    "smi (c_sm x') = fi_sm fi" "c_world x' = world fi" "c_pools x' = c_pools x"
    "packets x' = (ba_list (pktsBA fi))[unat cur := (fst (ba_list (pktsBA fi) ! unat cur), sendPkt fi)]"
    "ctx_ok tinv pinv x'" "same_config (c_sm x) (c_sm x')"
    using D(2) by (auto simp: after_def conf_is_def quiet_def)
  have "conf_is fs start s0 e (c_sm x')" using D(2) x'(3,8) q by (simp add: conf_is_def same_config_def quiet_def)
  moreover have pool: "my_pool env x' = my_pool env x" using x'(5,8) by (simp add: my_pool_def pool_at_def same_config_def)
  moreover have "known env x' = after e c (st fi) (known env x)"
    unfolding known_def pool x'(2) using k(2) by (auto simp: after_def map_add_def fun_eq_iff split: option.splits)
  moreover have "apart env x'" using D(3) k(2) pool x'(2) by (simp add: apart_def after_def)
  ultimately have "impl s' x'" using x'(4,7) A by (simp add: impl_def)
  moreover have "packets x' = (packets x)[unat cur := (p, b)]" using x'(6) q b p by (simp add: quiet_def packets_def)
  ultimately show ?thesis using x'(1) idn by blast
qed

text \<open>A packet that belongs to no connection.\<close>

lemma impl_dropped:
  assumes s: "impl s x" and len: "unat cur < length (packets x)" and p: "p = fst (packets x ! unat cur)"
  shows "\<exists>x'. run_dropped cur x = ret x' \<and> impl s x' \<and> packets x' = (packets x)[unat cur := (p, False)]"
proof -
  obtain ba where "run_dropped cur x = ret (x\<lparr>c_batch := ba\<rparr>)" "ctx_ok tinv pinv (x\<lparr>c_batch := ba\<rparr>)"
    "ba_list ba = marks_dropped (unat cur) (packets x)" using run_dropped_effect [OF implD(1) [OF s] len] by blast
  then show ?thesis using s p by (simp add: impl_def apart_def known_def view_defs marks_dropped_def packets_def)
qed

text \<open>A packet that opens its connection, or takes it from the pool.\<close>

lemma runPkt_opened:
  assumes ok: "ctx_ok tinv pinv x" "ctx_ok tinv pinv x1" and len: "unat cur < length (packets x)"
    and c: "ident env (c_world x) (fst (packets x ! unat cur)) = Some c" "ident env (c_world x1) (fst (packets x ! unat cur)) = Some c"
    and f: "findState env c x = ret (Some a, x1)" and same: "packets x1 = packets x" and hit: "tbl env x1 c = Some a"
  shows "runPkt env cur x = runPkt env cur x1"
proof -
  have "runPkt env cur x = run_found env cur (fst (packets x ! unat cur)) c a x1"
    using runPkt_eq [of env cur x] ba_get_packets [OF ok(1) len] c f by simp
  also have "\<dots> = runPkt env cur x1"
    using runPkt_eq [of env cur x1] ba_get_packets [OF ok(2)] len c(2) same findState_hit [OF hit] by simp
  finally show ?thesis .
qed

lemma impl_known:
  assumes s: "impl s x" and len: "unat cur < length (packets x)" and p: "p = fst (packets x ! unat cur)"
    and c: "sp_ident sp s p = Some c" and key: "key_ok c" and hit: "known env x c = Some a" and h: "sp_handle sp p c s = (b, s')"
  shows "\<exists>x'. runPkt env cur x = ret x' \<and> impl s' x' \<and> packets x' = (packets x)[unat cur := (p, b)] \<and>
    (\<forall>q. q \<noteq> p \<longrightarrow> sp_ident sp s' q = sp_ident sp s q)"
proof (cases "tbl env x c")
  case (Some a')
  then show ?thesis using impl_table [OF s len p c _ h] by blast
next
  case None
  note D = implD [OF s]
  have pool: "my_pool env x c = Some a" using hit None by (simp add: known_def map_add_Some_iff)
  let ?x1 = "adopt env c a x"
  note e = adopt_effect [OF D(1) key None, of a, unfolded lookup_effect_def] and k = known_adopt [OF D(1,3) key None pool]
  have w: "c_world ?x1 = c_world x" "smi (c_sm ?x1) = smi (c_sm x)" by (simp_all add: adopt_def)
  have s1: "impl s ?x1" using D(2,4) e k w by (simp add: impl_def conf_is_def same_config_def)
  have pk: "packets ?x1 = packets x" using e by (simp add: packets_def)
  have "findState env c x = ret (Some a, ?x1)" using findState_eq [OF D(5) key] None pool by simp
  then have "runPkt env cur x = runPkt env cur ?x1"
    using runPkt_opened [OF D(1) implD(1) [OF s1] len _ _ _ pk] k c p D(6) w by simp
  then show ?thesis using impl_table [OF s1 _ _ c _ h, of cur a] k pk len p by simp
qed

lemma runPkt_new:
  assumes s: "impl s x" and len: "unat cur < length (packets x)" and p: "p = fst (packets x ! unat cur)"
    and c: "sp_ident sp s p = Some c" and miss: "known env x c = None" and key: "key_ok c" and st: "start = Some g"
  shows "runPkt env cur x = rbind (findState env c x) (\<lambda>(found, x'). runPkt env cur x')"
proof -
  note D = implD [OF s]
  have eq: "runPkt env cur x = rbind (findState env c x) (\<lambda>(found, x').
      case found of None \<Rightarrow> run_dropped cur x' | Some a \<Rightarrow> run_found env cur p c a x')"
    using runPkt_eq [of env cur x] ba_get_packets [OF D(1) len] D(6) c unfolding p by simp
  have "(case found of None \<Rightarrow> run_dropped cur x1 | Some a \<Rightarrow> run_found env cur p c a x1) = runPkt env cur x1"
    if f: "findState env c x = ret (found, x1)" for found x1
  proof -
    obtain s1 a where s1: "impl s1 x1" "tbl env x1 c = Some a" "c_batch x1 = c_batch x"
      "\<forall>q. sp_ident sp s1 q = sp_ident sp s q" and a: "found = Some a"
      using impl_open [OF s key miss st] f by (auto simp: rel_sum.simps option.rel_sel)
    then have pk: "packets x1 = packets x" by (simp add: packets_def)
    have "runPkt env cur x = run_found env cur p c a x1" using eq f a by simp
    then show ?thesis
      using runPkt_opened [OF D(1) implD(1) [OF s1(1)] len _ _ f [unfolded a] pk s1(2)] c s1(4) D(6) implD(6) [OF s1(1)] p a
      by simp
  qed
  then show ?thesis unfolding eq by (auto intro!: rbind_cong)
qed

lemma impl_refused:
  assumes s: "impl s x" and len: "unat cur < length (packets x)" and p: "p = fst (packets x ! unat cur)"
    and c: "sp_ident sp s p = Some c" and miss: "known env x c = None" and key: "key_ok c" and st: "start = None"
  shows "runPkt env cur x = run_dropped cur x"
proof -
  note D = implD [OF s]
  have m: "tbl env x c = None" "my_pool env x c = None" using miss by (simp_all add: known_none)
  have "findState env c x = ret (None, x)" using findState_eq [OF D(5) key] m D(2) st by (simp add: conf_is_def)
  then show ?thesis using runPkt_eq [of env cur x] ba_get_packets [OF D(1) len] D(6) c unfolding p by simp
qed

definition pkt_done :: "nat \<Rightarrow> 'p \<Rightarrow> 'a \<Rightarrow> ('c, 'p, 'w, 'k, 'm, 'n) ctx \<Rightarrow> bool \<times> 'a \<Rightarrow> ('c, 'p, 'w, 'k, 'm, 'n) ctx \<Rightarrow> bool" where
  "pkt_done i p s x r x' \<longleftrightarrow> impl (snd r) x' \<and> packets x' = (packets x)[i := (p, fst r)] \<and>
     (\<forall>q. q \<noteq> p \<longrightarrow> sp_ident sp (snd r) q = sp_ident sp s q)"

lemma impl_pkt:
  assumes s: "impl s x" and len: "unat cur < length (packets x)" and p: "p = fst (packets x ! unat cur)"
    and key: "\<And>c. sp_ident sp s p = Some c \<Longrightarrow> key_ok c"
  shows "res_rel (pkt_done (unat cur) p s x) (spec_packet sp p s) (runPkt env cur x)"
proof -
  note D = implD [OF s]
  note eq = runPkt_eq [of env cur x, unfolded ba_get_packets [OF D(1) len] rbind_simps, folded p, unfolded D(6)]
  consider (none) "sp_ident sp s p = None" | (known) c a where "sp_ident sp s p = Some c" "known env x c = Some a"
    | (new) c g where "sp_ident sp s p = Some c" "known env x c = None" "start = Some g"
    | (refused) c where "sp_ident sp s p = Some c" "known env x c = None" "start = None" by (metis not_None_eq)
  then show ?thesis
  proof cases
    case none
    then show ?thesis using impl_dropped [OF s len p] eq by (auto simp: spec_packet_def pkt_done_def)
  next
    case known
    obtain b s' where h: "sp_handle sp p c s = (b, s')" by fastforce
    have "spec_packet sp p s = ret (b, s')" using known D(7) h by (simp add: spec_packet_def)
    then show ?thesis using impl_known [OF s len p known(1) key [OF known(1)] known(2) h] by (simp add: pkt_done_def)
  next
    case new
    have sp: "spec_packet sp p s = rbind (sp_open sp c s) (\<lambda>s. ret (sp_handle sp p c s))"
      using new D(7) by (simp add: spec_packet_def)
    note rp = runPkt_new [OF s len p new(1,2) key [OF new(1)] new(3)]
    show ?thesis unfolding sp rp
    proof (rule res_rel_rbind [OF impl_open [OF s key [OF new(1)] new(2,3)]], clarify)
      fix s1 x1 a assume s1: "impl s1 x1" "tbl env x1 c = Some a" "c_batch x1 = c_batch x" "\<forall>q. sp_ident sp s1 q = sp_ident sp s q"
      have pk: "packets x1 = packets x" using s1(3) by (simp add: packets_def)
      obtain b s' where h: "sp_handle sp p c s1 = (b, s')" by fastforce
      show "res_rel (pkt_done (unat cur) p s x) (ret (sp_handle sp p c s1)) (runPkt env cur x1)"
        using impl_table [OF s1(1) _ _ _ s1(2) h, of cur] len p pk s1(4) new(1) h by (simp add: pkt_done_def)
    qed
  next
    case refused
    have "spec_packet sp p s = ret (False, s)"
      using refuse_impl [OF D(4) refused(2,3)] refused(1,2) D(7) by (simp add: spec_packet_def)
    then show ?thesis
      using impl_refused [OF s len p refused(1,2) key [OF refused(1)] refused(3)] impl_dropped [OF s len p] by (auto simp: pkt_done_def)
  qed
qed

text \<open>The packets of a batch, which are different from one another.\<close>

lemma impl_run_from:
  assumes "impl s x" and "unat i + k = length (packets x)" and "distinct (map fst (packets x))"
    and "\<forall>p \<in> set (map fst (drop (unat i) (packets x))). \<forall>c. sp_ident sp s p = Some c \<longrightarrow> key_ok c"
  shows "res_rel (\<lambda>(bs, s') x'. impl s' x' \<and>
      packets x' = take (unat i) (packets x) @ zip (map fst (drop (unat i) (packets x))) bs)
    (spec_batch sp (map fst (drop (unat i) (packets x))) s) (run_from env k i x)"
  using assms
proof (induction k arbitrary: i s x)
  case 0
  then show ?case by simp
next
  case (Suc k)
  let ?p = "fst (packets x ! unat i)"
  have len: "unat i < length (packets x)" using Suc.prems(2) by simp
  have i1: "unat (i + 1) = Suc (unat i)" using len by (intro unat_inc [of _ "numBufs (c_batch x)"]) (simp add: packets_def)
  have d: "drop (unat i) (packets x) = packets x ! unat i # drop (unat (i + 1)) (packets x)"
    using len i1 by (simp add: Cons_nth_drop_Suc)
  have key: "\<And>c. sp_ident sp s ?p = Some c \<Longrightarrow> key_ok c" using Suc.prems(4) d by simp
  have run: "run_from env (Suc k) i x = rbind (runPkt env i x) (\<lambda>x'. rbind (run_from env k (i + 1) x') ret)"
    by (simp add: rbind_ret)
  show ?case unfolding d list.map spec_batch.simps run
  proof (rule res_rel_rbind [OF impl_pkt [OF Suc.prems(1) len refl key]])
    fix r x' assume "pkt_done (unat i) ?p s x r x'"
    then obtain b s' where r: "r = (b, s')" and s': "impl s' x'" and pk: "packets x' = (packets x)[unat i := (?p, b)]"
      and idn: "\<forall>q. q \<noteq> ?p \<longrightarrow> sp_ident sp s' q = sp_ident sp s q" by (cases r) (auto simp: pkt_done_def)
    have fsts: "map fst (packets x') = map fst (packets x)" using len by (simp add: pk map_update list_update_same_conv)
    have dr: "drop (unat (i + 1)) (packets x') = drop (unat (i + 1)) (packets x)" by (simp add: pk i1)
    have tk: "take (unat (i + 1)) (packets x') = take (unat i) (packets x) @ [(?p, b)]"
      using len by (simp add: pk i1 take_Suc_conv_app_nth)
    have "?p \<notin> set (map fst (drop (unat (i + 1)) (packets x)))"
      using Suc.prems(3) d by (metis distinct_append append_take_drop_id distinct.simps(2) list.simps(9) map_append)
    then have idn': "sp_ident sp s' q = sp_ident sp s q" if "q \<in> set (map fst (drop (unat (i + 1)) (packets x)))" for q
      using idn that by metis
    have "\<forall>q \<in> set (map fst (drop (unat (i + 1)) (packets x))). \<forall>c. sp_ident sp s q = Some c \<longrightarrow> key_ok c"
      using Suc.prems(4) d by simp
    then have "\<forall>q \<in> set (map fst (drop (unat (i + 1)) (packets x'))). \<forall>c. sp_ident sp s' q = Some c \<longrightarrow> key_ok c"
      unfolding dr using idn' by simp
    then have "res_rel (\<lambda>(bs, s'') x''. impl s'' x'' \<and>
        packets x'' = take (unat (i + 1)) (packets x') @ zip (map fst (drop (unat (i + 1)) (packets x'))) bs)
      (spec_batch sp (map fst (drop (unat (i + 1)) (packets x'))) s') (run_from env k (i + 1) x')"
      using Suc.prems(2,3) i1 fsts by (intro Suc.IH [OF s']) (simp_all add: pk)
    then show "res_rel (\<lambda>(bs, s') x'. impl s' x' \<and> packets x' = take (unat i) (packets x) @
        zip (?p # map fst (drop (unat (i + 1)) (packets x))) bs)
      (case r of (b, s) \<Rightarrow> rbind (spec_batch sp (map fst (drop (unat (i + 1)) (packets x))) s) (\<lambda>(bs, s). ret (b # bs, s)))
      (rbind (run_from env k (i + 1) x') ret)"
      unfolding r prod.case dr tk by (elim res_rel_rbind) auto
  qed
qed

text \<open>A call: no timeout is pending, so the batch is all there is to do.\<close>

lemma impl_batch:
  assumes s: "impl s x" and d: "distinct (map fst (packets x))"
    and key: "\<forall>p \<in> set (map fst (packets x)). \<forall>c. sp_ident sp s p = Some c \<longrightarrow> key_ok c"
  shows "res_rel (\<lambda>(bs, s') x'. impl s' x' \<and> packets x' = zip (map fst (packets x)) bs)
    (spec_batch sp (map fst (packets x)) s) (runPktBatch env x)"
proof -
  have "timeoutsQ (smi (c_sm x)) = []" using implD(2) [OF s] by (simp add: conf_is_def plain_smi_def)
  then have t: "run_timeouts env x = ret x" by (subst run_timeouts.simps) (simp add: pq_top_def)
  have "runPktBatch env x = run_from env (length (packets x)) 0 x"
    by (simp add: runPktBatch_def getTotalCount_def packets_def t)
  then show ?thesis using impl_run_from [OF s _ d, of 0 "length (packets x)"] key by simp
qed

text \<open>A connection that the program opens itself: \<open>addState\<close> runs its first function at once, and it waits in the pool.\<close>

lemma impl_addState:
  assumes D: "ctx_ok tinv pinv x" "conf_is fs start s0 e (c_sm x)" "apart env x" and key: "key_ok c" and miss: "known env x c = None"
    and f: "fun_at fs (state a) f" "timeoutID a = timeoutIDInvalid"
    and run: "f (fst (packets x ! 0)) (call_of 0 (c_batch x) c a (c_world x)) = ret fi"
    and q: "quiet (call_of 0 (c_batch x) c a (c_world x)) fi" "state (st fi) \<noteq> e"
    and A: "A s' ((known env x)(c \<mapsto> st fi)) (world fi)"
  shows "\<exists>x'. addState env c a x = ret x' \<and> impl s' x' \<and> packets x' = (packets x)[0 := (fst (packets x ! 0), sendPkt fi)]"
proof -
  have len: "unat (0 :: u32) < length (packets x)"
    using D(1) by (simp add: ctx_ok_def ba_wf_def packets_def word_less_nat_alt)
  have "a\<lparr>timeoutID := timeoutIDInvalid\<rparr> = a" using f(2) by (cases a) simp
  then have call: "new_FunIface (smi (c_sm x)) 0 (c_batch x) c a (c_world x) = call_of 0 (c_batch x) c a (c_world x)"
    using D(2) by (simp add: conf_is_def call_of_def)
  have look: "lookupFun (c_sm x) (state a) = ret f" using fun_at_lookup [OF f(1), of "c_sm x"] D(2) by (simp add: conf_is_def)
  have "fi_ok (call_of 0 (c_batch x) c a (c_world x))" using D(1) by (simp add: fi_ok_def ctx_ok_def plain_smi_def pq_inv_def)
  then have fr: "fi_frame (call_of 0 (c_batch x) c a (c_world x)) fi"
    using lookupFun_well_behaved [OF D(1) look] run unfolding well_behaved_def by blast
  have fi: "fi_ok fi" "pktIdx fi = 0" "pktsBA fi = c_batch x" "\<not> immediateTransition fi"
    using fi_frame_ok [OF fr] fr q(1) by (simp_all add: fi_frame_def quiet_def)
  obtain ba where d: "FunIface_destroy env Local (c_sm x) fi = ret (c_sm x, fi\<lparr>pktsBA := ba\<rparr>)"
    and ba: "ba_list ba = (packets x)[0 := (fst (packets x ! 0), sendPkt fi)]"
    using destroy_plain [OF fi(1) _ fi(4), of env Local "c_sm x"] len fi(2,3) by (auto simp: packets_def)
  let ?x1 = "x\<lparr>c_pools := (c_pools x)(connPool (c_sm x) := pool_add env c (st fi) (c_pools x (connPool (c_sm x))))\<rparr>"
  have "endStateID (c_sm x) = e" using D(2) by (simp add: conf_is_def)
  then have r: "addState env c a x = ret (put_back (c_sm x) (fi\<lparr>pktsBA := ba\<rparr>) ?x1)"
    using look ba_get_packets [OF D(1) len] run call d q(2) by (simp add: addState_def Let_def)
  let ?x' = "put_back (c_sm x) (fi\<lparr>pktsBA := ba\<rparr>) ?x1"
  have m: "tbl env x c = None" "my_pool env x c = None" using miss by (simp_all add: known_none)
  note E = addState_effect [OF machine_maps_axioms D(1) key look run [folded call] r]
  have t: "tbl env ?x' = tbl env x" "my_pool env ?x' = (my_pool env x)(c \<mapsto> st fi)" "ctx_ok tinv pinv ?x'"
    using E fi(4) m(2) q(2) \<open>endStateID (c_sm x) = e\<close> by simp_all
  have "conf_is fs start s0 e (c_sm ?x')" using D(2) q(1) by (simp add: put_back_def conf_is_def quiet_def)
  moreover have "known env ?x' = (known env x)(c \<mapsto> st fi)" using m(1) by (auto simp: known_def t map_add_def fun_eq_iff split: option.splits)
  moreover have "apart env ?x'" using D(3) m(1) t by (auto simp: apart_def)
  moreover have "c_world ?x' = world fi" "packets ?x' = ba_list ba" by (simp_all add: put_back_def packets_def)
  ultimately show ?thesis using r t(3) A ba by (auto simp: impl_def)
qed

end

section \<open>Serving\<close>

text \<open>What the program around a machine is asked to respect: different packets, and no reserved identifier.\<close>

definition admissible :: "('c \<Rightarrow> bool) \<Rightarrow> ('b \<Rightarrow> 'c option) \<Rightarrow> 'p list \<times> ('p \<rightharpoonup> 'b) \<Rightarrow> bool" where
  "admissible key_ok idf b \<longleftrightarrow> fst b \<noteq> [] \<and> length (fst b) < 2 ^ 32 \<and> distinct (fst b) \<and>
     (\<forall>p \<in> set (fst b). \<forall>c. Option.bind (snd b p) idf = Some c \<longrightarrow> key_ok c)"

locale service_spec = machine_spec env tinv pinv key_ok fs start s0 e sp A
  for env :: "('c, 'p, 'w, 'k, 'm, 'n) env" and tinv pinv key_ok fs start s0 e and sp :: "('a, 'p, 'c) service" and A +
  fixes rd :: "'w \<Rightarrow> 'p \<rightharpoonup> 'b" and wr :: "('p \<rightharpoonup> 'b) \<Rightarrow> 'w \<Rightarrow> 'w"
    and ard :: "'a \<Rightarrow> 'p \<rightharpoonup> 'b" and awr :: "('p \<rightharpoonup> 'b) \<Rightarrow> 'a \<Rightarrow> 'a" and idf :: "'b \<Rightarrow> 'c option"
  assumes same_pkts: "A s t w \<Longrightarrow> rd w = ard s"
    and arrive: "A s t w \<Longrightarrow> A (awr P s) t (wr P w)"
    and ident_pkt: "sp_ident sp (awr P s) p = Option.bind (P p) idf"
begin

definition idle :: "'a \<Rightarrow> ('c, 'p, 'w, 'k, 'm, 'n) ctx \<Rightarrow> bool" where
  "idle s x \<longleftrightarrow> (\<forall>ba. ba_wf ba \<longrightarrow> impl s (x\<lparr>c_batch := ba\<rparr>))"

lemma impl_idle: "impl s x \<Longrightarrow> idle s x"
  by (simp add: idle_def impl_def ctx_ok_def apart_def known_def view_defs)

lemma idle_abs:
  assumes "idle s x"
  shows "A s (known env x) (c_world x)"
proof -
  have "ba_wf \<lparr>pkts = [Some undefined], sendMask = [True], numBufs = 1, numSlots = 1, fromLua = True\<rparr>" by (simp add: ba_wf_def)
  with assms show ?thesis by (auto simp: idle_def impl_def known_def view_defs)
qed

text \<open>A machine that was just configured.\<close>

lemma idle_start:
  assumes "tinv (stateTable (c_sm x))" "\<forall>i. pinv (c_pools x i)" "conf_is fs start s0 e (c_sm x)"
    and "\<And>f. Some f \<in> set fs \<Longrightarrow> well_behaved f" "apart env x" "A s (known env x) (c_world x)"
  shows "idle s x"
  using assms by (simp add: idle_def impl_def ctx_ok_def conf_is_def plain_smi_def pq_inv_def apart_def known_def view_defs)

lemma impl_process:
  assumes i: "idle s x" and a: "admissible key_ok idf (ps, P)"
  shows "res_rel (\<lambda>(bs, s') (x', sc, fc). impl s' x' \<and> packets x' = zip ps bs \<and>
      sc = getSendCount (c_batch x') \<and> fc = getFreeCount (c_batch x'))
    (spec_batch sp ps (awr P s)) (process_batch env ps (of_nat (length ps)) (x\<lparr>c_world := wr P (c_world x)\<rparr>))"
proof -
  have n: "unat (of_nat (length ps) :: u32) = length ps" using a by (simp add: admissible_def unat_of_nat_less)
  then have "(of_nat (length ps) :: u32) \<noteq> 0" using a by (auto simp: admissible_def)
  from new_BufArray_spec [OF this, of ps True] n obtain ba where ba: "new_BufArray ps (of_nat (length ps)) True = ret ba"
    and wf: "ba_wf ba" and l: "ba_list ba = map (\<lambda>p. (p, True)) ps" by auto
  let ?x = "x\<lparr>c_world := wr P (c_world x), c_batch := ba\<rparr>"
  have s: "impl (awr P s) ?x"
    using i [unfolded idle_def, rule_format, OF wf] wf arrive [OF idle_abs [OF i], of P] by (simp add: impl_def ctx_ok_def apart_def known_def view_defs)
  have pk: "map fst (packets ?x) = ps" by (simp add: packets_def l o_def)
  have "distinct ps" "\<forall>p \<in> set ps. \<forall>c. sp_ident sp (awr P s) p = Some c \<longrightarrow> key_ok c"
    using a by (simp_all add: ident_pkt admissible_def)
  with impl_batch [OF s] have "res_rel (\<lambda>(bs, s') x'. impl s' x' \<and> packets x' = zip ps bs)
      (spec_batch sp ps (awr P s)) (runPktBatch env ?x)" unfolding pk by blast
  then have "res_rel (\<lambda>(bs, s') (x', sc, fc). impl s' x' \<and> packets x' = zip ps bs \<and>
      sc = getSendCount (c_batch x') \<and> fc = getFreeCount (c_batch x')) (rbind (spec_batch sp ps (awr P s)) ret)
      (rbind (runPktBatch env ?x) (\<lambda>x. ret (x, getSendCount (c_batch x), getFreeCount (c_batch x))))"
    by (rule res_rel_rbind) auto
  then show ?thesis using ba by (simp add: process_batch_def rbind_ret)
qed

text \<open>The report of a batch.\<close>

lemma impl_report:
  assumes s: "impl s x" and pk: "packets x = zip ps bs"
  shows "\<exists>sent freed. take_packets (c_batch x) = ret (sent, freed) \<and>
    (getSendCount (c_batch x), getFreeCount (c_batch x), map (\<lambda>p. (p, rd (c_world x) p)) sent, freed) =
      report_of (ard s) (zip ps bs)"
proof -
  have wf: "ba_wf (c_batch x)" using implD(1) [OF s] by (simp add: ctx_ok_def)
  have l: "ba_list (c_batch x) = zip ps bs" using pk by (simp add: packets_def)
  have "getSendCount (c_batch x) = of_nat (length (filter snd (zip ps bs)))"
    "getFreeCount (c_batch x) = of_nat (length (filter (Not \<circ> snd) (zip ps bs)))"
    using arg_cong [OF getSendCount_spec [OF wf], of "of_nat :: nat \<Rightarrow> u32"]
      arg_cong [OF getFreeCount_spec [OF wf], of "of_nat :: nat \<Rightarrow> u32"] by (simp_all add: l)
  then show ?thesis
    using same_pkts [OF implD(4) [OF s]] by (simp add: take_packets_def getSendBufs_spec [OF wf] getFreeBufs_spec [OF wf] l report_of_def Let_def)
qed

text \<open>A call of a service that does not fail.\<close>

lemma impl_take:
  assumes "impl s x"
  shows "take_packets (c_batch x) = ret (map fst (filter snd (packets x)), map fst (filter (Not \<circ> snd) (packets x)))"
  using implD(1) [OF assms] by (simp add: take_packets_def ctx_ok_def getSendBufs_spec getFreeBufs_spec packets_def)

lemma impl_call:
  assumes i: "idle s x" and a: "admissible key_ok idf (ps, P)" and r: "spec_batch sp ps (awr P s) = ret (bs, s')"
  shows "\<exists>x'. process_batch env ps (of_nat (length ps)) (x\<lparr>c_world := wr P (c_world x)\<rparr>) =
      ret (x', getSendCount (c_batch x'), getFreeCount (c_batch x')) \<and> idle s' x' \<and> rd (c_world x') = ard s' \<and>
    take_packets (c_batch x') = ret (map fst (filter snd (zip ps bs)), map fst (filter (Not \<circ> snd) (zip ps bs)))"
proof -
  obtain x' where x': "process_batch env ps (of_nat (length ps)) (x\<lparr>c_world := wr P (c_world x)\<rparr>) =
      ret (x', getSendCount (c_batch x'), getFreeCount (c_batch x'))" "impl s' x'" "packets x' = zip ps bs"
    using impl_process [OF i a] by (auto simp: r)
  then show ?thesis using impl_idle [OF x'(2)] same_pkts [OF implD(4) [OF x'(2)]] impl_take [OF x'(2)] by auto
qed

text \<open>Whole services.\<close>

lemma impl_serve:
  assumes "idle s x" and "\<forall>b \<in> set bs. admissible key_ok idf b"
  shows "res_rel (\<lambda>(out, s') (out', x'). out' = out \<and> idle s' x')
    (spec_serve sp ard awr bs s) (serve rd wr (process_batch env) take_packets bs x)"
  using assms
proof (induction bs arbitrary: s x)
  case Nil
  then show ?case by simp
next
  case (Cons b bs)
  obtain ps P where b: "b = (ps, P)" by fastforce
  have a: "admissible key_ok idf (ps, P)" using Cons.prems(2) b by simp
  show ?case unfolding b spec_serve.simps serve.simps
  proof (rule res_rel_rbind [OF impl_process [OF Cons.prems(1) a]], clarify)
    fix marks s' x'
    assume s': "impl s' x'" and pk: "packets x' = zip ps marks"
    obtain sent freed where t: "take_packets (c_batch x') = ret (sent, freed)"
      and r: "(getSendCount (c_batch x'), getFreeCount (c_batch x'), map (\<lambda>p. (p, rd (c_world x') p)) sent, freed) =
        report_of (ard s') (zip ps marks)" using impl_report [OF s' pk] by blast
    have "res_rel (\<lambda>(out, s') (out', x'). out' = out \<and> idle s' x')
      (spec_serve sp ard awr bs s') (serve rd wr (process_batch env) take_packets bs x')"
      using Cons.prems(2) by (intro Cons.IH [OF impl_idle [OF s']]) simp
    then show "res_rel (\<lambda>(out, s') (out', x'). out' = out \<and> idle s' x')
      (rbind (spec_serve sp ard awr bs s') (\<lambda>(out, s''). ret (report_of (ard s') (zip ps marks) # out, s'')))
      (rbind (take_packets (c_batch x')) (\<lambda>(s, f). rbind (serve rd wr (process_batch env) take_packets bs x') (\<lambda>(out, x'').
        ret ((getSendCount (c_batch x'), getFreeCount (c_batch x'), map (\<lambda>p. (p, rd (c_world x') p)) s, f) # out, x''))))"
      unfolding t rbind_simps prod.case r by (elim res_rel_rbind) auto
  qed
qed

end

end
