(* ===== verification/Pool_Sharing.thy ===== *)
theory Pool_Sharing
  imports State_Machine_Props
begin

text \<open>
  Several state machines, each driven by a thread of its own, on one connection pool
  (\<open>class ConnectionPool\<close> of \<open>include/stateMachine.hpp\<close>).  The table of a machine belongs to its thread;
  the pool is a \<open>tbb::concurrent_hash_map\<close>, whose operations are single steps, except that
  \<open>findAndErase\<close> holds an accessor, a lock on the entry, between finding and erasing.  A step relation
  interleaves what \<open>findState\<close>, \<open>addState\<close> and the handlers do to tables and pool.
\<close>

section \<open>The system\<close>

text \<open>
  Where a thread is: outside; in \<open>add\<close> with the state of a new connection; in \<open>findState\<close>, before the find, with the
  accessor, with the state it took, or without one.
\<close>

datatype 'c pc = AtRest | Adding 'c State | Finding 'c | Accessing 'c | Taken 'c State | Missed 'c

record ('c, 'n) sharing =
  sh_pool :: 'n
  locks :: "'c \<rightharpoonup> nat"
  tables :: "nat \<Rightarrow> 'c \<rightharpoonup> State"
  pcs :: "nat \<Rightarrow> 'c pc"
  next_obj :: ptr

definition go :: "nat \<Rightarrow> 'c pc \<Rightarrow> ('c, 'n) sharing \<Rightarrow> ('c, 'n) sharing" where
  "go i p z = z\<lparr>pcs := (pcs z)(i := p)\<rparr>"

definition set_table :: "nat \<Rightarrow> 'c \<Rightarrow> State option \<Rightarrow> ('c, 'n) sharing \<Rightarrow> ('c, 'n) sharing" where
  "set_table i c s z = z\<lparr>tables := (tables z)(i := (tables z i)(c := s))\<rparr>"

text \<open>
  Objects are numbered as they are made.  \<open>lst i\<close>: machine \<open>i\<close> listens.  A handler keeps the object of its
  connection, replaces it by a new one, or closes the connection.
\<close>

inductive share_step ::
  "('c, 'p, 'w, 'k, 'm, 'n) env \<Rightarrow> (nat \<Rightarrow> bool) \<Rightarrow> nat \<Rightarrow> ('c, 'n) sharing \<Rightarrow> ('c, 'n) sharing \<Rightarrow> bool"
  for env lst i where
  connect: "pcs z i = AtRest \<Longrightarrow>
    share_step env lst i z (go i (Adding c (State_of sid (next_obj z))) (z\<lparr>next_obj := next_obj z + 1\<rparr>))"
| add: "pcs z i = Adding c s \<Longrightarrow> share_step env lst i z (go i AtRest (z\<lparr>sh_pool := pool_add env c s (sh_pool z)\<rparr>))"
| lookup: "pcs z i = AtRest \<Longrightarrow> tables z i c = None \<Longrightarrow> share_step env lst i z (go i (Finding c) z)"
| access: "pcs z i = Finding c \<Longrightarrow> hm_find (poolOps env) (sh_pool z) c \<noteq> None \<Longrightarrow> locks z c = None \<Longrightarrow>
    share_step env lst i z (go i (Accessing c) (z\<lparr>locks := (locks z)(c \<mapsto> i)\<rparr>))"
| take: "pcs z i = Accessing c \<Longrightarrow> findAndErase env c (sh_pool z) = (Some s, n) \<Longrightarrow>
    share_step env lst i z (go i (Taken c s) (z\<lparr>sh_pool := n, locks := (locks z)(c := None)\<rparr>))"
| miss: "pcs z i = Finding c \<Longrightarrow> findAndErase env c (sh_pool z) = (None, n) \<Longrightarrow>
    share_step env lst i z (go i (Missed c) (z\<lparr>sh_pool := n\<rparr>))"
| adopt: "pcs z i = Taken c s \<Longrightarrow> share_step env lst i z (go i AtRest (set_table i c (Some s) z))"
| accept: "pcs z i = Missed c \<Longrightarrow> lst i \<Longrightarrow>
    share_step env lst i z (go i AtRest (set_table i c (Some (State_of sid (next_obj z))) (z\<lparr>next_obj := next_obj z + 1\<rparr>)))"
| refuse: "pcs z i = Missed c \<Longrightarrow> \<not> lst i \<Longrightarrow> share_step env lst i z (go i AtRest z)"
| handle: "pcs z i = AtRest \<Longrightarrow> tables z i c = Some s \<Longrightarrow> stateData s' = stateData s \<Longrightarrow>
    share_step env lst i z (set_table i c (Some s') z)"
| replace: "pcs z i = AtRest \<Longrightarrow> tables z i c = Some s \<Longrightarrow> stateData s' = next_obj z \<Longrightarrow>
    share_step env lst i z (set_table i c (Some s') (z\<lparr>next_obj := next_obj z + 1\<rparr>))"
| close: "pcs z i = AtRest \<Longrightarrow> tables z i c = Some s \<Longrightarrow> share_step env lst i z (set_table i c None z)"

definition share_init :: "('c, 'p, 'w, 'k, 'm, 'n) env \<Rightarrow> ('c, 'n) sharing" where
  "share_init env = \<lparr>sh_pool = hm_empty (poolOps env), locks = Map.empty, tables = (\<lambda>_. Map.empty), pcs = (\<lambda>_. AtRest), next_obj = 1\<rparr>"

inductive share_reachable :: "('c, 'p, 'w, 'k, 'm, 'n) env \<Rightarrow> (nat \<Rightarrow> bool) \<Rightarrow> ('c, 'n) sharing \<Rightarrow> bool" for env lst where
  start: "share_reachable env lst (share_init env)"
| step: "share_reachable env lst z \<Longrightarrow> share_step env lst i z z' \<Longrightarrow> share_reachable env lst z'"

section \<open>Places of objects\<close>

datatype 'c obj_place = InPool 'c | InHand nat | InTable nat 'c

fun in_hand :: "'c pc \<Rightarrow> ptr option" where
  "in_hand (Adding c s) = Some (stateData s)"
| "in_hand (Taken c s) = Some (stateData s)"
| "in_hand _ = None"

fun place_obj :: "('c, 'p, 'w, 'k, 'm, 'n) env \<Rightarrow> ('c, 'n) sharing \<Rightarrow> 'c obj_place \<Rightarrow> ptr option" where
  "place_obj env z (InPool c) = map_option stateData (hm_find (poolOps env) (sh_pool z) c)"
| "place_obj env z (InHand i) = in_hand (pcs z i)"
| "place_obj env z (InTable i c) = map_option stateData (tables z i c)"

text \<open>
  The steps that lose an object: a thread at rest closes the connection in its table or makes a new object for it, or it
  adds the connection under an identifier the pool has, which leaves the pool as it was.
\<close>

definition drops_object ::
  "('c, 'p, 'w, 'k, 'm, 'n) env \<Rightarrow> nat \<Rightarrow> 'c obj_place \<Rightarrow> ptr \<Rightarrow> ('c, 'n) sharing \<Rightarrow> ('c, 'n) sharing \<Rightarrow> bool" where
  "drops_object env i p a z z' \<longleftrightarrow>
     (\<exists>d s. p = InTable i d \<and> pcs z i = AtRest \<and> tables z i d = Some s \<and> stateData s = a \<and>
        (z' = set_table i d None z \<or>
         (\<exists>s'. stateData s' = next_obj z \<and> z' = set_table i d (Some s') (z\<lparr>next_obj := next_obj z + 1\<rparr>)))) \<or>
     (\<exists>d s. p = InHand i \<and> pcs z i = Adding d s \<and> stateData s = a \<and> hm_find (poolOps env) (sh_pool z) d \<noteq> None \<and>
        pcs z' = (pcs z)(i := AtRest) \<and> tables z' = tables z \<and> hm_find (poolOps env) (sh_pool z') = hm_find (poolOps env) (sh_pool z))"

text \<open>No object is at two places, and all are older than the next.\<close>

definition placed :: "ptr \<Rightarrow> ('x \<Rightarrow> ptr option) \<Rightarrow> bool" where
  "placed n f \<longleftrightarrow> (\<forall>p q a. f p = Some a \<longrightarrow> f q = Some a \<longrightarrow> p = q) \<and> (\<forall>p a. f p = Some a \<longrightarrow> a < n)"

lemma placed_remove: "placed n f \<Longrightarrow> placed n (f(p := None))"
  by (auto simp: placed_def)

lemma placed_new: "placed n f \<Longrightarrow> placed (Suc n) (f(p := Some n))"
  by (auto simp: placed_def less_Suc_eq)

lemma placed_move: "placed n f \<Longrightarrow> f p = Some a \<Longrightarrow> placed n (f(p := None, q := Some a))"
  by (auto simp: placed_def split: if_splits)

text \<open>What each step does to the places.\<close>

lemma go_simps [simp]:
  "sh_pool (go i p z) = sh_pool z" "locks (go i p z) = locks z" "tables (go i p z) = tables z"
  "pcs (go i p z) = (pcs z)(i := p)" "next_obj (go i p z) = next_obj z"
  "sh_pool (set_table i c s z) = sh_pool z" "locks (set_table i c s z) = locks z" "pcs (set_table i c s z) = pcs z"
  "next_obj (set_table i c s z) = next_obj z" "tables (set_table i c s z) = (tables z)(i := (tables z i)(c := s))"
  by (simp_all add: go_def set_table_def)

lemma place_go: "place_obj env (go i p z) = (place_obj env z)(InHand i := in_hand p)"
proof
  show "place_obj env (go i p z) x = ((place_obj env z)(InHand i := in_hand p)) x" for x by (cases x) auto
qed

lemma place_table: "place_obj env (set_table i c s z) = (place_obj env z)(InTable i c := map_option stateData s)"
proof
  show "place_obj env (set_table i c s z) x = ((place_obj env z)(InTable i c := map_option stateData s)) x" for x
    by (cases x) auto
qed

lemma place_other [simp]: "place_obj env (z\<lparr>next_obj := m\<rparr>) = place_obj env z" "place_obj env (z\<lparr>locks := l\<rparr>) = place_obj env z"
proof -
  show "place_obj env (z\<lparr>next_obj := m\<rparr>) = place_obj env z"
  proof
    show "place_obj env (z\<lparr>next_obj := m\<rparr>) x = place_obj env z x" for x by (cases x) auto
  qed
  show "place_obj env (z\<lparr>locks := l\<rparr>) = place_obj env z"
  proof
    show "place_obj env (z\<lparr>locks := l\<rparr>) x = place_obj env z x" for x by (cases x) auto
  qed
qed

lemma place_pool:
  assumes "hm_find (poolOps env) n = (hm_find (poolOps env) (sh_pool z))(c := s)"
  shows "place_obj env (z\<lparr>sh_pool := n\<rparr>) = (place_obj env z)(InPool c := map_option stateData s)"
    and "place_obj env (z\<lparr>sh_pool := n, locks := l\<rparr>) = (place_obj env z)(InPool c := map_option stateData s)"
proof -
  show "place_obj env (z\<lparr>sh_pool := n\<rparr>) = (place_obj env z)(InPool c := map_option stateData s)"
  proof
    show "place_obj env (z\<lparr>sh_pool := n\<rparr>) x = ((place_obj env z)(InPool c := map_option stateData s)) x" for x
      using assms by (cases x) auto
  qed
  show "place_obj env (z\<lparr>sh_pool := n, locks := l\<rparr>) = (place_obj env z)(InPool c := map_option stateData s)"
  proof
    show "place_obj env (z\<lparr>sh_pool := n, locks := l\<rparr>) x = ((place_obj env z)(InPool c := map_option stateData s)) x" for x
      using assms by (cases x) auto
  qed
qed

section \<open>The invariant\<close>

text \<open>The connection a thread is looking for is not in its table.\<close>

fun searching :: "'c pc \<Rightarrow> 'c option" where
  "searching (Finding c) = Some c"
| "searching (Accessing c) = Some c"
| "searching (Taken c s) = Some c"
| "searching (Missed c) = Some c"
| "searching _ = None"

definition share_inv :: "('c, 'p, 'w, 'k, 'm, 'n) env \<Rightarrow> ('n \<Rightarrow> bool) \<Rightarrow> ('c, 'n) sharing \<Rightarrow> bool" where
  "share_inv env pinv z \<longleftrightarrow> pinv (sh_pool z) \<and> placed (next_obj z) (place_obj env z) \<and>
     (\<forall>c i. locks z c = Some i \<longleftrightarrow> pcs z i = Accessing c) \<and>
     (\<forall>c i. pcs z i = Accessing c \<longrightarrow> hm_find (poolOps env) (sh_pool z) c \<noteq> None) \<and>
     (\<forall>c i. searching (pcs z i) = Some c \<longrightarrow> tables z i c = None)"

text \<open>A step as a change of places: an object is made, moved or lost.\<close>

definition place_change :: "('c, 'p, 'w, 'k, 'm, 'n) env \<Rightarrow> ('c, 'n) sharing \<Rightarrow> ('c, 'n) sharing \<Rightarrow> bool" where
  "place_change env z z' \<longleftrightarrow>
     place_obj env z' = place_obj env z \<and> next_obj z' = next_obj z \<or>
     (\<exists>p. place_obj env z' = (place_obj env z)(p := None) \<and> next_obj z' = next_obj z) \<or>
     (\<exists>p. place_obj env z' = (place_obj env z)(p := Some (next_obj z)) \<and> next_obj z' = Suc (next_obj z)) \<or>
     (\<exists>p q a. place_obj env z p = Some a \<and> place_obj env z' = (place_obj env z)(p := None, q := Some a) \<and> next_obj z' = next_obj z)"

lemma placed_change: "place_change env z z' \<Longrightarrow> placed (next_obj z) (place_obj env z) \<Longrightarrow> placed (next_obj z') (place_obj env z')"
  by (auto simp: place_change_def placed_remove placed_new placed_move)

lemma place_idle: "in_hand (pcs z i) = None \<Longrightarrow> (place_obj env z)(InHand i := None) = place_obj env z"
  by (rule fun_upd_idem) simp

context machine_maps
begin

lemma pool_find_insert:
  assumes "pinv n"
  shows "pinv (pool_add env c s n)" and "hm_find (poolOps env) (pool_add env c s n) =
    (if hm_find (poolOps env) n c = None then (hm_find (poolOps env) n)(c \<mapsto> s) else hm_find (poolOps env) n)"
  using pm.find_insert [OF assms] by (simp_all add: pool_add_def)

lemma pool_find_erase:
  assumes "pinv n" and "findAndErase env c n = (Some s, n')"
  shows "pinv n'" and "hm_find (poolOps env) n' = (hm_find (poolOps env) n)(c := None)" and "hm_find (poolOps env) n c = Some s"
  using pm.find_erase [OF assms(1)] assms(2) by (auto simp: findAndErase_def split: option.splits)

lemma pool_miss: "findAndErase env c n = (None, n') \<longleftrightarrow> n' = n \<and> hm_find (poolOps env) n c = None"
  by (auto simp: findAndErase_def split: option.splits)

lemma share_step_change:
  assumes "share_step env lst i z z'" and "pinv (sh_pool z)"
  shows "place_change env z z'"
  using assms(1)
proof cases
  case (connect sid)
  then show ?thesis by (auto simp: place_change_def place_go State_of_def)
next
  case (add c s)
  note f = pool_find_insert [OF assms(2), of c s]
  show ?thesis
  proof (cases "hm_find (poolOps env) (sh_pool z) c")
    case None
    then have "place_obj env z' = (place_obj env z)(InHand i := None, InPool c := Some (stateData s))"
      using add place_pool(1) [of env "pool_add env c s (sh_pool z)" z c "Some s"] f by (simp add: place_go fun_upd_twist)
    moreover have "place_obj env z (InHand i) = Some (stateData s)" "next_obj z' = next_obj z" using add by simp_all
    ultimately show ?thesis unfolding place_change_def by blast
  next
    case (Some s')
    then have "place_obj env z' = (place_obj env z)(InHand i := None)"
      using add place_pool(1) [of env "pool_add env c s (sh_pool z)" z c "Some s'"] f
      by (simp add: place_go fun_upd_idem)
    then show ?thesis using add by (auto simp: place_change_def)
  qed
next
  case (take c s n)
  note f = pool_find_erase [OF assms(2) take(3)]
  have "place_obj env z' = (place_obj env z)(InPool c := None, InHand i := Some (stateData s))"
    using take place_pool(2) [of env n z c None] f by (simp add: place_go)
  moreover have "place_obj env z (InPool c) = Some (stateData s)" "next_obj z' = next_obj z" using take f by simp_all
  ultimately show ?thesis unfolding place_change_def by blast
next
  case (miss c n)
  then have "z\<lparr>sh_pool := n\<rparr> = z" by (simp add: pool_miss)
  then show ?thesis using miss by (simp add: place_change_def place_go place_idle)
next
  case (adopt c s)
  then have "place_obj env z' = (place_obj env z)(InHand i := None, InTable i c := Some (stateData s))"
    by (simp add: place_go place_table fun_upd_twist)
  moreover have "place_obj env z (InHand i) = Some (stateData s)" "next_obj z' = next_obj z" using adopt by simp_all
  ultimately show ?thesis unfolding place_change_def by blast
next
  case (handle c s s')
  then have "place_obj env z' = place_obj env z" by (simp add: place_table fun_upd_idem)
  then show ?thesis using handle by (simp add: place_change_def)
qed (auto simp: place_change_def place_go place_table place_idle State_of_def fun_upd_twist)

lemma share_step_inv:
  assumes "share_step env lst i z z'" and "share_inv env pinv z"
  shows "share_inv env pinv z'"
proof -
  have p: "pinv (sh_pool z)" and l: "locks z c = Some j \<longleftrightarrow> pcs z j = Accessing c"
    and e: "pcs z j = Accessing c \<Longrightarrow> hm_find (poolOps env) (sh_pool z) c \<noteq> None"
    and t: "searching (pcs z j) = Some c \<Longrightarrow> tables z j c = None" for c j
    using assms(2) by (auto simp: share_inv_def)
  have "placed (next_obj z') (place_obj env z')"
    using placed_change [OF share_step_change [OF assms(1) p]] assms(2) by (simp add: share_inv_def)
  moreover have "pinv (sh_pool z')"
    using assms(1) p pool_find_insert(1) pool_find_erase(1) by cases (auto simp: pool_miss)
  moreover have "locks z' c = Some j \<longleftrightarrow> pcs z' j = Accessing c" for c j
    using assms(1) l [of c j] l [of c i] by cases (auto split: if_splits)
  moreover have "hm_find (poolOps env) (sh_pool z') c \<noteq> None" if "pcs z' j = Accessing c" for c j
    using assms(1)
  proof cases
    case (add d s)
    then show ?thesis using that e [of j c] pool_find_insert(2) [OF p, of d s] by (auto split: if_splits)
  next
    case (take d s n)
    have "pcs z j = Accessing c" "j \<noteq> i" using take that by (auto split: if_splits)
    moreover have "c \<noteq> d" using calculation l [of c j] l [of c i] take(2) by auto
    ultimately show ?thesis using take e [of j c] pool_find_erase(2) [OF p take(3)] by simp
  qed (use that e [of j c] in \<open>auto simp: pool_miss split: if_splits\<close>)
  moreover have "tables z' j c = None" if "searching (pcs z' j) = Some c" for c j
    using assms(1) that t [of j c] by cases (auto split: if_splits)
  ultimately show ?thesis unfolding share_inv_def by blast
qed

lemma share_step_loses:
  assumes "share_step env lst i z z'" and inv: "share_inv env pinv z" and p: "place_obj env z p = Some a"
    and gone: "\<forall>q. place_obj env z' q \<noteq> Some a"
  shows "drops_object env i p a z z'"
proof -
  have pv: "pinv (sh_pool z)" and t: "\<And>j c. searching (pcs z j) = Some c \<Longrightarrow> tables z j c = None"
    using inv by (auto simp: share_inv_def)
  have ne: "place_obj env z' p \<noteq> Some a" using gone by blast
  show ?thesis using assms(1)
  proof cases
    case (add c s)
    note f = pool_find_insert [OF pv, of c s]
    have hand: "p = InHand i" using ne add f p by (cases p) (auto split: if_splits)
    then have "a = stateData s" using p add by simp
    moreover have full: "hm_find (poolOps env) (sh_pool z) c \<noteq> None"
    proof
      assume "hm_find (poolOps env) (sh_pool z) c = None"
      then have "place_obj env z' (InPool c) = Some (stateData s)" using add f by simp
      then show False using gone \<open>a = stateData s\<close> by blast
    qed
    ultimately show ?thesis unfolding drops_object_def using add hand f by (intro disjI2 exI [of _ c] exI [of _ s]) auto
  next
    case (take c s n)
    note f = pool_find_erase [OF pv take(3)]
    have "p = InPool c" using ne p take f by (cases p) (auto split: if_splits)
    then have "place_obj env z' (InHand i) = Some a" using p take f by simp
    then show ?thesis using gone by blast
  next
    case (adopt c s)
    have "p = InHand i" using ne adopt t [of i c] p by (cases p) (auto split: if_splits)
    then have "place_obj env z' (InTable i c) = Some a" using p adopt by simp
    then show ?thesis using gone by blast
  next
    case (close c s)
    have "p = InTable i c" using ne p close by (cases p) (auto split: if_splits)
    then show ?thesis unfolding drops_object_def using close p by (intro disjI1 exI [of _ c] exI [of _ s]) simp
  next
    case (replace c s s')
    have "p = InTable i c" using ne p replace by (cases p) (auto split: if_splits)
    then show ?thesis unfolding drops_object_def using replace p by (intro disjI1 exI [of _ c] exI [of _ s]) auto
  next
    case (handle c s s')
    then have "place_obj env z' = place_obj env z" by (simp add: place_table fun_upd_idem)
    then show ?thesis using p gone by simp
  next
    case (accept c sid)
    then have "place_obj env z' p = Some a" using p t [of i c] by (cases p) (auto split: if_splits)
    then show ?thesis using ne by simp
  qed (use p gone [rule_format, of p] in \<open>cases p; auto simp: pool_miss split: if_splits\<close>)+
qed

text \<open>A thread can go on, or waits for an accessor whose holder can.\<close>

lemma share_progress:
  assumes inv: "share_inv env pinv z" and busy: "pcs z i \<noteq> AtRest"
  shows "(\<exists>z'. share_step env lst i z z') \<or>
    (\<exists>c j z'. pcs z i = Finding c \<and> pcs z j = Accessing c \<and> share_step env lst j z z')"
proof -
  have holder: "\<exists>z'. share_step env lst j z z'" if "pcs z j = Accessing c" for j c
  proof -
    obtain s where "hm_find (poolOps env) (sh_pool z) c = Some s" using inv \<open>pcs z j = Accessing c\<close> by (auto simp: share_inv_def)
    then have "\<exists>n. findAndErase env c (sh_pool z) = (Some s, n)" by (simp add: findAndErase_def)
    then show ?thesis using share_step.take [of z j c env s] that by blast
  qed
  show ?thesis
  proof (cases "pcs z i")
    case (Finding c)
    show ?thesis
    proof (cases "hm_find (poolOps env) (sh_pool z) c")
      case None
      then have "findAndErase env c (sh_pool z) = (None, sh_pool z)" by (simp add: pool_miss)
      then show ?thesis using share_step.miss [OF Finding] by blast
    next
      case (Some s)
      show ?thesis
      proof (cases "locks z c")
        case None
        then show ?thesis using share_step.access [OF Finding] Some by blast
      next
        case (Some j)
        then have "pcs z j = Accessing c" using inv by (auto simp: share_inv_def)
        then show ?thesis using holder Finding by blast
      qed
    qed
  next
    case (Missed c)
    show ?thesis
    proof (cases "lst i")
      case True
      show ?thesis by (intro disjI1 exI) (rule share_step.accept, rule Missed, rule True)
    next
      case False
      show ?thesis by (intro disjI1 exI) (rule share_step.refuse, rule Missed, rule False)
    qed
  next
    case (Adding c s)
    show ?thesis by (intro disjI1 exI) (rule share_step.add [OF Adding])
  next
    case (Taken c s)
    show ?thesis by (intro disjI1 exI) (rule share_step.adopt [OF Taken])
  next
    case (Accessing c)
    show ?thesis by (intro disjI1 holder [OF Accessing])
  qed (use busy in simp)
qed

lemma share_reachable_inv: "share_reachable env lst z \<Longrightarrow> share_inv env pinv z"
proof (induction rule: share_reachable.induct)
  case start
  have "place_obj env (share_init env) x = None" for x
    using pm.find_empty by (cases x) (auto simp: share_init_def)
  then show ?case using pm.find_empty by (auto simp: share_inv_def placed_def) (auto simp: share_init_def)
next
  case (step z i z')
  then show ?case by (blast intro: share_step_inv)
qed

end

section \<open>The property\<close>

text \<open>
  C8.  However many machines share a pool and however their threads are interleaved: the object of a connection is
  never at two places (in the pool, in the hands of a thread, in the table of a machine), so no two machines
  run the same connection object; two threads never hold the accessor of one entry; the only steps that lose an object are
  closing the connection by the machine that has it in its table, putting a new object in its place there, and
  adding it under an identifier the pool already has an entry for (\<open>add\<close> ignores that the insertion fails, and
  the pool stays as it was); and a thread can always go on, or waits for an accessor whose holder can.
\<close>

theorem pool_hands_over_once:
  assumes "machine_maps env tinv pinv key_ok" and "share_reachable env lst z"
  shows "(place_obj env z p = Some a \<and> place_obj env z q = Some a \<longrightarrow> p = q) \<and>
    (pcs z i = Accessing c \<and> pcs z j = Accessing c \<longrightarrow> i = j) \<and>
    (share_step env lst i z z' \<and> place_obj env z p = Some a \<and> (\<forall>q. place_obj env z' q \<noteq> Some a) \<longrightarrow>
       (\<exists>d s. p = InTable i d \<and> pcs z i = AtRest \<and> tables z i d = Some s \<and> stateData s = a \<and>
          (z' = set_table i d None z \<or>
           (\<exists>s'. stateData s' = next_obj z \<and> z' = set_table i d (Some s') (z\<lparr>next_obj := next_obj z + 1\<rparr>)))) \<or>
       (\<exists>d s. p = InHand i \<and> pcs z i = Adding d s \<and> stateData s = a \<and> hm_find (poolOps env) (sh_pool z) d \<noteq> None \<and>
          pcs z' = (pcs z)(i := AtRest) \<and> tables z' = tables z \<and>
          hm_find (poolOps env) (sh_pool z') = hm_find (poolOps env) (sh_pool z))) \<and>
    (pcs z i \<noteq> AtRest \<longrightarrow> (\<exists>y. share_step env lst i z y) \<or>
       (\<exists>d k y. pcs z i = Finding d \<and> pcs z k = Accessing d \<and> share_step env lst k z y))"
proof -
  note m = machine_maps.share_reachable_inv [OF assms]
  have "place_obj env z p = Some a \<and> place_obj env z q = Some a \<longrightarrow> p = q"
    using m by (auto simp: share_inv_def placed_def)
  moreover have "locks z c = Some k \<longleftrightarrow> pcs z k = Accessing c" for k using m by (simp add: share_inv_def)
  then have "pcs z i = Accessing c \<and> pcs z j = Accessing c \<longrightarrow> i = j" by (metis option.inject)
  ultimately show ?thesis
    using machine_maps.share_step_loses [OF assms(1) _ m, of lst i z' p a, unfolded drops_object_def] machine_maps.share_progress [OF assms(1) m, of i lst]
    by blast
qed

text \<open>Machine 0 opens connection 5; machine 1 has its accessor while machine 2 is waiting for it.\<close>

definition share_ex :: "(nat, (nat \<times> State) list) sharing" where
  "share_ex = \<lparr>sh_pool = [(5, State_of 0 1)], locks = [5 \<mapsto> 1], tables = (\<lambda>_. Map.empty),
     pcs = (\<lambda>_. AtRest)(0 := AtRest, 1 := Accessing 5, 2 := Finding 5), next_obj = 2\<rparr>"

lemma share_ex_reachable: "share_reachable ex_env (\<lambda>_. True) share_ex"
proof -
  let ?z0 = "share_init ex_env :: (nat, (nat \<times> State) list) sharing"
  let ?z1 = "go 0 (Adding 5 (State_of 0 (next_obj ?z0))) (?z0\<lparr>next_obj := next_obj ?z0 + 1\<rparr>)"
  let ?z2 = "go 0 AtRest (?z1\<lparr>sh_pool := pool_add ex_env 5 (State_of 0 1) (sh_pool ?z1)\<rparr>)"
  let ?z3 = "go 1 (Finding 5) ?z2" and ?z4 = "go 2 (Finding 5) (go 1 (Finding 5) ?z2)"
  let ?z5 = "go 1 (Accessing 5) (?z4\<lparr>locks := (locks ?z4)(5 \<mapsto> 1)\<rparr>)"
  have "share_step ex_env (\<lambda>_. True) 0 ?z0 ?z1" by (rule share_step.connect) (simp add: share_init_def)
  moreover have "share_step ex_env (\<lambda>_. True) 0 ?z1 ?z2" by (rule share_step.add) (simp add: share_init_def)
  moreover have "share_step ex_env (\<lambda>_. True) 1 ?z2 ?z3" by (rule share_step.lookup) (simp_all add: share_init_def)
  moreover have "share_step ex_env (\<lambda>_. True) 2 ?z3 ?z4" by (rule share_step.lookup) (simp_all add: share_init_def)
  moreover have "share_step ex_env (\<lambda>_. True) 1 ?z4 ?z5"
    by (rule share_step.access) (simp_all add: share_init_def pool_add_def ex_env_def alist_ops_def)
  ultimately have "share_reachable ex_env (\<lambda>_. True) ?z5" by (meson share_reachable.intros)
  moreover have "?z5 = share_ex"
    by (auto simp: share_ex_def share_init_def go_def pool_add_def ex_env_def alist_ops_def fun_eq_iff)
  ultimately show ?thesis by simp
qed

theorem pool_hands_over_once_witness:
  "pcs share_ex 2 = Finding 5 \<and> pcs share_ex 1 = Accessing 5 \<and>
   ((\<exists>y. share_step ex_env (\<lambda>_. True) 2 share_ex y) \<or> (\<exists>d k y. pcs share_ex k = Accessing d \<and> share_step ex_env (\<lambda>_. True) k share_ex y)) \<and>
   {q. place_obj ex_env share_ex q = Some 1} = {InPool 5}"
proof -
  note r = pool_hands_over_once [OF ex_env_maps share_ex_reachable]
  have "place_obj ex_env share_ex (InPool 5) = Some 1"
    by (simp add: share_ex_def ex_env_def alist_ops_def State_of_def)
  then have "{q. place_obj ex_env share_ex q = Some 1} = {InPool 5}" using r by blast
  moreover have p: "pcs share_ex 2 = Finding 5" "pcs share_ex 1 = Accessing 5" by (simp_all add: share_ex_def)
  moreover have "(\<exists>y. share_step ex_env (\<lambda>_. True) 2 share_ex y) \<or>
      (\<exists>d k y. pcs share_ex k = Accessing d \<and> share_step ex_env (\<lambda>_. True) k share_ex y)"
    using r [of "InPool 5" 1 "InPool 5" 2 5 2 share_ex] p by auto
  ultimately show ?thesis by blast
qed

end
