(* ===== verification/Packet_World.thy ===== *)
theory Packet_World
  imports Fun_Iface Memory
begin

text \<open>
  What the protocol handlers act on besides their \<open>FunIface\<close>: the packet buffers (\<open>struct mbuf\<close>
  of \<open>include/mbuf.hpp\<close>, a wrapper of DPDK's buffer), the heap objects that \<open>stateData\<close> points
  to, and the stream of values \<open>rand()\<close> returns.  A buffer's bytes are a total memory: an
  access beyond \<open>dataLen\<close> is not told apart from one inside, since no handler checks the length.
  Objects get fresh addresses from 1 upwards, so an address is never reused.
\<close>

record mbuf =
  m_data :: mem
  m_dataLen :: u16
  m_bufLen :: u16

record 'o hworld =
  w_pkts :: "ptr \<rightharpoonup> mbuf"
  w_heap :: "ptr \<rightharpoonup> 'o"
  w_next :: ptr
  w_rand :: "nat \<Rightarrow> u32"
  w_rnd :: nat

definition getData :: "ptr \<Rightarrow> 'o hworld \<Rightarrow> mem res" where
  "getData p w = (case w_pkts w p of None \<Rightarrow> fail BadPointer | Some b \<Rightarrow> ret (m_data b))"

definition getDataLen :: "ptr \<Rightarrow> 'o hworld \<Rightarrow> u16 res" where
  "getDataLen p w = (case w_pkts w p of None \<Rightarrow> fail BadPointer | Some b \<Rightarrow> ret (m_dataLen b))"

definition getBufLen :: "ptr \<Rightarrow> 'o hworld \<Rightarrow> u16 res" where
  "getBufLen p w = (case w_pkts w p of None \<Rightarrow> fail BadPointer | Some b \<Rightarrow> ret (m_bufLen b))"

definition setDataLen :: "ptr \<Rightarrow> u16 \<Rightarrow> 'o hworld \<Rightarrow> 'o hworld res" where
  "setDataLen p l w =
    (case w_pkts w p of None \<Rightarrow> fail BadPointer
     | Some b \<Rightarrow> ret (w\<lparr>w_pkts := (w_pkts w)(p \<mapsto> b\<lparr>m_dataLen := l\<rparr>)\<rparr>))"

text \<open>The writes a handler makes through the data pointer, all at once.\<close>

definition writeData :: "ptr \<Rightarrow> mem \<Rightarrow> 'o hworld \<Rightarrow> 'o hworld res" where
  "writeData p m w =
    (case w_pkts w p of None \<Rightarrow> fail BadPointer
     | Some b \<Rightarrow> ret (w\<lparr>w_pkts := (w_pkts w)(p \<mapsto> b\<lparr>m_data := m\<rparr>)\<rparr>))"

text \<open>\<open>rand()\<close> returns a non-negative \<open>int\<close>.\<close>

definition rand :: "'o hworld \<Rightarrow> u32 \<times> 'o hworld" where
  "rand w = (w_rand w (w_rnd w) AND 0x7fffffff, w\<lparr>w_rnd := w_rnd w + 1\<rparr>)"

definition heap_get :: "ptr \<Rightarrow> 'o hworld \<Rightarrow> 'o res" where
  "heap_get p w =
    (case w_heap w p of None \<Rightarrow> fail (if p = 0 then BadPointer else Dangling) | Some ob \<Rightarrow> ret ob)"

definition heap_put :: "ptr \<Rightarrow> 'o \<Rightarrow> 'o hworld \<Rightarrow> 'o hworld" where
  "heap_put p ob w = w\<lparr>w_heap := (w_heap w)(p \<mapsto> ob)\<rparr>"

definition heap_new :: "'o \<Rightarrow> 'o hworld \<Rightarrow> ptr \<times> 'o hworld" where
  "heap_new ob w =
    (w_next w, w\<lparr>w_heap := (w_heap w)(w_next w \<mapsto> ob), w_next := w_next w + 1\<rparr>)"

definition heap_delete :: "ptr \<Rightarrow> 'o hworld \<Rightarrow> 'o hworld res" where
  "heap_delete p w =
    (if p = 0 then ret w
     else case w_heap w p of None \<Rightarrow> fail Dangling
          | Some _ \<Rightarrow> ret (w\<lparr>w_heap := (w_heap w)(p := None)\<rparr>))"

text \<open>Addresses in use are below the next one to be handed out, and none is null.\<close>

definition heap_ok :: "'o hworld \<Rightarrow> bool" where
  "heap_ok w \<longleftrightarrow> 0 < w_next w \<and> (\<forall>p \<in> dom (w_heap w). 0 < p \<and> p < w_next w)"

lemma heap_new_fresh: "heap_ok w \<Longrightarrow> w_heap w (w_next w) = None"
  by (auto simp: heap_ok_def domIff)

lemma heap_new_ok: "heap_ok w \<Longrightarrow> heap_ok (snd (heap_new ob w))"
  by (auto simp: heap_ok_def heap_new_def less_Suc_eq)

lemma heap_delete_ret:
  assumes "w_heap w p = Some ob" and "heap_ok w"
  shows "heap_delete p w = ret (w\<lparr>w_heap := (w_heap w)(p := None)\<rparr>) \<and>
    heap_ok (w\<lparr>w_heap := (w_heap w)(p := None)\<rparr>)"
  using assms by (auto simp: heap_delete_def heap_ok_def domIff)

lemmas pkt_defs = getData_def getDataLen_def getBufLen_def setDataLen_def writeData_def

end
