(* ===== verification/Ownership.thy ===== *)
theory Ownership
  imports Packet_World Fun_Iface
begin

text \<open>
  Who owns the objects: every tracked connection has one of its own, and there is no other but a fixed set.
  The lemmas say what opening a connection, closing it, and replacing its object do to that.
\<close>

section \<open>Objects of tracked connections\<close>

definition own_objects :: "('c \<rightharpoonup> State) \<Rightarrow> bool" where
  "own_objects t \<longleftrightarrow> (\<forall>c c' a b. t c = Some a \<longrightarrow> t c' = Some b \<longrightarrow> stateData a = stateData b \<longrightarrow> c = c')"

text \<open>Every connection has an object of its own in \<open>h\<close>, which holds no others but those of \<open>K\<close>.\<close>

definition tracks :: "ptr set \<Rightarrow> ('c \<rightharpoonup> State) \<Rightarrow> (ptr \<rightharpoonup> 'o) \<Rightarrow> bool" where
  "tracks K t h \<longleftrightarrow> own_objects t \<and> dom h = K \<union> stateData ` ran t \<and> K \<inter> stateData ` ran t = {}"

definition holds_objects :: "ptr set \<Rightarrow> ('c \<rightharpoonup> State) \<Rightarrow> 'o hworld \<Rightarrow> bool" where
  "holds_objects K t w \<longleftrightarrow> heap_ok w \<and> tracks K t (w_heap w)"

lemma tracks_other:
  assumes "tracks K t h" and "t c = Some a" and "t c' = Some b" and "c' \<noteq> c"
  shows "stateData b \<noteq> stateData a"
  using assms unfolding tracks_def own_objects_def by metis

lemma tracks_live: "tracks K t h \<Longrightarrow> t c = Some a \<Longrightarrow> h (stateData a) \<noteq> None \<and> stateData a \<notin> K"
  using ranI [of t c a] unfolding tracks_def by blast

lemma ran_others:
  assumes "own_objects t" and "t c = Some a"
  shows "stateData ` ran (t(c := None)) = stateData ` ran t - {stateData a}"
proof (rule subset_antisym)
  show "stateData ` ran (t(c := None)) \<subseteq> stateData ` ran t - {stateData a}"
  proof (rule image_subsetI)
    fix s assume "s \<in> ran (t(c := None))"
    then obtain c' where c': "c' \<noteq> c" "t c' = Some s" by (auto simp: ran_def split: if_splits)
    then have "stateData s \<noteq> stateData a" using assms unfolding own_objects_def by blast
    with c'(2) show "stateData s \<in> stateData ` ran t - {stateData a}" by (auto simp: ran_def)
  qed
next
  show "stateData ` ran t - {stateData a} \<subseteq> stateData ` ran (t(c := None))"
    using assms(2) by (force simp: ran_def)
qed

lemma tracks_open:
  assumes h: "tracks K t h" and c: "t c = None" and p: "h p = None"
  shows "tracks K (t(c \<mapsto> State_of sid p)) (h(p \<mapsto> ob))"
proof -
  have fresh: "p \<notin> K \<union> stateData ` ran t" using h p by (auto simp: tracks_def)
  then have "stateData a \<noteq> p" if "t c' = Some a" for c' a using that by (auto simp: ran_def)
  then have "own_objects (t(c \<mapsto> State_of sid p))"
    using h unfolding own_objects_def tracks_def by (auto simp: State_of_def split: if_splits)
  moreover have "ran (t(c \<mapsto> State_of sid p)) = insert (State_of sid p) (ran t)" using c by simp
  ultimately show ?thesis using h fresh by (auto simp: tracks_def State_of_def)
qed

lemma tracks_close:
  assumes h: "tracks K t h" and c: "t c = Some a"
  shows "tracks K (t(c := None)) (h(stateData a := None))"
proof -
  have "own_objects (t(c := None))" using h by (auto simp: tracks_def own_objects_def)
  moreover have "stateData a \<notin> K" using h c by (auto simp: tracks_def ran_def)
  ultimately show ?thesis using h ran_others [of t c a] c by (auto simp: tracks_def)
qed

text \<open>A connection that goes on, with its object replaced by one at the same or at a new address.\<close>

lemma tracks_next:
  assumes h: "tracks K t h" and c: "t c = Some a" and p: "stateData s = stateData a \<or> h (stateData s) = None"
  shows "tracks K (t(c \<mapsto> s)) (h(stateData a := None, stateData s \<mapsto> ob))"
proof -
  have r: "own_objects t" "stateData ` ran (t(c := None)) = stateData ` ran t - {stateData a}"
    using h ran_others [of t c a] c by (simp_all add: tracks_def)
  have d: "dom h = K \<union> stateData ` ran t" "K \<inter> stateData ` ran t = {}"
    using h by (simp_all add: tracks_def)
  have a: "stateData a \<notin> K" using tracks_live [OF h c] by simp
  have s: "stateData s \<notin> K \<and> stateData s \<notin> stateData ` ran (t(c := None))"
    using p
  proof (elim disjE)
    assume "stateData s = stateData a"
    then show ?thesis using a r(2) by simp
  next
    assume "h (stateData s) = None"
    then have "stateData s \<notin> dom h" by (simp add: domIff)
    then show ?thesis unfolding d(1) r(2) by simp
  qed
  have ran: "ran (t(c \<mapsto> s)) = insert s (ran (t(c := None)))" by (auto simp: ran_def)
  have "stateData b \<noteq> stateData s \<and> stateData s \<noteq> stateData b" if "t c' = Some b" "c' \<noteq> c" for c' b
    using s that by (metis (full_types) fun_upd_other image_eqI ranI)
  then have "own_objects (t(c \<mapsto> s))" using r(1) by (auto simp: own_objects_def split: if_splits)
  moreover have "dom (h(stateData a := None, stateData s \<mapsto> ob)) = K \<union> stateData ` ran (t(c \<mapsto> s))"
  proof -
    have "dom (h(stateData a := None, stateData s \<mapsto> ob)) = insert (stateData s) (dom h - {stateData a})" by simp
    also have "\<dots> = insert (stateData s) (K \<union> (stateData ` ran t - {stateData a}))"
      unfolding d(1) using a by blast
    finally show ?thesis by (simp add: ran r(2))
  qed
  moreover have "K \<inter> stateData ` ran (t(c \<mapsto> s)) = {}"
    unfolding ran image_insert r(2) using s d(2) by blast
  ultimately show ?thesis by (simp add: tracks_def)
qed

text \<open>As many objects as connections.\<close>

lemma tracks_card:
  assumes "tracks {} t h"
  shows "card (dom h) = card (dom t)"
proof -
  have "(\<lambda>c. stateData (the (t c))) ` dom t = stateData ` ran t" by (force simp: ran_def image_def)
  moreover have "inj_on (\<lambda>c. stateData (the (t c))) (dom t)"
    using assms by (auto simp: inj_on_def tracks_def own_objects_def)
  ultimately show ?thesis using assms card_image [of "\<lambda>c. stateData (the (t c))" "dom t"] by (simp add: tracks_def)
qed

section \<open>On the heap\<close>

lemma tracked_below:
  assumes "holds_objects K t w" and "t c = Some a"
  shows "stateData a < w_next w"
  using assms tracks_live [of K t "w_heap w" c a] by (auto simp: holds_objects_def heap_ok_def)

lemma holds_open:
  assumes "holds_objects K t w" and "t c = None"
    and "w_heap w' = (w_heap w)(w_next w \<mapsto> ob)" "w_next w' = w_next w + 1"
  shows "holds_objects K (t(c \<mapsto> State_of sid (w_next w))) w'"
  using assms tracks_open [of K t "w_heap w" c "w_next w" sid ob] heap_new_fresh [of w]
  by (auto simp: holds_objects_def heap_ok_def less_Suc_eq)

section \<open>What a state function does to the object of its connection\<close>

text \<open>
  It deletes the object and goes to the end state \<open>e\<close>, or goes on with an object at the same or at a new address.
\<close>

definition object_step ::
  "StateID \<Rightarrow> ('c, 'p, 'o hworld, 'k) FunIface \<Rightarrow> ('c, 'p, 'o hworld, 'k) FunIface \<Rightarrow> bool" where
  "object_step e fi fi' \<longleftrightarrow>
     (if state (st fi') = e
      then w_heap (world fi') = (w_heap (world fi))(stateData (st fi) := None) \<and> w_next (world fi') = w_next (world fi)
      else (stateData (st fi') = stateData (st fi) \<or> stateData (st fi') = w_next (world fi)) \<and>
        (\<exists>ob. w_heap (world fi') = (w_heap (world fi))(stateData (st fi) := None, stateData (st fi') \<mapsto> ob)) \<and>
        w_next (world fi) \<le> w_next (world fi') \<and> stateData (st fi') < w_next (world fi'))"

lemma holds_step:
  assumes h: "holds_objects K t (world fi)" and c: "t c = Some a" and a: "stateData (st fi) = stateData a"
    and os: "object_step e fi fi'"
  shows "holds_objects K (t(c := if state (st fi') = e then None else Some (st fi'))) (world fi')"
proof (cases "state (st fi') = e")
  case True
  then show ?thesis using h os a tracks_close [of K t "w_heap (world fi)" c a] c
    by (auto simp: holds_objects_def object_step_def heap_ok_def)
next
  case False
  let ?w = "world fi" and ?w' = "world fi'" and ?p = "stateData (st fi')"
  obtain ob where w': "w_heap ?w' = (w_heap ?w)(stateData a := None, ?p \<mapsto> ob)" "w_next ?w \<le> w_next ?w'" "?p < w_next ?w'"
    and p: "?p = stateData a \<or> ?p = w_next ?w" using os False a by (auto simp: object_step_def)
  have ok: "heap_ok ?w" and t: "tracks K t (w_heap ?w)" using h by (simp_all add: holds_objects_def)
  have pos: "0 < ?p" using p ok tracks_live [OF t c] by (auto simp: heap_ok_def)
  have "0 < q \<and> q < w_next ?w'" if "q \<in> dom (w_heap ?w')" for q
  proof (cases "q = ?p")
    case False
    then have "q \<in> dom (w_heap ?w)" using that w'(1) by (auto split: if_splits)
    then have "0 < q" "q < w_next ?w" using ok by (auto simp: heap_ok_def)
    then show ?thesis using w'(2) by simp
  qed (use pos w'(3) in simp)
  then have "heap_ok ?w'" using w'(3) by (auto simp: heap_ok_def)
  moreover have "tracks K (t(c \<mapsto> st fi')) (w_heap ?w')"
    unfolding w'(1) using p heap_new_fresh [OF ok] by (intro tracks_next [OF t c]) auto
  ultimately show ?thesis using False by (simp add: holds_objects_def)
qed

text \<open>The objects of other connections are not touched.\<close>

lemma object_step_other:
  assumes "object_step e fi fi'" and "q < w_next (world fi)" and "q \<noteq> stateData (st fi)"
  shows "w_heap (world fi') q = w_heap (world fi) q"
  using assms by (auto simp: object_step_def split: if_splits)

end
