(* ===== verification/Hello_Bye3.thy ===== *)
theory Hello_Bye3
  imports State_Machine Packet_World Headers
begin

text \<open>
  The protocol of \<open>src/helloBye3.cpp\<close> and \<open>include/helloBye3.hpp\<close>: a client and a server exchange
  cookies in two round trips.  A message is the payload of a UDP packet: an identifier of the
  connection, a role, a message type and a cookie.  The handlers are state functions of the
  state machine; the C functions at the end configure and drive it.  Messages printed to the
  console are not represented, neither is the seeding of \<open>rand()\<close>, which only selects the stream.
\<close>

section \<open>Messages and identification\<close>

definition msg_ident :: "nat \<Rightarrow> mem \<Rightarrow> u64" where "msg_ident a m = load64 m a"
definition msg_role :: "nat \<Rightarrow> mem \<Rightarrow> u8" where "msg_role a m = m (a + 8)"
definition msg_msg :: "nat \<Rightarrow> mem \<Rightarrow> u8" where "msg_msg a m = m (a + 9)"
definition msg_cookie :: "nat \<Rightarrow> mem \<Rightarrow> u8" where "msg_cookie a m = m (a + 10)"

definition set_ident :: "nat \<Rightarrow> u64 \<Rightarrow> mem \<Rightarrow> mem" where "set_ident a v = store64 a v"
definition set_role :: "nat \<Rightarrow> u8 \<Rightarrow> mem \<Rightarrow> mem" where "set_role a v = store8 (a + 8) v"
definition set_msg :: "nat \<Rightarrow> u8 \<Rightarrow> mem \<Rightarrow> mem" where "set_msg a v = store8 (a + 9) v"
definition set_cookie :: "nat \<Rightarrow> u8 \<Rightarrow> mem \<Rightarrow> mem" where "set_cookie a v = store8 (a + 10) v"

definition ROLE_CLIENT :: u8 where "ROLE_CLIENT = 0"
definition ROLE_SERVER :: u8 where "ROLE_SERVER = 1"
definition MSG_HELLO :: u8 where "MSG_HELLO = 0"
definition MSG_BYE :: u8 where "MSG_BYE = 1"

text \<open>\<open>None\<close> is the exception \<open>PacketNotIdentified\<close>.\<close>

definition hb3_identify :: "mem \<Rightarrow> u64 option" where
  "hb3_identify m =
    (let eth = 0 in
     if eth_getEthertype eth m \<noteq> ETHERTYPE_IPv4 then None
     else let ipv4 = eth_getPayload eth in
       if ip_proto ipv4 m \<noteq> PROTO_UDP then None
       else let udp = ip_getPayload ipv4 m; msg = udp_getPayload udp
            in Some (msg_ident msg m))"

definition hb3_getDelKey :: u64 where "hb3_getDelKey = - 1"
definition hb3_getEmptyKey :: u64 where "hb3_getEmptyKey = - 1 - 1"

section \<open>Objects\<close>

record server =
  s_clientCookie :: u32
  s_serverCookie :: u32

record client =
  c_ident :: u64
  c_srcIp :: u32
  c_dstIp :: u32
  c_clientCookie :: u32
  c_serverCookie :: u32
  c_srcPort :: u16
  c_dstPort :: u16

datatype hb_obj = ServerObj server | ClientObj client

definition get_server :: "ptr \<Rightarrow> hb_obj hworld \<Rightarrow> server res" where
  "get_server p w = rbind (heap_get p w) (\<lambda>ob. case ob of ServerObj s \<Rightarrow> ret s | ClientObj _ \<Rightarrow> fail BadPointer)"

definition get_client :: "ptr \<Rightarrow> hb_obj hworld \<Rightarrow> client res" where
  "get_client p w = rbind (heap_get p w) (\<lambda>ob. case ob of ClientObj c \<Rightarrow> ret c | ServerObj _ \<Rightarrow> fail BadPointer)"

type_synonym hb_fi = "(u64, ptr, hb_obj hworld, unit) FunIface"
type_synonym hb_fun = "(u64, ptr, hb_obj hworld, unit) stateFun"

text \<open>
  The end of a connection that all handlers share: go to the end state, delete the object, and
  (unless a reply is sent) free the packet.
\<close>

definition hb_terminate :: "StateID \<Rightarrow> hb_fi \<Rightarrow> hb_fi res" where
  "hb_terminate sid fi =
    (let p = stateData (st fi); fi = transition sid fi
     in rbind (heap_delete p (world fi)) (\<lambda>w. ret (freePkt (fi\<lparr>world := w\<rparr>))))"

text \<open>The reply goes back where the packet came from.\<close>

definition hb_turn_around :: "nat \<Rightarrow> nat \<Rightarrow> mem \<Rightarrow> mem" where
  "hb_turn_around ipv4 udp m =
    (let m = ip_setTTL ipv4 64 m;
         tmp = ip_dstIP ipv4 m;
         m = ip_put_dstIP ipv4 (ip_srcIP ipv4 m) m;
         m = ip_put_srcIP ipv4 tmp m;
         m = ip_setChecksum ipv4 0 m;
         m = udp_setChecksum udp 0 m;
         tmp16 = udp_dstPort udp m;
         m = udp_put_dstPort udp (udp_srcPort udp m) m;
         m = udp_put_srcPort udp tmp16 m
     in m)"

section \<open>Server\<close>

definition S_Hello :: StateID where "S_Hello = 0"
definition S_Bye :: StateID where "S_Bye = 1"
definition S_Terminate :: StateID where "S_Terminate = 2"

definition hb3_factory :: "u64 \<Rightarrow> hb_obj hworld \<Rightarrow> (ptr \<times> hb_obj hworld) res" where
  "hb3_factory cid w =
    (let (r, w) = rand w
     in ret (heap_new (ServerObj \<lparr>s_clientCookie = 0, s_serverCookie = r mod 256\<rparr>) w))"

definition hb3_server_runHello :: hb_fun where
  "hb3_server_runHello pkt fi =
    (let sp = stateData (st fi) in
     rbind (getData pkt (world fi)) (\<lambda>m.
     let ether = 0;
         ipv4 = eth_getPayload ether;
         udp = ip_getPayload ipv4 m;
         msg = udp_getPayload udp
     in if msg_role msg m \<noteq> 0 then hb_terminate S_Terminate fi
        else if msg_msg msg m \<noteq> 0 then hb_terminate S_Terminate fi
        else
          rbind (get_server sp (world fi)) (\<lambda>s.
          let s = s\<lparr>s_clientCookie := ucast (msg_cookie msg m)\<rparr>;
              w = heap_put sp (ServerObj s) (world fi);
              m = set_role msg ROLE_SERVER m;
              m = set_msg msg MSG_HELLO m;
              m = set_cookie msg (ucast (s_serverCookie s)) m;
              m = hb_turn_around ipv4 udp m
          in rbind (writeData pkt m w) (\<lambda>w.
             ret (transition S_Bye (fi\<lparr>world := w\<rparr>))))))"

definition hb3_server_runBye :: hb_fun where
  "hb3_server_runBye pkt fi =
    (let sp = stateData (st fi) in
     rbind (getData pkt (world fi)) (\<lambda>m.
     let ether = 0;
         ipv4 = eth_getPayload ether;
         udp = ip_getPayload ipv4 m;
         msg = udp_getPayload udp
     in if msg_role msg m \<noteq> ROLE_CLIENT \<or> msg_msg msg m \<noteq> MSG_BYE then hb_terminate S_Terminate fi
        else
          rbind (get_server sp (world fi)) (\<lambda>s.
          if ucast (msg_cookie msg m) \<noteq> s_serverCookie s then hb_terminate S_Terminate fi
          else
            let m = set_cookie msg (ucast (s_clientCookie s)) m;
                m = set_role msg ROLE_SERVER m;
                m = set_msg msg MSG_BYE m;
                m = hb_turn_around ipv4 udp m
            in rbind (writeData pkt m (world fi)) (\<lambda>w.
               let fi = transition S_Terminate (fi\<lparr>world := w\<rparr>)
               in rbind (heap_delete sp (world fi)) (\<lambda>w. ret (fi\<lparr>world := w\<rparr>))))))"

section \<open>Client\<close>

definition C_Hello :: StateID where "C_Hello = 0"
definition C_Bye :: StateID where "C_Bye = 1"
definition C_RecvBye :: StateID where "C_RecvBye = 2"
definition C_Terminate :: StateID where "C_Terminate = 3"

definition hb3_createHello ::
  "u32 \<Rightarrow> u32 \<Rightarrow> u16 \<Rightarrow> u16 \<Rightarrow> u64 \<Rightarrow> hb_obj hworld \<Rightarrow> State \<times> hb_obj hworld" where
  "hb3_createHello srcIp dstIp srcPort dstPort idn w =
    (let (r, w) = rand w;
         (p, w) = heap_new (ClientObj \<lparr>c_ident = idn, c_srcIp = srcIp, c_dstIp = dstIp,
                     c_clientCookie = r mod 256, c_serverCookie = 0,
                     c_srcPort = srcPort, c_dstPort = dstPort\<rparr>) w
     in (State_of C_Hello p, w))"

definition hb3_client_runHello :: hb_fun where
  "hb3_client_runHello pkt fi =
    (let cp = stateData (st fi) in
     rbind (getData pkt (world fi)) (\<lambda>m.
     rbind (getDataLen pkt (world fi)) (\<lambda>len.
     rbind (get_client cp (world fi)) (\<lambda>c.
     let m = (\<lambda>i. if i < unat len then 0 else m i);
         ether = 0;
         ipv4 = eth_getPayload ether;
         m = ip_setVersion ipv4 m;
         m = ip_setIHL ipv4 5 m;
         m = ip_setTTL ipv4 64 m;
         m = ip_setLength ipv4 (100 - 14) m;
         m = ip_setDstIP ipv4 (c_dstIp c) m;
         m = ip_setSrcIP ipv4 (c_srcIp c) m;
         m = ip_setProtoUDP ipv4 m;
         m = ip_setChecksum ipv4 0 m;
         udp = ip_getPayload ipv4 m;
         msg = udp_getPayload udp;
         m = set_ident msg (c_ident c) m;
         m = set_role msg ROLE_CLIENT m;
         m = set_cookie msg (ucast (c_clientCookie c)) m;
         m = set_msg msg MSG_HELLO m;
         m = eth_setEthertype ether 0x0800 m;
         m = udp_setChecksum udp 0 m;
         m = udp_setDstPort udp (c_dstPort c) m;
         m = udp_setSrcPort udp (c_srcPort c) m;
         m = udp_setPayloadLength udp 50 m
     in rbind (writeData pkt m (world fi)) (\<lambda>w.
        ret (transition C_Bye (fi\<lparr>world := w\<rparr>)))))))"

definition hb3_client_runBye :: hb_fun where
  "hb3_client_runBye pkt fi =
    (let cp = stateData (st fi) in
     rbind (getData pkt (world fi)) (\<lambda>m.
     let ether = 0;
         ipv4 = eth_getPayload ether;
         udp = ip_getPayload ipv4 m;
         msg = udp_getPayload udp
     in if msg_role msg m \<noteq> ROLE_SERVER \<or> msg_msg msg m \<noteq> MSG_HELLO then hb_terminate C_Terminate fi
        else
          rbind (get_client cp (world fi)) (\<lambda>c.
          let c = c\<lparr>c_serverCookie := ucast (msg_cookie msg m)\<rparr>;
              w = heap_put cp (ClientObj c) (world fi);
              m = set_cookie msg (ucast (c_serverCookie c)) m;
              m = set_role msg ROLE_CLIENT m;
              m = set_msg msg MSG_BYE m;
              m = hb_turn_around ipv4 udp m
          in rbind (writeData pkt m w) (\<lambda>w.
             ret (transition C_RecvBye (fi\<lparr>world := w\<rparr>))))))"

definition hb3_client_runRecvBye :: hb_fun where
  "hb3_client_runRecvBye pkt fi =
    (let cp = stateData (st fi) in
     rbind (getData pkt (world fi)) (\<lambda>m.
     let ether = 0;
         ipv4 = eth_getPayload ether;
         udp = ip_getPayload ipv4 m;
         msg = udp_getPayload udp
     in if msg_role msg m \<noteq> ROLE_SERVER \<or> msg_msg msg m \<noteq> MSG_BYE then hb_terminate C_Terminate fi
        else
          rbind (get_client cp (world fi)) (\<lambda>c.
          if ucast (msg_cookie msg m) \<noteq> c_clientCookie c then hb_terminate C_Terminate fi
          else
            let fi = transition C_Terminate (freePkt fi)
            in rbind (heap_delete cp (world fi)) (\<lambda>w. ret (fi\<lparr>world := w\<rparr>)))))"

section \<open>The C interface\<close>

type_synonym 'm hb_sm = "(u64, ptr, hb_obj hworld, unit, 'm) SM"
type_synonym ('m, 'n) hb_env = "(u64, ptr, hb_obj hworld, unit, 'm, 'n) env"
type_synonym ('m, 'n) hb_ctx = "(u64, ptr, hb_obj hworld, unit, 'm, 'n) ctx"

text \<open>
  The state machine is instantiated with the identifier above.  The handlers set no timeouts,
  so no timeout function is ever looked up.
\<close>

definition hb3_env ::
  "('m, u64, State) map_ops \<Rightarrow> ('n, u64, State) map_ops \<Rightarrow> (hb_obj hworld \<Rightarrow> int \<times> hb_obj hworld) \<Rightarrow> ('m, 'n) hb_env" where
  "hb3_env d n clk =
    \<lparr>dense = d, poolOps = n,
     ident = \<lambda>w p. case w_pkts w p of None \<Rightarrow> None | Some b \<Rightarrow> hb3_identify (m_data b),
     clock = clk, timeoutFun = \<lambda>k fi. ret fi\<rparr>"

definition HelloBye3_Server_init :: "('m, 'n) hb_env \<Rightarrow> 'm hb_sm" where
  "HelloBye3_Server_init env =
    (let sm = new_StateMachine env;
         sm = registerEndStateID S_Terminate sm;
         sm = registerStartStateID S_Hello (Some hb3_factory) sm;
         sm = registerFunction S_Hello (Some hb3_server_runHello) sm;
         sm = registerFunction S_Bye (Some hb3_server_runBye) sm
     in sm)"

text \<open>The counts the C function stores through its last two arguments come last.\<close>

definition HelloBye3_Server_process ::
  "('m, 'n) hb_env \<Rightarrow> ptr list \<Rightarrow> u32 \<Rightarrow> ('m, 'n) hb_ctx \<Rightarrow> (('m, 'n) hb_ctx \<times> u32 \<times> u32) res" where
  "HelloBye3_Server_process env inPkts inCount x =
    rbind (new_BufArray inPkts inCount True) (\<lambda>ba.
    rbind (runPktBatch env (x\<lparr>c_batch := ba\<rparr>)) (\<lambda>x.
    ret (x, getSendCount (c_batch x), getFreeCount (c_batch x))))"

definition HelloBye3_Server_getPkts :: "ptr bufArray \<Rightarrow> (ptr list \<times> ptr list) res" where
  "HelloBye3_Server_getPkts ba =
    rbind (getSendBufs ba) (\<lambda>s. rbind (getFreeBufs ba) (\<lambda>f. ret (s, f)))"

definition HelloBye3_Client_init :: "('m, 'n) hb_env \<Rightarrow> 'm hb_sm" where
  "HelloBye3_Client_init env =
    (let sm = new_StateMachine env;
         sm = registerEndStateID C_Terminate sm;
         sm = registerFunction C_Hello (Some hb3_client_runHello) sm;
         sm = registerFunction C_Bye (Some hb3_client_runBye) sm;
         sm = registerFunction C_RecvBye (Some hb3_client_runRecvBye) sm
     in sm)"

definition HelloBye3_Client_connect ::
  "('m, 'n) hb_env \<Rightarrow> ptr list \<Rightarrow> u32 \<Rightarrow> u32 \<Rightarrow> u32 \<Rightarrow> u16 \<Rightarrow> u16 \<Rightarrow> u64 \<Rightarrow> ('m, 'n) hb_ctx \<Rightarrow>
     (('m, 'n) hb_ctx \<times> u32 \<times> u32) res" where
  "HelloBye3_Client_connect env inPkts inCount srcIP dstIP srcPort dstPort idn x =
    rbind (new_BufArray inPkts inCount True) (\<lambda>ba.
    let (s, w) = hb3_createHello srcIP dstIP srcPort dstPort idn (c_world x)
    in rbind (addState env idn s (x\<lparr>c_batch := ba, c_world := w\<rparr>)) (\<lambda>x.
       ret (x, getSendCount (c_batch x), getFreeCount (c_batch x))))"

definition HelloBye3_Client_process ::
  "('m, 'n) hb_env \<Rightarrow> ptr list \<Rightarrow> u32 \<Rightarrow> ('m, 'n) hb_ctx \<Rightarrow> (('m, 'n) hb_ctx \<times> u32 \<times> u32) res" where
  "HelloBye3_Client_process env inPkts inCount x =
    rbind (new_BufArray inPkts inCount True) (\<lambda>ba.
    rbind (runPktBatch env (x\<lparr>c_batch := ba\<rparr>)) (\<lambda>x.
    ret (x, getSendCount (c_batch x), getFreeCount (c_batch x))))"

definition HelloBye3_Client_getPkts :: "ptr bufArray \<Rightarrow> (ptr list \<times> ptr list) res" where
  "HelloBye3_Client_getPkts ba =
    rbind (getSendBufs ba) (\<lambda>s. rbind (getFreeBufs ba) (\<lambda>f. ret (s, f)))"

end
