(* ===== verification/Hello_Bye3_Props.thy ===== *)
theory Hello_Bye3_Props
  imports Hello_Bye3 State_Machine_Props Ownership
begin

text \<open>
  What the HelloBye3 handlers guarantee.  They meet the contract of a state function; a server
  keeps exactly one live object per connection, so that no packet whatsoever makes it touch a
  dead object or leak one; and the two sides, connected to one another, complete the exchange.
\<close>

section \<open>The contract of a state function\<close>

lemma hb_terminate_frame: "fi_ok fi \<Longrightarrow> hb_terminate sid fi = ret fi' \<Longrightarrow> fi_frame fi fi'"
  by (auto simp: hb_terminate_def Let_def rbind_eq_ret intro: fi_frame_same)

interpretation hb3_s_hello: state_function hb3_server_runHello
  by unfold_locales
    (auto simp: hb3_server_runHello_def Let_def rbind_eq_ret split: if_splits
      intro: fi_frame_same hb_terminate_frame)

interpretation hb3_s_bye: state_function hb3_server_runBye
  by unfold_locales
    (auto simp: hb3_server_runBye_def Let_def rbind_eq_ret split: if_splits
      intro: fi_frame_same hb_terminate_frame)

interpretation hb3_c_hello: state_function hb3_client_runHello
  by unfold_locales
    (auto simp: hb3_client_runHello_def Let_def rbind_eq_ret intro: fi_frame_same)

interpretation hb3_c_bye: state_function hb3_client_runBye
  by unfold_locales
    (auto simp: hb3_client_runBye_def Let_def rbind_eq_ret split: if_splits
      intro: fi_frame_same hb_terminate_frame)

interpretation hb3_c_recvbye: state_function hb3_client_runRecvBye
  by unfold_locales
    (auto simp: hb3_client_runRecvBye_def Let_def rbind_eq_ret split: if_splits
      intro: fi_frame_same hb_terminate_frame)

section \<open>The reply headers\<close>

lemmas msg_defs = msg_ident_def msg_role_def msg_msg_def msg_cookie_def set_ident_def set_role_def
  set_msg_def set_cookie_def

text \<open>With an IP header of at least 20 bytes the UDP header starts at byte 34 or later.\<close>

lemma hb_turn_around_fields:
  assumes "34 \<le> udp" and "m' = hb_turn_around 14 udp m"
  shows "ip_srcIP 14 m' = ip_dstIP 14 m" and "ip_dstIP 14 m' = ip_srcIP 14 m"
    and "udp_srcPort udp m' = udp_dstPort udp m" and "udp_dstPort udp m' = udp_srcPort udp m"
    and "\<And>i. udp + 8 \<le> i \<Longrightarrow> m' i = m i" and "\<And>i. i < 22 \<Longrightarrow> m' i = m i" and "m' 23 = m 23"
  using assms(1)
  by (simp_all add: assms(2) hb_turn_around_def Let_def ip_defs udp_defs mem_simps)

section \<open>What a server handler can do\<close>

text \<open>
  Either the connection ends and its object is deleted, or it goes on in state \<open>Bye\<close> with an
  object at the same address.
\<close>

definition server_outcome :: "hb_fi \<Rightarrow> hb_fi \<Rightarrow> bool" where
  "server_outcome fi fi' \<longleftrightarrow>
     pktsBA fi' = pktsBA fi \<and> fi_sm fi' = fi_sm fi \<and> immediateTransition fi' = immediateTransition fi \<and>
     stateData (st fi') = stateData (st fi) \<and>
     dom (w_pkts (world fi')) = dom (w_pkts (world fi)) \<and> w_next (world fi') = w_next (world fi) \<and>
     (state (st fi') = S_Terminate \<and>
        w_heap (world fi') = (w_heap (world fi))(stateData (st fi) := None) \<or>
      state (st fi') = S_Bye \<and>
        (\<exists>v. w_heap (world fi') = (w_heap (world fi))(stateData (st fi) \<mapsto> ServerObj v)))"

lemma hb_terminate_server:
  assumes "w_heap (world fi) (stateData (st fi)) = Some ob" and "heap_ok (world fi)"
  shows "\<exists>fi'. hb_terminate S_Terminate fi = ret fi' \<and> server_outcome fi fi' \<and> \<not> sendPkt fi' \<and>
    w_pkts (world fi') = w_pkts (world fi) \<and> state (st fi') = S_Terminate"
  using heap_delete_ret [OF assms]
  by (simp add: hb_terminate_def Let_def server_outcome_def)

lemma server_outcome_step:
  assumes "server_outcome fi fi'" and "w_heap (world fi) (stateData (st fi)) = Some ob"
    and "stateData (st fi) < w_next (world fi)"
  shows "object_step S_Terminate fi fi'"
  using assms by (auto simp: server_outcome_def object_step_def S_Bye_def S_Terminate_def)

lemma server_runHello_outcome:
  assumes "w_pkts (world fi) pkt = Some b" and "heap_ok (world fi)"
    and "w_heap (world fi) (stateData (st fi)) = Some (ServerObj v)"
  shows "\<exists>fi'. hb3_server_runHello pkt fi = ret fi' \<and> server_outcome fi fi'"
  using hb_terminate_server [OF assms(3,2)] assms
  by (auto simp: hb3_server_runHello_def Let_def getData_def get_server_def heap_get_def
      writeData_def heap_put_def server_outcome_def)

lemma server_runBye_outcome:
  assumes "w_pkts (world fi) pkt = Some b" and "heap_ok (world fi)"
    and "w_heap (world fi) (stateData (st fi)) = Some (ServerObj v)"
  shows "\<exists>fi'. hb3_server_runBye pkt fi = ret fi' \<and> server_outcome fi fi'"
proof -
  have "stateData (st fi) \<noteq> 0" using assms(2,3) by (auto simp: heap_ok_def)
  then show ?thesis
    using hb_terminate_server [OF assms(3,2)] assms
    by (auto simp: hb3_server_runBye_def Let_def getData_def get_server_def heap_get_def
        writeData_def heap_delete_def server_outcome_def)
qed

section \<open>The server's invariant\<close>

text \<open>
  The machine is configured as a server; every tracked connection waits in \<open>Hello\<close> or \<open>Bye\<close>
  and has a live object of its own; there is no other object on the heap; the buffers of the
  batch exist.
\<close>

definition server_config :: "'m hb_sm \<Rightarrow> bool" where
  "server_config sm \<longleftrightarrow> sm_functions sm = [Some hb3_server_runHello, Some hb3_server_runBye] \<and>
     endStateID sm = S_Terminate \<and> startStateID sm = S_Hello \<and> startStateFun sm = Some hb3_factory \<and>
     listenToConnections sm"

definition server_conn :: "(ptr \<rightharpoonup> hb_obj) \<Rightarrow> State \<Rightarrow> bool" where
  "server_conn h s \<longleftrightarrow> (state s = S_Hello \<or> state s = S_Bye) \<and> (\<exists>v. h (stateData s) = Some (ServerObj v))"

definition server_ok :: "('m, 'n) hb_env \<Rightarrow> ('m, 'n) hb_ctx \<Rightarrow> bool" where
  "server_ok env x \<longleftrightarrow> server_config (c_sm x) \<and> my_pool env x = Map.empty \<and>
     holds_objects {} (tbl env x) (c_world x) \<and>
     (\<forall>c s. tbl env x c = Some s \<longrightarrow> server_conn (w_heap (c_world x)) s) \<and>
     (\<forall>p \<in> set (map fst (packets x)). w_pkts (c_world x) p \<noteq> None)"

lemma server_ok_heap: "server_ok env x \<Longrightarrow> heap_ok (c_world x)"
  by (simp add: server_ok_def holds_objects_def)

text \<open>One connection changed, the objects of the others as they were.\<close>

lemma server_conns_upd:
  assumes "\<forall>c s. t c = Some s \<longrightarrow> server_conn h s" and "\<And>d b. d \<noteq> c \<Longrightarrow> t d = Some b \<Longrightarrow> h' (stateData b) = h (stateData b)"
    and "\<And>s. z = Some s \<Longrightarrow> server_conn h' s"
  shows "\<forall>d s. (t(c := z)) d = Some s \<longrightarrow> server_conn h' s"
  using assms by (auto simp: server_conn_def)

lemma server_init_config: "server_config (HelloBye3_Server_init env)"
  by (simp add: server_config_def HelloBye3_Server_init_def registerFunction_def registerEndStateID_def
      registerStartStateID_def new_StateMachine_def S_Hello_def S_Bye_def Let_def)

lemma server_lookup:
  assumes "server_config sm"
  shows "lookupFun sm S_Hello = ret hb3_server_runHello" and "lookupFun sm S_Bye = ret hb3_server_runBye"
  using assms by (simp_all add: lookupFun_eq server_config_def S_Hello_def S_Bye_def)

text \<open>Accepting a connection keeps the invariant.\<close>

lemma server_accept:
  assumes m: "machine_maps env tinv pinv key_ok" and ok: "ctx_ok tinv pinv x" and s: "server_ok env x"
    and key: "key_ok c" and miss: "tbl env x c = None"
  shows "\<exists>x1 s1 v. findState env c x = ret (Some s1, x1) \<and> ctx_ok tinv pinv x1 \<and> server_ok env x1 \<and>
    tbl env x1 = (tbl env x)(c \<mapsto> s1) \<and> s1 = State_of S_Hello (stateData s1) \<and>
    w_heap (c_world x1) (stateData s1) = Some (ServerObj v) \<and> s_clientCookie v = 0 \<and>
    unat (s_serverCookie v) < 256 \<and>
    w_heap (c_world x) (stateData s1) = None \<and> w_heap (c_world x1) = (w_heap (c_world x))(stateData s1 \<mapsto> ServerObj v) \<and>
    c_batch x1 = c_batch x \<and> w_pkts (c_world x1) = w_pkts (c_world x)"
proof -
  have t: "tinv (stateTable (c_sm x))" using ok by (simp add: ctx_ok_def)
  define r where "r = fst (rand (c_world x)) mod 256"
  define v where "v = \<lparr>s_clientCookie = 0, s_serverCookie = r\<rparr>"
  obtain p w where new: "heap_new (ServerObj v) (snd (rand (c_world x))) = (p, w)" by fastforce
  have sd: "start_data c x = ret (p, w)"
    using s new by (simp add: start_data_def server_ok_def server_config_def hb3_factory_def split_beta v_def r_def)
  have start: "startStateID (c_sm x) = S_Hello" "listenToConnections (c_sm x)" "my_pool env x c = None"
    using s by (simp_all add: server_ok_def server_config_def)
  let ?s1 = "State_of S_Hello p" and ?x1 = "accept env c p w x"
  have f: "findState env c x = ret (Some ?s1, ?x1)"
    using machine_maps.findState_eq [OF m t key] miss sd start by simp
  note e = machine_maps.findState_effect [OF m ok key f]
  have heap: "p = w_next (c_world x)" "w_heap w = (w_heap (c_world x))(p \<mapsto> ServerObj v)"
    "w_next w = w_next (c_world x) + 1" "w_pkts w = w_pkts (c_world x)"
    using new by (auto simp: heap_new_def rand_def)
  have h: "holds_objects {} (tbl env x) (c_world x)" using s by (simp add: server_ok_def)
  have fresh: "w_heap (c_world x) p = None" using heap_new_fresh [OF server_ok_heap [OF s]] heap by simp
  have wx1: "c_world ?x1 = w" "c_batch ?x1 = c_batch x" by (simp_all add: accept_def)
  have t1: "tbl env ?x1 = (tbl env x)(c \<mapsto> ?s1)" using e by simp
  have "holds_objects {} (tbl env ?x1) w" using holds_open [OF h miss, of w "ServerObj v"] heap t1 by simp
  moreover have "\<forall>d s. tbl env ?x1 d = Some s \<longrightarrow> server_conn (w_heap w) s"
    unfolding t1
  proof (rule server_conns_upd)
    show "\<forall>d s. tbl env x d = Some s \<longrightarrow> server_conn (w_heap (c_world x)) s" using s by (simp add: server_ok_def)
    show "w_heap w (stateData b) = w_heap (c_world x) (stateData b)" if "tbl env x d = Some b" for d b
      using tracked_below [OF h that] heap by simp
  qed (auto simp: server_conn_def State_of_def heap)
  moreover have "server_config (c_sm ?x1)" using s by (simp add: server_ok_def server_config_def accept_def)
  moreover have "my_pool env ?x1 = Map.empty" using s e by (auto simp: server_ok_def map_le_def intro!: ext)
  moreover have "\<forall>q \<in> set (map fst (packets ?x1)). w_pkts w q \<noteq> None"
    using s heap unfolding server_ok_def packets_def wx1 by simp
  ultimately have "server_ok env ?x1" unfolding server_ok_def wx1 by blast
  moreover have "unat r < 256"
  proof -
    have "r < 256" unfolding r_def by (rule word_mod_less_divisor) simp
    then show ?thesis by (simp add: word_less_nat_alt)
  qed
  ultimately show ?thesis
    using f e t1 fresh heap wx1
    by (intro exI [of _ ?x1] exI [of _ ?s1] exI [of _ v]) (simp add: State_of_def v_def)
qed

text \<open>A packet of a tracked connection.\<close>

definition server_handler :: "State \<Rightarrow> hb_fun" where
  "server_handler s = (if state s = S_Hello then hb3_server_runHello else hb3_server_runBye)"

lemma server_known:
  assumes m: "machine_maps env tinv pinv key_ok" and ok: "ctx_ok tinv pinv x" and sv: "server_ok env x"
    and len: "unat cur < length (packets x)"
    and c: "ident env (c_world x) (fst (packets x ! unat cur)) = Some c" and hit: "tbl env x c = Some s"
  shows "\<exists>x' fi. server_handler s (fst (packets x ! unat cur)) (packet_iface cur c s x) = ret fi \<and>
    server_outcome (packet_iface cur c s x) fi \<and> runPkt env cur x = ret x' \<and>
    ctx_ok tinv pinv x' \<and> server_ok env x' \<and>
    tbl env x' = (tbl env x)(c := if state (st fi) = S_Terminate then None else Some (st fi)) \<and>
    c_world x' = world fi \<and>
    packets x' = (packets x)[unat cur := (fst (packets x ! unat cur), sendPkt fi)]"
proof -
  let ?p = "fst (packets x ! unat cur)" and ?fi0 = "packet_iface cur c s x"
  have cfg: "server_config (c_sm x)" and h: "holds_objects {} (tbl env x) (c_world x)"
    and hok: "heap_ok (c_world x)" using sv server_ok_heap [OF sv] by (simp_all add: server_ok_def)
  obtain v where obj: "w_heap (c_world x) (stateData s) = Some (ServerObj v)"
    and states: "state s = S_Hello \<or> state s = S_Bye"
    using sv hit unfolding server_ok_def server_conn_def by metis
  have "?p \<in> set (map fst (packets x))" using len by simp
  then obtain b where b: "w_pkts (c_world x) ?p = Some b" using sv by (auto simp: server_ok_def)
  have ex: "\<exists>fi. server_handler s ?p ?fi0 = ret fi \<and> server_outcome ?fi0 fi"
    using server_runHello_outcome [of ?fi0 ?p b v] server_runBye_outcome [of ?fi0 ?p b v] b hok obj
    by (simp add: server_handler_def)
  then obtain fi where run: "server_handler s ?p ?fi0 = ret fi" and out: "server_outcome ?fi0 fi" by blast
  have look: "lookupFun (c_sm x) (state s) = ret (server_handler s)"
    using states server_lookup [OF cfg] by (auto simp: server_handler_def S_Hello_def S_Bye_def)
  have fin: "endStateID (c_sm x) = S_Terminate" using cfg by (simp add: server_config_def)
  have imm: "\<not> immediateTransition fi" and same: "pktsBA fi = c_batch x"
    using out by (simp_all add: server_outcome_def)
  obtain x' where r: "runPkt env cur x = ret x'"
    and t: "tbl env x' = (tbl env x)(c := if state (st fi) = S_Terminate then None else Some (st fi))"
    and w: "c_world x' = world fi" and pools: "c_pools x' = c_pools x"
    and pk: "packets x' = (packets x)[unat cur := (?p, sendPkt fi)]"
    and keep: "ctx_ok tinv pinv x'" "same_config (c_sm x) (c_sm x')"
    using runPkt_plain [OF m ok len c hit look run imm] same fin by (auto simp: packets_def)
  have os: "object_step S_Terminate ?fi0 fi"
    using server_outcome_step [OF out] tracked_below [OF h hit] obj by simp
  have "server_config (c_sm x')" using cfg keep(2) by (simp add: server_config_def same_config_def)
  moreover have "holds_objects {} (tbl env x') (c_world x')" using holds_step [of "{}" "tbl env x" ?fi0 c s, OF _ hit _ os] h by (simp add: t w)
  moreover have "my_pool env x' = Map.empty"
    using sv pools keep(2) by (simp add: server_ok_def my_pool_def pool_at_def same_config_def)
  moreover have "\<forall>d s. tbl env x' d = Some s \<longrightarrow> server_conn (w_heap (c_world x')) s"
    unfolding t w
  proof (rule server_conns_upd)
    show "\<forall>d s. tbl env x d = Some s \<longrightarrow> server_conn (w_heap (c_world x)) s" using sv by (simp add: server_ok_def)
    show "w_heap (world fi) (stateData b) = w_heap (c_world x) (stateData b)" if "d \<noteq> c" "tbl env x d = Some b" for d b
      using object_step_other [OF os, of "stateData b"] tracked_below [OF h that(2)]
        tracks_other [of "{}" "tbl env x" "w_heap (c_world x)" c s d b] h hit that by (simp add: holds_objects_def)
  qed (use out in \<open>auto simp: server_conn_def server_outcome_def split: if_splits\<close>)
  moreover have "\<forall>q \<in> set (map fst (packets x')). w_pkts (c_world x') q \<noteq> None"
  proof -
    have "map fst (packets x') = map fst (packets x)" using len by (simp add: pk map_update list_update_same_conv)
    moreover have "dom (w_pkts (c_world x')) = dom (w_pkts (c_world x))"
      using out w by (simp add: server_outcome_def)
    ultimately show ?thesis using sv unfolding server_ok_def by (simp only: domIff [symmetric] not_not) blast
  qed
  ultimately have "server_ok env x'" unfolding server_ok_def by blast
  then show ?thesis using run out r keep(1) t w pk by blast
qed

text \<open>A packet of a new connection is treated like one of the connection just accepted.\<close>

lemma runPkt_accepted:
  assumes m: "machine_maps env tinv pinv key_ok" and env: "env = hb3_env d n clk"
    and ok: "ctx_ok tinv pinv x" and len: "unat cur < length (packets x)"
    and c: "ident env (c_world x) (fst (packets x ! unat cur)) = Some c"
    and f: "findState env c x = ret (Some s, x1)" and ok1: "ctx_ok tinv pinv x1"
    and same: "c_batch x1 = c_batch x" "w_pkts (c_world x1) = w_pkts (c_world x)" and hit: "tbl env x1 c = Some s"
  shows "runPkt env cur x = runPkt env cur x1 \<and>
    ident env (c_world x1) (fst (packets x1 ! unat cur)) = Some c \<and> packets x1 = packets x"
proof -
  have pk: "packets x1 = packets x" using same by (simp add: packets_def)
  have id1: "ident env (c_world x1) (fst (packets x1 ! unat cur)) = Some c"
    using c same pk by (simp add: env hb3_env_def)
  have "runPkt env cur x = run_found env cur (fst (packets x ! unat cur)) c s x1"
    using runPkt_eq [of env cur x] machine_maps.ba_get_packets [OF m ok len] c f by simp
  moreover have "runPkt env cur x1 = run_found env cur (fst (packets x ! unat cur)) c s x1"
    using runPkt_eq [of env cur x1] machine_maps.ba_get_packets [OF m ok1] len id1 pk
      machine_maps.findState_hit [OF m hit] by simp
  ultimately show ?thesis using id1 pk by simp
qed

text \<open>
  No packet can crash a HelloBye3 server or make it leak.  Whatever bytes a packet holds
  (as long as its identifier is not one of the two reserved keys), \<open>runPkt\<close> returns, and
  afterwards every tracked connection again has a live object of its own and no other object is
  left on the heap: no handler uses a deleted object, deletes one twice or forgets one.
\<close>

theorem server_never_fails:
  assumes "machine_maps env tinv pinv key_ok" and "env = hb3_env d n clk"
    and "ctx_ok tinv pinv x" and "server_ok env x" and "unat cur < length (packets x)"
    and "\<And>c. ident env (c_world x) (fst (packets x ! unat cur)) = Some c \<Longrightarrow> key_ok c"
  shows "\<exists>x'. runPkt env cur x = ret x' \<and> ctx_ok tinv pinv x' \<and> server_ok env x'"
proof (cases "ident env (c_world x) (fst (packets x ! unat cur))")
  case None
  have "runPkt env cur x = run_dropped cur x"
    using runPkt_eq [of env cur x] machine_maps.ba_get_packets [OF assms(1,3,5)] None by simp
  then obtain ba where r: "runPkt env cur x = ret (x\<lparr>c_batch := ba\<rparr>)" "ctx_ok tinv pinv (x\<lparr>c_batch := ba\<rparr>)"
    and ba: "ba_list ba = marks_dropped (unat cur) (packets x)"
    using machine_maps.run_dropped_effect [OF assms(1,3,5)] by auto
  have "map fst (ba_list ba) = map fst (packets x)"
    using assms(5) by (simp add: ba marks_dropped_def map_update list_update_same_conv)
  then have "set (map fst (ba_list ba)) = set (map fst (packets x))" by (rule arg_cong)
  then have "server_ok env (x\<lparr>c_batch := ba\<rparr>)"
    using assms(4) unfolding server_ok_def tbl_def my_pool_def pool_at_def by (simp add: packets_def)
  with r show ?thesis by blast
next
  case (Some c)
  show ?thesis
  proof (cases "tbl env x c")
    case (Some s)
    then show ?thesis
      using server_known [OF assms(1,3,4,5) \<open>ident env _ _ = Some c\<close>] by blast
  next
    case None
    obtain x1 s1 where f: "findState env c x = ret (Some s1, x1)" and ok1: "ctx_ok tinv pinv x1" "server_ok env x1"
      and t1: "tbl env x1 c = Some s1" and same: "c_batch x1 = c_batch x" "w_pkts (c_world x1) = w_pkts (c_world x)"
      using server_accept [OF assms(1,3,4) assms(6) [OF Some] None] by force
    note a = runPkt_accepted [OF assms(1,2,3,5) Some f ok1(1) same t1]
    have len1: "unat cur < length (packets x1)" using a assms(5) by simp
    have id1: "ident env (c_world x1) (fst (packets x1 ! unat cur)) = Some c" using a by blast
    show ?thesis using server_known [OF assms(1) ok1 len1 id1 t1] a by metis
  qed
qed

section \<open>A server of the examples\<close>

definition hb_ex_env :: "((u64 \<times> State) list, (u64 \<times> State) list) hb_env" where
  "hb_ex_env = hb3_env alist_ops alist_ops (\<lambda>w. (0, w))"

definition hb_reserved :: "u64 \<Rightarrow> bool" where
  "hb_reserved k \<longleftrightarrow> k \<noteq> hb3_getDelKey \<and> k \<noteq> hb3_getEmptyKey"

lemma hb_ex_maps: "machine_maps hb_ex_env (alist_inv hb_reserved) (alist_inv (\<lambda>_. True)) hb_reserved"
proof (rule machine_maps.intro)
  show "hash_map (dense hb_ex_env) (alist_inv hb_reserved) hb_reserved"
    using alist.hash_map_axioms by (simp add: hb_ex_env_def hb3_env_def)
  show "hash_map (poolOps hb_ex_env) (alist_inv (\<lambda>_. True)) (\<lambda>_. True)"
    using alist.hash_map_axioms by (simp add: hb_ex_env_def hb3_env_def)
qed (auto simp: hb_ex_env_def hb3_env_def)

text \<open>A UDP packet from a client: connection 5, the given message type and cookie 9.\<close>

definition hb_ex_mem :: "u8 \<Rightarrow> mem" where
  "hb_ex_mem t = (\<lambda>_. 0)(12 := 8, 14 := 0x45, 23 := 17, 42 := 5, 51 := t, 52 := 9)"

definition hb_ex_world :: "u8 \<Rightarrow> hb_obj hworld" where
  "hb_ex_world t = \<lparr>w_pkts = [1 \<mapsto> \<lparr>m_data = hb_ex_mem t, m_dataLen = 100, m_bufLen = 2048\<rparr>],
     w_heap = Map.empty, w_next = 1, w_rand = (\<lambda>_. 300), w_rnd = 0\<rparr>"

definition hb_ex_ctx :: "u8 \<Rightarrow> ((u64 \<times> State) list, (u64 \<times> State) list) hb_ctx" where
  "hb_ex_ctx t = \<lparr>c_sm = HelloBye3_Server_init hb_ex_env, c_pools = (\<lambda>_. []),
     c_batch = \<lparr>pkts = [Some 1], sendMask = [True], numBufs = 1, numSlots = 1, fromLua = True\<rparr>,
     c_world = hb_ex_world t\<rparr>"

lemma hb_ex_packets [simp]: "packets (hb_ex_ctx t) = [(1, True)]"
  by (simp add: packets_def hb_ex_ctx_def ba_list_def)

lemma server_init_table:
  "stateTable (HelloBye3_Server_init env) = hm_empty (dense env)"
  "timeoutsQ (smi (HelloBye3_Server_init env)) = []" "connPool (HelloBye3_Server_init env) = 0"
  by (simp_all add: HelloBye3_Server_init_def registerFunction_def registerEndStateID_def
      registerStartStateID_def new_StateMachine_def Let_def)

lemma hb_ex_ctx_ok: "ctx_ok (alist_inv hb_reserved) (alist_inv (\<lambda>_. True)) (hb_ex_ctx t)"
  using server_init_config [of hb_ex_env] hb3_s_hello.well_behaved hb3_s_bye.well_behaved
  by (auto simp: ctx_ok_def hb_ex_ctx_def server_init_table ba_wf_def pq_inv_def server_config_def
      hb_ex_env_def hb3_env_def alist_ops_def alist_inv_def)

lemma hb_ex_tbl [simp]: "tbl hb_ex_env (hb_ex_ctx t) = Map.empty" "my_pool hb_ex_env (hb_ex_ctx t) = Map.empty"
  by (simp_all add: view_defs hb_ex_ctx_def server_init_table)
    (simp_all add: hb_ex_env_def hb3_env_def alist_ops_def)

lemma hb_ex_server_ok: "server_ok hb_ex_env (hb_ex_ctx t)"
  using server_init_config [of hb_ex_env]
  by (simp add: server_ok_def) (simp add: hb_ex_ctx_def hb_ex_world_def heap_ok_def holds_objects_def tracks_def own_objects_def)

lemma hb_ex_identify: "hb3_identify (hb_ex_mem t) = Some 5"
  by (simp add: hb3_identify_def hb_ex_mem_def Let_def eth_getEthertype_def ntohs_def load16_def
      ETHERTYPE_IPv4_def ip_proto_def eth_getPayload_def PROTO_UDP_def hdr_offsets ip_getPayload_def
      ip_ihl_def msg_ident_def load64_def load32_def) (simp add: word_cat_eq)

lemma hb_ex_ident: "ident hb_ex_env (c_world (hb_ex_ctx t)) (fst (packets (hb_ex_ctx t) ! 0)) = Some 5"
  by (simp add: hb_ex_env_def hb3_env_def) (simp add: hb_ex_ctx_def hb_ex_world_def hb_ex_identify)

lemma hb_ex_key: "hb_reserved 5"
  by (simp add: hb_reserved_def hb3_getDelKey_def hb3_getEmptyKey_def)

theorem server_never_fails_witness:
  "\<exists>x'. runPkt hb_ex_env 0 (hb_ex_ctx 1) = ret x' \<and> server_ok hb_ex_env x'"
  using server_never_fails [OF hb_ex_maps hb_ex_env_def hb_ex_ctx_ok hb_ex_server_ok, of 0 1] hb_ex_ident [of 1] hb_ex_key
  by (simp del: hb_ex_packets) auto

section \<open>Replies\<close>

text \<open>
  Where the message of a packet starts, and when \<open>m'\<close> is a reply to \<open>m\<close> with a given role, type
  and cookie: same connection, addresses and ports exchanged.
\<close>

definition msg_at :: "mem \<Rightarrow> nat" where
  "msg_at m = udp_getPayload (ip_getPayload 14 m)"

definition is_reply :: "mem \<Rightarrow> mem \<Rightarrow> u8 \<Rightarrow> u8 \<Rightarrow> u8 \<Rightarrow> bool" where
  "is_reply m m' role typ ck \<longleftrightarrow>
     msg_at m' = msg_at m \<and> msg_role (msg_at m) m' = role \<and> msg_msg (msg_at m) m' = typ \<and>
     msg_cookie (msg_at m) m' = ck \<and> hb3_identify m' = hb3_identify m \<and>
     ip_srcIP 14 m' = ip_dstIP 14 m \<and> ip_dstIP 14 m' = ip_srcIP 14 m \<and>
     udp_srcPort (ip_getPayload 14 m) m' = udp_dstPort (ip_getPayload 14 m) m \<and>
     udp_dstPort (ip_getPayload 14 m) m' = udp_srcPort (ip_getPayload 14 m) m"

lemma reply_of_message:
  assumes ihl: "5 \<le> unat (ip_ihl 14 m)"
    and low: "\<And>i. i < msg_at m + 8 \<Longrightarrow> m1 i = m i"
    and "m1 (msg_at m + 8) = role" and "m1 (msg_at m + 9) = typ" and "m1 (msg_at m + 10) = ck"
  shows "is_reply m (hb_turn_around 14 (ip_getPayload 14 m) m1) role typ ck"
proof -
  let ?u = "ip_getPayload 14 m"
  have u: "34 \<le> ?u" using ihl by (simp add: ip_getPayload_def)
  have a: "msg_at m = ?u + 8" by (simp add: msg_at_def udp_getPayload_def sizeof_Udp_def)
  define m' where "m' = hb_turn_around 14 ?u m1"
  note t = hb_turn_around_fields [OF u m'_def]
  have m1: "load16 m1 i = load16 m i" "load32 m1 i = load32 m i" if "i + 8 \<le> ?u + 16" for i
    using that a by (auto intro!: load_cong low)
  have ihl': "ip_ihl 14 m' = ip_ihl 14 m" using t(6) [of 14] low [of 14] u a by (simp add: ip_ihl_def)
  then have pay: "ip_getPayload 14 m' = ?u" by (simp add: ip_getPayload_def)
  have at: "msg_at m' = msg_at m" by (simp add: msg_at_def pay)
  have idn: "load64 m' (?u + 8) = load64 m (?u + 8)"
    using t(5) low a by (intro load_cong) simp
  have eth: "load16 m' 12 = load16 m 12" using t(6) low u a by (intro load_cong) simp
  have "m' 23 = m 23" using t(7) low [of 23] u a by simp
  then have "hb3_identify m' = hb3_identify m"
    using eth pay idn
    by (simp add: hb3_identify_def Let_def eth_getEthertype_def eth_getPayload_def sizeof_Ethernet_def
        ip_proto_def msg_ident_def udp_getPayload_def sizeof_Udp_def)
  moreover have "m' (msg_at m + 8) = role" "m' (msg_at m + 9) = typ" "m' (msg_at m + 10) = ck"
    using t(5) a assms(3-5) by simp_all
  ultimately show ?thesis
    using t(1-4) m1 at u a unfolding m'_def [symmetric]
    by (simp add: is_reply_def msg_defs ip_srcIP_def ip_dstIP_def udp_srcPort_def udp_dstPort_def)
qed

lemma server_runHello_reply:
  assumes "w_pkts (world fi) pkt = Some b" and "5 \<le> unat (ip_ihl 14 (m_data b))"
    and "w_heap (world fi) (stateData (st fi)) = Some (ServerObj v)"
    and "msg_role (msg_at (m_data b)) (m_data b) = ROLE_CLIENT"
    and "msg_msg (msg_at (m_data b)) (m_data b) = MSG_HELLO"
  shows "\<exists>m'. hb3_server_runHello pkt fi = ret (transition S_Bye (fi\<lparr>world :=
      (heap_put (stateData (st fi)) (ServerObj (v\<lparr>s_clientCookie := ucast (msg_cookie (msg_at (m_data b)) (m_data b))\<rparr>)) (world fi))
        \<lparr>w_pkts := (w_pkts (world fi))(pkt \<mapsto> b\<lparr>m_data := m'\<rparr>)\<rparr>\<rparr>)) \<and>
    is_reply (m_data b) m' ROLE_SERVER MSG_HELLO (ucast (s_serverCookie v))"
proof -
  let ?m = "m_data b" and ?a = "msg_at (m_data b)"
  let ?m1 = "set_cookie ?a (ucast (s_serverCookie v)) (set_msg ?a MSG_HELLO (set_role ?a ROLE_SERVER ?m))"
  let ?m' = "hb_turn_around 14 (ip_getPayload 14 ?m) ?m1"
  have "is_reply ?m ?m' ROLE_SERVER MSG_HELLO (ucast (s_serverCookie v))"
    by (rule reply_of_message [OF assms(2)]) (simp_all add: msg_defs store8_apply)
  then show ?thesis
    using assms
    by (intro exI [of _ ?m'])
      (simp add: hb3_server_runHello_def Let_def getData_def get_server_def heap_get_def writeData_def
        heap_put_def eth_getPayload_def sizeof_Ethernet_def msg_at_def ROLE_CLIENT_def MSG_HELLO_def)
qed

lemma server_runBye_reply:
  assumes "w_pkts (world fi) pkt = Some b" and "5 \<le> unat (ip_ihl 14 (m_data b))"
    and "w_heap (world fi) (stateData (st fi)) = Some (ServerObj v)" and "stateData (st fi) \<noteq> 0"
    and "msg_role (msg_at (m_data b)) (m_data b) = ROLE_CLIENT"
    and "msg_msg (msg_at (m_data b)) (m_data b) = MSG_BYE"
    and "ucast (msg_cookie (msg_at (m_data b)) (m_data b)) = s_serverCookie v"
  shows "\<exists>m'. hb3_server_runBye pkt fi = ret (transition S_Terminate (fi\<lparr>world :=
      (world fi)\<lparr>w_heap := (w_heap (world fi))(stateData (st fi) := None),
        w_pkts := (w_pkts (world fi))(pkt \<mapsto> b\<lparr>m_data := m'\<rparr>)\<rparr>\<rparr>)) \<and>
    is_reply (m_data b) m' ROLE_SERVER MSG_BYE (ucast (s_clientCookie v))"
proof -
  let ?m = "m_data b" and ?a = "msg_at (m_data b)"
  let ?m1 = "set_msg ?a MSG_BYE (set_role ?a ROLE_SERVER (set_cookie ?a (ucast (s_clientCookie v)) ?m))"
  let ?m' = "hb_turn_around 14 (ip_getPayload 14 ?m) ?m1"
  have "is_reply ?m ?m' ROLE_SERVER MSG_BYE (ucast (s_clientCookie v))"
    by (rule reply_of_message [OF assms(2)]) (simp_all add: msg_defs store8_apply)
  then show ?thesis
    using assms
    by (intro exI [of _ ?m'])
      (simp add: hb3_server_runBye_def Let_def getData_def get_server_def heap_get_def writeData_def
        heap_delete_def eth_getPayload_def sizeof_Ethernet_def msg_at_def ROLE_CLIENT_def MSG_BYE_def
        transition_def)
qed

lemma server_runBye_wrong_cookie:
  assumes "w_pkts (world fi) pkt = Some b" and "heap_ok (world fi)"
    and "w_heap (world fi) (stateData (st fi)) = Some (ServerObj v)"
    and "ucast (msg_cookie (msg_at (m_data b)) (m_data b)) \<noteq> s_serverCookie v"
  shows "hb3_server_runBye pkt fi = hb_terminate S_Terminate fi"
  using assms
  by (simp add: hb3_server_runBye_def Let_def getData_def get_server_def heap_get_def
      eth_getPayload_def sizeof_Ethernet_def msg_at_def)

section \<open>The server's two steps\<close>

lemma packet_iface_st: "stateData (st (packet_iface cur c s x)) = stateData s"
  by simp

text \<open>
  The client hello.  A hello from a client the server does not know yet opens the
  connection: it is tracked in state \<open>Bye\<close> with a fresh object that holds the client's cookie and
  the server's own, and the packet becomes the server's hello, with the server's cookie, and is
  sent back where it came from.
\<close>

theorem server_answers_hello:
  assumes "machine_maps env tinv pinv key_ok" and "env = hb3_env d n clk"
    and "ctx_ok tinv pinv x" and "server_ok env x" and "unat cur < length (packets x)"
    and "p = fst (packets x ! unat cur)" and "w_pkts (c_world x) p = Some b"
    and "hb3_identify (m_data b) = Some c" and "key_ok c" and "tbl env x c = None"
    and "5 \<le> unat (ip_ihl 14 (m_data b))"
    and "msg_role (msg_at (m_data b)) (m_data b) = ROLE_CLIENT"
    and "msg_msg (msg_at (m_data b)) (m_data b) = MSG_HELLO"
  shows "\<exists>x' s v m'. runPkt env cur x = ret x' \<and> server_ok env x' \<and>
    tbl env x' = (tbl env x)(c \<mapsto> s) \<and> state s = S_Bye \<and> w_heap (c_world x) (stateData s) = None \<and>
    w_heap (c_world x') = (w_heap (c_world x))(stateData s \<mapsto> ServerObj v) \<and>
    s_clientCookie v = ucast (msg_cookie (msg_at (m_data b)) (m_data b)) \<and>
    w_pkts (c_world x') = (w_pkts (c_world x))(p \<mapsto> b\<lparr>m_data := m'\<rparr>) \<and>
    is_reply (m_data b) m' ROLE_SERVER MSG_HELLO (ucast (s_serverCookie v)) \<and>
    ucast (ucast (s_serverCookie v) :: u8) = s_serverCookie v \<and>
    packets x' = (packets x)[unat cur := (p, True)]"
proof -
  have c: "ident env (c_world x) (fst (packets x ! unat cur)) = Some c"
    using assms(6-8) by (simp add: assms(2) hb3_env_def)
  obtain x1 s1 v where f: "findState env c x = ret (Some s1, x1)" and ok1: "ctx_ok tinv pinv x1" "server_ok env x1"
    and t1: "tbl env x1 = (tbl env x)(c \<mapsto> s1)" and s1: "s1 = State_of S_Hello (stateData s1)"
    and v: "w_heap (c_world x1) (stateData s1) = Some (ServerObj v)" "unat (s_serverCookie v) < 256"
    and fresh: "w_heap (c_world x) (stateData s1) = None"
    and h1: "w_heap (c_world x1) = (w_heap (c_world x))(stateData s1 \<mapsto> ServerObj v)"
    and same: "c_batch x1 = c_batch x" "w_pkts (c_world x1) = w_pkts (c_world x)"
    using server_accept [OF assms(1,3,4,9,10)] by blast
  have hit: "tbl env x1 c = Some s1" using t1 by simp
  have a1: "runPkt env cur x = runPkt env cur x1" and pk: "packets x1 = packets x"
    and id1: "ident env (c_world x1) (fst (packets x1 ! unat cur)) = Some c"
    using runPkt_accepted [OF assms(1,2,3,5) c f ok1(1) same hit] by blast+
  have len1: "unat cur < length (packets x1)" using assms(5) pk by simp
  have st: "state s1 = S_Hello" by (subst s1) (simp add: State_of_def)
  obtain x' fi where run: "server_handler s1 p (packet_iface cur c s1 x1) = ret fi"
    and r: "runPkt env cur x1 = ret x'" and ok': "server_ok env x'"
    and t': "tbl env x' = (tbl env x1)(c := if state (st fi) = S_Terminate then None else Some (st fi))"
    and w': "c_world x' = world fi"
    and pk': "packets x' = (packets x1)[unat cur := (fst (packets x1 ! unat cur), sendPkt fi)]"
    using server_known [OF assms(1) ok1 len1 id1 hit] pk assms(6) by auto
  let ?fi0 = "packet_iface cur c s1 x1"
  obtain m' where hello: "hb3_server_runHello p ?fi0 = ret (transition S_Bye (?fi0\<lparr>world :=
      (heap_put (stateData s1) (ServerObj (v\<lparr>s_clientCookie := ucast (msg_cookie (msg_at (m_data b)) (m_data b))\<rparr>)) (c_world x1))
        \<lparr>w_pkts := (w_pkts (c_world x1))(p \<mapsto> b\<lparr>m_data := m'\<rparr>)\<rparr>\<rparr>))"
    and reply: "is_reply (m_data b) m' ROLE_SERVER MSG_HELLO (ucast (s_serverCookie v))"
    using server_runHello_reply [of ?fi0 p b v] assms(7,11,12,13) v same by auto
  have fi: "fi = transition S_Bye (?fi0\<lparr>world :=
      (heap_put (stateData s1) (ServerObj (v\<lparr>s_clientCookie := ucast (msg_cookie (msg_at (m_data b)) (m_data b))\<rparr>)) (c_world x1))
        \<lparr>w_pkts := (w_pkts (c_world x1))(p \<mapsto> b\<lparr>m_data := m'\<rparr>)\<rparr>\<rparr>)"
    using run hello st by (simp add: server_handler_def)
  have sd: "stateData (st fi) = stateData s1" "state (st fi) = S_Bye" "sendPkt fi" by (simp_all add: fi)
  have wf: "w_heap (world fi) = (w_heap (c_world x))(stateData s1 \<mapsto>
      ServerObj (v\<lparr>s_clientCookie := ucast (msg_cookie (msg_at (m_data b)) (m_data b))\<rparr>))"
    "w_pkts (world fi) = (w_pkts (c_world x))(p \<mapsto> b\<lparr>m_data := m'\<rparr>)"
    using h1 same by (simp_all add: fi heap_put_def)
  have ck: "ucast (ucast (s_serverCookie v) :: u8) = s_serverCookie v"
    using v(2) by (simp add: word_unat_eq_iff unsigned_ucast_eq unsigned_take_bit_eq take_bit_nat_eq_self)
  have ne: "S_Bye \<noteq> S_Terminate" by (simp add: S_Bye_def S_Terminate_def)
  let ?v = "v\<lparr>s_clientCookie := ucast (msg_cookie (msg_at (m_data b)) (m_data b))\<rparr>"
  have "runPkt env cur x = ret x' \<and> server_ok env x' \<and>
    tbl env x' = (tbl env x)(c \<mapsto> st fi) \<and> state (st fi) = S_Bye \<and> w_heap (c_world x) (stateData (st fi)) = None \<and>
    w_heap (c_world x') = (w_heap (c_world x))(stateData (st fi) \<mapsto> ServerObj ?v) \<and>
    s_clientCookie ?v = ucast (msg_cookie (msg_at (m_data b)) (m_data b)) \<and>
    w_pkts (c_world x') = (w_pkts (c_world x))(p \<mapsto> b\<lparr>m_data := m'\<rparr>) \<and>
    is_reply (m_data b) m' ROLE_SERVER MSG_HELLO (ucast (s_serverCookie ?v)) \<and>
    ucast (ucast (s_serverCookie ?v) :: u8) = s_serverCookie ?v \<and>
    packets x' = (packets x)[unat cur := (p, True)]"
    using a1 r ok' t' t1 sd ne fresh wf w' reply ck pk pk' assms(6) by simp
  then show ?thesis by blast
qed

theorem server_answers_hello_witness:
  "\<exists>x' s v. runPkt hb_ex_env 0 (hb_ex_ctx 0) = ret x' \<and> tbl hb_ex_env x' = [5 \<mapsto> s] \<and> state s = S_Bye \<and>
     w_heap (c_world x') = [stateData s \<mapsto> ServerObj v] \<and> s_clientCookie v = 9"
proof -
  let ?b = "\<lparr>m_data = hb_ex_mem 0, m_dataLen = 100, m_bufLen = 2048\<rparr>"
  have at: "msg_at (m_data ?b) = 42" and ihl: "5 \<le> unat (ip_ihl 14 (m_data ?b))"
    by (simp_all add: msg_at_def ip_getPayload_def ip_ihl_def hb_ex_mem_def udp_getPayload_def sizeof_Udp_def)
  have heap: "w_heap (c_world (hb_ex_ctx 0)) = Map.empty" by (simp add: hb_ex_ctx_def hb_ex_world_def)
  have msg: "msg_role 42 (m_data ?b) = ROLE_CLIENT" "msg_msg 42 (m_data ?b) = MSG_HELLO" "msg_cookie 42 (m_data ?b) = 9"
    by (simp_all add: msg_defs hb_ex_mem_def ROLE_CLIENT_def MSG_HELLO_def)
  have w: "w_pkts (c_world (hb_ex_ctx 0)) 1 = Some ?b" by (simp add: hb_ex_ctx_def hb_ex_world_def)
  obtain x' s v where "runPkt hb_ex_env 0 (hb_ex_ctx 0) = ret x'" "tbl hb_ex_env x' = [5 \<mapsto> s]" "state s = S_Bye"
    "w_heap (c_world x') = [stateData s \<mapsto> ServerObj v]" "s_clientCookie v = ucast (9 :: u8)"
    using server_answers_hello [OF hb_ex_maps hb_ex_env_def hb_ex_ctx_ok hb_ex_server_ok _ _ w _ hb_ex_key _ ihl, of 0]
      at msg heap by (auto simp: hb_ex_identify)
  then show ?thesis by (intro exI [of _ x'] exI [of _ s] exI [of _ v]) simp
qed

text \<open>
  The client bye.  A bye of a tracked connection ends it in every case: the entry leaves
  the table and its object is deleted.  With the server's cookie the packet becomes the server's
  bye, carrying the client's cookie, and is sent back; with any other cookie it is freed
  unchanged.
\<close>

theorem server_answers_bye:
  assumes "machine_maps env tinv pinv key_ok" and "env = hb3_env d n clk"
    and "ctx_ok tinv pinv x" and "server_ok env x" and "unat cur < length (packets x)"
    and "p = fst (packets x ! unat cur)" and "w_pkts (c_world x) p = Some b"
    and "hb3_identify (m_data b) = Some c" and "tbl env x c = Some s" and "state s = S_Bye"
    and "w_heap (c_world x) (stateData s) = Some (ServerObj v)"
    and "5 \<le> unat (ip_ihl 14 (m_data b))"
    and "msg_role (msg_at (m_data b)) (m_data b) = ROLE_CLIENT"
    and "msg_msg (msg_at (m_data b)) (m_data b) = MSG_BYE"
  shows "\<exists>x'. runPkt env cur x = ret x' \<and> server_ok env x' \<and> tbl env x' = (tbl env x)(c := None) \<and>
    w_heap (c_world x') = (w_heap (c_world x))(stateData s := None) \<and>
    (if ucast (msg_cookie (msg_at (m_data b)) (m_data b)) = s_serverCookie v
     then (\<exists>m'. w_pkts (c_world x') = (w_pkts (c_world x))(p \<mapsto> b\<lparr>m_data := m'\<rparr>) \<and>
            is_reply (m_data b) m' ROLE_SERVER MSG_BYE (ucast (s_clientCookie v))) \<and>
          packets x' = (packets x)[unat cur := (p, True)]
     else w_pkts (c_world x') = w_pkts (c_world x) \<and> packets x' = (packets x)[unat cur := (p, False)])"
proof -
  have c: "ident env (c_world x) (fst (packets x ! unat cur)) = Some c"
    using assms(6-8) by (simp add: assms(2) hb3_env_def)
  obtain x' fi where run: "server_handler s p (packet_iface cur c s x) = ret fi"
    and r: "runPkt env cur x = ret x'" and ok': "server_ok env x'"
    and t': "tbl env x' = (tbl env x)(c := if state (st fi) = S_Terminate then None else Some (st fi))"
    and w': "c_world x' = world fi"
    and pk': "packets x' = (packets x)[unat cur := (p, sendPkt fi)]"
    using server_known [OF assms(1,3,4,5) c assms(9)] assms(6) by auto
  let ?fi0 = "packet_iface cur c s x" and ?ck = "ucast (msg_cookie (msg_at (m_data b)) (m_data b))"
  have run': "hb3_server_runBye p ?fi0 = ret fi"
    using run assms(10) by (simp add: server_handler_def S_Bye_def S_Hello_def)
  have hok: "heap_ok (world ?fi0)" using server_ok_heap [OF assms(4)] by simp
  have nz: "stateData (st ?fi0) \<noteq> 0" using hok assms(11) by (auto simp: heap_ok_def)
  have "state (st fi) = S_Terminate \<and> w_heap (world fi) = (w_heap (c_world x))(stateData s := None) \<and>
    (if ?ck = s_serverCookie v
     then sendPkt fi \<and> (\<exists>m'. w_pkts (world fi) = (w_pkts (c_world x))(p \<mapsto> b\<lparr>m_data := m'\<rparr>) \<and>
            is_reply (m_data b) m' ROLE_SERVER MSG_BYE (ucast (s_clientCookie v)))
     else \<not> sendPkt fi \<and> w_pkts (world fi) = w_pkts (c_world x))"
  proof (cases "?ck = s_serverCookie v")
    case True
    with server_runBye_reply [of ?fi0 p b v] obtain m' where
      "fi = transition S_Terminate (?fi0\<lparr>world := (c_world x)\<lparr>w_heap := (w_heap (c_world x))(stateData s := None),
        w_pkts := (w_pkts (c_world x))(p \<mapsto> b\<lparr>m_data := m'\<rparr>)\<rparr>\<rparr>)"
      "is_reply (m_data b) m' ROLE_SERVER MSG_BYE (ucast (s_clientCookie v))"
      using run' nz assms(7,11,12,13,14) by auto
    then show ?thesis using True by auto
  next
    case False
    have "hb_terminate S_Terminate ?fi0 = ret fi"
      using server_runBye_wrong_cookie [OF _ hok, of p b v] run' False assms(7,11) by simp
    then show ?thesis
      using hb_terminate_server [OF _ hok, of "ServerObj v"] assms(11) False by (auto simp: server_outcome_def S_Bye_def S_Terminate_def)
  qed
  then show ?thesis using r ok' t' w' pk' by (cases "?ck = s_serverCookie v") auto
qed

text \<open>The server after the hello: connection 5 waits in \<open>Bye\<close> with cookies 7 and 9.\<close>

definition hb_ex_ctx2 :: "((u64 \<times> State) list, (u64 \<times> State) list) hb_ctx" where
  "hb_ex_ctx2 = (hb_ex_ctx 1)\<lparr>c_sm := (HelloBye3_Server_init hb_ex_env)\<lparr>stateTable := [(5, State_of S_Bye 1)]\<rparr>,
     c_world := (hb_ex_world 1)\<lparr>w_heap := [1 \<mapsto> ServerObj \<lparr>s_clientCookie = 7, s_serverCookie = 9\<rparr>], w_next := 2\<rparr>\<rparr>"

lemma hb_ex_tbl2: "tbl hb_ex_env hb_ex_ctx2 = [5 \<mapsto> State_of S_Bye 1]" "my_pool hb_ex_env hb_ex_ctx2 = Map.empty"
  by (simp_all add: view_defs hb_ex_ctx2_def hb_ex_ctx_def server_init_table)
    (simp_all add: hb_ex_env_def hb3_env_def alist_ops_def)

lemma hb_ex_ctx2_ok:
  "ctx_ok (alist_inv hb_reserved) (alist_inv (\<lambda>_. True)) hb_ex_ctx2 \<and> server_ok hb_ex_env hb_ex_ctx2 \<and>
   packets hb_ex_ctx2 = [(1, True)]"
proof -
  have c: "ctx_ok (alist_inv hb_reserved) (alist_inv (\<lambda>_. True)) hb_ex_ctx2"
    using hb_ex_ctx_ok [of 1] hb_ex_key
    by (auto simp: ctx_ok_def hb_ex_ctx2_def hb_ex_ctx_def alist_inv_def)
  have p: "packets hb_ex_ctx2 = [(1, True)]" by (simp add: packets_def hb_ex_ctx2_def hb_ex_ctx_def ba_list_def)
  have "server_config (c_sm hb_ex_ctx2)"
    using server_init_config [of hb_ex_env] by (simp add: hb_ex_ctx2_def server_config_def)
  then have "server_ok hb_ex_env hb_ex_ctx2"
    unfolding server_ok_def hb_ex_tbl2 p
    by (simp add: State_of_def) (auto simp: hb_ex_ctx2_def hb_ex_ctx_def hb_ex_world_def heap_ok_def holds_objects_def tracks_def own_objects_def server_conn_def)
  with c p show ?thesis by simp
qed

theorem server_answers_bye_witness:
  "\<exists>x'. runPkt hb_ex_env 0 hb_ex_ctx2 = ret x' \<and> tbl hb_ex_env x' = Map.empty \<and>
     w_heap (c_world x') = Map.empty \<and> packets x' = [(1, True)]"
proof -
  let ?b = "\<lparr>m_data = hb_ex_mem 1, m_dataLen = 100, m_bufLen = 2048\<rparr>"
  let ?v = "\<lparr>s_clientCookie = 7, s_serverCookie = 9\<rparr>" and ?s = "State_of S_Bye 1"
  have at: "msg_at (m_data ?b) = 42" and ihl: "5 \<le> unat (ip_ihl 14 (m_data ?b))"
    by (simp_all add: msg_at_def ip_getPayload_def ip_ihl_def hb_ex_mem_def udp_getPayload_def sizeof_Udp_def)
  have msg: "msg_role 42 (m_data ?b) = ROLE_CLIENT" "msg_msg 42 (m_data ?b) = MSG_BYE" "msg_cookie 42 (m_data ?b) = 9"
    by (simp_all add: msg_defs hb_ex_mem_def ROLE_CLIENT_def MSG_BYE_def)
  have w: "w_pkts (c_world hb_ex_ctx2) 1 = Some ?b" "w_heap (c_world hb_ex_ctx2) = [1 \<mapsto> ServerObj ?v]"
    by (simp_all add: hb_ex_ctx2_def hb_ex_world_def)
  have s: "state ?s = S_Bye" "stateData ?s = 1" by (simp_all add: State_of_def)
  obtain x' where "runPkt hb_ex_env 0 hb_ex_ctx2 = ret x'" "tbl hb_ex_env x' = (tbl hb_ex_env hb_ex_ctx2)(5 := None)"
    "w_heap (c_world x') = (w_heap (c_world hb_ex_ctx2))(1 := None)" "packets x' = [(1, True)]"
    using server_answers_bye [OF hb_ex_maps hb_ex_env_def conjunct1 [OF hb_ex_ctx2_ok], of 0 1 ?b 5 ?s ?v]
      hb_ex_ctx2_ok w s at ihl msg by (auto simp: hb_ex_identify hb_ex_tbl2)
  then show ?thesis by (intro exI [of _ x']) (simp add: hb_ex_tbl2 w)
qed

section \<open>The whole exchange\<close>

lemma ucast_u8_u32: "ucast (ucast x :: u32) = x" for x :: u8
  by (rule bit_word_eqI) (simp add: bit_simps)

lemma msg_at_ihl: "42 \<le> msg_at m \<longleftrightarrow> 5 \<le> unat (ip_ihl 14 m)"
  by (simp add: msg_at_def ip_getPayload_def udp_getPayload_def sizeof_Udp_def)

text \<open>The client's first packet, whatever the buffer held before.\<close>

lemma client_runHello_packet:
  assumes "w_pkts (world fi) pkt = Some b"
    and "w_heap (world fi) (stateData (st fi)) = Some (ClientObj c)"
  shows "\<exists>m'. hb3_client_runHello pkt fi = ret (transition C_Bye (fi\<lparr>world :=
      (world fi)\<lparr>w_pkts := (w_pkts (world fi))(pkt \<mapsto> b\<lparr>m_data := m'\<rparr>)\<rparr>\<rparr>)) \<and>
    msg_at m' = 42 \<and> msg_role 42 m' = ROLE_CLIENT \<and> msg_msg 42 m' = MSG_HELLO \<and>
    msg_cookie 42 m' = ucast (c_clientCookie c) \<and> hb3_identify m' = Some (c_ident c) \<and>
    ip_getSrcIP 14 m' = c_srcIp c \<and> ip_getDstIP 14 m' = c_dstIp c \<and>
    udp_getSrcPort 34 m' = c_srcPort c \<and> udp_getDstPort 34 m' = c_dstPort c"
proof -
  let ?m0 = "\<lambda>i. if i < unat (m_dataLen b) then 0 else m_data b i"
  define m1 where "m1 = ip_setIHL 14 5 (ip_setVersion 14 ?m0)"
  define m2 where "m2 = ip_setChecksum 14 0 (ip_setProtoUDP 14 (ip_setSrcIP 14 (c_srcIp c)
    (ip_setDstIP 14 (c_dstIp c) (ip_setLength 14 (100 - 14) (ip_setTTL 14 64 m1)))))"
  define m' where "m' = udp_setPayloadLength 34 50 (udp_setSrcPort 34 (c_srcPort c) (udp_setDstPort 34 (c_dstPort c)
    (udp_setChecksum 34 0 (eth_setEthertype 0 0x0800 (set_msg 42 MSG_HELLO
    (set_cookie 42 (ucast (c_clientCookie c)) (set_role 42 ROLE_CLIENT (set_ident 42 (c_ident c) m2))))))))"
  have i1: "m1 14 AND 15 = 5"
    using ihl_setIHL [of 14 5 "ip_setVersion 14 ?m0"] by (simp add: m1_def ip_ihl_def)
  have i2: "m2 14 = m1 14" by (simp add: m2_def ip_defs mem_simps)
  have i3: "m' 14 = m1 14"
    by (simp add: m'_def i2 udp_defs msg_defs eth_setEthertype_def mem_simps)
  have pay2: "ip_getPayload 14 m2 = 34" using i1 by (simp add: ip_getPayload_def ip_ihl_def i2)
  have pay: "ip_getPayload 14 m' = 34" using i1 by (simp add: ip_getPayload_def ip_ihl_def i3)
  have at: "msg_at m' = 42" by (simp add: msg_at_def pay udp_getPayload_def sizeof_Udp_def)
  have fields: "msg_role 42 m' = ROLE_CLIENT" "msg_msg 42 m' = MSG_HELLO"
    "msg_cookie 42 m' = ucast (c_clientCookie c)" "load64 m' 42 = c_ident c"
    by (simp_all add: m'_def udp_defs msg_defs eth_setEthertype_def mem_simps)
  have "load16 m' 12 = htons 0x0800" by (simp add: m'_def udp_defs msg_defs eth_setEthertype_def mem_simps)
  moreover have "m' 23 = 17"
    by (simp add: m'_def m2_def udp_defs msg_defs eth_setEthertype_def ip_defs PROTO_UDP_def mem_simps)
  ultimately have "hb3_identify m' = Some (c_ident c)"
    using fields pay
    by (simp add: hb3_identify_def Let_def eth_getEthertype_def eth_getPayload_def sizeof_Ethernet_def
        ip_proto_def PROTO_UDP_def ETHERTYPE_IPv4_def msg_ident_def udp_getPayload_def sizeof_Udp_def)
  moreover have "ip_getSrcIP 14 m' = c_srcIp c" "ip_getDstIP 14 m' = c_dstIp c"
    by (simp_all add: m'_def m2_def udp_defs msg_defs eth_setEthertype_def ip_defs mem_simps)
  moreover have "udp_getSrcPort 34 m' = c_srcPort c" "udp_getDstPort 34 m' = c_dstPort c"
    by (simp_all add: m'_def udp_defs mem_simps)
  moreover have "hb3_client_runHello pkt fi = ret (transition C_Bye (fi\<lparr>world :=
      (world fi)\<lparr>w_pkts := (w_pkts (world fi))(pkt \<mapsto> b\<lparr>m_data := m'\<rparr>)\<rparr>\<rparr>))"
    using assms pay2 unfolding m'_def m2_def m1_def
    by (simp add: hb3_client_runHello_def Let_def getData_def getDataLen_def get_client_def heap_get_def
        writeData_def eth_getPayload_def sizeof_Ethernet_def udp_getPayload_def sizeof_Udp_def)
  ultimately show ?thesis using at fields by (intro exI [of _ m']) simp
qed

lemma client_runBye_reply:
  assumes "w_pkts (world fi) pkt = Some b" and "5 \<le> unat (ip_ihl 14 (m_data b))"
    and "w_heap (world fi) (stateData (st fi)) = Some (ClientObj c)"
    and "msg_role (msg_at (m_data b)) (m_data b) = ROLE_SERVER"
    and "msg_msg (msg_at (m_data b)) (m_data b) = MSG_HELLO"
  shows "\<exists>m'. hb3_client_runBye pkt fi = ret (transition C_RecvBye (fi\<lparr>world :=
      (heap_put (stateData (st fi)) (ClientObj (c\<lparr>c_serverCookie := ucast (msg_cookie (msg_at (m_data b)) (m_data b))\<rparr>)) (world fi))
        \<lparr>w_pkts := (w_pkts (world fi))(pkt \<mapsto> b\<lparr>m_data := m'\<rparr>)\<rparr>\<rparr>)) \<and>
    is_reply (m_data b) m' ROLE_CLIENT MSG_BYE (msg_cookie (msg_at (m_data b)) (m_data b))"
proof -
  let ?m = "m_data b" and ?a = "msg_at (m_data b)"
  let ?ck = "ucast (ucast (msg_cookie ?a ?m) :: u32) :: u8"
  have ck: "?ck = msg_cookie ?a ?m" by (rule ucast_u8_u32)
  let ?m1 = "set_msg ?a MSG_BYE (set_role ?a ROLE_CLIENT (set_cookie ?a ?ck ?m))"
  let ?m' = "hb_turn_around 14 (ip_getPayload 14 ?m) ?m1"
  have "is_reply ?m ?m' ROLE_CLIENT MSG_BYE (msg_cookie ?a ?m)"
    by (rule reply_of_message [OF assms(2)]) (simp_all add: msg_defs store8_apply ucast_u8_u32)
  then show ?thesis
    using assms
    by (intro exI [of _ ?m'])
      (simp add: hb3_client_runBye_def Let_def getData_def get_client_def heap_get_def writeData_def
        heap_put_def eth_getPayload_def sizeof_Ethernet_def msg_at_def [symmetric])
qed

lemma client_runRecvBye_done:
  assumes "w_pkts (world fi) pkt = Some b" and "heap_ok (world fi)"
    and "w_heap (world fi) (stateData (st fi)) = Some (ClientObj c)"
  shows "\<exists>fi'. hb3_client_runRecvBye pkt fi = ret fi' \<and> state (st fi') = C_Terminate \<and> \<not> sendPkt fi' \<and>
    w_heap (world fi') = (w_heap (world fi))(stateData (st fi) := None) \<and> w_pkts (world fi') = w_pkts (world fi)"
  using heap_delete_ret [OF assms(3,2)] assms
  by (simp add: hb3_client_runRecvBye_def hb_terminate_def Let_def getData_def get_client_def heap_get_def)

text \<open>
  The exchange of one client and one server over one buffer: every packet a side sends is the
  next one the other side receives.  The result is the final state of both connections.
\<close>

definition hb3_exchange ::
  "u32 \<Rightarrow> u32 \<Rightarrow> u16 \<Rightarrow> u16 \<Rightarrow> u64 \<Rightarrow> ptr \<Rightarrow> hb_fi \<Rightarrow> (State \<times> State \<times> hb_fi) res" where
  "hb3_exchange srcIp dstIp srcPort dstPort idn pkt fi =
    (let (cs, w) = hb3_createHello srcIp dstIp srcPort dstPort idn (world fi) in
     rbind (hb3_client_runHello pkt (fi\<lparr>st := cs, world := w\<rparr>)) (\<lambda>fi1.
     rbind (hb3_factory idn (world fi1)) (\<lambda>(sp, w).
     rbind (hb3_server_runHello pkt (fi1\<lparr>st := State_of S_Hello sp, world := w\<rparr>)) (\<lambda>fi2.
     rbind (hb3_client_runBye pkt (fi2\<lparr>st := st fi1\<rparr>)) (\<lambda>fi3.
     rbind (hb3_server_runBye pkt (fi3\<lparr>st := st fi2\<rparr>)) (\<lambda>fi4.
     rbind (hb3_client_runRecvBye pkt (fi4\<lparr>st := st fi3\<rparr>)) (\<lambda>fi5.
     ret (st fi5, st fi4, fi5))))))))"

lemma cookie_byte:
  fixes r :: u32
  shows "ucast (ucast (r mod 256) :: u8) = r mod 256"
proof -
  have "unat (r mod 256) < 256"
    using word_mod_less_divisor [of 256 r] by (simp add: word_less_nat_alt)
  then show ?thesis
    by (simp add: word_unat_eq_iff unsigned_ucast_eq unsigned_take_bit_eq take_bit_nat_eq_self)
qed

lemma is_reply_ihl: "is_reply m m' r t c \<Longrightarrow> 5 \<le> unat (ip_ihl 14 m) \<Longrightarrow> 5 \<le> unat (ip_ihl 14 m')"
  using msg_at_ihl [of m] msg_at_ihl [of m'] by (simp add: is_reply_def)

text \<open>What a packet of the exchange says.\<close>

definition says :: "u64 \<Rightarrow> u8 \<Rightarrow> u8 \<Rightarrow> u8 \<Rightarrow> mem \<Rightarrow> bool" where
  "says idn r t ck m \<longleftrightarrow> msg_at m = 42 \<and> msg_role 42 m = r \<and> msg_msg 42 m = t \<and> msg_cookie 42 m = ck \<and>
     hb3_identify m = Some idn"

lemma says_ihl: "says idn r t ck m \<Longrightarrow> 5 \<le> unat (ip_ihl 14 m)"
  using msg_at_ihl [of m] by (simp add: says_def)

lemma says_reply: "is_reply m m' r' t' ck' \<Longrightarrow> says idn r t ck m \<Longrightarrow> says idn r' t' ck' m'"
  by (simp add: is_reply_def says_def)

lemma State_of_next [simp]: "stateData (State_of a q) = q" "(State_of a q)\<lparr>state := a'\<rparr> = State_of a' q"
  "state (State_of a q) = a"
  by (simp_all add: State_of_def)

text \<open>The exchange in three parts: both sides get their objects, they greet each other, they say goodbye.\<close>

lemma exchange_opens:
  assumes ok: "heap_ok (world fi)" and b: "w_pkts (world fi) pkt = Some b"
    and p: "p = w_next (world fi)" and r: "r = fst (rand (world fi)) mod 256"
  shows "\<exists>c v m w fi1 w'. hb3_createHello srcIp dstIp srcPort dstPort idn (world fi) = (State_of C_Hello p, w) \<and>
    hb3_client_runHello pkt (fi\<lparr>st := State_of C_Hello p, world := w\<rparr>) = ret fi1 \<and> st fi1 = State_of C_Bye p \<and>
    hb3_factory idn (world fi1) = ret (p + 1, w') \<and> says idn ROLE_CLIENT MSG_HELLO (ucast r) m \<and>
    c_clientCookie c = r \<and> ucast (ucast (s_serverCookie v) :: u8) = s_serverCookie v \<and>
    w_heap w' = (w_heap (world fi))(p \<mapsto> ClientObj c, p + 1 \<mapsto> ServerObj v) \<and> w_next w' = p + 2 \<and>
    w_pkts w' = (w_pkts (world fi))(pkt \<mapsto> b\<lparr>m_data := m\<rparr>)"
proof -
  let ?w0 = "world fi"
  define c where "c = \<lparr>c_ident = idn, c_srcIp = srcIp, c_dstIp = dstIp, c_clientCookie = r,
     c_serverCookie = 0, c_srcPort = srcPort, c_dstPort = dstPort\<rparr>"
  define w where "w = (snd (rand ?w0))\<lparr>w_heap := (w_heap ?w0)(p \<mapsto> ClientObj c), w_next := p + 1\<rparr>"
  have create: "hb3_createHello srcIp dstIp srcPort dstPort idn ?w0 = (State_of C_Hello p, w)"
    by (simp add: hb3_createHello_def split_beta heap_new_def w_def p c_def r rand_def)
  have w: "w_heap w = (w_heap ?w0)(p \<mapsto> ClientObj c)" "w_next w = p + 1" "w_pkts w = w_pkts ?w0"
    by (simp_all add: w_def rand_def)
  let ?i0 = "fi\<lparr>st := State_of C_Hello p, world := w\<rparr>"
  obtain m where run: "hb3_client_runHello pkt ?i0 = ret (transition C_Bye (?i0\<lparr>world :=
      w\<lparr>w_pkts := (w_pkts w)(pkt \<mapsto> b\<lparr>m_data := m\<rparr>)\<rparr>\<rparr>))"
    and m: "says idn ROLE_CLIENT MSG_HELLO (ucast r) m"
    using client_runHello_packet [of ?i0 pkt b c] b w by (auto simp: c_def says_def)
  define wa where "wa = w\<lparr>w_pkts := (w_pkts w)(pkt \<mapsto> b\<lparr>m_data := m\<rparr>)\<rparr>"
  define v where "v = \<lparr>s_clientCookie = 0, s_serverCookie = fst (rand wa) mod 256\<rparr>"
  define w' where "w' = (snd (rand wa))\<lparr>w_heap := (w_heap w)(p + 1 \<mapsto> ServerObj v), w_next := p + 2\<rparr>"
  have "hb3_factory idn wa = ret (p + 1, w')"
    by (simp add: hb3_factory_def split_beta heap_new_def w'_def v_def rand_def wa_def w)
  moreover have "w_heap w' = (w_heap ?w0)(p \<mapsto> ClientObj c, p + 1 \<mapsto> ServerObj v)" "w_next w' = p + 2"
    "w_pkts w' = (w_pkts ?w0)(pkt \<mapsto> b\<lparr>m_data := m\<rparr>)"
    by (simp_all add: w'_def rand_def wa_def w)
  ultimately show ?thesis
    using create run m by (intro exI [of _ c] exI [of _ v] exI [of _ m] exI [of _ w] exI [of _ "transition C_Bye (?i0\<lparr>world := wa\<rparr>)"] exI [of _ w'])
      (simp add: wa_def [symmetric] c_def v_def cookie_byte)
qed

lemma exchange_greets:
  assumes h: "w_heap (world fi) = H(p \<mapsto> ClientObj c, q \<mapsto> ServerObj v)" "p \<noteq> q"
    and b: "w_pkts (world fi) pkt = Some b" and m: "says idn ROLE_CLIENT MSG_HELLO k (m_data b)"
  shows "\<exists>m' fi2 fi3. hb3_server_runHello pkt (fi\<lparr>st := State_of S_Hello q\<rparr>) = ret fi2 \<and> st fi2 = State_of S_Bye q \<and>
    hb3_client_runBye pkt (fi2\<lparr>st := State_of C_Bye p\<rparr>) = ret fi3 \<and> st fi3 = State_of C_RecvBye p \<and>
    says idn ROLE_CLIENT MSG_BYE (ucast (s_serverCookie v)) m' \<and>
    w_heap (world fi3) = H(p \<mapsto> ClientObj (c\<lparr>c_serverCookie := ucast (ucast (s_serverCookie v) :: u8)\<rparr>),
      q \<mapsto> ServerObj (v\<lparr>s_clientCookie := ucast k\<rparr>)) \<and> w_next (world fi3) = w_next (world fi) \<and>
    w_pkts (world fi3) = (w_pkts (world fi))(pkt \<mapsto> b\<lparr>m_data := m'\<rparr>)"
proof -
  let ?i1 = "fi\<lparr>st := State_of S_Hello q\<rparr>" and ?v = "v\<lparr>s_clientCookie := ucast k\<rparr>"
  have at: "msg_at (m_data b) = 42" "msg_role 42 (m_data b) = ROLE_CLIENT" "msg_msg 42 (m_data b) = MSG_HELLO"
    "msg_cookie 42 (m_data b) = k" using m by (simp_all add: says_def)
  obtain m2 where run2: "hb3_server_runHello pkt ?i1 = ret (transition S_Bye (?i1\<lparr>world :=
      (heap_put q (ServerObj ?v) (world fi))\<lparr>w_pkts := (w_pkts (world fi))(pkt \<mapsto> b\<lparr>m_data := m2\<rparr>)\<rparr>\<rparr>))"
    and m2: "is_reply (m_data b) m2 ROLE_SERVER MSG_HELLO (ucast (s_serverCookie v))"
    using server_runHello_reply [of ?i1 pkt b v] h b at says_ihl [OF m] by auto
  note s2 = says_reply [OF m2 m]
  define w where "w = (heap_put q (ServerObj ?v) (world fi))\<lparr>w_pkts := (w_pkts (world fi))(pkt \<mapsto> b\<lparr>m_data := m2\<rparr>)\<rparr>"
  let ?i2 = "(transition S_Bye (?i1\<lparr>world := w\<rparr>))\<lparr>st := State_of C_Bye p\<rparr>"
  have w: "w_heap w = H(p \<mapsto> ClientObj c, q \<mapsto> ServerObj ?v)" "w_pkts w = (w_pkts (world fi))(pkt \<mapsto> b\<lparr>m_data := m2\<rparr>)"
    "w_next w = w_next (world fi)" by (simp_all add: w_def heap_put_def h)
  let ?c = "c\<lparr>c_serverCookie := ucast (ucast (s_serverCookie v) :: u8)\<rparr>"
  obtain m3 where run3: "hb3_client_runBye pkt ?i2 = ret (transition C_RecvBye (?i2\<lparr>world :=
      (heap_put p (ClientObj ?c) w)\<lparr>w_pkts := (w_pkts w)(pkt \<mapsto> b\<lparr>m_data := m3\<rparr>)\<rparr>\<rparr>))"
    and m3: "is_reply m2 m3 ROLE_CLIENT MSG_BYE (ucast (s_serverCookie v))"
    using client_runBye_reply [of ?i2 pkt "b\<lparr>m_data := m2\<rparr>" c] w h(2) s2 says_ihl [OF s2] by (auto simp: says_def)
  show ?thesis
    using run2 run3 says_reply [OF m3 s2] h(2) w unfolding w_def [symmetric]
    by (intro exI [of _ m3] exI [of _ "transition S_Bye (?i1\<lparr>world := w\<rparr>)"] exI [of _ "transition C_RecvBye (?i2\<lparr>world :=
      (heap_put p (ClientObj ?c) w)\<lparr>w_pkts := (w_pkts w)(pkt \<mapsto> b\<lparr>m_data := m3\<rparr>)\<rparr>\<rparr>)"])
      (auto simp: heap_put_def fun_eq_iff)
qed

lemma exchange_ends:
  assumes h: "w_heap (world fi) = H(p \<mapsto> ClientObj c, q \<mapsto> ServerObj v)" "0 < p" "p < q" "q < w_next (world fi)"
    and ok: "\<forall>a \<in> dom H. 0 < a \<and> a < p" and b: "w_pkts (world fi) pkt = Some b"
    and m: "says idn ROLE_CLIENT MSG_BYE k (m_data b)" "ucast k = s_serverCookie v"
  shows "\<exists>m' fi4 fi5. hb3_server_runBye pkt (fi\<lparr>st := State_of S_Bye q\<rparr>) = ret fi4 \<and> st fi4 = State_of S_Terminate q \<and>
    hb3_client_runRecvBye pkt (fi4\<lparr>st := State_of C_RecvBye p\<rparr>) = ret fi5 \<and> state (st fi5) = C_Terminate \<and>
    says idn ROLE_SERVER MSG_BYE (ucast (s_clientCookie v)) m' \<and> w_heap (world fi5) = H \<and>
    w_pkts (world fi5) = (w_pkts (world fi))(pkt \<mapsto> b\<lparr>m_data := m'\<rparr>)"
proof -
  let ?i3 = "fi\<lparr>st := State_of S_Bye q\<rparr>"
  have at: "msg_at (m_data b) = 42" "msg_role 42 (m_data b) = ROLE_CLIENT" "msg_msg 42 (m_data b) = MSG_BYE"
    "msg_cookie 42 (m_data b) = k" using m by (simp_all add: says_def)
  obtain m4 where run4: "hb3_server_runBye pkt ?i3 = ret (transition S_Terminate (?i3\<lparr>world := (world fi)
      \<lparr>w_heap := (w_heap (world fi))(q := None), w_pkts := (w_pkts (world fi))(pkt \<mapsto> b\<lparr>m_data := m4\<rparr>)\<rparr>\<rparr>))"
    and m4: "is_reply (m_data b) m4 ROLE_SERVER MSG_BYE (ucast (s_clientCookie v))"
    using server_runBye_reply [of ?i3 pkt b v] h b at says_ihl [OF m(1)] m(2) by auto
  define w where "w = (world fi)\<lparr>w_heap := (w_heap (world fi))(q := None), w_pkts := (w_pkts (world fi))(pkt \<mapsto> b\<lparr>m_data := m4\<rparr>)\<rparr>"
  let ?i4 = "(transition S_Terminate (?i3\<lparr>world := w\<rparr>))\<lparr>st := State_of C_RecvBye p\<rparr>"
  have free: "H a = None" if "p \<le> a" for a using ok that by (meson domIff leD)
  then have w: "w_heap w = H(p \<mapsto> ClientObj c)" "w_pkts w = (w_pkts (world fi))(pkt \<mapsto> b\<lparr>m_data := m4\<rparr>)"
    using h(1-3) by (auto simp: w_def fun_eq_iff)
  have "a < w_next (world fi)" if "H a = Some y" for a y using ok h(3,4) that by (meson domI order.strict_trans)
  then have "heap_ok w" using ok h(2-4) w by (auto simp: heap_ok_def w_def)
  then obtain fi5 where "hb3_client_runRecvBye pkt ?i4 = ret fi5" and "state (st fi5) = C_Terminate"
    "w_heap (world fi5) = (w_heap w)(p := None)" "w_pkts (world fi5) = w_pkts w"
    using client_runRecvBye_done [of ?i4 pkt "b\<lparr>m_data := m4\<rparr>" c] w by auto
  then show ?thesis
    using run4 says_reply [OF m4 m(1)] w free [of p] unfolding w_def [symmetric]
    by (intro exI [of _ m4] exI [of _ "transition S_Terminate (?i3\<lparr>world := w\<rparr>)"] exI [of _ fi5]) (simp add: fun_upd_idem)
qed

text \<open>
  A client and a server that talk to each other complete the exchange: from any buffer
  contents, \<open>createHello\<close>, the five handlers and the factory all return, both connections end in
  their end states, every object that was made has been deleted, and the last packet is the
  server's bye of this connection with the cookie the client chose at the start, which is what
  the client checks.
\<close>

theorem exchange_completes:
  assumes "heap_ok (world fi)" and "w_pkts (world fi) pkt = Some b"
  shows "\<exists>cs ss fi' m. hb3_exchange srcIp dstIp srcPort dstPort idn pkt fi = ret (cs, ss, fi') \<and>
    state cs = C_Terminate \<and> state ss = S_Terminate \<and> w_heap (world fi') = w_heap (world fi) \<and>
    w_pkts (world fi') pkt = Some (b\<lparr>m_data := m\<rparr>) \<and> hb3_identify m = Some idn \<and>
    msg_role (msg_at m) m = ROLE_SERVER \<and> msg_msg (msg_at m) m = MSG_BYE \<and>
    ucast (msg_cookie (msg_at m) m) = fst (rand (world fi)) mod 256"
proof -
  let ?w0 = "world fi" and ?p = "w_next (world fi)" and ?r = "fst (rand (world fi)) mod 256"
  have "\<forall>a \<in> dom (w_heap ?w0). 0 < a \<and> a < ?p" "0 < ?p" using assms(1) by (auto simp: heap_ok_def)
  note H = this
  obtain c v m1 w fi1 w' where create: "hb3_createHello srcIp dstIp srcPort dstPort idn ?w0 = (State_of C_Hello ?p, w)"
    "hb3_client_runHello pkt (fi\<lparr>st := State_of C_Hello ?p, world := w\<rparr>) = ret fi1" "st fi1 = State_of C_Bye ?p"
    "hb3_factory idn (world fi1) = ret (?p + 1, w')" and m1: "says idn ROLE_CLIENT MSG_HELLO (ucast ?r) m1"
    and v: "ucast (ucast (s_serverCookie v) :: u8) = s_serverCookie v"
    and w': "w_heap w' = (w_heap ?w0)(?p \<mapsto> ClientObj c, ?p + 1 \<mapsto> ServerObj v)" "w_next w' = ?p + 2"
      "w_pkts w' = (w_pkts ?w0)(pkt \<mapsto> b\<lparr>m_data := m1\<rparr>)"
    using exchange_opens [OF assms refl refl, of srcIp dstIp srcPort dstPort idn] by blast
  have i1: "fi1\<lparr>st := State_of S_Hello (?p + 1), world := w'\<rparr> = fi1\<lparr>world := w', st := State_of S_Hello (?p + 1)\<rparr>" by simp
  obtain m3 fi2 fi3 where greet: "hb3_server_runHello pkt (fi1\<lparr>st := State_of S_Hello (?p + 1), world := w'\<rparr>) = ret fi2"
    "st fi2 = State_of S_Bye (?p + 1)" "hb3_client_runBye pkt (fi2\<lparr>st := State_of C_Bye ?p\<rparr>) = ret fi3" "st fi3 = State_of C_RecvBye ?p"
    and m3: "says idn ROLE_CLIENT MSG_BYE (ucast (s_serverCookie v)) m3"
    and w3: "w_heap (world fi3) = (w_heap ?w0)(?p \<mapsto> ClientObj (c\<lparr>c_serverCookie := ucast (ucast (s_serverCookie v) :: u8)\<rparr>),
      ?p + 1 \<mapsto> ServerObj (v\<lparr>s_clientCookie := ucast (ucast ?r :: u8)\<rparr>))" "w_next (world fi3) = w_next w'"
      "w_pkts (world fi3) = (w_pkts w')(pkt \<mapsto> b\<lparr>m_data := m3\<rparr>)"
    using exchange_greets [of "fi1\<lparr>world := w'\<rparr>" "w_heap ?w0" ?p c "?p + 1" v pkt "b\<lparr>m_data := m1\<rparr>" idn "ucast ?r"] w' m1 unfolding i1 by auto
  obtain m4 fi4 fi5 where bye: "hb3_server_runBye pkt (fi3\<lparr>st := State_of S_Bye (?p + 1)\<rparr>) = ret fi4" "st fi4 = State_of S_Terminate (?p + 1)"
    "hb3_client_runRecvBye pkt (fi4\<lparr>st := State_of C_RecvBye ?p\<rparr>) = ret fi5" "state (st fi5) = C_Terminate"
    and m4: "says idn ROLE_SERVER MSG_BYE (ucast (ucast (ucast ?r :: u8) :: u32)) m4"
    and w5: "w_heap (world fi5) = w_heap ?w0" "w_pkts (world fi5) = (w_pkts (world fi3))(pkt \<mapsto> b\<lparr>m_data := m4\<rparr>)"
    using exchange_ends [OF w3(1), of pkt "b\<lparr>m_data := m3\<rparr>" idn "ucast (s_serverCookie v)"] H w3 w'(2) m3 v by auto
  have "hb3_exchange srcIp dstIp srcPort dstPort idn pkt fi = ret (st fi5, State_of S_Terminate (?p + 1), fi5)"
    using create greet bye by (simp add: hb3_exchange_def)
  then show ?thesis
    using bye(4) m4 w5 by (intro exI [of _ "st fi5"] exI [of _ "State_of S_Terminate (?p + 1)"] exI [of _ fi5] exI [of _ m4])
      (simp add: says_def cookie_byte)
qed

theorem exchange_completes_witness:
  "\<exists>cs ss fi'. hb3_exchange 10 20 1000 2000 77 1
      (new_FunIface (smi (HelloBye3_Client_init hb_ex_env)) 0 (c_batch (hb_ex_ctx 0)) 77 new_State (hb_ex_world 0))
      = ret (cs, ss, fi') \<and> state cs = C_Terminate \<and> state ss = S_Terminate \<and> w_heap (world fi') = Map.empty"
proof -
  let ?fi = "new_FunIface (smi (HelloBye3_Client_init hb_ex_env)) 0 (c_batch (hb_ex_ctx 0)) 77 new_State (hb_ex_world 0)"
  let ?b = "\<lparr>m_data = hb_ex_mem 0, m_dataLen = 100, m_bufLen = 2048\<rparr>"
  have w: "heap_ok (world ?fi)" "w_pkts (world ?fi) 1 = Some ?b" "w_heap (world ?fi) = Map.empty"
    by (simp_all add: new_FunIface_def hb_ex_world_def heap_ok_def)
  from exchange_completes [OF w(1,2), of 10 20 1000 2000 77] w(3) show ?thesis by auto
qed

end
