(* ===== verification/Conn_Spec.thy ===== *)
theory Conn_Spec
  imports Machine_Spec Ownership Hello_Bye3_Props
begin

text \<open>
  One side of a protocol of the binary format as a \<open>service\<close>.  Its abstract state maps connections to the phase they
  are in and to their data, with the packets and the position in the random stream; an \<open>answers\<close>
  function says what a packet does to its connection.  The locale \<open>conn_version\<close> states what an implementation,
  with objects on a heap, has to show; a machine then implements the service.
\<close>

section \<open>The service\<close>

record 'v conns =
  a_pkts :: "ptr \<rightharpoonup> mbuf"
  a_conns :: "u64 \<rightharpoonup> StateID \<times> 'v"
  a_rnd :: nat

text \<open>The reply, if there is one, and what is left of the connection.\<close>

type_synonym 'v answers = "StateID \<Rightarrow> 'v \<Rightarrow> mem \<Rightarrow> (mem \<times> (StateID \<times> 'v) option) option"

definition pkt_ident :: "mbuf \<Rightarrow> u64 option" where
  "pkt_ident b = hb3_identify (m_data b)"

definition conn_handle :: "'v answers \<Rightarrow> ptr \<Rightarrow> u64 \<Rightarrow> 'v conns \<Rightarrow> bool \<times> 'v conns" where
  "conn_handle ans p c s =
    (case (a_pkts s p, a_conns s c) of
       (Some b, Some (sid, v)) \<Rightarrow>
         (case ans sid v (m_data b) of
            None \<Rightarrow> (False, s\<lparr>a_conns := (a_conns s)(c := None)\<rparr>)
          | Some (m, next) \<Rightarrow> (True, s\<lparr>a_pkts := (a_pkts s)(p \<mapsto> b\<lparr>m_data := m\<rparr>), a_conns := (a_conns s)(c := next)\<rparr>))
     | _ \<Rightarrow> (False, s))"

definition conn_service :: "'v answers \<Rightarrow> (u64 \<Rightarrow> 'v conns \<Rightarrow> 'v conns res) \<Rightarrow> ('v conns, ptr, u64) service" where
  "conn_service ans op =
    \<lparr>sp_ident = \<lambda>s p. Option.bind (a_pkts s p) pkt_ident, sp_tracked = \<lambda>s c. a_conns s c \<noteq> None,
     sp_open = op, sp_handle = conn_handle ans\<rparr>"

definition no_conns :: "'v conns" where
  "no_conns = \<lparr>a_pkts = Map.empty, a_conns = Map.empty, a_rnd = 0\<rparr>"

definition hb_receive :: "(ptr \<rightharpoonup> mbuf) \<Rightarrow> 'v conns \<Rightarrow> 'v conns" where
  "hb_receive P s = s\<lparr>a_pkts := P\<rparr>"

lemma conn_service_simps [simp]:
  "sp_ident (conn_service ans op) s p = Option.bind (a_pkts s p) pkt_ident"
  "sp_tracked (conn_service ans op) s c \<longleftrightarrow> a_conns s c \<noteq> None"
  "sp_open (conn_service ans op) = op" "sp_handle (conn_service ans op) = conn_handle ans"
  by (simp_all add: conn_service_def)

lemma handle_others: "q \<noteq> p \<Longrightarrow> a_pkts (snd (conn_handle ans p c s)) q = a_pkts s q"
  by (simp add: conn_handle_def split: option.splits prod.splits)

lemma handle_untracked: "a_conns s c = None \<Longrightarrow> conn_handle ans p c s = (False, s)"
  by (simp add: conn_handle_def split: option.split)

section \<open>Connections and their objects\<close>

text \<open>\<open>ob sid v x\<close>: the object \<open>x\<close> stands for the data \<open>v\<close> in phase \<open>sid\<close>.\<close>

definition conn_obj :: "(StateID \<Rightarrow> 'v \<Rightarrow> 'o \<Rightarrow> bool) \<Rightarrow> (ptr \<rightharpoonup> 'o) \<Rightarrow> StateID \<times> 'v \<Rightarrow> State \<Rightarrow> bool" where
  "conn_obj ob h sv a \<longleftrightarrow> state a = fst sv \<and> (\<exists>x. h (stateData a) = Some x \<and> ob (fst sv) (snd sv) x)"

definition conn_rel ::
  "(StateID \<Rightarrow> 'v \<Rightarrow> 'o \<Rightarrow> bool) \<Rightarrow> (ptr \<rightharpoonup> 'o) \<Rightarrow> (u64 \<rightharpoonup> StateID \<times> 'v) \<Rightarrow> (u64 \<rightharpoonup> State) \<Rightarrow> bool" where
  "conn_rel ob h cs t \<longleftrightarrow> (\<forall>c. rel_option (conn_obj ob h) (cs c) (t c))"

definition represents ::
  "ptr set \<Rightarrow> (StateID \<Rightarrow> 'v \<Rightarrow> 'o \<Rightarrow> bool) \<Rightarrow> (nat \<Rightarrow> u32) \<Rightarrow> 'v conns \<Rightarrow> (u64 \<rightharpoonup> State) \<Rightarrow> 'o hworld \<Rightarrow> bool" where
  "represents K ob rnd s t w \<longleftrightarrow> w_pkts w = a_pkts s \<and> w_rand w = rnd \<and> w_rnd w = a_rnd s \<and>
     tracks K t (w_heap w) \<and> conn_rel ob (w_heap w) (a_conns s) t"

lemma conn_relD: "conn_rel ob h cs t \<Longrightarrow> rel_option (conn_obj ob h) (cs c) (t c)"
  by (simp add: conn_rel_def)

lemma conn_rel_get:
  assumes "conn_rel ob h cs t" and "t c = Some a"
  obtains v x where "cs c = Some (state a, v)" "h (stateData a) = Some x" "ob (state a) v x"
  using conn_relD [OF assms(1), of c] that assms(2) by (cases "cs c") (auto simp: conn_obj_def)

lemma conn_rel_dom: "conn_rel ob h cs t \<Longrightarrow> cs c = None \<longleftrightarrow> t c = None"
  using conn_relD [of ob h cs t c] by (cases "cs c"; cases "t c") auto

text \<open>One connection changed, the objects of the others as they were.\<close>

lemma conn_rel_upd:
  assumes r: "conn_rel ob h cs t" and keep: "\<And>d b. d \<noteq> c \<Longrightarrow> t d = Some b \<Longrightarrow> h' (stateData b) = h (stateData b)"
    and new: "rel_option (conn_obj ob h') y z"
  shows "conn_rel ob h' (cs(c := y)) (t(c := z))"
  unfolding conn_rel_def
proof (rule allI)
  fix d show "rel_option (conn_obj ob h') ((cs(c := y)) d) ((t(c := z)) d)"
  proof (cases "d = c")
    case False
    then show ?thesis using conn_relD [OF r, of d] keep [OF False]
      by (cases "cs d"; cases "t d") (simp_all add: conn_obj_def)
  qed (use new in simp)
qed

lemma represents_open:
  assumes r: "represents K ob rnd s t w" and c: "t c = None" and p: "w_heap w p = None" and x: "ob sid v x"
    and w': "w_heap w' = (w_heap w)(p \<mapsto> x)" "w_pkts w' = P" "w_rand w' = w_rand w" "w_rnd w' = w_rnd w + 1"
  shows "represents K ob rnd (s\<lparr>a_pkts := P, a_conns := (a_conns s)(c \<mapsto> (sid, v)), a_rnd := a_rnd s + 1\<rparr>)
    (t(c \<mapsto> State_of sid p)) w'"
proof -
  have t: "tracks K t (w_heap w)" "conn_rel ob (w_heap w) (a_conns s) t" using r by (simp_all add: represents_def)
  have "stateData b \<noteq> p" if "t d = Some b" for d b using tracks_live [OF t(1) that] p by auto
  then have "conn_rel ob (w_heap w') ((a_conns s)(c \<mapsto> (sid, v))) (t(c \<mapsto> State_of sid p))"
    using x by (intro conn_rel_upd [OF t(2)]) (auto simp: w' State_of_def conn_obj_def)
  then show ?thesis using r tracks_open [OF t(1) c p] w' by (simp add: represents_def)
qed

section \<open>What a handler does\<close>

text \<open>\<open>hp\<close> is the part of the world that has the packets and the objects, \<open>e\<close> the end state.\<close>

definition answer_effect ::
  "'v answers \<Rightarrow> StateID \<Rightarrow> ('w \<Rightarrow> 'o hworld) \<Rightarrow> (StateID \<Rightarrow> 'v \<Rightarrow> 'o \<Rightarrow> bool) \<Rightarrow> ptr \<Rightarrow> mbuf \<Rightarrow> StateID \<Rightarrow> 'v \<Rightarrow>
   (u64, ptr, 'w, 'k) FunIface \<Rightarrow> (u64, ptr, 'w, 'k) FunIface \<Rightarrow> bool" where
  "answer_effect ans e hp ob p b sid v fi fi' \<longleftrightarrow> quiet fi fi' \<and>
     (let w = hp (world fi); w' = hp (world fi'); a = stateData (st fi); a' = stateData (st fi') in
      w_rand w' = w_rand w \<and> w_rnd w' = w_rnd w \<and>
      (case ans sid v (m_data b) of
         None \<Rightarrow> \<not> sendPkt fi' \<and> state (st fi') = e \<and> w_pkts w' = w_pkts w \<and> w_heap w' = (w_heap w)(a := None)
       | Some (m, None) \<Rightarrow> sendPkt fi' \<and> state (st fi') = e \<and>
           w_pkts w' = (w_pkts w)(p \<mapsto> b\<lparr>m_data := m\<rparr>) \<and> w_heap w' = (w_heap w)(a := None)
       | Some (m, Some (sid', v')) \<Rightarrow> sendPkt fi' \<and> state (st fi') = sid' \<and> sid' \<noteq> e \<and>
           w_pkts w' = (w_pkts w)(p \<mapsto> b\<lparr>m_data := m\<rparr>) \<and>
           (a' = a \<or> w_heap w a' = None) \<and> (\<exists>x. ob sid' v' x \<and> w_heap w' = (w_heap w)(a := None, a' \<mapsto> x))))"

lemma represents_handle:
  assumes r: "represents K ob rnd s t (hp (world fi))" and c: "t c = Some a" and b: "a_pkts s p = Some b"
    and v: "a_conns s c = Some (sid, v)" and a: "stateData (st fi) = stateData a"
    and e: "answer_effect ans e hp ob p b sid v fi fi'"
  shows "sendPkt fi' = fst (conn_handle ans p c s) \<and>
    represents K ob rnd (snd (conn_handle ans p c s)) (after e c (st fi') t) (hp (world fi'))"
proof -
  let ?w = "hp (world fi)"
  have t: "tracks K t (w_heap ?w)" "conn_rel ob (w_heap ?w) (a_conns s) t" using r by (simp_all add: represents_def)
  have other: "stateData d \<noteq> stateData a" if "d' \<noteq> c" "t d' = Some d" for d' d using tracks_other [OF t(1) c that(2,1)] .
  have gone: "conn_rel ob ((w_heap ?w)(stateData a := None)) ((a_conns s)(c := None)) (t(c := None))"
    using other by (intro conn_rel_upd [OF t(2)]) auto
  consider (drop) "ans sid v (m_data b) = None" | (last) m where "ans sid v (m_data b) = Some (m, None)"
    | (more) m sid' v' where "ans sid v (m_data b) = Some (m, Some (sid', v'))" by (metis option.exhaust surj_pair)
  then show ?thesis
  proof cases
    case drop
    then show ?thesis using r e a b v tracks_close [OF t(1) c] gone
      by (simp add: conn_handle_def answer_effect_def represents_def after_def Let_def)
  next
    case last
    then show ?thesis using r e a b v tracks_close [OF t(1) c] gone
      by (simp add: conn_handle_def answer_effect_def represents_def after_def Let_def)
  next
    case more
    let ?a' = "stateData (st fi')"
    obtain x where x: "ob sid' v' x" "w_heap (hp (world fi')) = (w_heap ?w)(stateData a := None, ?a' \<mapsto> x)"
      and p: "?a' = stateData a \<or> w_heap ?w ?a' = None" and f: "state (st fi') = sid'" "sid' \<noteq> e"
      using e more a by (auto simp: answer_effect_def Let_def)
    have a': "stateData d \<noteq> ?a'" if "d' \<noteq> c" "t d' = Some d" for d' d
      using p other [OF that] tracks_live [OF t(1) that(2)] by metis
    have "conn_rel ob (w_heap (hp (world fi'))) ((a_conns s)(c \<mapsto> (sid', v'))) (t(c \<mapsto> st fi'))"
      using x f other a' by (intro conn_rel_upd [OF t(2)]) (simp_all add: conn_obj_def)
    then show ?thesis using r e more a b v tracks_next [OF t(1) c p, of x] x(2) f
      by (simp add: conn_handle_def answer_effect_def represents_def after_def Let_def)
  qed
qed

definition put_pkts :: "(ptr \<rightharpoonup> mbuf) \<Rightarrow> 'o hworld \<Rightarrow> 'o hworld" where
  "put_pkts P w = w\<lparr>w_pkts := P\<rparr>"

lemma put_pkts_simps [simp]:
  "w_pkts (put_pkts P w) = P" "w_heap (put_pkts P w) = w_heap w" "w_rand (put_pkts P w) = w_rand w"
  "w_rnd (put_pkts P w) = w_rnd w" "heap_ok (put_pkts P w) = heap_ok w" "w_next (put_pkts P w) = w_next w"
  by (simp_all add: put_pkts_def heap_ok_def)

section \<open>Implementations\<close>

definition abs_rel ::
  "('w \<Rightarrow> 'o hworld) \<Rightarrow> ptr set \<Rightarrow> (StateID \<Rightarrow> 'v \<Rightarrow> 'o \<Rightarrow> bool) \<Rightarrow> (nat \<Rightarrow> u32) \<Rightarrow> ((u64 \<rightharpoonup> State) \<Rightarrow> 'w \<Rightarrow> bool) \<Rightarrow>
   'v conns \<Rightarrow> (u64 \<rightharpoonup> State) \<Rightarrow> 'w \<Rightarrow> bool" where
  "abs_rel hp K ob rnd ext s t w \<longleftrightarrow> represents K ob rnd s t (hp w) \<and> ext t w"

lemma abs_dom:
  assumes "abs_rel hp K ob rnd ext s t w"
  shows "dom (a_conns s) = dom t"
proof -
  have "a_conns s c = None \<longleftrightarrow> t c = None" for c
    using assms conn_rel_dom [of ob "w_heap (hp w)" "a_conns s" t c] by (simp add: abs_rel_def represents_def)
  then show ?thesis unfolding dom_def by simp
qed

text \<open>
  What an implementation has to show: what its factory, if it has one, and its handlers do to the packets and
  objects, and that they keep an invariant \<open>ext\<close> of its own.
\<close>

locale conn_version = machine_maps env tinv pinv key_ok
  for env :: "(u64, ptr, 'w, 'k, 'm, 'n) env" and tinv pinv key_ok +
  fixes fs :: "(u64, ptr, 'w, 'k) stateFun option list" and start :: "(u64 \<Rightarrow> 'w \<Rightarrow> (ptr \<times> 'w) res) option" and s0 e :: StateID
    and hp :: "'w \<Rightarrow> 'o hworld" and put :: "(ptr \<rightharpoonup> mbuf) \<Rightarrow> 'w \<Rightarrow> 'w" and K :: "ptr set"
    and ob :: "StateID \<Rightarrow> 'v \<Rightarrow> 'o \<Rightarrow> bool" and rnd :: "nat \<Rightarrow> u32" and ext :: "(u64 \<rightharpoonup> State) \<Rightarrow> 'w \<Rightarrow> bool"
    and ans :: "'v answers" and op :: "u64 \<Rightarrow> 'v conns \<Rightarrow> 'v conns res"
  assumes ident_pkts: "ident env w p = Option.bind (w_pkts (hp w) p) pkt_ident"
    and put_hp: "hp (put P w) = put_pkts P (hp w)" and put_ext: "ext t w \<Longrightarrow> ext t (put P w)"
    and opens: "\<lbrakk>abs_rel hp K ob rnd ext s t w; t c = None; start = Some f\<rbrakk> \<Longrightarrow>
      res_rel (\<lambda>s' (p, v). abs_rel hp K ob rnd ext s' (t(c \<mapsto> State_of s0 p)) v \<and> a_pkts s' = a_pkts s) (op c s) (f c w)"
    and refuses: "start = None \<Longrightarrow> op c s = ret s"
    and handler: "\<lbrakk>abs_rel hp K ob rnd ext s t w; t c = Some a; w_heap (hp w) (stateData a) = Some x; ob (state a) v x;
        w_pkts (hp w) p = Some b\<rbrakk> \<Longrightarrow>
      \<exists>f fi. fun_at fs (state a) f \<and> f p (call_of i ba c a w) = ret fi \<and>
        answer_effect ans e hp ob p b (state a) v (call_of i ba c a w) fi \<and> ext (after e c (st fi) t) (world fi)"
begin

lemma abs_handle:
  assumes A: "abs_rel hp K ob rnd ext s t w" and c: "t c = Some a" and p: "sp_ident (conn_service ans op) s p = Some c"
    and h: "conn_handle ans p c s = (b, s')"
  shows "\<exists>f fi. fun_at fs (state a) f \<and> f p (call_of i ba c a w) = ret fi \<and> quiet (call_of i ba c a w) fi \<and>
    sendPkt fi = b \<and> abs_rel hp K ob rnd ext s' (after e c (st fi) t) (world fi) \<and>
    (\<forall>q. q \<noteq> p \<longrightarrow> sp_ident (conn_service ans op) s' q = sp_ident (conn_service ans op) s q)"
proof -
  have r: "represents K ob rnd s t (hp w)" using A by (simp add: abs_rel_def)
  then have rel: "conn_rel ob (w_heap (hp w)) (a_conns s) t" and pk: "w_pkts (hp w) = a_pkts s" by (simp_all add: represents_def)
  obtain m where m: "a_pkts s p = Some m" using p by (auto simp: bind_eq_Some_conv)
  obtain v x where v: "a_conns s c = Some (state a, v)" and x: "w_heap (hp w) (stateData a) = Some x" "ob (state a) v x"
    by (rule conn_rel_get [OF rel c])
  from handler [OF A c x, of p m i ba] m pk obtain f fi where f: "fun_at fs (state a) f" "f p (call_of i ba c a w) = ret fi"
    and e: "answer_effect ans e hp ob p m (state a) v (call_of i ba c a w) fi" and ex: "ext (after e c (st fi) t) (world fi)"
    by auto
  have "sendPkt fi = b \<and> represents K ob rnd s' (after e c (st fi) t) (hp (world fi))"
    using represents_handle [of K ob rnd s t hp "call_of i ba c a w" c a p m "state a" v ans e fi] r c m v e h by simp
  moreover have "\<forall>q. q \<noteq> p \<longrightarrow> a_pkts s' q = a_pkts s q" using handle_others [of _ p ans c s] h by simp
  moreover have "quiet (call_of i ba c a w) fi" using e by (simp add: answer_effect_def)
  ultimately show ?thesis using f ex by (intro exI [of _ f] exI [of _ fi]) (simp add: abs_rel_def)
qed

end

sublocale conn_version \<subseteq> service_spec env tinv pinv key_ok fs start s0 e "conn_service ans op" "abs_rel hp K ob rnd ext"
  "\<lambda>w. w_pkts (hp w)" put a_pkts hb_receive pkt_ident
proof unfold_locales
  fix s t w p c
  assume A: "abs_rel hp K ob rnd ext s t w"
  then show "ident env w p = sp_ident (conn_service ans op) s p" by (simp add: ident_pkts abs_rel_def represents_def)
  have "c \<in> dom (a_conns s) \<longleftrightarrow> c \<in> dom t" using abs_dom [OF A] by simp
  then show "sp_tracked (conn_service ans op) s c \<longleftrightarrow> t c \<noteq> None" by (simp add: domIff)
next
  fix s t w c f
  assume "abs_rel hp K ob rnd ext s t w" "t c = None" "start = Some f"
  from opens [OF this] show "res_rel (\<lambda>s' (p, v). abs_rel hp K ob rnd ext s' (t(c \<mapsto> State_of s0 p)) v \<and>
      (\<forall>q. sp_ident (conn_service ans op) s' q = sp_ident (conn_service ans op) s q)) (sp_open (conn_service ans op) c s) (f c w)"
    by (simp, elim res_rel_mono) auto
next
  fix s t w c p
  assume A: "abs_rel hp K ob rnd ext s t w" and c: "t c = None" and n: "start = None"
  have "a_conns s c = None" using abs_dom [OF A] c by (metis domIff)
  then show "sp_open (conn_service ans op) c s = ret s \<and> sp_handle (conn_service ans op) p c s = (False, s)"
    using refuses [OF n] by (simp add: handle_untracked)
next
  fix s t w c a p b s' i ba
  assume "abs_rel hp K ob rnd ext s t w" "t c = Some a" "sp_ident (conn_service ans op) s p = Some c"
    "sp_handle (conn_service ans op) p c s = (b, s')"
  then show "\<exists>f fi. fun_at fs (state a) f \<and> f p (call_of i ba c a w) = ret fi \<and> quiet (call_of i ba c a w) fi \<and>
      sendPkt fi = b \<and> abs_rel hp K ob rnd ext s' (after e c (st fi) t) (world fi) \<and>
      (\<forall>q. q \<noteq> p \<longrightarrow> sp_ident (conn_service ans op) s' q = sp_ident (conn_service ans op) s q)"
    by (intro abs_handle) simp_all
next
  fix s t w and P :: "ptr \<rightharpoonup> mbuf" and p
  show "abs_rel hp K ob rnd ext s t w \<Longrightarrow> w_pkts (hp w) = a_pkts s" by (simp add: abs_rel_def represents_def)
  show "abs_rel hp K ob rnd ext s t w \<Longrightarrow> abs_rel hp K ob rnd ext (hb_receive P s) t (put P w)"
    by (simp add: abs_rel_def put_ext put_hp represents_def hb_receive_def)
  show "sp_ident (conn_service ans op) (hb_receive P s) p = Option.bind (P p) pkt_ident" by (simp add: hb_receive_def)
qed

text \<open>A machine that was just configured.\<close>

context conn_version
begin

lemma idle_fresh:
  assumes sm: "stateTable sm = hm_empty (dense env)" "conf_is fs start s0 e sm"
    and fs: "\<And>f. Some f \<in> set fs \<Longrightarrow> well_behaved f"
    and w: "represents K ob rnd no_conns Map.empty (hp w)" "ext Map.empty w"
  shows "idle no_conns (fresh_ctx (poolOps env) sm ba w)"
proof -
  let ?x = "fresh_ctx (poolOps env) sm ba w"
  have t: "known env ?x = Map.empty" "apart env ?x"
    using dm.find_empty pm.find_empty sm(1) by (simp_all add: known_def apart_def view_defs fresh_ctx_def)
  show ?thesis
    using dm.find_empty pm.find_empty sm fs t w by (intro idle_start) (simp_all add: fresh_ctx_def abs_rel_def)
qed

lemma serves:
  assumes "stateTable sm = hm_empty (dense env)" "conf_is fs start s0 e sm"
    and "\<And>f. Some f \<in> set fs \<Longrightarrow> well_behaved f"
    and "represents K ob rnd no_conns Map.empty (hp w)" "ext Map.empty w"
    and "\<forall>b \<in> set bs. admissible key_ok pkt_ident b"
  shows "res_rel (\<lambda>(out, s') (out', x'). out' = out \<and> abs_rel hp K ob rnd ext s' (known env x') (c_world x'))
    (spec_serve (conn_service ans op) a_pkts hb_receive bs no_conns)
    (serve (\<lambda>w. w_pkts (hp w)) put (process_batch env) take_packets bs (fresh_ctx (poolOps env) sm ba w))"
proof -
  have "idle no_conns (fresh_ctx (poolOps env) sm ba w)" by (rule idle_fresh) (use assms in simp_all)
  from impl_serve [OF this assms(6)] show ?thesis using idle_abs by (elim res_rel_mono) auto
qed

end

end
