(* ===== verification/Hello_Bye_Spec.thy ===== *)
theory Hello_Bye_Spec
  imports Conn_Spec
begin

text \<open>
  What a server of the binary protocol is: the service whose connections hold the two cookies.  \<open>full\<close> says when no
  connection can be opened any more.  The locale \<open>hb_version\<close> is what a version of the server has to show; the
  proof for the third version follows.
\<close>

section \<open>The service\<close>

definition hb_answer :: "u8 \<Rightarrow> u8 \<Rightarrow> mem \<Rightarrow> mem" where
  "hb_answer t ck m = (let a = msg_at m
     in hb_turn_around 14 (ip_getPayload 14 m) (set_cookie a ck (set_msg a t (set_role a ROLE_SERVER m))))"

definition server_answer :: "server answers" where
  "server_answer sid v m = (let a = msg_at m in
     if sid = S_Hello then
       if msg_role a m = ROLE_CLIENT \<and> msg_msg a m = MSG_HELLO
       then Some (hb_answer MSG_HELLO (ucast (s_serverCookie v)) m, Some (S_Bye, v\<lparr>s_clientCookie := ucast (msg_cookie a m)\<rparr>))
       else None
     else
       if msg_role a m = ROLE_CLIENT \<and> msg_msg a m = MSG_BYE \<and> ucast (msg_cookie a m) = s_serverCookie v
       then Some (hb_answer MSG_BYE (ucast (s_clientCookie v)) m, None)
       else None)"

text \<open>An answer goes back where the packet came from, in the same connection, with the cookie the other side expects.\<close>

lemma hb_answer_reply:
  assumes "5 \<le> unat (ip_ihl 14 m)"
  shows "is_reply m (hb_answer t ck m) ROLE_SERVER t ck"
  unfolding hb_answer_def Let_def using assms
  by (intro reply_of_message) (simp_all add: set_cookie_def set_msg_def set_role_def store8_def)

lemma server_answer_reply:
  assumes "server_answer sid v m = Some (m', v')" and "5 \<le> unat (ip_ihl 14 m)"
  shows "is_reply m m' ROLE_SERVER (if sid = S_Hello then MSG_HELLO else MSG_BYE)
    (ucast (if sid = S_Hello then s_serverCookie v else s_clientCookie v))"
  using assms hb_answer_reply [of m] by (auto simp: server_answer_def Let_def split: if_splits)

lemma server_answer_next: "server_answer sid v m = Some (m', Some (sid', v')) \<Longrightarrow> sid' = S_Bye"
  by (auto simp: server_answer_def Let_def split: if_splits)

definition first_cookies :: "(nat \<Rightarrow> u32) \<Rightarrow> nat \<Rightarrow> server" where
  "first_cookies rnd n = \<lparr>s_clientCookie = 0, s_serverCookie = (rnd n AND 0x7fffffff) mod 256\<rparr>"

definition hb_open :: "(nat \<Rightarrow> u32) \<Rightarrow> (nat \<Rightarrow> bool) \<Rightarrow> u64 \<Rightarrow> server conns \<Rightarrow> server conns res" where
  "hb_open rnd full c s =
    (if full (card (dom (a_conns s))) then fail Thrown
     else ret (s\<lparr>a_conns := (a_conns s)(c \<mapsto> (S_Hello, first_cookies rnd (a_rnd s))), a_rnd := a_rnd s + 1\<rparr>))"

abbreviation hb_service :: "(nat \<Rightarrow> u32) \<Rightarrow> (nat \<Rightarrow> bool) \<Rightarrow> (server conns, ptr, u64) service" where
  "hb_service rnd full \<equiv> conn_service server_answer (hb_open rnd full)"

definition hb_spec_serve ::
  "(nat \<Rightarrow> u32) \<Rightarrow> (nat \<Rightarrow> bool) \<Rightarrow> (ptr list \<times> (ptr \<rightharpoonup> mbuf)) list \<Rightarrow> ((ptr, mbuf) report list \<times> server conns) res" where
  "hb_spec_serve rnd full bs = spec_serve (hb_service rnd full) a_pkts hb_receive bs no_conns"

abbreviation server_effect ::
  "('w \<Rightarrow> 'o hworld) \<Rightarrow> (StateID \<Rightarrow> server \<Rightarrow> 'o \<Rightarrow> bool) \<Rightarrow> ptr \<Rightarrow> mbuf \<Rightarrow> StateID \<Rightarrow> server \<Rightarrow>
   (u64, ptr, 'w, 'k) FunIface \<Rightarrow> (u64, ptr, 'w, 'k) FunIface \<Rightarrow> bool" where
  "server_effect \<equiv> answer_effect server_answer S_Terminate"

section \<open>Versions of the server\<close>

text \<open>What a version has to show of its factory and its two handlers.\<close>

locale hb_version = machine_maps env tinv pinv key_ok
  for env :: "(u64, ptr, 'w, 'k, 'm, 'n) env" and tinv pinv key_ok +
  fixes fs :: "(u64, ptr, 'w, 'k) stateFun option list" and start :: "u64 \<Rightarrow> 'w \<Rightarrow> (ptr \<times> 'w) res"
    and hp :: "'w \<Rightarrow> 'o hworld" and put :: "(ptr \<rightharpoonup> mbuf) \<Rightarrow> 'w \<Rightarrow> 'w" and K :: "ptr set"
    and ob :: "StateID \<Rightarrow> server \<Rightarrow> 'o \<Rightarrow> bool" and rnd :: "nat \<Rightarrow> u32" and full :: "nat \<Rightarrow> bool"
    and ext :: "(u64 \<rightharpoonup> State) \<Rightarrow> 'w \<Rightarrow> bool"
  assumes server_ident: "ident env w p = Option.bind (w_pkts (hp w) p) pkt_ident"
    and server_put: "hp (put P w) = put_pkts P (hp w)" and server_ext: "ext t w \<Longrightarrow> ext t (put P w)"
    and factory: "\<lbrakk>represents K ob rnd s t (hp w); ext t w; t c = None; \<not> full (card (dom t))\<rbrakk> \<Longrightarrow>
      \<exists>p v x. start c w = ret (p, v) \<and> w_heap (hp w) p = None \<and> ob S_Hello (first_cookies rnd (a_rnd s)) x \<and>
        w_heap (hp v) = (w_heap (hp w))(p \<mapsto> x) \<and> w_pkts (hp v) = w_pkts (hp w) \<and> w_rand (hp v) = w_rand (hp w) \<and>
        w_rnd (hp v) = w_rnd (hp w) + 1 \<and> ext (t(c \<mapsto> State_of S_Hello p)) v"
    and factory_full: "\<lbrakk>represents K ob rnd s t (hp w); ext t w; t c = None; full (card (dom t))\<rbrakk> \<Longrightarrow> start c w = fail Thrown"
    and phases: "ob sid v x \<Longrightarrow> sid = S_Hello \<or> sid = S_Bye"
    and server_handler: "\<lbrakk>represents K ob rnd s t (hp w); ext t w; t c = Some a; w_heap (hp w) (stateData a) = Some x; ob (state a) v x;
        state a = S_Hello \<or> state a = S_Bye; w_pkts (hp w) p = Some b\<rbrakk> \<Longrightarrow>
      \<exists>f fi. fun_at fs (state a) f \<and> f p (call_of i ba c a w) = ret fi \<and>
        server_effect hp ob p b (state a) v (call_of i ba c a w) fi \<and> ext (after S_Terminate c (st fi) t) (world fi)"
begin

lemma factory_opens:
  assumes A: "abs_rel hp K ob rnd ext s t w" and c: "t c = None"
  shows "res_rel (\<lambda>s' (p, v). abs_rel hp K ob rnd ext s' (t(c \<mapsto> State_of S_Hello p)) v \<and> a_pkts s' = a_pkts s)
    (hb_open rnd full c s) (start c w)"
proof (cases "full (card (dom t))")
  case True
  have "start c w = fail Thrown" using factory_full [of s t w c] A c True by (simp add: abs_rel_def)
  then show ?thesis using True abs_dom [OF A] by (simp add: hb_open_def)
next
  case False
  have r: "represents K ob rnd s t (hp w)" "ext t w" using A by (simp_all add: abs_rel_def)
  from factory [OF r c False] obtain p v x where f: "start c w = ret (p, v)" "w_heap (hp w) p = None"
    "ob S_Hello (first_cookies rnd (a_rnd s)) x" "w_heap (hp v) = (w_heap (hp w))(p \<mapsto> x)" "w_pkts (hp v) = w_pkts (hp w)"
    "w_rand (hp v) = w_rand (hp w)" "w_rnd (hp v) = w_rnd (hp w) + 1" "ext (t(c \<mapsto> State_of S_Hello p)) v" by blast
  have "w_pkts (hp v) = a_pkts s" using f(5) r(1) by (simp add: represents_def)
  then show ?thesis
    using f(1,8) False abs_dom [OF A] represents_open [of K ob rnd s t "hp w" c p, OF r(1) c f(2,3,4) _ f(6,7)]
    by (simp add: hb_open_def abs_rel_def)
qed

lemma implements:
  "conn_version env tinv pinv key_ok fs (Some start) S_Hello S_Terminate hp put K ob rnd ext server_answer (hb_open rnd full)"
proof (intro conn_version.intro conn_version_axioms.intro machine_maps_axioms)
  fix s t w c a x v p b i ba
  assume "abs_rel hp K ob rnd ext s t w" "t c = Some a" "w_heap (hp w) (stateData a) = Some x" "ob (state a) v x" "w_pkts (hp w) p = Some b"
  then show "\<exists>f fi. fun_at fs (state a) f \<and> f p (call_of i ba c a w) = ret fi \<and>
      server_effect hp ob p b (state a) v (call_of i ba c a w) fi \<and> ext (after S_Terminate c (st fi) t) (world fi)"
    using phases [of "state a" v x] server_handler [of s t w c a x v p b i ba] by (simp add: abs_rel_def)
qed (use factory_opens in \<open>simp_all add: server_ident server_put server_ext\<close>)

end

sublocale hb_version \<subseteq> conn_version env tinv pinv key_ok fs "Some start" S_Hello S_Terminate hp put K ob rnd ext
  server_answer "hb_open rnd full"
  by (rule implements)

section \<open>The third version\<close>

definition obj3 :: "StateID \<Rightarrow> server \<Rightarrow> hb_obj \<Rightarrow> bool" where
  "obj3 sid v x \<longleftrightarrow> x = ServerObj v \<and> (sid = S_Hello \<or> sid = S_Bye)"

lemma bye_order: "set_msg a t (set_role a r (set_cookie a c m)) = set_cookie a c (set_msg a t (set_role a r m))"
  by (auto simp: set_msg_def set_role_def set_cookie_def store8_def fun_eq_iff)

lemma msg_addr: "udp_getPayload (ip_getPayload 14 m) = msg_at m" "eth_getPayload 0 = 14"
  by (simp_all add: msg_at_def eth_getPayload_def sizeof_Ethernet_def)

definition server3_fun :: "StateID \<Rightarrow> hb_fun" where
  "server3_fun sid = (if sid = S_Hello then hb3_server_runHello else hb3_server_runBye)"

lemma server3_effect:
  assumes "w_pkts (world fi) p = Some b" and "w_heap (world fi) (stateData (st fi)) = Some (ServerObj v)"
    and "0 < stateData (st fi)" and "sendPkt fi" and "sid = S_Hello \<or> sid = S_Bye"
  shows "\<exists>fi'. server3_fun sid p fi = ret fi' \<and> server_effect (\<lambda>w. w) obj3 p b sid v fi fi' \<and>
    w_next (world fi') = w_next (world fi) \<and> dom (w_heap (world fi')) \<subseteq> dom (w_heap (world fi))"
proof -
  have del: "heap_delete (stateData (st fi)) ((world fi)\<lparr>w_pkts := P\<rparr>) =
      ret ((world fi)\<lparr>w_pkts := P, w_heap := (w_heap (world fi))(stateData (st fi) := None)\<rparr>)"
    "heap_delete (stateData (st fi)) (world fi) =
      ret ((world fi)\<lparr>w_heap := (w_heap (world fi))(stateData (st fi) := None)\<rparr>)" for P
    using assms(2,3) by (auto simp: heap_delete_def)
  show ?thesis
  proof (cases "sid = S_Hello")
    case True
    then show ?thesis using assms del
      by (auto simp: server3_fun_def hb3_server_runHello_def Let_def getData_def msg_addr answer_effect_def server_answer_def
          hb_terminate_def ROLE_CLIENT_def MSG_HELLO_def get_server_def heap_get_def heap_put_def writeData_def quiet_def
          hb_answer_def obj3_def S_Bye_def S_Terminate_def)
  next
    case False
    then have "sid = S_Bye" "S_Bye \<noteq> S_Hello" using assms(5) by (simp_all add: S_Bye_def S_Hello_def)
    then show ?thesis using assms del
      by (auto simp: server3_fun_def hb3_server_runBye_def Let_def getData_def msg_addr answer_effect_def server_answer_def
          hb_terminate_def get_server_def heap_get_def writeData_def quiet_def hb_answer_def bye_order)
  qed
qed

lemma heap_ok_subset: "heap_ok w \<Longrightarrow> w_next w' = w_next w \<Longrightarrow> dom (w_heap w') \<subseteq> dom (w_heap w) \<Longrightarrow> heap_ok w'"
  by (auto simp: heap_ok_def)

definition server3_functions :: "hb_fun option list" where
  "server3_functions = [Some hb3_server_runHello, Some hb3_server_runBye]"

lemma server3_at: "sid = S_Hello \<or> sid = S_Bye \<Longrightarrow> fun_at server3_functions sid (server3_fun sid)"
  by (auto simp: fun_at_def server3_functions_def server3_fun_def S_Hello_def S_Bye_def)

lemma server3_conf: "conf_is server3_functions (Some hb3_factory) S_Hello S_Terminate (HelloBye3_Server_init env)"
  using server_init_config [of env] by (simp add: conf_is_def server_config_def server3_functions_def)
    (simp add: plain_smi_def HelloBye3_Server_init_def registerFunction_def registerEndStateID_def
      registerStartStateID_def new_StateMachine_def Let_def)

lemma hb3_maps:
  assumes "hash_map d tinv key_ok" and "hash_map n pinv (\<lambda>_. True)"
  shows "machine_maps (hb3_env d n clk) tinv pinv key_ok"
  using assms by (simp add: machine_maps_def hb3_env_def)

lemma hb3_version:
  assumes "hash_map d tinv key_ok" and "hash_map n pinv (\<lambda>_. True)"
  shows "hb_version (hb3_env d n clk) tinv pinv key_ok server3_functions hb3_factory (\<lambda>w. w) put_pkts {} obj3 rnd
    (\<lambda>_. False) (\<lambda>t w. heap_ok w)"
proof (intro hb_version.intro hb_version_axioms.intro hb3_maps [OF assms])
  fix s t w c
  assume r: "represents {} obj3 rnd s t w" and ok: "heap_ok w"
  then show "\<exists>p v x. hb3_factory c w = ret (p, v) \<and> w_heap w p = None \<and> obj3 S_Hello (first_cookies rnd (a_rnd s)) x \<and>
      w_heap v = (w_heap w)(p \<mapsto> x) \<and> w_pkts v = w_pkts w \<and> w_rand v = w_rand w \<and> w_rnd v = w_rnd w + 1 \<and> heap_ok v"
    using heap_new_fresh [OF ok] heap_new_ok [OF ok]
    by (auto simp: hb3_factory_def rand_def heap_new_def obj3_def first_cookies_def represents_def heap_ok_def)
next
  fix s t w c a x v p b i ba
  assume "represents {} obj3 rnd s t w" and ok: "heap_ok w" and "t c = Some a"
    and x: "w_heap w (stateData a) = Some x" "obj3 (state a) v x"
    and sid: "state a = S_Hello \<or> state a = S_Bye" and b: "w_pkts w p = Some b"
  have "0 < stateData a" using ok x(1) by (auto simp: heap_ok_def)
  then show "\<exists>f fi. fun_at server3_functions (state a) f \<and> f p (call_of i ba c a w) = ret fi \<and>
      server_effect (\<lambda>w. w) obj3 p b (state a) v (call_of i ba c a w) fi \<and> heap_ok (world fi)"
    using server3_effect [of "call_of i ba c a w" p b v "state a"] server3_at [OF sid] heap_ok_subset [OF ok] x b sid
    by (auto simp: obj3_def)
qed (auto simp: hb3_env_def pkt_ident_def obj3_def split: option.splits)

interpretation hb3_lists: hb_version "hb3_env alist_ops alist_ops clk" "alist_inv ok" "alist_inv (\<lambda>_. True)" ok
  server3_functions hb3_factory "\<lambda>w. w" put_pkts "{}" obj3 rnd "\<lambda>_. False" "\<lambda>t w. heap_ok w" for clk ok rnd
  by (rule hb3_version) (rule alist.hash_map_axioms)+

end
