(* ===== verification/Hello_Bye2.thy ===== *)
theory Hello_Bye2
  imports Hello_Bye3
begin

text \<open>
  The second version of the protocol: \<open>include/helloBye2Proto.hpp\<close>, \<open>src/helloBye2Proto.cpp\<close> and
  \<open>src/helloBye2_C.cpp\<close>.  The messages and the numbers of the states are those of the third version.
  Every state has a class of its own: its \<open>run\<close> calls \<open>fun\<close>, then allocates the object of the
  next state from the old one and deletes the old one.  The source address and the server's port of a
  client come from a configuration object.

  \<open>ClientConfig\<close> is a static object: it exists, zeroed, when the program starts, at the
  address \<open>config_ptr\<close>.  A member that a constructor leaves uninitialised is 0 here; each is written
  before it is read.
\<close>

section \<open>Identification\<close>

definition hb2_identify :: "mem \<Rightarrow> u64 option" where
  "hb2_identify m =
    (let eth = 0 in
     if eth_getEthertype eth m \<noteq> ETHERTYPE_IPv4 then None
     else let ipv4 = eth_getPayload eth in
       if ip_proto ipv4 m \<noteq> PROTO_UDP then None
       else let udp = ip_getPayload ipv4 m; msg = udp_getPayload udp
            in Some (msg_ident msg m))"

definition hb2_getDelKey :: u64 where "hb2_getDelKey = - 1"
definition hb2_getEmptyKey :: u64 where "hb2_getEmptyKey = - 1 - 1"

section \<open>Objects\<close>

record server_hello =
  sh_clientCookie :: u8
  sh_serverCookie :: u8

record server_bye =
  sb_clientCookie :: u32
  sb_serverCookie :: u32

record client_hello =
  ch_clientCookie :: u32
  ch_dstIp :: u32
  ch_srcPort :: u16
  ch_ident :: u64

record client_bye =
  cb_clientCookie :: u32
  cb_serverCookie :: u32

record client_recvbye =
  cr_clientCookie :: u32
  cr_serverCookie :: u32

record client_config =
  cfg_srcIp :: u32
  cfg_dstPort :: u16

datatype hb2_obj =
    SHello server_hello | SBye server_bye
  | CHello client_hello | CBye client_bye | CRecvBye client_recvbye
  | Config client_config

type_synonym hb2_world = "hb2_obj hworld"
type_synonym hb2_fi = "(u64, ptr, hb2_obj hworld, unit) FunIface"
type_synonym hb2_fun = "(u64, ptr, hb2_obj hworld, unit) stateFun"

definition as_shello :: "ptr \<Rightarrow> hb2_world \<Rightarrow> server_hello res" where
  "as_shello p w = rbind (heap_get p w) (\<lambda>ob. case ob of SHello s \<Rightarrow> ret s | _ \<Rightarrow> fail BadPointer)"

definition as_sbye :: "ptr \<Rightarrow> hb2_world \<Rightarrow> server_bye res" where
  "as_sbye p w = rbind (heap_get p w) (\<lambda>ob. case ob of SBye s \<Rightarrow> ret s | _ \<Rightarrow> fail BadPointer)"

definition as_chello :: "ptr \<Rightarrow> hb2_world \<Rightarrow> client_hello res" where
  "as_chello p w = rbind (heap_get p w) (\<lambda>ob. case ob of CHello s \<Rightarrow> ret s | _ \<Rightarrow> fail BadPointer)"

definition as_cbye :: "ptr \<Rightarrow> hb2_world \<Rightarrow> client_bye res" where
  "as_cbye p w = rbind (heap_get p w) (\<lambda>ob. case ob of CBye s \<Rightarrow> ret s | _ \<Rightarrow> fail BadPointer)"

definition as_crecv :: "ptr \<Rightarrow> hb2_world \<Rightarrow> client_recvbye res" where
  "as_crecv p w = rbind (heap_get p w) (\<lambda>ob. case ob of CRecvBye s \<Rightarrow> ret s | _ \<Rightarrow> fail BadPointer)"

definition config_ptr :: ptr where "config_ptr = 1"

definition getInstance :: "hb2_world \<Rightarrow> client_config res" where
  "getInstance w =
    rbind (heap_get config_ptr w) (\<lambda>ob. case ob of Config c \<Rightarrow> ret c | _ \<Rightarrow> fail BadPointer)"

text \<open>A protocol error: go to the end state and free the packet.\<close>

definition hb2_reject :: "StateID \<Rightarrow> hb2_fi \<Rightarrow> hb2_fi" where
  "hb2_reject sid fi = freePkt (transition sid fi)"

text \<open>The end of \<open>run\<close>: the object \<open>t\<close> is deleted, or replaced by \<open>new\<close>.\<close>

definition hb2_delete :: "ptr \<Rightarrow> hb2_fi \<Rightarrow> hb2_fi res" where
  "hb2_delete t fi = rbind (heap_delete t (world fi)) (\<lambda>w. ret (fi\<lparr>world := w\<rparr>))"

definition hb2_replace :: "ptr \<Rightarrow> hb2_obj \<Rightarrow> hb2_fi \<Rightarrow> hb2_fi res" where
  "hb2_replace t ob fi =
    (let (q, w) = heap_new ob (world fi)
     in hb2_delete t (fi\<lparr>st := (st fi)\<lparr>stateData := q\<rparr>, world := w\<rparr>))"

section \<open>Server\<close>

definition hb2_factory :: "u64 \<Rightarrow> hb2_world \<Rightarrow> (ptr \<times> hb2_world) res" where
  "hb2_factory cid w =
    (let (r, w) = rand w
     in ret (heap_new (SHello \<lparr>sh_clientCookie = 0, sh_serverCookie = ucast (r mod 256)\<rparr>) w))"

definition Server_Bye :: "server_hello \<Rightarrow> server_bye" where
  "Server_Bye h = \<lparr>sb_clientCookie = ucast (sh_clientCookie h), sb_serverCookie = ucast (sh_serverCookie h)\<rparr>"

definition Server_Hello_fun :: "ptr \<Rightarrow> hb2_fun" where
  "Server_Hello_fun this pkt fi =
    rbind (getData pkt (world fi)) (\<lambda>m.
    let ether = 0;
        ipv4 = eth_getPayload ether;
        udp = ip_getPayload ipv4 m;
        msg = udp_getPayload udp
    in if msg_role msg m \<noteq> 0 then ret (hb2_reject S_Terminate fi)
       else if msg_msg msg m \<noteq> 0 then ret (hb2_reject S_Terminate fi)
       else
         rbind (as_shello this (world fi)) (\<lambda>h.
         let h = h\<lparr>sh_clientCookie := msg_cookie msg m\<rparr>;
             w = heap_put this (SHello h) (world fi);
             m = set_role msg ROLE_SERVER m;
             m = set_msg msg MSG_HELLO m;
             m = set_cookie msg (sh_serverCookie h) m;
             m = hb_turn_around ipv4 udp m
         in rbind (writeData pkt m w) (\<lambda>w.
            ret (transition S_Bye (fi\<lparr>world := w\<rparr>)))))"

definition Server_Hello_run :: hb2_fun where
  "Server_Hello_run pkt fi =
    (let t = stateData (st fi) in
     rbind (Server_Hello_fun t pkt fi) (\<lambda>fi.
     if state (st fi) = S_Bye then
       rbind (as_shello t (world fi)) (\<lambda>h. hb2_replace t (SBye (Server_Bye h)) fi)
     else if state (st fi) = S_Terminate then hb2_delete t fi
     else ret fi))"

definition Server_Bye_fun :: "ptr \<Rightarrow> hb2_fun" where
  "Server_Bye_fun this pkt fi =
    rbind (getData pkt (world fi)) (\<lambda>m.
    let ether = 0;
        ipv4 = eth_getPayload ether;
        udp = ip_getPayload ipv4 m;
        msg = udp_getPayload udp
    in if msg_role msg m \<noteq> ROLE_CLIENT \<or> msg_msg msg m \<noteq> MSG_BYE then ret (hb2_reject S_Terminate fi)
       else
         rbind (as_sbye this (world fi)) (\<lambda>b.
         if ucast (msg_cookie msg m) \<noteq> sb_serverCookie b then ret (hb2_reject S_Terminate fi)
         else
           let m = set_cookie msg (ucast (sb_clientCookie b)) m;
               m = set_role msg ROLE_SERVER m;
               m = set_msg msg MSG_BYE m;
               m = hb_turn_around ipv4 udp m
           in rbind (writeData pkt m (world fi)) (\<lambda>w.
              ret (transition S_Terminate (fi\<lparr>world := w\<rparr>)))))"

definition Server_Bye_run :: hb2_fun where
  "Server_Bye_run pkt fi =
    (let t = stateData (st fi) in
     rbind (Server_Bye_fun t pkt fi) (\<lambda>fi.
     if state (st fi) = S_Terminate then hb2_delete t fi else ret fi))"

section \<open>Client\<close>

definition Client_Hello :: "u32 \<Rightarrow> u16 \<Rightarrow> u64 \<Rightarrow> hb2_world \<Rightarrow> client_hello \<times> hb2_world" where
  "Client_Hello dstIp srcPort idn w =
    (let (r, w) = rand w
     in (\<lparr>ch_clientCookie = r mod 256, ch_dstIp = dstIp, ch_srcPort = srcPort, ch_ident = idn\<rparr>, w))"

definition Client_Bye :: "client_hello \<Rightarrow> client_bye" where
  "Client_Bye h = \<lparr>cb_clientCookie = ch_clientCookie h, cb_serverCookie = 0\<rparr>"

definition Client_RecvBye :: "client_bye \<Rightarrow> client_recvbye" where
  "Client_RecvBye b = \<lparr>cr_clientCookie = cb_clientCookie b, cr_serverCookie = cb_serverCookie b\<rparr>"

definition Client_Hello_fun :: "ptr \<Rightarrow> hb2_fun" where
  "Client_Hello_fun this pkt fi =
    rbind (getData pkt (world fi)) (\<lambda>m.
    rbind (getDataLen pkt (world fi)) (\<lambda>len.
    rbind (getInstance (world fi)) (\<lambda>config.
    rbind (as_chello this (world fi)) (\<lambda>h.
    let m = (\<lambda>i. if i < unat len then 0 else m i);
        ether = 0;
        ipv4 = eth_getPayload ether;
        m = ip_setVersion ipv4 m;
        m = ip_setIHL ipv4 5 m;
        m = ip_setTTL ipv4 64 m;
        m = ip_setLength ipv4 (100 - 14) m;
        m = ip_setDstIP ipv4 (ch_dstIp h) m;
        m = ip_setSrcIP ipv4 (cfg_srcIp config) m;
        m = ip_setProtoUDP ipv4 m;
        m = ip_setChecksum ipv4 0 m;
        udp = ip_getPayload ipv4 m;
        msg = udp_getPayload udp;
        m = set_ident msg (ch_ident h) m;
        m = set_role msg ROLE_CLIENT m;
        m = set_cookie msg (ucast (ch_clientCookie h)) m;
        m = set_msg msg MSG_HELLO m;
        m = eth_setEthertype ether 0x0800 m;
        m = udp_setChecksum udp 0 m;
        m = udp_setDstPort udp (cfg_dstPort config) m;
        m = udp_setSrcPort udp (ch_srcPort h) m;
        m = udp_setPayloadLength udp 50 m
    in rbind (writeData pkt m (world fi)) (\<lambda>w.
       ret (transition C_Bye (fi\<lparr>world := w\<rparr>)))))))"

definition Client_Hello_run :: hb2_fun where
  "Client_Hello_run pkt fi =
    (let t = stateData (st fi) in
     rbind (Client_Hello_fun t pkt fi) (\<lambda>fi.
     if state (st fi) = C_Bye then
       rbind (as_chello t (world fi)) (\<lambda>h. hb2_replace t (CBye (Client_Bye h)) fi)
     else if state (st fi) = C_Terminate then hb2_delete t fi
     else ret fi))"

definition Client_Bye_fun :: "ptr \<Rightarrow> hb2_fun" where
  "Client_Bye_fun this pkt fi =
    rbind (getData pkt (world fi)) (\<lambda>m.
    let ether = 0;
        ipv4 = eth_getPayload ether;
        udp = ip_getPayload ipv4 m;
        msg = udp_getPayload udp
    in if msg_role msg m \<noteq> ROLE_SERVER \<or> msg_msg msg m \<noteq> MSG_HELLO then ret (hb2_reject C_Terminate fi)
       else
         rbind (as_cbye this (world fi)) (\<lambda>b.
         let b = b\<lparr>cb_serverCookie := ucast (msg_cookie msg m)\<rparr>;
             w = heap_put this (CBye b) (world fi);
             m = set_cookie msg (ucast (cb_serverCookie b)) m;
             m = set_role msg ROLE_CLIENT m;
             m = set_msg msg MSG_BYE m;
             m = hb_turn_around ipv4 udp m
         in rbind (writeData pkt m w) (\<lambda>w.
            ret (transition C_RecvBye (fi\<lparr>world := w\<rparr>)))))"

definition Client_Bye_run :: hb2_fun where
  "Client_Bye_run pkt fi =
    (let t = stateData (st fi) in
     rbind (Client_Bye_fun t pkt fi) (\<lambda>fi.
     if state (st fi) = C_RecvBye then
       rbind (as_cbye t (world fi)) (\<lambda>b. hb2_replace t (CRecvBye (Client_RecvBye b)) fi)
     else if state (st fi) = C_Terminate then hb2_delete t fi
     else ret fi))"

definition Client_RecvBye_fun :: "ptr \<Rightarrow> hb2_fun" where
  "Client_RecvBye_fun this pkt fi =
    rbind (getData pkt (world fi)) (\<lambda>m.
    let ether = 0;
        ipv4 = eth_getPayload ether;
        udp = ip_getPayload ipv4 m;
        msg = udp_getPayload udp
    in if msg_role msg m \<noteq> ROLE_SERVER \<or> msg_msg msg m \<noteq> MSG_BYE then ret (hb2_reject C_Terminate fi)
       else
         rbind (as_crecv this (world fi)) (\<lambda>r.
         if ucast (msg_cookie msg m) \<noteq> cr_clientCookie r then ret (hb2_reject C_Terminate fi)
         else ret (transition C_Terminate (freePkt fi))))"

definition Client_RecvBye_run :: hb2_fun where
  "Client_RecvBye_run pkt fi =
    (let t = stateData (st fi) in
     rbind (Client_RecvBye_fun t pkt fi) (\<lambda>fi.
     if state (st fi) = C_Terminate then hb2_delete t fi else ret fi))"

section \<open>The C interface\<close>

type_synonym 'm hb2_sm = "(u64, ptr, hb2_obj hworld, unit, 'm) SM"
type_synonym ('m, 'n) hb2_env = "(u64, ptr, hb2_obj hworld, unit, 'm, 'n) env"
type_synonym ('m, 'n) hb2_ctx = "(u64, ptr, hb2_obj hworld, unit, 'm, 'n) ctx"

definition hb2_env ::
  "('m, u64, State) map_ops \<Rightarrow> ('n, u64, State) map_ops \<Rightarrow> (hb2_world \<Rightarrow> int \<times> hb2_world) \<Rightarrow> ('m, 'n) hb2_env" where
  "hb2_env d n clk =
    \<lparr>dense = d, poolOps = n,
     ident = \<lambda>w p. case w_pkts w p of None \<Rightarrow> None | Some b \<Rightarrow> hb2_identify (m_data b),
     clock = clk, timeoutFun = \<lambda>k fi. ret fi\<rparr>"

definition HelloBye2_Server_init :: "('m, 'n) hb2_env \<Rightarrow> 'm hb2_sm" where
  "HelloBye2_Server_init env =
    (let sm = new_StateMachine env;
         sm = registerEndStateID S_Terminate sm;
         sm = registerStartStateID S_Hello (Some hb2_factory) sm;
         sm = registerFunction S_Hello (Some Server_Hello_run) sm;
         sm = registerFunction S_Bye (Some Server_Bye_run) sm
     in sm)"

definition HelloBye2_Server_process ::
  "('m, 'n) hb2_env \<Rightarrow> ptr list \<Rightarrow> u32 \<Rightarrow> ('m, 'n) hb2_ctx \<Rightarrow> (('m, 'n) hb2_ctx \<times> u32 \<times> u32) res" where
  "HelloBye2_Server_process env inPkts inCount x =
    rbind (new_BufArray inPkts inCount True) (\<lambda>ba.
    rbind (runPktBatch env (x\<lparr>c_batch := ba\<rparr>)) (\<lambda>x.
    ret (x, getSendCount (c_batch x), getFreeCount (c_batch x))))"

definition HelloBye2_Server_getPkts :: "ptr bufArray \<Rightarrow> (ptr list \<times> ptr list) res" where
  "HelloBye2_Server_getPkts ba =
    rbind (getSendBufs ba) (\<lambda>s. rbind (getFreeBufs ba) (\<lambda>f. ret (s, f)))"

definition HelloBye2_Client_init :: "('m, 'n) hb2_env \<Rightarrow> 'm hb2_sm" where
  "HelloBye2_Client_init env =
    (let sm = new_StateMachine env;
         sm = registerEndStateID C_Terminate sm;
         sm = registerFunction C_Hello (Some Client_Hello_run) sm;
         sm = registerFunction C_Bye (Some Client_Bye_run) sm;
         sm = registerFunction C_RecvBye (Some Client_RecvBye_run) sm
     in sm)"

definition HelloBye2_Client_config :: "u32 \<Rightarrow> u16 \<Rightarrow> hb2_world \<Rightarrow> hb2_world res" where
  "HelloBye2_Client_config srcIP dstPort w =
    rbind (getInstance w) (\<lambda>config.
    let config = config\<lparr>cfg_srcIp := srcIP\<rparr>;
        config = config\<lparr>cfg_dstPort := dstPort\<rparr>
    in ret (heap_put config_ptr (Config config) w))"

definition HelloBye2_Client_connect ::
  "('m, 'n) hb2_env \<Rightarrow> ptr list \<Rightarrow> u32 \<Rightarrow> u32 \<Rightarrow> u16 \<Rightarrow> u64 \<Rightarrow> ('m, 'n) hb2_ctx \<Rightarrow>
     (('m, 'n) hb2_ctx \<times> u32 \<times> u32) res" where
  "HelloBye2_Client_connect env inPkts inCount dstIP srcPort idn x =
    rbind (new_BufArray inPkts inCount True) (\<lambda>ba.
    let (h, w) = Client_Hello dstIP srcPort idn (c_world x);
        (hello, w) = heap_new (CHello h) w;
        s = State_of C_Hello hello
    in rbind (addState env idn s (x\<lparr>c_batch := ba, c_world := w\<rparr>)) (\<lambda>x.
       ret (x, getSendCount (c_batch x), getFreeCount (c_batch x))))"

definition HelloBye2_Client_getPkts :: "ptr bufArray \<Rightarrow> (ptr list \<times> ptr list) res" where
  "HelloBye2_Client_getPkts ba =
    rbind (getSendBufs ba) (\<lambda>s. rbind (getFreeBufs ba) (\<lambda>f. ret (s, f)))"

definition HelloBye2_Client_process ::
  "('m, 'n) hb2_env \<Rightarrow> ptr list \<Rightarrow> u32 \<Rightarrow> ('m, 'n) hb2_ctx \<Rightarrow> (('m, 'n) hb2_ctx \<times> u32 \<times> u32) res" where
  "HelloBye2_Client_process env inPkts inCount x =
    rbind (new_BufArray inPkts inCount True) (\<lambda>ba.
    rbind (runPktBatch env (x\<lparr>c_batch := ba\<rparr>)) (\<lambda>x.
    ret (x, getSendCount (c_batch x), getFreeCount (c_batch x))))"

end
