(* ===== verification/Hello_Bye2_Sim.thy ===== *)
theory Hello_Bye2_Sim
  imports Hello_Bye2 Ownership
begin

text \<open>
  The second and the third version of the protocol do the same: a simulation between the objects of
  one connection, kept by every handler, under which the handlers answer the same packets in the same
  way and free the object at the same time.
\<close>

section \<open>Corresponding objects\<close>

definition same_outside :: "'a hworld \<Rightarrow> 'b hworld \<Rightarrow> bool" where
  "same_outside w w' \<longleftrightarrow> w_pkts w' = w_pkts w \<and> w_rand w' = w_rand w \<and> w_rnd w' = w_rnd w"

fun obj_rel :: "client_config \<Rightarrow> hb2_obj \<Rightarrow> hb_obj \<Rightarrow> bool" where
  "obj_rel cfg (SHello h) (ServerObj s) \<longleftrightarrow> s_serverCookie s = ucast (sh_serverCookie h)"
| "obj_rel cfg (SBye b) (ServerObj s) \<longleftrightarrow>
     s_serverCookie s = sb_serverCookie b \<and> s_clientCookie s = sb_clientCookie b"
| "obj_rel cfg (CHello h) (ClientObj c) \<longleftrightarrow> c_ident c = ch_ident h \<and> c_dstIp c = ch_dstIp h \<and>
     c_srcPort c = ch_srcPort h \<and> c_clientCookie c = ch_clientCookie h \<and>
     c_srcIp c = cfg_srcIp cfg \<and> c_dstPort c = cfg_dstPort cfg"
| "obj_rel cfg (CBye b) (ClientObj c) \<longleftrightarrow> c_clientCookie c = cb_clientCookie b"
| "obj_rel cfg (CRecvBye r) (ClientObj c) \<longleftrightarrow>
     c_clientCookie c = cr_clientCookie r \<and> c_serverCookie c = cr_serverCookie r"
| "obj_rel cfg _ _ \<longleftrightarrow> False"

fun_cases obj_rel_elims:
  "obj_rel cfg (SHello h) ob3" "obj_rel cfg (SBye b) ob3" "obj_rel cfg (CHello k) ob3"
  "obj_rel cfg (CBye l) ob3" "obj_rel cfg (CRecvBye r) ob3"

text \<open>The state an object belongs to, and the handlers of the two versions for it.\<close>

fun hb2_handler :: "hb2_obj \<Rightarrow> hb2_fun" where
  "hb2_handler (SHello _) = Server_Hello_run"
| "hb2_handler (SBye _) = Server_Bye_run"
| "hb2_handler (CHello _) = Client_Hello_run"
| "hb2_handler (CBye _) = Client_Bye_run"
| "hb2_handler _ = Client_RecvBye_run"

fun hb3_handler :: "hb2_obj \<Rightarrow> hb_fun" where
  "hb3_handler (SHello _) = hb3_server_runHello"
| "hb3_handler (SBye _) = hb3_server_runBye"
| "hb3_handler (CHello _) = hb3_client_runHello"
| "hb3_handler (CBye _) = hb3_client_runBye"
| "hb3_handler _ = hb3_client_runRecvBye"

fun obj_state :: "hb2_obj \<Rightarrow> StateID" where
  "obj_state (SHello _) = S_Hello"
| "obj_state (SBye _) = S_Bye"
| "obj_state (CHello _) = C_Hello"
| "obj_state (CBye _) = C_Bye"
| "obj_state _ = C_RecvBye"

fun obj_end :: "hb2_obj \<Rightarrow> StateID" where
  "obj_end (SHello _) = S_Terminate"
| "obj_end (SBye _) = S_Terminate"
| "obj_end _ = C_Terminate"

lemmas state_ids = S_Hello_def S_Bye_def S_Terminate_def C_Hello_def C_Bye_def C_RecvBye_def C_Terminate_def

lemma obj_state_end: "obj_rel cfg ob ob3 \<Longrightarrow> obj_state ob \<noteq> obj_end ob"
  by (cases ob) (auto simp: state_ids)

text \<open>The interface objects of the two versions agree on everything but the addresses.\<close>

definition same_call :: "hb2_fi \<Rightarrow> hb_fi \<Rightarrow> bool" where
  "same_call fi2 fi3 \<longleftrightarrow> same_outside (world fi2) (world fi3) \<and> state (st fi3) = state (st fi2) \<and>
     sendPkt fi3 = sendPkt fi2 \<and> immediateTransition fi3 = immediateTransition fi2 \<and>
     pktsBA fi3 = pktsBA fi2 \<and> pktIdx fi3 = pktIdx fi2 \<and> cID fi3 = cID fi2"

definition conn_sim :: "client_config \<Rightarrow> hb2_obj \<Rightarrow> hb2_fi \<Rightarrow> hb_fi \<Rightarrow> bool" where
  "conn_sim cfg ob fi2 fi3 \<longleftrightarrow> same_call fi2 fi3 \<and> state (st fi2) = obj_state ob \<and>
     heap_ok (world fi2) \<and> heap_ok (world fi3) \<and>
     w_heap (world fi2) config_ptr = Some (Config cfg) \<and>
     w_heap (world fi2) (stateData (st fi2)) = Some ob \<and>
     (\<exists>ob3. w_heap (world fi3) (stateData (st fi3)) = Some ob3 \<and> obj_rel cfg ob ob3)"

text \<open>What one call leaves: in both versions the heap changes only in the object of the connection.\<close>

definition call_outcome :: "client_config \<Rightarrow> hb2_obj \<Rightarrow> hb2_fi \<Rightarrow> hb_fi \<Rightarrow> hb2_fi \<Rightarrow> hb_fi \<Rightarrow> bool" where
  "call_outcome cfg ob fi2 fi3 fi2' fi3' \<longleftrightarrow>
     object_step (obj_end ob) fi2 fi2' \<and> object_step (obj_end ob) fi3 fi3' \<and>
     (state (st fi2') = obj_end ob \<and> same_call fi2' fi3' \<or>
      (\<exists>ob'. conn_sim cfg ob' fi2' fi3' \<and> obj_end ob' = obj_end ob))"

section \<open>The two ways a call can go\<close>

lemma heap_delete_some:
  "w_heap w p = Some ob \<Longrightarrow> heap_ok w \<Longrightarrow> heap_delete p w = ret (w\<lparr>w_heap := (w_heap w)(p := None)\<rparr>)"
  by (simp add: heap_delete_ret)

lemma outcome_end:
  assumes sim: "conn_sim cfg ob fi2 fi3"
    and "fi2' = fi2\<lparr>st := (st fi2)\<lparr>state := obj_end ob\<rparr>, sendPkt := b, world := (world fi2)\<lparr>w_pkts := P,
      w_heap := (w_heap (world fi2))(stateData (st fi2) := None)\<rparr>\<rparr>"
    and "fi3' = fi3\<lparr>st := (st fi3)\<lparr>state := obj_end ob\<rparr>, sendPkt := b, world := (world fi3)\<lparr>w_pkts := P,
      w_heap := (w_heap (world fi3))(stateData (st fi3) := None)\<rparr>\<rparr>"
  shows "call_outcome cfg ob fi2 fi3 fi2' fi3'"
  using sim by (simp add: assms(2,3) call_outcome_def object_step_def conn_sim_def same_call_def same_outside_def)

lemma outcome_next:
  assumes sim: "conn_sim cfg ob fi2 fi3" and rel: "obj_rel cfg ob' ob3'" "obj_end ob' = obj_end ob"
    and "fi2' = fi2\<lparr>st := (st fi2)\<lparr>stateData := w_next (world fi2), state := obj_state ob'\<rparr>,
      world := (world fi2)\<lparr>w_pkts := P,
        w_heap := (w_heap (world fi2))(stateData (st fi2) := None, w_next (world fi2) \<mapsto> ob'),
        w_next := Suc (w_next (world fi2))\<rparr>\<rparr>"
    and "fi3' = fi3\<lparr>st := (st fi3)\<lparr>state := obj_state ob'\<rparr>, world := (world fi3)\<lparr>w_pkts := P,
        w_heap := (w_heap (world fi3))(stateData (st fi3) \<mapsto> ob3')\<rparr>\<rparr>"
    and noconf: "\<And>c. ob \<noteq> Config c"
  shows "call_outcome cfg ob fi2 fi3 fi2' fi3'"
proof -
  have "config_ptr < w_next (world fi2)" "stateData (st fi2) \<noteq> config_ptr"
    "stateData (st fi2) < w_next (world fi2)" "stateData (st fi3) < w_next (world fi3)"
    using sim noconf by (auto simp: conn_sim_def heap_ok_def)
  moreover have "heap_ok (world fi2')" "heap_ok (world fi3')"
    using sim by (auto simp: assms(4,5) conn_sim_def heap_ok_def less_Suc_eq)
  ultimately have "conn_sim cfg ob' fi2' fi3'"
    using sim rel by (auto simp: assms(4,5) conn_sim_def same_call_def same_outside_def)
  moreover have "object_step (obj_end ob) fi2 fi2'" "object_step (obj_end ob) fi3 fi3'"
    using rel(2) \<open>stateData (st fi3) < w_next (world fi3)\<close> obj_state_end [OF rel(1)]
    by (auto simp: assms(4,5) object_step_def)
  ultimately show ?thesis using rel(2) by (auto simp: call_outcome_def)
qed

section \<open>The handlers\<close>

lemma fi_update_commute:
  "fi\<lparr>world := w, st := s\<rparr> = fi\<lparr>st := s, world := w\<rparr>"
  "fi\<lparr>world := w, sendPkt := b\<rparr> = fi\<lparr>sendPkt := b, world := w\<rparr>"
  "fi\<lparr>sendPkt := b, st := s\<rparr> = fi\<lparr>st := s, sendPkt := b\<rparr>"
  for fi :: "('c, 'p, 'w, 'k) FunIface"
  by (cases fi; simp)+

lemma w_update_commute:
  "w\<lparr>w_heap := h, w_pkts := P\<rparr> = w\<lparr>w_pkts := P, w_heap := h\<rparr>"
  "w\<lparr>w_next := n, w_heap := h\<rparr> = w\<lparr>w_heap := h, w_next := n\<rparr>"
  "w\<lparr>w_next := n, w_pkts := P\<rparr> = w\<lparr>w_pkts := P, w_next := n\<rparr>"
  "w\<lparr>w_heap := w_heap w\<rparr> = w" "w\<lparr>w_pkts := w_pkts w\<rparr> = w"
  for w :: "'o hworld"
  by (cases w; simp)+

lemma reject_sim:
  assumes sim: "conn_sim cfg ob fi2 fi3"
  shows "\<exists>fi2' fi3'. hb2_delete (stateData (st fi2)) (hb2_reject (obj_end ob) fi2) = ret fi2' \<and>
     hb_terminate (obj_end ob) fi3 = ret fi3' \<and> call_outcome cfg ob fi2 fi3 fi2' fi3'"
proof -
  obtain ob3 where h: "w_heap (world fi2) (stateData (st fi2)) = Some ob" "heap_ok (world fi2)"
    "w_heap (world fi3) (stateData (st fi3)) = Some ob3" "heap_ok (world fi3)"
    using sim by (auto simp: conn_sim_def)
  have P: "w_pkts (world fi3) = w_pkts (world fi2)" using sim by (simp add: conn_sim_def same_call_def same_outside_def)
  let ?fi2 = "fi2\<lparr>st := (st fi2)\<lparr>state := obj_end ob\<rparr>, sendPkt := False, world := (world fi2)\<lparr>w_pkts := w_pkts (world fi2),
      w_heap := (w_heap (world fi2))(stateData (st fi2) := None)\<rparr>\<rparr>"
  let ?fi3 = "fi3\<lparr>st := (st fi3)\<lparr>state := obj_end ob\<rparr>, sendPkt := False, world := (world fi3)\<lparr>w_pkts := w_pkts (world fi2),
      w_heap := (w_heap (world fi3))(stateData (st fi3) := None)\<rparr>\<rparr>"
  have "hb2_delete (stateData (st fi2)) (hb2_reject (obj_end ob) fi2) = ret ?fi2"
    using h by (simp add: hb2_delete_def hb2_reject_def heap_delete_some freePkt_def transition_def w_update_commute)
  moreover have "hb_terminate (obj_end ob) fi3 = ret ?fi3"
    using h by (simp add: hb_terminate_def heap_delete_some freePkt_def transition_def fi_update_commute
        P [symmetric] w_update_commute)
  ultimately show ?thesis using outcome_end [OF sim refl refl] by blast
qed

lemma fun_upd_replace:
  "p \<noteq> q \<Longrightarrow> f(p := x, q := y, p := z) = f(p := z, q := y)"
  "p \<noteq> q \<Longrightarrow> f(q := y, p := z) = f(p := z, q := y)"
  by (auto simp: fun_eq_iff)

text \<open>Everything a proof about one call needs from the simulation.\<close>

lemma conn_simD:
  assumes "conn_sim cfg ob fi2 fi3" and "w_pkts (world fi2) pkt = Some b"
  obtains ob3 where "w_heap (world fi2) (stateData (st fi2)) = Some ob" "heap_ok (world fi2)"
    "w_heap (world fi3) (stateData (st fi3)) = Some ob3" "heap_ok (world fi3)" "obj_rel cfg ob ob3"
    "w_pkts (world fi3) = w_pkts (world fi2)" "w_pkts (world fi3) pkt = Some b"
    "w_heap (world fi2) config_ptr = Some (Config cfg)" "stateData (st fi2) \<noteq> w_next (world fi2)"
proof -
  obtain ob3 where o: "w_heap (world fi3) (stateData (st fi3)) = Some ob3" "obj_rel cfg ob ob3"
    using assms(1) by (auto simp: conn_sim_def)
  have "stateData (st fi2) < w_next (world fi2)" using assms(1) by (auto simp: conn_sim_def heap_ok_def)
  then show ?thesis
    using assms o by (intro that [OF _ _ o(1) _ o(2)]) (auto simp: conn_sim_def same_call_def same_outside_def)
qed

text \<open>The replacement of the object, in the form of \<open>outcome_next\<close>.\<close>

lemma replace_eq:
  assumes "w_heap (world fi) (stateData (st fi)) = Some x0" "heap_ok (world fi)"
    and "w_heap w = (w_heap (world fi))(stateData (st fi) \<mapsto> x)" "w_next w = w_next (world fi)"
    "w_pkts w = P" "w_rand w = w_rand (world fi)" "w_rnd w = w_rnd (world fi)"
  shows "hb2_replace (stateData (st fi)) ob' (transition sid (fi\<lparr>world := w\<rparr>)) =
    ret (fi\<lparr>st := (st fi)\<lparr>stateData := w_next (world fi), state := sid\<rparr>,
      world := (world fi)\<lparr>w_pkts := P,
        w_heap := (w_heap (world fi))(stateData (st fi) := None, w_next (world fi) \<mapsto> ob'),
        w_next := Suc (w_next (world fi))\<rparr>\<rparr>)"
proof -
  have lt: "0 < stateData (st fi)" "stateData (st fi) < w_next (world fi)"
    using assms(1,2) by (auto simp: heap_ok_def)
  have "w = (world fi)\<lparr>w_pkts := P, w_heap := (w_heap (world fi))(stateData (st fi) \<mapsto> x)\<rparr>"
    using assms(3-7) by (intro hworld.equality) simp_all
  then show ?thesis
    using lt by (cases fi) (simp add: hb2_replace_def hb2_delete_def heap_new_def heap_delete_def
        transition_def fun_upd_replace)
qed

definition hb_udp :: "mem \<Rightarrow> nat" where "hb_udp m = ip_getPayload 14 m"
definition hb_msg :: "mem \<Rightarrow> nat" where "hb_msg m = udp_getPayload (hb_udp m)"

lemma hb_addr: "eth_getPayload 0 = 14" "ip_getPayload 14 m = hb_udp m" "udp_getPayload (hb_udp m) = hb_msg m"
  by (simp_all add: eth_getPayload_def sizeof_Ethernet_def hb_udp_def hb_msg_def)

text \<open>The connection's object written, the packets changed, then a transition.\<close>

definition hb_upd :: "'o \<Rightarrow> (ptr \<rightharpoonup> mbuf) \<Rightarrow> StateID \<Rightarrow> ('c, ptr, 'o hworld, 'k) FunIface \<Rightarrow> ('c, ptr, 'o hworld, 'k) FunIface" where
  "hb_upd x P sid fi = transition sid (fi\<lparr>world :=
     (world fi)\<lparr>w_heap := (w_heap (world fi))(stateData (st fi) \<mapsto> x), w_pkts := P\<rparr>\<rparr>)"

lemma hb_upd_simps [simp]:
  "state (st (hb_upd x P sid fi)) = sid"
  "heap_get (stateData (st fi)) (world (hb_upd x P sid fi)) = ret x"
  by (simp_all add: hb_upd_def heap_get_def)

lemma ucast_8_32 [simp]: "ucast (ucast (x :: u8) :: u32) = x"
  by (rule bit_word_eqI) (simp add: bit_ucast_iff)

text \<open>The next state with a new object in the second version, the old object updated in the third.\<close>

lemma next_sim:
  assumes sim: "conn_sim cfg ob fi2 fi3" and noconf: "\<And>c. ob \<noteq> Config c"
    and rel: "obj_rel cfg ob' ob3'" "obj_end ob' = obj_end ob"
  shows "\<exists>fi2'. hb2_replace (stateData (st fi2)) ob' (hb_upd x P (obj_state ob') fi2) = ret fi2' \<and>
     call_outcome cfg ob fi2 fi3 fi2' (hb_upd ob3' P (obj_state ob') fi3)"
proof -
  have h: "w_heap (world fi2) (stateData (st fi2)) = Some ob" "heap_ok (world fi2)"
    using sim by (simp_all add: conn_sim_def)
  let ?fi2 = "fi2\<lparr>st := (st fi2)\<lparr>stateData := w_next (world fi2), state := obj_state ob'\<rparr>,
      world := (world fi2)\<lparr>w_pkts := P,
        w_heap := (w_heap (world fi2))(stateData (st fi2) := None, w_next (world fi2) \<mapsto> ob'),
        w_next := Suc (w_next (world fi2))\<rparr>\<rparr>"
  let ?fi3 = "fi3\<lparr>st := (st fi3)\<lparr>state := obj_state ob'\<rparr>, world := (world fi3)\<lparr>w_pkts := P,
        w_heap := (w_heap (world fi3))(stateData (st fi3) \<mapsto> ob3')\<rparr>\<rparr>"
  have "hb2_replace (stateData (st fi2)) ob' (hb_upd x P (obj_state ob') fi2) = ret ?fi2"
    unfolding hb_upd_def by (rule replace_eq [OF h]) simp_all
  moreover have "hb_upd ob3' P (obj_state ob') fi3 = ?fi3"
    by (cases fi3) (simp add: hb_upd_def transition_def w_update_commute)
  ultimately show ?thesis using outcome_next [OF sim rel refl refl noconf] by auto
qed

text \<open>The hypotheses of the five cases.\<close>

lemma sim_heaps:
  assumes "conn_sim cfg ob fi2 fi3" and "w_pkts (world fi2) pkt = Some b"
  obtains ob3 where "heap_get (stateData (st fi2)) (world fi2) = ret ob"
    "heap_get (stateData (st fi3)) (world fi3) = ret ob3" "obj_rel cfg ob ob3"
    "w_pkts (world fi3) = w_pkts (world fi2)" "w_pkts (world fi3) pkt = Some b"
    "heap_get config_ptr (world fi2) = ret (Config cfg)"
  by (rule conn_simD [OF assms]) (auto simp: heap_get_def)

lemma server_hello_sim:
  assumes sim: "conn_sim cfg (SHello h) fi2 fi3" and b: "w_pkts (world fi2) pkt = Some b"
  shows "\<exists>fi2' fi3'. Server_Hello_run pkt fi2 = ret fi2' \<and> hb3_server_runHello pkt fi3 = ret fi3' \<and>
     call_outcome cfg (SHello h) fi2 fi3 fi2' fi3'"
proof -
  obtain s where D: "heap_get (stateData (st fi2)) (world fi2) = ret (SHello h)"
    "heap_get (stateData (st fi3)) (world fi3) = ret (ServerObj s)" "s_serverCookie s = ucast (sh_serverCookie h)"
    "w_pkts (world fi3) = w_pkts (world fi2)" "w_pkts (world fi3) pkt = Some b"
    by (rule sim_heaps [OF assms]) (auto elim!: obj_rel_elims)
  let ?m = "m_data b" and ?c = "msg_cookie (hb_msg (m_data b)) (m_data b)"
  show ?thesis
  proof (cases "msg_role (hb_msg ?m) ?m \<noteq> 0 \<or> msg_msg (hb_msg ?m) ?m \<noteq> 0")
    case True
    have "Server_Hello_run pkt fi2 = hb2_delete (stateData (st fi2)) (hb2_reject S_Terminate fi2)"
      using b True by (auto simp: Server_Hello_run_def Server_Hello_fun_def Let_def getData_def hb_addr
          hb2_reject_def state_ids)
    moreover have "hb3_server_runHello pkt fi3 = hb_terminate S_Terminate fi3"
      using D True by (auto simp: hb3_server_runHello_def Let_def getData_def hb_addr)
    ultimately show ?thesis using reject_sim [OF sim] by simp
  next
    case False
    define m' where "m' = hb_turn_around 14 (hb_udp ?m) (set_cookie (hb_msg ?m) (sh_serverCookie h)
        (set_msg (hb_msg ?m) MSG_HELLO (set_role (hb_msg ?m) ROLE_SERVER ?m)))"
    define P where "P = (w_pkts (world fi2))(pkt \<mapsto> b\<lparr>m_data := m'\<rparr>)"
    define h' where "h' = h\<lparr>sh_clientCookie := ?c\<rparr>"
    have "Server_Hello_fun (stateData (st fi2)) pkt fi2 = ret (hb_upd (SHello h') P S_Bye fi2)"
      using b False D by (simp add: Server_Hello_fun_def Let_def getData_def hb_addr as_shello_def
          heap_put_def writeData_def P_def m'_def h'_def hb_upd_def)
    then have "Server_Hello_run pkt fi2 =
        hb2_replace (stateData (st fi2)) (SBye (Server_Bye h')) (hb_upd (SHello h') P S_Bye fi2)"
      by (simp add: Server_Hello_run_def Let_def as_shello_def)
    moreover have "hb3_server_runHello pkt fi3 =
        ret (hb_upd (ServerObj (s\<lparr>s_clientCookie := ucast ?c\<rparr>)) P S_Bye fi3)"
      using D False by (simp add: hb3_server_runHello_def Let_def getData_def hb_addr get_server_def
          heap_put_def writeData_def P_def m'_def hb_upd_def)
    ultimately show ?thesis
      using next_sim [OF sim, of "SBye (Server_Bye h')" "ServerObj (s\<lparr>s_clientCookie := ucast ?c\<rparr>)" "SHello h'" P] D
      by (simp add: Server_Bye_def h'_def)
  qed
qed

lemma client_bye_sim:
  assumes sim: "conn_sim cfg (CBye k) fi2 fi3" and b: "w_pkts (world fi2) pkt = Some b"
  shows "\<exists>fi2' fi3'. Client_Bye_run pkt fi2 = ret fi2' \<and> hb3_client_runBye pkt fi3 = ret fi3' \<and>
     call_outcome cfg (CBye k) fi2 fi3 fi2' fi3'"
proof -
  obtain c where D: "heap_get (stateData (st fi2)) (world fi2) = ret (CBye k)"
    "heap_get (stateData (st fi3)) (world fi3) = ret (ClientObj c)" "c_clientCookie c = cb_clientCookie k"
    "w_pkts (world fi3) = w_pkts (world fi2)" "w_pkts (world fi3) pkt = Some b"
    by (rule sim_heaps [OF assms]) (auto elim!: obj_rel_elims)
  let ?m = "m_data b" and ?c = "ucast (msg_cookie (hb_msg (m_data b)) (m_data b)) :: u32"
  show ?thesis
  proof (cases "msg_role (hb_msg ?m) ?m \<noteq> ROLE_SERVER \<or> msg_msg (hb_msg ?m) ?m \<noteq> MSG_HELLO")
    case True
    have "Client_Bye_run pkt fi2 = hb2_delete (stateData (st fi2)) (hb2_reject C_Terminate fi2)"
      using b True by (auto simp: Client_Bye_run_def Client_Bye_fun_def Let_def getData_def hb_addr
          hb2_reject_def state_ids)
    moreover have "hb3_client_runBye pkt fi3 = hb_terminate C_Terminate fi3"
      using D True by (auto simp: hb3_client_runBye_def Let_def getData_def hb_addr)
    ultimately show ?thesis using reject_sim [OF sim] by simp
  next
    case False
    define m' where "m' = hb_turn_around 14 (hb_udp ?m) (set_msg (hb_msg ?m) MSG_BYE
        (set_role (hb_msg ?m) ROLE_CLIENT (set_cookie (hb_msg ?m) (ucast ?c) ?m)))"
    define P where "P = (w_pkts (world fi2))(pkt \<mapsto> b\<lparr>m_data := m'\<rparr>)"
    define k' where "k' = k\<lparr>cb_serverCookie := ?c\<rparr>"
    have "Client_Bye_fun (stateData (st fi2)) pkt fi2 = ret (hb_upd (CBye k') P C_RecvBye fi2)"
      using b False D by (simp add: Client_Bye_fun_def Let_def getData_def hb_addr as_cbye_def
          heap_put_def writeData_def P_def m'_def k'_def hb_upd_def)
    then have "Client_Bye_run pkt fi2 =
        hb2_replace (stateData (st fi2)) (CRecvBye (Client_RecvBye k')) (hb_upd (CBye k') P C_RecvBye fi2)"
      by (simp add: Client_Bye_run_def Let_def as_cbye_def)
    moreover have "hb3_client_runBye pkt fi3 = ret (hb_upd (ClientObj (c\<lparr>c_serverCookie := ?c\<rparr>)) P C_RecvBye fi3)"
      using D False by (simp add: hb3_client_runBye_def Let_def getData_def hb_addr get_client_def
          heap_put_def writeData_def P_def m'_def hb_upd_def)
    ultimately show ?thesis
      using next_sim [OF sim, of "CRecvBye (Client_RecvBye k')" "ClientObj (c\<lparr>c_serverCookie := ?c\<rparr>)" "CBye k'" P] D
      by (simp add: Client_RecvBye_def k'_def)
  qed
qed

text \<open>The last state: both versions delete the object.\<close>

definition hb_end :: "(ptr \<rightharpoonup> mbuf) \<Rightarrow> bool \<Rightarrow> StateID \<Rightarrow> ('c, ptr, 'o hworld, 'k) FunIface \<Rightarrow> ('c, ptr, 'o hworld, 'k) FunIface" where
  "hb_end P b sid fi = fi\<lparr>st := (st fi)\<lparr>state := sid\<rparr>, sendPkt := b, world := (world fi)\<lparr>w_pkts := P,
      w_heap := (w_heap (world fi))(stateData (st fi) := None)\<rparr>\<rparr>"

lemma end_sim:
  assumes "conn_sim cfg ob fi2 fi3"
  shows "call_outcome cfg ob fi2 fi3 (hb_end P b (obj_end ob) fi2) (hb_end P b (obj_end ob) fi3)"
  by (rule outcome_end [OF assms]) (simp_all add: hb_end_def)

lemma sim_delete:
  assumes "conn_sim cfg ob fi2 fi3"
  shows "heap_delete (stateData (st fi2)) ((world fi2)\<lparr>w_pkts := P\<rparr>) =
      ret ((world fi2)\<lparr>w_pkts := P, w_heap := (w_heap (world fi2))(stateData (st fi2) := None)\<rparr>)"
    and "heap_delete (stateData (st fi2)) (world fi2) =
      ret ((world fi2)\<lparr>w_heap := (w_heap (world fi2))(stateData (st fi2) := None)\<rparr>)"
    and "heap_delete (stateData (st fi3)) ((world fi3)\<lparr>w_pkts := P\<rparr>) =
      ret ((world fi3)\<lparr>w_pkts := P, w_heap := (w_heap (world fi3))(stateData (st fi3) := None)\<rparr>)"
    and "heap_delete (stateData (st fi3)) (world fi3) =
      ret ((world fi3)\<lparr>w_heap := (w_heap (world fi3))(stateData (st fi3) := None)\<rparr>)"
  using assms by (auto simp: conn_sim_def heap_delete_def heap_ok_def)

lemma server_bye_sim:
  assumes sim: "conn_sim cfg (SBye k) fi2 fi3" and b: "w_pkts (world fi2) pkt = Some b"
  shows "\<exists>fi2' fi3'. Server_Bye_run pkt fi2 = ret fi2' \<and> hb3_server_runBye pkt fi3 = ret fi3' \<and>
     call_outcome cfg (SBye k) fi2 fi3 fi2' fi3'"
proof -
  obtain s where D: "heap_get (stateData (st fi2)) (world fi2) = ret (SBye k)"
    "heap_get (stateData (st fi3)) (world fi3) = ret (ServerObj s)"
    "s_serverCookie s = sb_serverCookie k" "s_clientCookie s = sb_clientCookie k"
    "w_pkts (world fi3) = w_pkts (world fi2)" "w_pkts (world fi3) pkt = Some b"
    by (rule sim_heaps [OF assms]) (auto elim!: obj_rel_elims)
  let ?m = "m_data b"
  show ?thesis
  proof (cases "msg_role (hb_msg ?m) ?m \<noteq> ROLE_CLIENT \<or> msg_msg (hb_msg ?m) ?m \<noteq> MSG_BYE \<or>
      ucast (msg_cookie (hb_msg ?m) ?m) \<noteq> sb_serverCookie k")
    case True
    have "Server_Bye_run pkt fi2 = hb2_delete (stateData (st fi2)) (hb2_reject S_Terminate fi2)"
      using b True D by (auto simp: Server_Bye_run_def Server_Bye_fun_def Let_def getData_def hb_addr
          hb2_reject_def state_ids as_sbye_def)
    moreover have "hb3_server_runBye pkt fi3 = hb_terminate S_Terminate fi3"
      using D True by (auto simp: hb3_server_runBye_def Let_def getData_def hb_addr get_server_def)
    ultimately show ?thesis using reject_sim [OF sim] by simp
  next
    case False
    define m' where "m' = hb_turn_around 14 (hb_udp ?m) (set_msg (hb_msg ?m) MSG_BYE
        (set_role (hb_msg ?m) ROLE_SERVER (set_cookie (hb_msg ?m) (ucast (sb_clientCookie k)) ?m)))"
    define P where "P = (w_pkts (world fi2))(pkt \<mapsto> b\<lparr>m_data := m'\<rparr>)"
    have sp: "sendPkt fi3 = sendPkt fi2" using sim by (simp add: conn_sim_def same_call_def)
    have "Server_Bye_fun (stateData (st fi2)) pkt fi2 = ret (transition S_Terminate (fi2\<lparr>world := (world fi2)\<lparr>w_pkts := P\<rparr>\<rparr>))"
      using b False D by (simp add: Server_Bye_fun_def Let_def getData_def hb_addr as_sbye_def
          writeData_def P_def m'_def)
    then have "Server_Bye_run pkt fi2 = ret (hb_end P (sendPkt fi2) S_Terminate fi2)"
      by (cases fi2) (use sim_delete [OF sim] in \<open>simp add: Server_Bye_run_def Let_def hb2_delete_def hb_end_def transition_def\<close>)
    moreover have "hb3_server_runBye pkt fi3 = ret (hb_end P (sendPkt fi2) S_Terminate fi3)"
      using D False sim_delete [OF sim] sp by (cases fi3) (simp add: hb3_server_runBye_def Let_def getData_def hb_addr get_server_def
          writeData_def P_def m'_def hb_end_def transition_def)
    ultimately show ?thesis using end_sim [OF sim, of P "sendPkt fi2"] by simp
  qed
qed

lemma client_recvbye_sim:
  assumes sim: "conn_sim cfg (CRecvBye k) fi2 fi3" and b: "w_pkts (world fi2) pkt = Some b"
  shows "\<exists>fi2' fi3'. Client_RecvBye_run pkt fi2 = ret fi2' \<and> hb3_client_runRecvBye pkt fi3 = ret fi3' \<and>
     call_outcome cfg (CRecvBye k) fi2 fi3 fi2' fi3'"
proof -
  obtain c where D: "heap_get (stateData (st fi2)) (world fi2) = ret (CRecvBye k)"
    "heap_get (stateData (st fi3)) (world fi3) = ret (ClientObj c)" "c_clientCookie c = cr_clientCookie k"
    "w_pkts (world fi3) = w_pkts (world fi2)" "w_pkts (world fi3) pkt = Some b"
    by (rule sim_heaps [OF assms]) (auto elim!: obj_rel_elims)
  let ?m = "m_data b"
  have same: "w\<lparr>w_pkts := w_pkts w, w_heap := h\<rparr> = w\<lparr>w_heap := h\<rparr>" for w :: "'o hworld" and h by simp
  show ?thesis
  proof (cases "msg_role (hb_msg ?m) ?m \<noteq> ROLE_SERVER \<or> msg_msg (hb_msg ?m) ?m \<noteq> MSG_BYE \<or>
      ucast (msg_cookie (hb_msg ?m) ?m) \<noteq> cr_clientCookie k")
    case True
    have "Client_RecvBye_run pkt fi2 = hb2_delete (stateData (st fi2)) (hb2_reject C_Terminate fi2)"
      using b True D by (auto simp: Client_RecvBye_run_def Client_RecvBye_fun_def Let_def getData_def hb_addr
          hb2_reject_def state_ids as_crecv_def)
    moreover have "hb3_client_runRecvBye pkt fi3 = hb_terminate C_Terminate fi3"
      using D True by (auto simp: hb3_client_runRecvBye_def Let_def getData_def hb_addr get_client_def)
    ultimately show ?thesis using reject_sim [OF sim] by simp
  next
    case False
    let ?P = "w_pkts (world fi2)"
    have "Client_RecvBye_run pkt fi2 = ret (hb_end ?P False C_Terminate fi2)"
      using b False D sim_delete [OF sim]
      by (cases fi2) (simp add: Client_RecvBye_run_def Client_RecvBye_fun_def Let_def getData_def hb_addr
          as_crecv_def hb2_delete_def hb_end_def transition_def freePkt_def)
    moreover have "hb3_client_runRecvBye pkt fi3 = ret (hb_end ?P False C_Terminate fi3)"
      using D False sim_delete [OF sim]
      by (cases fi3) (simp add: hb3_client_runRecvBye_def Let_def getData_def hb_addr get_client_def
          hb_end_def transition_def freePkt_def D(4) [symmetric])
    ultimately show ?thesis using end_sim [OF sim, of ?P False] by simp
  qed
qed

lemma client_hello_sim:
  assumes sim: "conn_sim cfg (CHello k) fi2 fi3" and b: "w_pkts (world fi2) pkt = Some b"
  shows "\<exists>fi2' fi3'. Client_Hello_run pkt fi2 = ret fi2' \<and> hb3_client_runHello pkt fi3 = ret fi3' \<and>
     call_outcome cfg (CHello k) fi2 fi3 fi2' fi3'"
proof -
  obtain c where D: "heap_get (stateData (st fi2)) (world fi2) = ret (CHello k)"
    "heap_get (stateData (st fi3)) (world fi3) = ret (ClientObj c)" "obj_rel cfg (CHello k) (ClientObj c)"
    "w_pkts (world fi3) = w_pkts (world fi2)" "w_pkts (world fi3) pkt = Some b"
    "heap_get config_ptr (world fi2) = ret (Config cfg)"
    by (rule sim_heaps [OF assms]) (auto elim!: obj_rel_elims)
  have keep2: "w_heap (world fi2) (stateData (st fi2)) = Some (CHello k)"
    and keep3: "w_heap (world fi3) (stateData (st fi3)) = Some (ClientObj c)"
    using D(1,2) by (auto simp: heap_get_def split: option.splits)
  obtain m' where r2: "Client_Hello_fun (stateData (st fi2)) pkt fi2 =
      ret (transition C_Bye (fi2\<lparr>world := (world fi2)\<lparr>w_pkts := (w_pkts (world fi2))(pkt \<mapsto> b\<lparr>m_data := m'\<rparr>)\<rparr>\<rparr>))"
    and r3: "hb3_client_runHello pkt fi3 =
      ret (transition C_Bye (fi3\<lparr>world := (world fi3)\<lparr>w_pkts := (w_pkts (world fi2))(pkt \<mapsto> b\<lparr>m_data := m'\<rparr>)\<rparr>\<rparr>))"
    using D b by (simp add: Client_Hello_fun_def hb3_client_runHello_def Let_def getData_def getDataLen_def
        writeData_def getInstance_def as_chello_def get_client_def)
  define P where "P = (w_pkts (world fi2))(pkt \<mapsto> b\<lparr>m_data := m'\<rparr>)"
  have "fi2\<lparr>world := (world fi2)\<lparr>w_pkts := P\<rparr>\<rparr> =
      fi2\<lparr>world := (world fi2)\<lparr>w_heap := (w_heap (world fi2))(stateData (st fi2) \<mapsto> CHello k), w_pkts := P\<rparr>\<rparr>"
    using keep2 by (cases "world fi2") (simp add: fun_upd_idem)
  then have u2: "Client_Hello_fun (stateData (st fi2)) pkt fi2 = ret (hb_upd (CHello k) P C_Bye fi2)"
    using r2 by (simp add: hb_upd_def P_def)
  have "fi3\<lparr>world := (world fi3)\<lparr>w_pkts := P\<rparr>\<rparr> =
      fi3\<lparr>world := (world fi3)\<lparr>w_heap := (w_heap (world fi3))(stateData (st fi3) \<mapsto> ClientObj c), w_pkts := P\<rparr>\<rparr>"
    using keep3 by (cases "world fi3") (simp add: fun_upd_idem)
  then have u3: "hb3_client_runHello pkt fi3 = ret (hb_upd (ClientObj c) P C_Bye fi3)"
    using r3 by (simp add: hb_upd_def P_def)
  have "Client_Hello_run pkt fi2 =
      hb2_replace (stateData (st fi2)) (CBye (Client_Bye k)) (hb_upd (CHello k) P C_Bye fi2)"
    by (simp add: Client_Hello_run_def Let_def as_chello_def u2)
  then show ?thesis
    using next_sim [OF sim, of "CBye (Client_Bye k)" "ClientObj c" "CHello k" P] D u3
    by (simp add: Client_Bye_def)
qed

end
