(* ===== verification/Hello_Bye2_Props.thy ===== *)
theory Hello_Bye2_Props
  imports Hello_Bye2_Sim Hello_Bye3_Props
begin

text \<open>
  The properties of the second version: it refines the third one, connection by connection, from
  the creation of the object to its deletion, and its handlers meet the contract of the state machine.
\<close>

section \<open>The contract of the state machine\<close>

lemma hb2_frames:
  assumes "fi_ok fi"
  shows "hb2_delete t fi' = ret fi'' \<Longrightarrow> fi_frame fi fi' \<Longrightarrow> fi_frame fi fi''"
    and "hb2_replace t ob fi' = ret fi'' \<Longrightarrow> fi_frame fi fi' \<Longrightarrow> fi_frame fi fi''"
    and "fi_frame fi fi' \<Longrightarrow> fi_frame fi (hb2_reject sid fi')"
  by (auto simp: hb2_delete_def hb2_replace_def hb2_reject_def heap_new_def rbind_eq_ret fi_frame_def)

lemma hb2_fun_frames:
  assumes "fi_ok fi"
  shows "Server_Hello_fun t pkt fi = ret fi' \<Longrightarrow> fi_frame fi fi'"
    and "Server_Bye_fun t pkt fi = ret fi' \<Longrightarrow> fi_frame fi fi'"
    and "Client_Hello_fun t pkt fi = ret fi' \<Longrightarrow> fi_frame fi fi'"
    and "Client_Bye_fun t pkt fi = ret fi' \<Longrightarrow> fi_frame fi fi'"
    and "Client_RecvBye_fun t pkt fi = ret fi' \<Longrightarrow> fi_frame fi fi'"
  by (auto simp: Server_Hello_fun_def Server_Bye_fun_def Client_Hello_fun_def Client_Bye_fun_def
      Client_RecvBye_fun_def Let_def rbind_eq_ret hb2_reject_def split: if_splits
      intro!: fi_frame_same [OF assms])

interpretation hb2_s_hello: state_function Server_Hello_run
  by unfold_locales (auto simp: Server_Hello_run_def Let_def rbind_eq_ret split: if_splits
      dest: hb2_fun_frames hb2_frames)

interpretation hb2_s_bye: state_function Server_Bye_run
  by unfold_locales (auto simp: Server_Bye_run_def Let_def rbind_eq_ret split: if_splits
      dest: hb2_fun_frames hb2_frames)

interpretation hb2_c_hello: state_function Client_Hello_run
  by unfold_locales (auto simp: Client_Hello_run_def Let_def rbind_eq_ret split: if_splits
      dest: hb2_fun_frames hb2_frames)

interpretation hb2_c_bye: state_function Client_Bye_run
  by unfold_locales (auto simp: Client_Bye_run_def Let_def rbind_eq_ret split: if_splits
      dest: hb2_fun_frames hb2_frames)

interpretation hb2_c_recvbye: state_function Client_RecvBye_run
  by unfold_locales (auto simp: Client_RecvBye_run_def Let_def rbind_eq_ret split: if_splits
      dest: hb2_fun_frames hb2_frames)

section \<open>Refinement\<close>

lemma handlers_sim:
  assumes "conn_sim cfg ob fi2 fi3" and "w_pkts (world fi2) pkt = Some b"
  shows "\<exists>fi2' fi3'. hb2_handler ob pkt fi2 = ret fi2' \<and> hb3_handler ob pkt fi3 = ret fi3' \<and>
    call_outcome cfg ob fi2 fi3 fi2' fi3'"
  using assms server_hello_sim server_bye_sim client_hello_sim client_bye_sim client_recvbye_sim
  by (cases ob) (auto simp: conn_sim_def)

text \<open>
  C18.  The two versions of the protocol agree: as long as a connection's objects correspond
  (\<open>conn_sim\<close>), the handlers of both versions return on every packet, make the same changes to the
  packets, take the same transition and free the packet or not alike; they touch no other object,
  and either both reach the end state with the object of the connection deleted, or the objects they leave,
  a newly allocated one in the second version, correspond again.
\<close>

theorem hb2_simulates_hb3:
  assumes "conn_sim cfg ob fi2 fi3" and "pkt \<in> dom (w_pkts (world fi2))"
  shows "\<exists>fi2' fi3'. hb2_handler ob pkt fi2 = ret fi2' \<and> hb3_handler ob pkt fi3 = ret fi3' \<and>
    call_outcome cfg ob fi2 fi3 fi2' fi3'"
  using assms handlers_sim by blast

text \<open>A server with one packet and its object, in the two versions.\<close>

definition hb2_ex_fi :: hb2_fi where
  "hb2_ex_fi = new_FunIface \<lparr>getPktCB = None, curTimeoutID = 0, timeoutsQ = [], timeoutFunctions = Map.empty\<rparr>
     0 (c_batch (hb_ex_ctx 0)) 5 (State_of S_Hello 2)
     \<lparr>w_pkts = w_pkts (hb_ex_world 0),
      w_heap = [1 \<mapsto> Config \<lparr>cfg_srcIp = 0, cfg_dstPort = 0\<rparr>,
        2 \<mapsto> SHello \<lparr>sh_clientCookie = 0, sh_serverCookie = 7\<rparr>],
      w_next = 3, w_rand = (\<lambda>_. 7), w_rnd = 1\<rparr>"

definition hb2_ex_fi3 :: hb_fi where
  "hb2_ex_fi3 = new_FunIface \<lparr>getPktCB = None, curTimeoutID = 0, timeoutsQ = [], timeoutFunctions = Map.empty\<rparr>
     0 (c_batch (hb_ex_ctx 0)) 5 (State_of S_Hello 1)
     \<lparr>w_pkts = w_pkts (hb_ex_world 0),
      w_heap = [1 \<mapsto> ServerObj \<lparr>s_clientCookie = 0, s_serverCookie = 7\<rparr>],
      w_next = 2, w_rand = (\<lambda>_. 7), w_rnd = 1\<rparr>"

theorem hb2_simulates_hb3_witness:
  "\<exists>fi2' fi3'. Server_Hello_run 1 hb2_ex_fi = ret fi2' \<and> hb3_server_runHello 1 hb2_ex_fi3 = ret fi3' \<and>
    call_outcome \<lparr>cfg_srcIp = 0, cfg_dstPort = 0\<rparr> (SHello \<lparr>sh_clientCookie = 0, sh_serverCookie = 7\<rparr>)
      hb2_ex_fi hb2_ex_fi3 fi2' fi3'"
proof -
  have "conn_sim \<lparr>cfg_srcIp = 0, cfg_dstPort = 0\<rparr> (SHello \<lparr>sh_clientCookie = 0, sh_serverCookie = 7\<rparr>)
      hb2_ex_fi hb2_ex_fi3"
    by (simp add: conn_sim_def same_call_def same_outside_def heap_ok_def hb2_ex_fi_def hb2_ex_fi3_def
        new_FunIface_def State_of_def S_Hello_def config_ptr_def)
  from hb2_simulates_hb3 [OF this, of 1] show ?thesis
    by (simp add: hb2_ex_fi_def new_FunIface_def hb_ex_world_def)
qed

end
