(* ===== verification/Hello_Bye_Service.thy ===== *)
theory Hello_Bye_Service
  imports Hello_Bye_Spec Hello_Bye2_Props
begin

text \<open>
  The servers of the third and the second version from their start: both implement \<open>hb_service\<close>.  Given any
  batches, they report what the service reports, for ever, and never fail.
\<close>

section \<open>The third version\<close>

text \<open>The program before the first packet.\<close>

definition hb3_boot :: "(nat \<Rightarrow> u32) \<Rightarrow> hb_obj hworld" where
  "hb3_boot rnd = \<lparr>w_pkts = Map.empty, w_heap = Map.empty, w_next = 1, w_rand = rnd, w_rnd = 0\<rparr>"

definition hb3_server :: "('m, 'n) hb_env \<Rightarrow> ptr bufArray \<Rightarrow> (nat \<Rightarrow> u32) \<Rightarrow> ('m, 'n) hb_ctx" where
  "hb3_server env ba rnd = fresh_ctx (poolOps env) (HelloBye3_Server_init env) ba (hb3_boot rnd)"

definition hb3_serve ::
  "('m, 'n) hb_env \<Rightarrow> (ptr list \<times> (ptr \<rightharpoonup> mbuf)) list \<Rightarrow> ('m, 'n) hb_ctx \<Rightarrow> ((ptr, mbuf) report list \<times> ('m, 'n) hb_ctx) res" where
  "hb3_serve env = serve w_pkts put_pkts (HelloBye3_Server_process env) HelloBye3_Server_getPkts"

lemma process3: "HelloBye3_Server_process = process_batch" "HelloBye3_Server_getPkts = take_packets"
  by (simp_all add: fun_eq_iff HelloBye3_Server_process_def HelloBye3_Server_getPkts_def process_batch_def take_packets_def)

lemma spec_stops: "stops_with (\<lambda>e. e = Thrown \<and> (\<exists>k. full k)) (hb_spec_serve rnd full bs)"
  unfolding hb_spec_serve_def by (rule spec_serve_stops) (auto simp: hb_open_def)

lemma never_full: "\<exists>out s. hb_spec_serve rnd (\<lambda>_. False) bs = ret (out, s)"
  using spec_stops [of "\<lambda>_. False" rnd bs] by (auto simp: stops_with_cases)

text \<open>
  C13.  The server of the third version is exactly the service.  Started with empty tables and given any batches (lists
  of different packets with any contents at all, except that no packet may carry one of the two
  identifiers the hash map reserves), it never fails, and for every batch it reports the counts, sends
  the packets with the contents, and frees the packets that the service says.  In the end it tracks exactly the
  connections of the service, and the objects on the heap are exactly one for each of them: none was lost.
\<close>

theorem hb3_server_implements_service:
  assumes "hash_map d tinv key_ok" and "hash_map n pinv (\<lambda>_. True)" and "\<forall>b \<in> set bs. admissible key_ok pkt_ident b"
  shows "\<exists>out s y. hb_spec_serve rnd (\<lambda>_. False) bs = ret (out, s) \<and>
    hb3_serve (hb3_env d n clk) bs (hb3_server (hb3_env d n clk) ba rnd) = ret (out, y) \<and>
    dom (known (hb3_env d n clk) y) = dom (a_conns s) \<and> holds_objects {} (known (hb3_env d n clk) y) (c_world y)"
proof -
  let ?env = "hb3_env d n clk"
  note V = hb_version.implements [OF hb3_version [OF assms(1,2), of clk rnd]]
  obtain out s where s: "hb_spec_serve rnd (\<lambda>_. False) bs = ret (out, s)" using never_full by blast
  have "represents {} obj3 rnd no_conns Map.empty (hb3_boot rnd)" "heap_ok (hb3_boot rnd)"
    by (simp_all add: represents_def no_conns_def hb3_boot_def tracks_def own_objects_def conn_rel_def heap_ok_def)
  moreover have "well_behaved f" if "Some f \<in> set server3_functions" for f
    using that hb3_s_hello.well_behaved hb3_s_bye.well_behaved by (auto simp: server3_functions_def)
  ultimately have "res_rel (\<lambda>(out, s') (out', x'). out' = out \<and> abs_rel (\<lambda>w. w) {} obj3 rnd (\<lambda>t w. heap_ok w)
      s' (known ?env x') (c_world x')) (hb_spec_serve rnd (\<lambda>_. False) bs)
    (serve w_pkts put_pkts (process_batch ?env) take_packets bs (hb3_server ?env ba rnd))"
    unfolding hb3_server_def using assms(3)
    unfolding hb_spec_serve_def by (intro conn_version.serves [OF V] server3_conf) (simp_all add: server_init_table)
  then obtain y where y: "hb3_serve ?env bs (hb3_server ?env ba rnd) = ret (out, y)"
    and r: "abs_rel (\<lambda>w. w) {} obj3 rnd (\<lambda>t w. heap_ok w) s (known ?env y) (c_world y)"
    by (auto simp: s hb3_serve_def process3)
  have "holds_objects {} (known ?env y) (c_world y)"
    using r by (simp add: abs_rel_def represents_def holds_objects_def)
  then show ?thesis using s y abs_dom [OF r] by auto
qed

text \<open>The packet of the examples, received twice: a hello, then a bye.\<close>

definition hb_ex_batches :: "(ptr list \<times> (ptr \<rightharpoonup> mbuf)) list" where
  "hb_ex_batches = [([1], w_pkts (hb_ex_world 0)), ([1], w_pkts (hb_ex_world 1))]"

lemma hb_ex_admissible: "\<forall>b \<in> set hb_ex_batches. admissible hb_reserved pkt_ident b"
  using hb_ex_key by (simp add: hb_ex_batches_def admissible_def pkt_ident_def hb_ex_world_def hb_ex_identify)

theorem hb3_server_implements_service_witness:
  "\<exists>out s y. hb_spec_serve (\<lambda>_. 7) (\<lambda>_. False) hb_ex_batches = ret (out, s) \<and>
    hb3_serve hb_ex_env hb_ex_batches (hb3_server hb_ex_env (c_batch (hb_ex_ctx 0)) (\<lambda>_. 7)) = ret (out, y)"
  using hb3_server_implements_service [OF alist.hash_map_axioms alist.hash_map_axioms hb_ex_admissible,
      of "\<lambda>_. 7" "\<lambda>w. (0, w)" "c_batch (hb_ex_ctx 0)"] unfolding hb_ex_env_def by blast

section \<open>The second version\<close>

definition obj2 :: "client_config \<Rightarrow> StateID \<Rightarrow> server \<Rightarrow> hb2_obj \<Rightarrow> bool" where
  "obj2 cfg sid v x \<longleftrightarrow> obj_rel cfg x (ServerObj v) \<and> obj_state x = sid"

definition has_config :: "client_config \<Rightarrow> hb2_world \<Rightarrow> bool" where
  "has_config cfg w \<longleftrightarrow> heap_ok w \<and> w_heap w config_ptr = Some (Config cfg)"

lemma obj2_end: "obj2 cfg sid v x \<Longrightarrow> obj_end x = S_Terminate" "obj2 cfg sid v x \<Longrightarrow> hb3_handler x = server3_fun sid"
  by (cases x; auto simp: obj2_def server3_fun_def S_Hello_def S_Bye_def)+

lemma obj2_phases: "obj2 cfg sid v x \<Longrightarrow> sid = S_Hello \<or> sid = S_Bye"
  by (cases x) (auto simp: obj2_def)

text \<open>The handlers leave the batch and the state machine alone.\<close>

lemma quiet_hb2:
  "quiet fi fi' \<Longrightarrow> hb2_delete t fi' = ret fi'' \<Longrightarrow> quiet fi fi''"
  "quiet fi fi' \<Longrightarrow> hb2_replace t ob fi' = ret fi'' \<Longrightarrow> quiet fi fi''"
  by (auto simp: quiet_def hb2_delete_def hb2_replace_def heap_new_def rbind_eq_ret)

lemma quiet_funs:
  "Server_Hello_fun t p fi = ret fi' \<Longrightarrow> quiet fi fi'" "Server_Bye_fun t p fi = ret fi' \<Longrightarrow> quiet fi fi'"
  by (auto simp: Server_Hello_fun_def Server_Bye_fun_def Let_def rbind_eq_ret hb2_reject_def quiet_def split: if_splits)

lemma quiet_runs:
  "Server_Hello_run p fi = ret fi' \<Longrightarrow> quiet fi fi'" "Server_Bye_run p fi = ret fi' \<Longrightarrow> quiet fi fi'"
  by (auto simp: Server_Hello_run_def Server_Bye_run_def Let_def rbind_eq_ret split: if_splits dest: quiet_funs quiet_hb2)

text \<open>
  A call of the second version has the effect the service asks for: beside it runs the corresponding call of the
  third version, whose effect is known, and the simulation of the two relates them.
\<close>

lemma server2_effect:
  assumes w: "has_config cfg w" "w_heap w (stateData a) = Some x" "obj2 cfg (state a) v x" and p: "w_pkts w p = Some b"
    and sid: "state a = S_Hello \<or> state a = S_Bye"
  shows "\<exists>fi. hb2_handler x p (call_of i ba c a w) = ret fi \<and>
    server_effect (\<lambda>w. w) (obj2 cfg) p b (state a) v (call_of i ba c a w) fi \<and> object_step S_Terminate (call_of i ba c a w) fi"
proof -
  let ?w3 = "\<lparr>w_pkts = w_pkts w, w_heap = [1 \<mapsto> ServerObj v], w_next = 2, w_rand = w_rand w, w_rnd = w_rnd w\<rparr> :: hb_obj hworld"
  let ?f2 = "call_of i ba c a w :: hb2_fi" and ?f3 = "call_of i ba c (State_of (state a) 1) ?w3 :: hb_fi"
  have ok: "heap_ok w" using w(1) by (simp add: has_config_def)
  have "conn_sim cfg x ?f2 ?f3"
    using w by (auto simp: conn_sim_def same_call_def same_outside_def has_config_def obj2_def heap_ok_def State_of_def)
  from handlers_sim [OF this, of p b] p obtain f2' f3' where f2: "hb2_handler x p ?f2 = ret f2'"
    and f3: "hb3_handler x p ?f3 = ret f3'" and out: "call_outcome cfg x ?f2 ?f3 f2' f3'" by auto
  note e = obj2_end [OF w(3)]
  have e3: "server_effect (\<lambda>w. w) obj3 p b (state a) v ?f3 f3'"
    using server3_effect [of ?f3 p b v "state a"] f3 e(2) p sid by (auto simp: State_of_def)
  have os: "object_step S_Terminate ?f2 f2'" and same: "same_call f2' f3'"
    using out e(1) by (auto simp: call_outcome_def conn_sim_def)
  have q: "quiet ?f2 f2'" using f2 quiet_runs w(3) by (cases x) (auto simp: obj2_def)
  have bye: "S_Bye \<noteq> S_Terminate" by (simp add: S_Bye_def S_Terminate_def)
  have "server_effect (\<lambda>w. w) (obj2 cfg) p b (state a) v ?f2 f2'"
  proof (cases "state (st f2') = S_Terminate")
    case True
    then show ?thesis using e3 same os q bye
      by (auto simp: answer_effect_def same_call_def same_outside_def object_step_def Let_def split: option.splits prod.splits)
  next
    case False
    then obtain x' where x': "conn_sim cfg x' f2' f3'" using out e(1) by (auto simp: call_outcome_def)
    have "\<exists>m s' v'. server_answer (state a) v (m_data b) = Some (m, Some (s', v'))"
      using e3 False same by (auto simp: answer_effect_def same_call_def Let_def split: option.splits prod.splits)
    then obtain m v' where more: "server_answer (state a) v (m_data b) = Some (m, Some (S_Bye, v'))"
      using server_answer_next by blast
    obtain y where y: "w_heap (world f2') = (w_heap w)(stateData a := None, stateData (st f2') \<mapsto> y)"
      and a': "stateData (st f2') = stateData a \<or> stateData (st f2') = w_next w"
      using os False by (auto simp: object_step_def)
    have "y = x'" using x' y by (auto simp: conn_sim_def)
    moreover have "state (st f2') = state (st f3')" using same by (simp add: same_call_def)
    ultimately have "obj2 cfg S_Bye v' y" using x' e3 more by (auto simp: conn_sim_def obj2_def answer_effect_def obj3_def Let_def)
    moreover have "stateData (st f2') = stateData a \<or> w_heap w (stateData (st f2')) = None"
      using a' heap_new_fresh [OF ok] by auto
    ultimately show ?thesis using e3 same more y q
      by (auto simp: answer_effect_def same_call_def same_outside_def Let_def)
  qed
  then show ?thesis using f2 os by blast
qed

definition server2_functions :: "hb2_fun option list" where
  "server2_functions = [Some Server_Hello_run, Some Server_Bye_run]"

lemma server2_at: "obj2 cfg sid v x \<Longrightarrow> fun_at server2_functions sid (hb2_handler x)"
  by (cases x) (auto simp: obj2_def fun_at_def server2_functions_def S_Hello_def S_Bye_def)

lemma server2_conf: "conf_is server2_functions (Some hb2_factory) S_Hello S_Terminate (HelloBye2_Server_init env)"
  by (simp add: conf_is_def plain_smi_def HelloBye2_Server_init_def registerFunction_def registerEndStateID_def
      registerStartStateID_def new_StateMachine_def server2_functions_def S_Hello_def S_Bye_def S_Terminate_def Let_def)

lemma server2_table: "stateTable (HelloBye2_Server_init env) = hm_empty (dense env)"
  by (simp add: HelloBye2_Server_init_def registerFunction_def registerEndStateID_def
      registerStartStateID_def new_StateMachine_def Let_def)

lemma hb2_maps:
  assumes "hash_map d tinv key_ok" and "hash_map n pinv (\<lambda>_. True)"
  shows "machine_maps (hb2_env d n clk) tinv pinv key_ok"
  using assms by (simp add: machine_maps_def hb2_env_def)

lemma hb2_version:
  assumes "hash_map d tinv key_ok" and "hash_map n pinv (\<lambda>_. True)"
  shows "hb_version (hb2_env d n clk) tinv pinv key_ok server2_functions hb2_factory (\<lambda>w. w) put_pkts {config_ptr}
    (obj2 cfg) rnd (\<lambda>_. False) (\<lambda>t w. has_config cfg w)"
proof (intro hb_version.intro hb_version_axioms.intro hb2_maps [OF assms])
  fix s t w c
  assume r: "represents {config_ptr} (obj2 cfg) rnd s t w" and k: "has_config cfg w"
  then have ok: "heap_ok w" and new: "w_next w \<noteq> config_ptr" by (auto simp: has_config_def heap_ok_def)
  let ?x = "SHello \<lparr>sh_clientCookie = 0, sh_serverCookie = ucast (fst (rand w) mod 256)\<rparr>"
  show "\<exists>p v x. hb2_factory c w = ret (p, v) \<and> w_heap w p = None \<and> obj2 cfg S_Hello (first_cookies rnd (a_rnd s)) x \<and>
      w_heap v = (w_heap w)(p \<mapsto> x) \<and> w_pkts v = w_pkts w \<and> w_rand v = w_rand w \<and> w_rnd v = w_rnd w + 1 \<and> has_config cfg v"
    using r k new heap_new_fresh [OF ok] heap_new_ok [OF ok]
    by (intro exI [of _ "w_next w"] exI [of _ "snd (heap_new ?x (snd (rand w)))"] exI [of _ ?x])
      (auto simp: hb2_factory_def rand_def heap_new_def obj2_def first_cookies_def represents_def has_config_def
        heap_ok_def cookie_byte)
next
  fix s t w c a x v p b i ba
  assume r: "represents {config_ptr} (obj2 cfg) rnd s t w" and k: "has_config cfg w" and c: "t c = Some a"
    and x: "w_heap w (stateData a) = Some x" "obj2 cfg (state a) v x"
    and sid: "state a = S_Hello \<or> state a = S_Bye" and b: "w_pkts w p = Some b"
  from server2_effect [OF k x b sid, of i ba c] obtain fi where f: "hb2_handler x p (call_of i ba c a w) = ret fi"
    "server_effect (\<lambda>w. w) (obj2 cfg) p b (state a) v (call_of i ba c a w) fi"
    and os: "object_step S_Terminate (call_of i ba c a w) fi" by blast
  have h: "holds_objects {config_ptr} t w" using r k by (simp add: holds_objects_def represents_def has_config_def)
  have "heap_ok (world fi)" using holds_step [of "{config_ptr}" t "call_of i ba c a w" c a, OF _ c _ os] h by (simp add: holds_objects_def)
  moreover have "stateData a \<noteq> config_ptr" "config_ptr < w_next w"
    using tracks_live [of _ t "w_heap w" c a] h c k by (auto simp: holds_objects_def has_config_def heap_ok_def)
  ultimately have "has_config cfg (world fi)" using object_step_other [OF os, of config_ptr] k by (simp add: has_config_def)
  then show "\<exists>f fi. fun_at server2_functions (state a) f \<and> f p (call_of i ba c a w) = ret fi \<and>
      server_effect (\<lambda>w. w) (obj2 cfg) p b (state a) v (call_of i ba c a w) fi \<and> has_config cfg (world fi)"
    using f server2_at [OF x(2)] by blast
qed (auto simp: hb2_env_def pkt_ident_def hb2_identify_def hb3_identify_def has_config_def split: option.splits dest: obj2_phases)

interpretation hb2_lists: hb_version "hb2_env alist_ops alist_ops clk" "alist_inv ok" "alist_inv (\<lambda>_. True)" ok
  server2_functions hb2_factory "\<lambda>w. w" put_pkts "{config_ptr}" "obj2 cfg" rnd "\<lambda>_. False" "\<lambda>t w. has_config cfg w"
  for clk ok cfg rnd
  by (rule hb2_version) (rule alist.hash_map_axioms)+

text \<open>The program starts with the object \<open>getInstance\<close> makes, the configuration of the client.\<close>

definition hb2_boot :: "client_config \<Rightarrow> (nat \<Rightarrow> u32) \<Rightarrow> hb2_world" where
  "hb2_boot cfg rnd = \<lparr>w_pkts = Map.empty, w_heap = [config_ptr \<mapsto> Config cfg], w_next = config_ptr + 1, w_rand = rnd, w_rnd = 0\<rparr>"

definition hb2_server :: "('m, 'n) hb2_env \<Rightarrow> ptr bufArray \<Rightarrow> client_config \<Rightarrow> (nat \<Rightarrow> u32) \<Rightarrow> ('m, 'n) hb2_ctx" where
  "hb2_server env ba cfg rnd = fresh_ctx (poolOps env) (HelloBye2_Server_init env) ba (hb2_boot cfg rnd)"

definition hb2_serve ::
  "('m, 'n) hb2_env \<Rightarrow> (ptr list \<times> (ptr \<rightharpoonup> mbuf)) list \<Rightarrow> ('m, 'n) hb2_ctx \<Rightarrow> ((ptr, mbuf) report list \<times> ('m, 'n) hb2_ctx) res" where
  "hb2_serve env = serve w_pkts put_pkts (HelloBye2_Server_process env) HelloBye2_Server_getPkts"

lemma process2: "HelloBye2_Server_process = process_batch" "HelloBye2_Server_getPkts = take_packets"
  by (simp_all add: fun_eq_iff HelloBye2_Server_process_def HelloBye2_Server_getPkts_def process_batch_def take_packets_def)

text \<open>
  C14.  The server of the second version, whose connections move from one object to another with every state,
  is the same service: given any batches it never fails and reports what the service reports, hence what the third
  version reports, and in the end the objects on the heap are one for each connection of the service,
  beside the configuration.
\<close>

theorem hb2_server_implements_service:
  assumes "hash_map d tinv key_ok" and "hash_map n pinv (\<lambda>_. True)" and "\<forall>b \<in> set bs. admissible key_ok pkt_ident b"
  shows "\<exists>out s y. hb_spec_serve rnd (\<lambda>_. False) bs = ret (out, s) \<and>
    hb2_serve (hb2_env d n clk) bs (hb2_server (hb2_env d n clk) ba cfg rnd) = ret (out, y) \<and>
    dom (known (hb2_env d n clk) y) = dom (a_conns s) \<and> holds_objects {config_ptr} (known (hb2_env d n clk) y) (c_world y)"
proof -
  let ?env = "hb2_env d n clk"
  note V = hb_version.implements [OF hb2_version [OF assms(1,2), of clk cfg rnd]]
  obtain out s where s: "hb_spec_serve rnd (\<lambda>_. False) bs = ret (out, s)" using never_full by blast
  have "represents {config_ptr} (obj2 cfg) rnd no_conns Map.empty (hb2_boot cfg rnd)" "has_config cfg (hb2_boot cfg rnd)"
    by (simp_all add: represents_def no_conns_def hb2_boot_def tracks_def own_objects_def conn_rel_def heap_ok_def has_config_def config_ptr_def)
  moreover have "well_behaved f" if "Some f \<in> set server2_functions" for f
    using that hb2_s_hello.well_behaved hb2_s_bye.well_behaved by (auto simp: server2_functions_def)
  ultimately have "res_rel (\<lambda>(out, s') (out', x'). out' = out \<and> abs_rel (\<lambda>w. w) {config_ptr} (obj2 cfg) rnd
      (\<lambda>t w. has_config cfg w) s' (known ?env x') (c_world x')) (hb_spec_serve rnd (\<lambda>_. False) bs)
    (serve w_pkts put_pkts (process_batch ?env) take_packets bs (hb2_server ?env ba cfg rnd))"
    unfolding hb2_server_def using assms(3)
    unfolding hb_spec_serve_def by (intro conn_version.serves [OF V] server2_conf) (simp_all add: server2_table)
  then obtain y where y: "hb2_serve ?env bs (hb2_server ?env ba cfg rnd) = ret (out, y)"
    and r: "abs_rel (\<lambda>w. w) {config_ptr} (obj2 cfg) rnd (\<lambda>t w. has_config cfg w) s (known ?env y) (c_world y)"
    by (auto simp: s hb2_serve_def process2)
  have "holds_objects {config_ptr} (known ?env y) (c_world y)"
    using r unfolding abs_rel_def by (simp add: represents_def holds_objects_def has_config_def)
  then show ?thesis using s y abs_dom [OF r] by auto
qed

theorem hb2_server_implements_service_witness:
  "\<exists>out s y. hb_spec_serve (\<lambda>_. 7) (\<lambda>_. False) hb_ex_batches = ret (out, s) \<and>
    hb2_serve (hb2_env alist_ops alist_ops (\<lambda>w. (0, w))) hb_ex_batches (hb2_server (hb2_env alist_ops alist_ops (\<lambda>w. (0, w)))
      (c_batch (hb_ex_ctx 0)) \<lparr>cfg_srcIp = 0, cfg_dstPort = 0\<rparr> (\<lambda>_. 7)) = ret (out, y)"
  using hb2_server_implements_service [OF alist.hash_map_axioms alist.hash_map_axioms hb_ex_admissible,
      of "\<lambda>_. 7" "\<lambda>w. (0, w)" "c_batch (hb_ex_ctx 0)"] by blast

end
