(* ===== verification/Hello_Bye_Client.thy ===== *)
theory Hello_Bye_Client
  imports Hello_Bye_Spec
begin

text \<open>
  The client of the third version as a service.  It does not listen: its connections are opened by \<open>connect\<close>, wait
  in the pool and are taken into the table by the first packet of the server.
\<close>

section \<open>What a client answers\<close>

definition hb_goodbye :: "u8 \<Rightarrow> mem \<Rightarrow> mem" where
  "hb_goodbye ck m = (let a = msg_at m
     in hb_turn_around 14 (ip_getPayload 14 m) (set_msg a MSG_BYE (set_role a ROLE_CLIENT (set_cookie a ck m))))"

definition client_answer :: "client answers" where
  "client_answer sid k m = (let a = msg_at m in
     if sid = C_Bye \<and> msg_role a m = ROLE_SERVER \<and> msg_msg a m = MSG_HELLO
     then Some (hb_goodbye (msg_cookie a m) m, Some (C_RecvBye, k\<lparr>c_serverCookie := ucast (msg_cookie a m)\<rparr>))
     else None)"

lemma hb_goodbye_reply: "5 \<le> unat (ip_ihl 14 m) \<Longrightarrow> is_reply m (hb_goodbye ck m) ROLE_CLIENT MSG_BYE ck"
  unfolding hb_goodbye_def Let_def
  by (intro reply_of_message) (simp_all add: set_cookie_def set_msg_def set_role_def store8_def)

definition objc :: "StateID \<Rightarrow> client \<Rightarrow> hb_obj \<Rightarrow> bool" where
  "objc sid k x \<longleftrightarrow> x = ClientObj k \<and> (sid = C_Bye \<or> sid = C_RecvBye)"

definition client_fun :: "StateID \<Rightarrow> hb_fun" where
  "client_fun sid = (if sid = C_Bye then hb3_client_runBye else hb3_client_runRecvBye)"

definition client_functions :: "hb_fun option list" where
  "client_functions = [Some hb3_client_runHello, Some hb3_client_runBye, Some hb3_client_runRecvBye]"

lemmas client_states = C_Hello_def C_Bye_def C_RecvBye_def C_Terminate_def

lemma client_at: "sid = C_Bye \<or> sid = C_RecvBye \<Longrightarrow> fun_at client_functions sid (client_fun sid)"
  by (auto simp: fun_at_def client_functions_def client_fun_def client_states)

lemma client_effect:
  assumes "w_pkts (world fi) p = Some b" and "w_heap (world fi) (stateData (st fi)) = Some (ClientObj k)"
    and "0 < stateData (st fi)" and "sendPkt fi" and "sid = C_Bye \<or> sid = C_RecvBye"
  shows "\<exists>fi'. client_fun sid p fi = ret fi' \<and> answer_effect client_answer C_Terminate (\<lambda>w. w) objc p b sid k fi fi' \<and>
    w_next (world fi') = w_next (world fi) \<and> dom (w_heap (world fi')) \<subseteq> dom (w_heap (world fi))"
proof -
  have del: "heap_delete (stateData (st fi)) (world fi) =
      ret ((world fi)\<lparr>w_heap := (w_heap (world fi))(stateData (st fi) := None)\<rparr>)"
    using assms(2,3) by (auto simp: heap_delete_def)
  show ?thesis
  proof (cases "sid = C_Bye")
    case True
    then show ?thesis using assms del
      by (auto simp: client_fun_def hb3_client_runBye_def Let_def getData_def msg_addr answer_effect_def client_answer_def
          hb_terminate_def get_client_def heap_get_def heap_put_def writeData_def quiet_def hb_goodbye_def objc_def
          client_states ucast_u8_u32)
  next
    case False
    then have "sid = C_RecvBye" "C_RecvBye \<noteq> C_Bye" using assms(5) by (simp_all add: client_states)
    then show ?thesis using assms del
      by (auto simp: client_fun_def hb3_client_runRecvBye_def Let_def getData_def msg_addr answer_effect_def client_answer_def
          hb_terminate_def get_client_def heap_get_def quiet_def)
  qed
qed

abbreviation client_service :: "(client conns, ptr, u64) service" where
  "client_service \<equiv> conn_service client_answer (\<lambda>c s. ret s)"

lemma client_conf: "conf_is client_functions None s0 C_Terminate (HelloBye3_Client_init env)"
  by (simp add: conf_is_def plain_smi_def HelloBye3_Client_init_def registerFunction_def registerEndStateID_def
      new_StateMachine_def client_functions_def client_states Let_def)

lemma client_init_table: "stateTable (HelloBye3_Client_init env) = hm_empty (dense env)"
  by (simp add: HelloBye3_Client_init_def registerFunction_def registerEndStateID_def new_StateMachine_def Let_def)

lemma client_version:
  assumes "hash_map d tinv key_ok" and "hash_map n pinv (\<lambda>_. True)"
  shows "conn_version (hb3_env d n clk) tinv pinv key_ok client_functions None 0 C_Terminate (\<lambda>w. w) put_pkts {} objc rnd
    (\<lambda>t w. heap_ok w) client_answer (\<lambda>c s. ret s)"
proof (intro conn_version.intro conn_version_axioms.intro hb3_maps [OF assms])
  fix s t w c a x k p b i ba
  assume "abs_rel (\<lambda>w. w) {} objc rnd (\<lambda>t w. heap_ok w) s t w" and "t c = Some a"
    and x: "w_heap w (stateData a) = Some x" "objc (state a) k x" and b: "w_pkts w p = Some b"
  then have ok: "heap_ok w" and sid: "state a = C_Bye \<or> state a = C_RecvBye" by (simp_all add: abs_rel_def objc_def)
  have "0 < stateData a" using ok x(1) by (auto simp: heap_ok_def)
  then show "\<exists>f fi. fun_at client_functions (state a) f \<and> f p (call_of i ba c a w) = ret fi \<and>
      answer_effect client_answer C_Terminate (\<lambda>w. w) objc p b (state a) k (call_of i ba c a w) fi \<and> heap_ok (world fi)"
    using client_effect [of "call_of i ba c a w" p b k "state a"] client_at [OF sid] heap_ok_subset [OF ok] x b sid
    by (auto simp: objc_def)
qed (auto simp: hb3_env_def pkt_ident_def split: option.splits)

end
