(* ===== verification/Hello_Bye_Net.thy ===== *)
theory Hello_Bye_Net
  imports Hello_Bye_Client Hello_Bye_Service
begin

text \<open>
  A client and a server of the third version on a network that loses, duplicates, delays and reorders packets but
  does not make them up.  The system is a step relation over the two programs and all packets ever sent;
  the two services give it an abstract state, on which the agreement of the two sides is an invariant.
\<close>

section \<open>The system\<close>

record ('m, 'n) hb_net =
  n_srv :: "('m, 'n) hb_ctx"
  n_cli :: "('m, 'n) hb_ctx"
  n_sent :: "mem set"

text \<open>What a program puts on the network: the contents of the packets it hands out to be sent.\<close>

definition on_wire :: "('m, 'n) hb_ctx \<Rightarrow> ptr list \<Rightarrow> mem set" where
  "on_wire x ps = {m. \<exists>p \<in> set ps. \<exists>b. w_pkts (c_world x) p = Some b \<and> m_data b = m}"

text \<open>A batch of packets, each a copy of one that was sent.\<close>

definition copies :: "mem set \<Rightarrow> ptr list \<Rightarrow> (ptr \<rightharpoonup> mbuf) \<Rightarrow> bool" where
  "copies N ps P \<longleftrightarrow> ps \<noteq> [] \<and> length ps < 2 ^ 32 \<and> distinct ps \<and> (\<forall>p \<in> set ps. \<exists>b. P p = Some b \<and> m_data b \<in> N)"

definition load_pkts :: "(ptr \<rightharpoonup> mbuf) \<Rightarrow> ('m, 'n) hb_ctx \<Rightarrow> ('m, 'n) hb_ctx" where
  "load_pkts P x = x\<lparr>c_world := put_pkts P (c_world x)\<rparr>"

text \<open>A connection is opened under an identifier that was never used, which is not one the hash map reserves.\<close>

inductive hb_net_step :: "('m, 'n) hb_env \<Rightarrow> (u64 \<Rightarrow> bool) \<Rightarrow> ('m, 'n) hb_net \<Rightarrow> ('m, 'n) hb_net \<Rightarrow> bool"
  for env key_ok where
  connect: "key_ok idn \<Longrightarrow> \<forall>m \<in> n_sent z. hb3_identify m \<noteq> Some idn \<Longrightarrow> P p = Some b \<Longrightarrow>
    HelloBye3_Client_connect env [p] 1 srcIP dstIP srcPort dstPort idn (load_pkts P (n_cli z)) = ret (x, sc, fc) \<Longrightarrow>
    HelloBye3_Client_getPkts (c_batch x) = ret (s, f) \<Longrightarrow>
    hb_net_step env key_ok z (z\<lparr>n_cli := x, n_sent := n_sent z \<union> on_wire x s\<rparr>)"
| to_server: "copies (n_sent z) ps P \<Longrightarrow>
    HelloBye3_Server_process env ps (of_nat (length ps)) (load_pkts P (n_srv z)) = ret (x, sc, fc) \<Longrightarrow>
    HelloBye3_Server_getPkts (c_batch x) = ret (s, f) \<Longrightarrow>
    hb_net_step env key_ok z (z\<lparr>n_srv := x, n_sent := n_sent z \<union> on_wire x s\<rparr>)"
| to_client: "copies (n_sent z) ps P \<Longrightarrow>
    HelloBye3_Client_process env ps (of_nat (length ps)) (load_pkts P (n_cli z)) = ret (x, sc, fc) \<Longrightarrow>
    HelloBye3_Client_getPkts (c_batch x) = ret (s, f) \<Longrightarrow>
    hb_net_step env key_ok z (z\<lparr>n_cli := x, n_sent := n_sent z \<union> on_wire x s\<rparr>)"

definition hb_client :: "('m, 'n) hb_env \<Rightarrow> ptr bufArray \<Rightarrow> (nat \<Rightarrow> u32) \<Rightarrow> ('m, 'n) hb_ctx" where
  "hb_client env ba rnd = fresh_ctx (poolOps env) (HelloBye3_Client_init env) ba (hb3_boot rnd)"

inductive hb_net_reachable ::
  "('m, 'n) hb_env \<Rightarrow> (u64 \<Rightarrow> bool) \<Rightarrow> (nat \<Rightarrow> u32) \<Rightarrow> (nat \<Rightarrow> u32) \<Rightarrow> ('m, 'n) hb_net \<Rightarrow> bool"
  for env key_ok rs rc where
  start: "hb_net_reachable env key_ok rs rc \<lparr>n_srv = hb3_server env ba rs, n_cli = hb_client env ba rc, n_sent = {}\<rparr>"
| step: "hb_net_reachable env key_ok rs rc z \<Longrightarrow> hb_net_step env key_ok z z' \<Longrightarrow> hb_net_reachable env key_ok rs rc z'"

section \<open>Agreement\<close>

text \<open>Some packet of the connection was sent that says so.\<close>

definition said :: "mem set \<Rightarrow> u64 \<Rightarrow> u8 \<Rightarrow> u8 \<Rightarrow> u8 \<Rightarrow> bool" where
  "said N c r t k \<longleftrightarrow> (\<exists>m \<in> N. says c r t k m)"

text \<open>What must have been said before a packet is sent.\<close>

definition entitled :: "mem set \<Rightarrow> u64 \<Rightarrow> u8 \<Rightarrow> u8 \<Rightarrow> u8 \<Rightarrow> bool" where
  "entitled N c r t k \<longleftrightarrow>
     r = ROLE_CLIENT \<and> t = MSG_HELLO \<or>
     r = ROLE_SERVER \<and> t = MSG_HELLO \<and> (\<exists>j. said N c ROLE_CLIENT MSG_HELLO j) \<or>
     r = ROLE_CLIENT \<and> t = MSG_BYE \<and> said N c ROLE_SERVER MSG_HELLO k \<or>
     r = ROLE_SERVER \<and> t = MSG_BYE \<and> said N c ROLE_CLIENT MSG_HELLO k \<and> (\<exists>j. said N c ROLE_CLIENT MSG_BYE j)"

definition is_byte :: "u32 \<Rightarrow> bool" where
  "is_byte x \<longleftrightarrow> ucast (ucast x :: u8) = x"

definition agree :: "(u64 \<Rightarrow> bool) \<Rightarrow> mem set \<Rightarrow> (u64 \<rightharpoonup> StateID \<times> server) \<Rightarrow> (u64 \<rightharpoonup> StateID \<times> client) \<Rightarrow> bool" where
  "agree ok N S C \<longleftrightarrow>
     (\<forall>m \<in> N. \<exists>c r t k. ok c \<and> says c r t k m \<and> entitled N c r t k) \<and>
     (\<forall>c k j. said N c ROLE_CLIENT MSG_HELLO k \<longrightarrow> said N c ROLE_CLIENT MSG_HELLO j \<longrightarrow> k = j) \<and>
     (\<forall>c k j. said N c ROLE_CLIENT MSG_BYE k \<longrightarrow> said N c ROLE_CLIENT MSG_BYE j \<longrightarrow> k = j) \<and>
     (\<forall>c sid v. S c = Some (sid, v) \<longrightarrow> sid = S_Bye \<and> is_byte (s_clientCookie v) \<and> is_byte (s_serverCookie v) \<and>
        said N c ROLE_CLIENT MSG_HELLO (ucast (s_clientCookie v)) \<and> said N c ROLE_SERVER MSG_HELLO (ucast (s_serverCookie v))) \<and>
     (\<forall>c sid v. C c = Some (sid, v) \<longrightarrow> is_byte (c_clientCookie v) \<and> said N c ROLE_CLIENT MSG_HELLO (ucast (c_clientCookie v)) \<and>
        (sid = C_Bye \<and> (\<forall>j. \<not> said N c ROLE_CLIENT MSG_BYE j) \<or>
         sid = C_RecvBye \<and> is_byte (c_serverCookie v) \<and> said N c ROLE_CLIENT MSG_BYE (ucast (c_serverCookie v))))"

lemma agreeD:
  assumes "agree ok N S C"
  shows "m \<in> N \<Longrightarrow> \<exists>c r t k. ok c \<and> says c r t k m \<and> entitled N c r t k"
    and "said N c ROLE_CLIENT MSG_HELLO k \<Longrightarrow> said N c ROLE_CLIENT MSG_HELLO j \<Longrightarrow> k = j"
    and "said N c ROLE_CLIENT MSG_BYE k \<Longrightarrow> said N c ROLE_CLIENT MSG_BYE j \<Longrightarrow> k = j"
    and "S c = Some (sid, v) \<Longrightarrow> sid = S_Bye \<and> is_byte (s_clientCookie v) \<and> is_byte (s_serverCookie v) \<and>
        said N c ROLE_CLIENT MSG_HELLO (ucast (s_clientCookie v)) \<and> said N c ROLE_SERVER MSG_HELLO (ucast (s_serverCookie v))"
    and "C c = Some (sid', k') \<Longrightarrow> is_byte (c_clientCookie k') \<and> said N c ROLE_CLIENT MSG_HELLO (ucast (c_clientCookie k')) \<and>
        (sid' = C_Bye \<and> (\<forall>j. \<not> said N c ROLE_CLIENT MSG_BYE j) \<or>
         sid' = C_RecvBye \<and> is_byte (c_serverCookie k') \<and> said N c ROLE_CLIENT MSG_BYE (ucast (c_serverCookie k')))"
  using assms unfolding agree_def by blast+

lemma roles_differ [simp]: "ROLE_CLIENT \<noteq> ROLE_SERVER" "ROLE_SERVER \<noteq> ROLE_CLIENT" "MSG_HELLO \<noteq> MSG_BYE" "MSG_BYE \<noteq> MSG_HELLO"
  by (simp_all add: ROLE_CLIENT_def ROLE_SERVER_def MSG_HELLO_def MSG_BYE_def)

lemma said_insert:
  assumes "says c r t k m"
  shows "said (insert m N) c' r' t' k' \<longleftrightarrow> said N c' r' t' k' \<or> c' = c \<and> r' = r \<and> t' = t \<and> k' = k"
  using assms by (auto simp: said_def says_def)

lemma said_mono: "said N c r t k \<Longrightarrow> N \<subseteq> N' \<Longrightarrow> said N' c r t k"
  by (auto simp: said_def)

lemma entitled_mono: "entitled N c r t k \<Longrightarrow> N \<subseteq> N' \<Longrightarrow> entitled N' c r t k"
  unfolding entitled_def using said_mono by blast

lemma byte_ucast [simp]: "is_byte (ucast (k :: u8))"
  by (simp add: is_byte_def ucast_u8_u32)

lemma said_ident: "said N c r t k \<Longrightarrow> \<exists>m \<in> N. hb3_identify m = Some c"
  by (auto simp: said_def says_def)

text \<open>One packet more.\<close>

lemma agree_sent:
  assumes a: "agree ok N S C" and m: "says c r t k m" "ok c" "entitled N c r t k"
    and ex: "r = ROLE_CLIENT \<Longrightarrow> \<forall>j. \<not> said N c r t j"
    and C: "r = ROLE_CLIENT \<Longrightarrow> t = MSG_BYE \<Longrightarrow> C c = None"
  shows "agree ok (insert m N) S C"
proof -
  note D = agreeD [OF a] and ins = said_insert [OF m(1)]
  have 1: "\<forall>x \<in> insert m N. \<exists>c r t k. ok c \<and> says c r t k x \<and> entitled (insert m N) c r t k"
  proof
    fix x assume x: "x \<in> insert m N"
    show "\<exists>c r t k. ok c \<and> says c r t k x \<and> entitled (insert m N) c r t k"
    proof (cases "x = m")
      case True
      then show ?thesis using m entitled_mono [OF m(3), of "insert m N"] by blast
    next
      case False
      then show ?thesis using D(1) [of x] x entitled_mono [of N _ _ _ _ "insert m N"] by blast
    qed
  qed
  have uniq: "j = j'" if "said (insert m N) d ROLE_CLIENT u j" "said (insert m N) d ROLE_CLIENT u j'"
    and u: "u = MSG_HELLO \<or> u = MSG_BYE" for d u j j'
    using that ex D(2,3) by (auto simp: ins)
  have 2: "\<forall>d j j'. said (insert m N) d ROLE_CLIENT MSG_HELLO j \<longrightarrow> said (insert m N) d ROLE_CLIENT MSG_HELLO j' \<longrightarrow> j = j'"
    and 3: "\<forall>d j j'. said (insert m N) d ROLE_CLIENT MSG_BYE j \<longrightarrow> said (insert m N) d ROLE_CLIENT MSG_BYE j' \<longrightarrow> j = j'"
    using uniq by blast+
  have 4: "\<forall>d sid v. S d = Some (sid, v) \<longrightarrow> sid = S_Bye \<and> is_byte (s_clientCookie v) \<and> is_byte (s_serverCookie v) \<and>
      said (insert m N) d ROLE_CLIENT MSG_HELLO (ucast (s_clientCookie v)) \<and>
      said (insert m N) d ROLE_SERVER MSG_HELLO (ucast (s_serverCookie v))"
    using D(4) by (simp add: ins)
  have 5: "\<forall>d sid v. C d = Some (sid, v) \<longrightarrow> is_byte (c_clientCookie v) \<and>
      said (insert m N) d ROLE_CLIENT MSG_HELLO (ucast (c_clientCookie v)) \<and>
      (sid = C_Bye \<and> (\<forall>j. \<not> said (insert m N) d ROLE_CLIENT MSG_BYE j) \<or>
       sid = C_RecvBye \<and> is_byte (c_serverCookie v) \<and> said (insert m N) d ROLE_CLIENT MSG_BYE (ucast (c_serverCookie v)))"
  proof (intro allI impI)
    fix d sid v assume d: "C d = Some (sid, v)"
    then have "\<not> (d = c \<and> ROLE_CLIENT = r \<and> MSG_BYE = t)" using C by auto
    then have "said (insert m N) d ROLE_CLIENT MSG_BYE j \<longleftrightarrow> said N d ROLE_CLIENT MSG_BYE j" for j by (auto simp: ins)
    then show "is_byte (c_clientCookie v) \<and> said (insert m N) d ROLE_CLIENT MSG_HELLO (ucast (c_clientCookie v)) \<and>
      (sid = C_Bye \<and> (\<forall>j. \<not> said (insert m N) d ROLE_CLIENT MSG_BYE j) \<or>
       sid = C_RecvBye \<and> is_byte (c_serverCookie v) \<and> said (insert m N) d ROLE_CLIENT MSG_BYE (ucast (c_serverCookie v)))"
      using D(5) [OF d] by (auto simp: ins)
  qed
  show ?thesis unfolding agree_def by (intro conjI 1 2 3 4 5)
qed

text \<open>A connection opened, changed or closed.\<close>

lemma agree_server:
  assumes "agree ok N S C" and "\<And>sid v. y = Some (sid, v) \<Longrightarrow> sid = S_Bye \<and> is_byte (s_clientCookie v) \<and>
    is_byte (s_serverCookie v) \<and> said N c ROLE_CLIENT MSG_HELLO (ucast (s_clientCookie v)) \<and>
    said N c ROLE_SERVER MSG_HELLO (ucast (s_serverCookie v))"
  shows "agree ok N (S(c := y)) C"
  using assms unfolding agree_def by (simp split: if_splits)

lemma agree_client:
  assumes "agree ok N S C" and "\<And>sid v. y = Some (sid, v) \<Longrightarrow> is_byte (c_clientCookie v) \<and>
    said N c ROLE_CLIENT MSG_HELLO (ucast (c_clientCookie v)) \<and>
    (sid = C_Bye \<and> (\<forall>j. \<not> said N c ROLE_CLIENT MSG_BYE j) \<or>
     sid = C_RecvBye \<and> is_byte (c_serverCookie v) \<and> said N c ROLE_CLIENT MSG_BYE (ucast (c_serverCookie v)))"
  shows "agree ok N S (C(c := y))"
  using assms unfolding agree_def by (simp split: if_splits)

section \<open>Packets and batches\<close>

definition replied :: "bool \<Rightarrow> 'v conns \<Rightarrow> ptr \<Rightarrow> mem set" where
  "replied sent s p = {m. sent \<and> (\<exists>b. a_pkts s p = Some b \<and> m_data b = m)}"

lemma replied_simps [simp]:
  "replied False s p = {}" "a_pkts s p = Some b \<Longrightarrow> replied True s p = {m_data b}"
  by (auto simp: replied_def)

lemma says_answer: "says c r t k m \<Longrightarrow> says c ROLE_SERVER t' k' (hb_answer t' k' m)"
  using says_reply [OF hb_answer_reply [OF says_ihl]] .

lemma says_goodbye: "says c r t k m \<Longrightarrow> says c ROLE_CLIENT MSG_BYE k' (hb_goodbye k' m)"
  using says_reply [OF hb_goodbye_reply [OF says_ihl]] .

lemma server_answer_says:
  assumes "says c r t k m"
  shows "server_answer sid v m =
    (if sid = S_Hello then
       if r = ROLE_CLIENT \<and> t = MSG_HELLO
       then Some (hb_answer MSG_HELLO (ucast (s_serverCookie v)) m, Some (S_Bye, v\<lparr>s_clientCookie := ucast k\<rparr>)) else None
     else if r = ROLE_CLIENT \<and> t = MSG_BYE \<and> ucast k = s_serverCookie v
       then Some (hb_answer MSG_BYE (ucast (s_clientCookie v)) m, None) else None)"
  using assms by (simp add: server_answer_def says_def)

lemma client_answer_says:
  assumes "says c r t k m"
  shows "client_answer sid v m =
    (if sid = C_Bye \<and> r = ROLE_SERVER \<and> t = MSG_HELLO
     then Some (hb_goodbye k m, Some (C_RecvBye, v\<lparr>c_serverCookie := ucast k\<rparr>)) else None)"
  using assms by (simp add: client_answer_def says_def)

lemma says_pkt_ident: "says c r t k (m_data b) \<Longrightarrow> pkt_ident b = Some c"
  by (simp add: pkt_ident_def says_def)

lemma byte_first [simp]: "is_byte (s_serverCookie (first_cookies rnd i))"
  by (simp add: is_byte_def first_cookies_def cookie_byte)

lemma server_pkt_new:
  assumes a: "agree ok N (a_conns s) C" and b: "a_pkts s p = Some b" "m_data b \<in> N" and m: "ok c" "says c r t k (m_data b)"
    and h: "conn_handle server_answer p c (s\<lparr>a_conns := (a_conns s)(c \<mapsto> (S_Hello, first_cookies rnd i)), a_rnd := j\<rparr>) = (sent, s')"
  shows "agree ok (N \<union> replied sent s' p) (a_conns s') C"
proof (cases "r = ROLE_CLIENT \<and> t = MSG_HELLO")
  case True
  let ?v = "first_cookies rnd i"
  let ?m = "hb_answer MSG_HELLO (ucast (s_serverCookie ?v)) (m_data b)"
  have said: "said N c ROLE_CLIENT MSG_HELLO k" using m(2) b(2) True by (auto simp: said_def)
  have s': "sent" "a_pkts s' p = Some (b\<lparr>m_data := ?m\<rparr>)" "a_conns s' = (a_conns s)(c \<mapsto> (S_Bye, ?v\<lparr>s_clientCookie := ucast k\<rparr>))"
    using h True by (auto simp: conn_handle_def server_answer_says [OF m(2)] b(1))
  have "entitled N c ROLE_SERVER MSG_HELLO (ucast (s_serverCookie ?v))" using said by (auto simp: entitled_def)
  then have "agree ok (insert ?m N) (a_conns s) C" using agree_sent [OF a says_answer [OF m(2)] m(1)] by simp
  moreover have "said (insert ?m N) c ROLE_CLIENT MSG_HELLO k" "said (insert ?m N) c ROLE_SERVER MSG_HELLO (ucast (s_serverCookie ?v))"
    using said says_answer [OF m(2), of MSG_HELLO] by (auto simp: said_def)
  ultimately have "agree ok (insert ?m N) ((a_conns s)(c \<mapsto> (S_Bye, ?v\<lparr>s_clientCookie := ucast k\<rparr>))) C"
    by - (rule agree_server, auto simp: ucast_u8_u32)
  then show ?thesis using s' by simp
next
  case False
  then have "\<not> sent" "a_conns s' = (a_conns s)(c := None)" using h by (auto simp: conn_handle_def server_answer_says [OF m(2)] b(1))
  then show ?thesis using agree_server [OF a, of None] by simp
qed

lemma server_pkt_known:
  assumes a: "agree ok N (a_conns s) C" and b: "a_pkts s p = Some b" "m_data b \<in> N" and m: "ok c" "says c r t k (m_data b)"
    and known: "a_conns s c = Some (S_Bye, v)" and h: "conn_handle server_answer p c s = (sent, s')"
  shows "agree ok (N \<union> replied sent s' p) (a_conns s') C"
proof -
  have ne: "S_Bye \<noteq> S_Hello" by (simp add: S_Bye_def S_Hello_def)
  have closed: "agree ok N ((a_conns s)(c := None)) C" using agree_server [OF a, of None] by simp
  show ?thesis
  proof (cases "r = ROLE_CLIENT \<and> t = MSG_BYE \<and> ucast k = s_serverCookie v")
    case True
    let ?m = "hb_answer MSG_BYE (ucast (s_clientCookie v)) (m_data b)"
    have s': "sent" "a_pkts s' p = Some (b\<lparr>m_data := ?m\<rparr>)" "a_conns s' = (a_conns s)(c := None)"
      using h True known ne by (auto simp: conn_handle_def server_answer_says [OF m(2)] b(1))
    have "said N c r t k" using m(2) b(2) by (auto simp: said_def)
    then have "entitled N c ROLE_SERVER MSG_BYE (ucast (s_clientCookie v))" using True agreeD(4) [OF a known] by (auto simp: entitled_def)
    then show ?thesis using agree_sent [OF closed says_answer [OF m(2)] m(1)] s' by simp
  next
    case False
    then have "\<not> sent" "a_conns s' = (a_conns s)(c := None)"
      using h known ne by (auto simp: conn_handle_def server_answer_says [OF m(2)] b(1))
    then show ?thesis using closed by simp
  qed
qed

lemma server_pkt:
  assumes a: "agree ok N (a_conns s) C" and b: "a_pkts s p = Some b" "m_data b \<in> N"
    and r: "spec_packet (hb_service rnd (\<lambda>_. False)) p s = ret (sent, s')"
  shows "agree ok (N \<union> replied sent s' p) (a_conns s') C"
proof -
  obtain c r t k where m: "ok c" "says c r t k (m_data b)" using agreeD(1) [OF a b(2)] by blast
  show ?thesis
  proof (cases "a_conns s c")
    case None
    then have "conn_handle server_answer p c (s\<lparr>a_conns := (a_conns s)(c \<mapsto> (S_Hello, first_cookies rnd (a_rnd s))), a_rnd := a_rnd s + 1\<rparr>) = (sent, s')"
      using r b says_pkt_ident [OF m(2)] by (simp add: spec_packet_def hb_open_def)
    then show ?thesis by (rule server_pkt_new [OF a b m])
  next
    case (Some y)
    then obtain v where "a_conns s c = Some (S_Bye, v)" using agreeD(4) [OF a, of c] by (cases y) auto
    moreover have "conn_handle server_answer p c s = (sent, s')" using r Some b says_pkt_ident [OF m(2)] by (simp add: spec_packet_def)
    ultimately show ?thesis by (rule server_pkt_known [OF a b m])
  qed
qed

lemma client_pkt:
  assumes a: "agree ok N S (a_conns s)" and b: "a_pkts s p = Some b" "m_data b \<in> N"
    and r: "spec_packet client_service p s = ret (sent, s')"
  shows "agree ok (N \<union> replied sent s' p) S (a_conns s')"
proof -
  note D = agreeD [OF a]
  obtain c r t k where m: "ok c" "says c r t k (m_data b)" "entitled N c r t k" using D(1) [OF b(2)] by blast
  have said: "said N c r t k" using m(2) b(2) by (auto simp: said_def)
  have r': "conn_handle client_answer p c s = (sent, s')"
    using r b says_pkt_ident [OF m(2)] by (simp add: spec_packet_def split: if_splits)
  note h = conn_handle_def client_answer_says [OF m(2)] b(1)
  show ?thesis
  proof (cases "a_conns s c")
    case None
    then show ?thesis using r' a by (simp add: handle_untracked)
  next
    case (Some y)
    obtain sid v where y: "y = (sid, v)" by fastforce
    note v = D(5) [OF Some [unfolded y]]
    have closed: "agree ok N S ((a_conns s)(c := None))" using agree_client [OF a, of None] by simp
    show ?thesis
    proof (cases "sid = C_Bye \<and> r = ROLE_SERVER \<and> t = MSG_HELLO")
      case True
      let ?m = "hb_goodbye k (m_data b)" and ?v = "v\<lparr>c_serverCookie := ucast k\<rparr>"
      have s': "sent" "a_pkts s' p = Some (b\<lparr>m_data := ?m\<rparr>)" "a_conns s' = (a_conns s)(c \<mapsto> (C_RecvBye, ?v))"
        using r' True Some by (auto simp: h y)
      have none: "\<forall>j. \<not> said N c ROLE_CLIENT MSG_BYE j" using v True by (auto simp: client_states)
      have "entitled N c ROLE_CLIENT MSG_BYE k" using said True by (simp add: entitled_def)
      then have "agree ok (insert ?m N) S ((a_conns s)(c := None))"
        using agree_sent [OF closed says_goodbye [OF m(2)] m(1)] none by simp
      moreover have "said (insert ?m N) c ROLE_CLIENT MSG_BYE k" "said (insert ?m N) c ROLE_CLIENT MSG_HELLO (ucast (c_clientCookie v))"
        using v by (simp_all add: said_insert [OF says_goodbye [OF m(2)]])
      ultimately have "agree ok (insert ?m N) S (((a_conns s)(c := None))(c \<mapsto> (C_RecvBye, ?v)))"
        by - (rule agree_client, use v in \<open>auto simp: ucast_u8_u32\<close>)
      then show ?thesis using s' by simp
    next
      case False
      then have "\<not> sent" "a_conns s' = (a_conns s)(c := None)" using r' Some by (auto simp: h y split: if_splits)
      then show ?thesis using closed by simp
    qed
  qed
qed

text \<open>What the packets of a batch do one by one, the batch does.\<close>

definition replies :: "'v conns \<Rightarrow> (ptr \<times> bool) list \<Rightarrow> mem set" where
  "replies s l = (\<Union>(p, sent) \<in> set l. replied sent s p)"

lemma spec_packet_others:
  assumes "spec_packet (conn_service ans op) p s = ret (sent, s')" and "\<And>c s1. op c s = ret s1 \<Longrightarrow> a_pkts s1 = a_pkts s" and "q \<noteq> p"
  shows "a_pkts s' q = a_pkts s q"
proof -
  have keep: "a_pkts s2 q = a_pkts s1 q" if "conn_handle ans p c s1 = (sent, s2)" for c s1 s2
    using handle_others [OF assms(3), of ans c s1] that by simp
  show ?thesis using assms(1,2) by (auto simp: spec_packet_def rbind_eq_ret split: option.splits if_splits dest: keep)
qed

lemma batch_others:
  assumes op: "\<And>c s s1. op c s = ret s1 \<Longrightarrow> a_pkts s1 = a_pkts s"
    and "spec_batch (conn_service ans op) ps s = ret (bs, s')" and "q \<notin> set ps"
  shows "a_pkts s' q = a_pkts s q"
  using assms(2,3)
proof (induction ps arbitrary: s bs)
  case (Cons p ps)
  then obtain sent s1 bs1 where "spec_packet (conn_service ans op) p s = ret (sent, s1)"
    "spec_batch (conn_service ans op) ps s1 = ret (bs1, s')" by (auto simp: rbind_eq_ret)
  with Cons show ?case using spec_packet_others [of ans op p s sent s1 q] op by simp
qed simp

lemma batch_invariant:
  assumes op: "\<And>c s s1. op c s = ret s1 \<Longrightarrow> a_pkts s1 = a_pkts s"
    and step: "\<And>N s p b sent s'. I N (a_conns s) \<Longrightarrow> a_pkts s p = Some b \<Longrightarrow> m_data b \<in> N \<Longrightarrow>
      spec_packet (conn_service ans op) p s = ret (sent, s') \<Longrightarrow> I (N \<union> replied sent s' p) (a_conns s')"
    and "I N (a_conns s)" and "\<forall>p \<in> set ps. \<exists>b. a_pkts s p = Some b \<and> m_data b \<in> N" and "distinct ps"
    and "spec_batch (conn_service ans op) ps s = ret (bs, s')"
  shows "I (N \<union> replies s' (zip ps bs)) (a_conns s')"
  using assms(3-)
proof (induction ps arbitrary: N s bs)
  case Nil
  then show ?case by (simp add: replies_def)
next
  case (Cons p ps)
  obtain sent s1 bs1 where p: "spec_packet (conn_service ans op) p s = ret (sent, s1)"
    and rest: "spec_batch (conn_service ans op) ps s1 = ret (bs1, s')" and bs: "bs = sent # bs1"
    using Cons.prems(4) by (auto simp: rbind_eq_ret)
  have keep: "a_pkts s1 q = a_pkts s q" if "q \<noteq> p" for q using spec_packet_others [OF p _ that] op by blast
  have "a_pkts s' p = a_pkts s1 p" using batch_others [OF op rest] Cons.prems(3) by simp
  then have "replied sent s' p = replied sent s1 p" by (simp add: replied_def)
  then have set: "N \<union> replies s' (zip (p # ps) bs) = (N \<union> replied sent s1 p) \<union> replies s' (zip ps bs1)"
    by (simp add: replies_def bs Un_assoc)
  obtain b where "a_pkts s p = Some b" "m_data b \<in> N" using Cons.prems(2) by auto
  then have "I (N \<union> replied sent s1 p) (a_conns s1)" using step [OF Cons.prems(1) _ _ p] by blast
  moreover have "\<forall>q \<in> set ps. \<exists>b. a_pkts s1 q = Some b \<and> m_data b \<in> N \<union> replied sent s1 p"
    using Cons.prems(2,3) keep by (metis UnI1 distinct.simps(2) list.set_intros(2))
  ultimately show ?case unfolding set using Cons.prems(3) rest by (intro Cons.IH) simp_all
qed

lemma on_wire_replies:
  assumes "w_pkts (c_world x) = a_pkts s"
  shows "on_wire x (map fst (filter snd l)) = replies s l"
  using assms by (force simp: on_wire_def replies_def replied_def)

lemma says_fun: "says c r t k m \<Longrightarrow> says c' r' t' k' m \<Longrightarrow> c = c' \<and> r = r' \<and> t = t' \<and> k = k'"
  by (auto simp: says_def)

lemma agree_entitled: "agree ok N S C \<Longrightarrow> said N c r t k \<Longrightarrow> entitled N c r t k"
  using agreeD(1) says_fun unfolding said_def by blast

lemma agree_server_bye:
  assumes a: "agree ok N S C" and k: "said N c ROLE_SERVER MSG_BYE k"
  shows "said N c ROLE_CLIENT MSG_HELLO k \<and> (\<exists>j. said N c ROLE_CLIENT MSG_BYE j \<and> said N c ROLE_SERVER MSG_HELLO j)"
proof -
  have k': "said N c ROLE_CLIENT MSG_HELLO k" "\<exists>j. said N c ROLE_CLIENT MSG_BYE j"
    using agree_entitled [OF a k] by (simp_all add: entitled_def)
  then obtain j where j: "said N c ROLE_CLIENT MSG_BYE j" by blast
  then have "said N c ROLE_SERVER MSG_HELLO j" using agree_entitled [OF a j] by (simp add: entitled_def)
  then show ?thesis using k'(1) j by blast
qed

lemma agree_recv_bye:
  assumes a: "agree ok N S C" and v: "C c = Some (sid, v)"
  shows "sid = C_Bye \<or> sid = C_RecvBye \<and> said N c ROLE_CLIENT MSG_BYE (ucast (c_serverCookie v)) \<and>
    (\<forall>k. said N c ROLE_SERVER MSG_BYE k \<longrightarrow> k = ucast (c_clientCookie v))"
  using agreeD(5) [OF a v] agreeD(2) [OF a] agree_server_bye [OF a] by blast

text \<open>The object of a connection, in terms of the abstract state.\<close>

lemma abs_object:
  assumes "abs_rel (\<lambda>w. w) K ob rnd ext s t w" and "t c = Some a"
  obtains v x where "a_conns s c = Some (state a, v)" "w_heap w (stateData a) = Some x" "ob (state a) v x"
  using conn_rel_get [of ob "w_heap w" "a_conns s" t c a] assms by (auto simp: abs_rel_def represents_def)

section \<open>The two programs\<close>

locale hb_pair =
  fixes d :: "('m, u64, State) map_ops" and n :: "('n, u64, State) map_ops" and tinv pinv key_ok
    and clk :: "hb_obj hworld \<Rightarrow> int \<times> hb_obj hworld" and rs rc :: "nat \<Rightarrow> u32"
  assumes dense: "hash_map d tinv key_ok" and pool: "hash_map n pinv (\<lambda>_. True)"

sublocale hb_pair \<subseteq> server: hb_version "hb3_env d n clk" tinv pinv key_ok server3_functions hb3_factory "\<lambda>w. w" put_pkts "{}"
  obj3 rs "\<lambda>_. False" "\<lambda>t w. heap_ok w"
  by (rule hb3_version [OF dense pool])

sublocale hb_pair \<subseteq> client: conn_version "hb3_env d n clk" tinv pinv key_ok client_functions None 0 C_Terminate "\<lambda>w. w" put_pkts "{}"
  objc rc "\<lambda>t w. heap_ok w" client_answer "\<lambda>c s. ret s"
  by (rule client_version [OF dense pool])

context hb_pair
begin

text \<open>The object \<open>connect\<close> makes and what the first state function does to it, on any world the client can be in.\<close>

lemma hello_opens:
  assumes A: "abs_rel (\<lambda>w. w) {} objc rc (\<lambda>t w. heap_ok w) (hb_receive P s) T w" and new: "T idn = None" and b: "P p = Some b"
  shows "\<exists>q w1 fi k m. hb3_createHello srcIP dstIP srcPort dstPort idn w = (State_of C_Hello q, w1) \<and>
    hb3_client_runHello p (call_of 0 ba idn (State_of C_Hello q) w1) = ret fi \<and> quiet (call_of 0 ba idn (State_of C_Hello q) w1 :: hb_fi) fi \<and>
    st fi = State_of C_Bye q \<and> sendPkt fi \<and> says idn ROLE_CLIENT MSG_HELLO (ucast (c_clientCookie k)) m \<and> is_byte (c_clientCookie k) \<and>
    abs_rel (\<lambda>w. w) {} objc rc (\<lambda>t w. heap_ok w)
      (s\<lparr>a_pkts := P(p \<mapsto> b\<lparr>m_data := m\<rparr>), a_conns := (a_conns s)(idn \<mapsto> (C_Bye, k)), a_rnd := a_rnd s + 1\<rparr>)
      (T(idn \<mapsto> st fi)) (world fi)"
proof -
  have rep: "represents {} objc rc (hb_receive P s) T w" and ok: "heap_ok w" using A by (simp_all add: abs_rel_def)
  define k where "k = \<lparr>c_ident = idn, c_srcIp = srcIP, c_dstIp = dstIP, c_clientCookie = fst (rand w) mod 256,
     c_serverCookie = 0, c_srcPort = srcPort, c_dstPort = dstPort\<rparr>"
  define q where "q = w_next w"
  define w1 where "w1 = (snd (rand w))\<lparr>w_heap := (w_heap w)(q \<mapsto> ClientObj k), w_next := q + 1\<rparr>"
  have create: "hb3_createHello srcIP dstIP srcPort dstPort idn w = (State_of C_Hello q, w1)"
    by (simp add: hb3_createHello_def split_beta heap_new_def w1_def q_def k_def rand_def)
  have w1: "w_heap w1 = (w_heap w)(q \<mapsto> ClientObj k)" "w_pkts w1 = P" "w_rand w1 = w_rand w" "w_rnd w1 = w_rnd w + 1"
    using rep by (simp_all add: w1_def rand_def represents_def hb_receive_def)
  let ?f0 = "call_of 0 ba idn (State_of C_Hello q) w1 :: hb_fi"
  obtain m where run: "hb3_client_runHello p ?f0 =
      ret (transition C_Bye (?f0\<lparr>world := w1\<lparr>w_pkts := P(p \<mapsto> b\<lparr>m_data := m\<rparr>)\<rparr>\<rparr>))"
    and m: "says idn ROLE_CLIENT MSG_HELLO (ucast (c_clientCookie k)) m"
    using client_runHello_packet [of ?f0 p b k] b w1 by (auto simp: k_def says_def)
  let ?fi = "transition C_Bye (?f0\<lparr>world := w1\<lparr>w_pkts := P(p \<mapsto> b\<lparr>m_data := m\<rparr>)\<rparr>\<rparr>)"
  let ?s = "s\<lparr>a_pkts := P(p \<mapsto> b\<lparr>m_data := m\<rparr>), a_conns := (a_conns s)(idn \<mapsto> (C_Bye, k)), a_rnd := a_rnd s + 1\<rparr>"
  have st: "st ?fi = State_of C_Bye q" by (simp add: call_of_def new_FunIface_def State_of_def)
  have "represents {} objc rc ?s (T(idn \<mapsto> State_of C_Bye q)) (world ?fi)"
    using represents_open [OF rep new _ _, of q C_Bye k "ClientObj k" "world ?fi" "P(p \<mapsto> b\<lparr>m_data := m\<rparr>)"] w1
      heap_new_fresh [OF ok] by (simp add: q_def objc_def hb_receive_def)
  moreover have "heap_ok (world ?fi)" using ok by (auto simp: heap_ok_def w1_def q_def rand_def less_Suc_eq)
  moreover have "quiet ?f0 ?fi" "sendPkt ?fi" "is_byte (c_clientCookie k)" by (simp_all add: quiet_def k_def is_byte_def cookie_byte)
  ultimately show ?thesis using create run m st
    by (intro exI [of _ q] exI [of _ w1] exI [of _ ?fi] exI [of _ k] exI [of _ m]) (simp add: abs_rel_def)
qed

lemma client_connects:
  assumes i: "client.idle s x" and key: "key_ok idn" and new: "a_conns s idn = None" and b: "P p = Some b"
  shows "\<exists>x' m k s'. HelloBye3_Client_connect (hb3_env d n clk) [p] 1 srcIP dstIP srcPort dstPort idn (load_pkts P x) =
      ret (x', getSendCount (c_batch x'), getFreeCount (c_batch x')) \<and> client.idle s' x' \<and>
    HelloBye3_Client_getPkts (c_batch x') = ret ([p], []) \<and> on_wire x' [p] = {m} \<and>
    says idn ROLE_CLIENT MSG_HELLO (ucast (c_clientCookie k)) m \<and> is_byte (c_clientCookie k) \<and>
    a_conns s' = (a_conns s)(idn \<mapsto> (C_Bye, k))"
proof -
  let ?env = "hb3_env d n clk" and ?w = "put_pkts P (c_world x)"
  obtain ba where ba: "new_BufArray [p] 1 True = ret ba" "ba_wf ba" "ba_list ba = [(p, True)]"
    using new_BufArray_spec [of 1 "[p]" True] by auto
  have A: "abs_rel (\<lambda>w. w) {} objc rc (\<lambda>t w. heap_ok w) (hb_receive P s) (known ?env x) ?w"
    using client.arrive [OF client.idle_abs [OF i], of P] by simp
  have t: "known ?env x idn = None" using abs_dom [OF A] new by (auto simp: hb_receive_def domIff)
  obtain q w1 fi k m where create: "hb3_createHello srcIP dstIP srcPort dstPort idn ?w = (State_of C_Hello q, w1)"
    and run: "hb3_client_runHello p (call_of 0 ba idn (State_of C_Hello q) w1) = ret fi" "quiet (call_of 0 ba idn (State_of C_Hello q) w1 :: hb_fi) fi"
      "st fi = State_of C_Bye q" "sendPkt fi" and m: "says idn ROLE_CLIENT MSG_HELLO (ucast (c_clientCookie k)) m" "is_byte (c_clientCookie k)"
    and A': "abs_rel (\<lambda>w. w) {} objc rc (\<lambda>t w. heap_ok w)
      (s\<lparr>a_pkts := P(p \<mapsto> b\<lparr>m_data := m\<rparr>), a_conns := (a_conns s)(idn \<mapsto> (C_Bye, k)), a_rnd := a_rnd s + 1\<rparr>)
      ((known ?env x)(idn \<mapsto> st fi)) (world fi)"
    using hello_opens [OF A t b] by blast
  let ?s = "s\<lparr>a_pkts := P(p \<mapsto> b\<lparr>m_data := m\<rparr>), a_conns := (a_conns s)(idn \<mapsto> (C_Bye, k)), a_rnd := a_rnd s + 1\<rparr>"
  let ?x0 = "(load_pkts P x)\<lparr>c_batch := ba, c_world := w1\<rparr>"
  have impl: "client.impl s (x\<lparr>c_batch := ba\<rparr>)" using i ba(2) by (simp add: client.idle_def)
  have I: "ctx_ok tinv pinv ?x0" "conf_is client_functions None 0 C_Terminate (c_sm ?x0)" "apart ?env ?x0"
    using client.implD(1-3) [OF impl] by (simp_all add: ctx_ok_def apart_def view_defs load_pkts_def)
  have pk: "packets ?x0 = [(p, True)]" "known ?env ?x0 = known ?env x"
    using ba by (simp_all add: packets_def known_def view_defs load_pkts_def)
  have "fun_at client_functions (state (State_of C_Hello q)) hb3_client_runHello"
    by (simp add: fun_at_def client_functions_def C_Hello_def)
  moreover have "state (st fi) \<noteq> C_Terminate" by (simp add: run(3) client_states)
  ultimately obtain x' where x': "addState ?env idn (State_of C_Hello q) ?x0 = ret x'" "client.impl ?s x'" "packets x' = [(p, True)]"
    using client.impl_addState [OF I key, of "State_of C_Hello q" hb3_client_runHello fi ?s] run A' pk t by (auto simp: State_of_def)
  have "HelloBye3_Client_connect ?env [p] 1 srcIP dstIP srcPort dstPort idn (load_pkts P x) =
      ret (x', getSendCount (c_batch x'), getFreeCount (c_batch x'))"
    using ba(1) create x'(1) by (simp add: HelloBye3_Client_connect_def load_pkts_def)
  moreover have "HelloBye3_Client_getPkts (c_batch x') = ret ([p], [])"
    using client.impl_take [OF x'(2)] x'(3) by (simp add: HelloBye3_Client_getPkts_def take_packets_def)
  moreover have "on_wire x' [p] = {m}"
    using client.same_pkts [OF client.implD(4) [OF x'(2)]] by (simp add: on_wire_def)
  ultimately show ?thesis using client.impl_idle [OF x'(2)] m by (intro exI [of _ x'] exI [of _ m] exI [of _ k] exI [of _ ?s]) simp
qed

text \<open>A batch of copies, delivered to one side.  No reserved identifier is among them.\<close>

lemma copies_admissible:
  assumes a: "agree key_ok N S C" and c: "copies N ps P"
  shows "admissible key_ok pkt_ident (ps, P)"
proof -
  have "key_ok c" if "p \<in> set ps" "Option.bind (P p) pkt_ident = Some c" for p c
  proof -
    have "\<exists>b. P p = Some b \<and> m_data b \<in> N" using c that(1) by (simp add: copies_def)
    then obtain b where b: "P p = Some b" "m_data b \<in> N" by blast
    obtain c' r t k where "key_ok c'" "says c' r t k (m_data b)" using agreeD(1) [OF a b(2)] by blast
    then show ?thesis using that(2) b(1) says_pkt_ident by auto
  qed
  then show ?thesis using c by (auto simp: admissible_def copies_def)
qed

lemma server_receives:
  assumes i: "server.idle s x" and a: "agree key_ok N (a_conns s) C" and c: "copies N ps P"
  shows "\<exists>x' s' l f. HelloBye3_Server_process (hb3_env d n clk) ps (of_nat (length ps)) (load_pkts P x) =
      ret (x', getSendCount (c_batch x'), getFreeCount (c_batch x')) \<and> server.idle s' x' \<and>
    HelloBye3_Server_getPkts (c_batch x') = ret (l, f) \<and> agree key_ok (N \<union> on_wire x' l) (a_conns s') C"
proof -
  have "stops_with (\<lambda>_. False) (spec_batch (hb_service rs (\<lambda>_. False)) ps (hb_receive P s))"
    by (rule spec_batch_stops) (simp add: hb_open_def)
  then obtain bs s' where r: "spec_batch (hb_service rs (\<lambda>_. False)) ps (hb_receive P s) = ret (bs, s')"
    by (auto simp: stops_with_cases)
  from server.impl_call [OF i copies_admissible [OF a c] r] obtain x' where x':
    "process_batch (hb3_env d n clk) ps (of_nat (length ps)) (load_pkts P x) = ret (x', getSendCount (c_batch x'), getFreeCount (c_batch x'))"
    "server.idle s' x'" "w_pkts (c_world x') = a_pkts s'"
    "take_packets (c_batch x') = ret (map fst (filter snd (zip ps bs)), map fst (filter (Not \<circ> snd) (zip ps bs)))"
    by (auto simp: load_pkts_def)
  have "agree key_ok (N \<union> replies s' (zip ps bs)) (a_conns s') C"
    using batch_invariant [where I = "\<lambda>N S. agree key_ok N S C" and s = "hb_receive P s", OF _ server_pkt _ _ _ r] a c
    by (auto simp: hb_open_def hb_receive_def copies_def)
  then show ?thesis using x' on_wire_replies [OF x'(3)]
    by (intro exI [of _ x'] exI [of _ s'] exI [of _ "map fst (filter snd (zip ps bs))"] exI [of _ "map fst (filter (Not \<circ> snd) (zip ps bs))"])
      (simp add: process3)
qed

lemma client_receives:
  assumes i: "client.idle s x" and a: "agree key_ok N S (a_conns s)" and c: "copies N ps P"
  shows "\<exists>x' s' l f. HelloBye3_Client_process (hb3_env d n clk) ps (of_nat (length ps)) (load_pkts P x) =
      ret (x', getSendCount (c_batch x'), getFreeCount (c_batch x')) \<and> client.idle s' x' \<and>
    HelloBye3_Client_getPkts (c_batch x') = ret (l, f) \<and> agree key_ok (N \<union> on_wire x' l) S (a_conns s')"
proof -
  have "stops_with (\<lambda>_. False) (spec_batch client_service ps (hb_receive P s))"
    by (rule spec_batch_stops) simp
  then obtain bs s' where r: "spec_batch client_service ps (hb_receive P s) = ret (bs, s')"
    by (auto simp: stops_with_cases)
  from client.impl_call [OF i copies_admissible [OF a c] r] obtain x' where x':
    "process_batch (hb3_env d n clk) ps (of_nat (length ps)) (load_pkts P x) = ret (x', getSendCount (c_batch x'), getFreeCount (c_batch x'))"
    "client.idle s' x'" "w_pkts (c_world x') = a_pkts s'"
    "take_packets (c_batch x') = ret (map fst (filter snd (zip ps bs)), map fst (filter (Not \<circ> snd) (zip ps bs)))"
    by (auto simp: load_pkts_def)
  have "agree key_ok (N \<union> replies s' (zip ps bs)) S (a_conns s')"
    using batch_invariant [where I = "\<lambda>N C. agree key_ok N S C" and s = "hb_receive P s", OF _ client_pkt _ _ _ r] a c
    by (auto simp: hb_receive_def copies_def)
  then show ?thesis using x' on_wire_replies [OF x'(3)]
    by (intro exI [of _ x'] exI [of _ s'] exI [of _ "map fst (filter snd (zip ps bs))"] exI [of _ "map fst (filter (Not \<circ> snd) (zip ps bs))"])
      (simp add: HelloBye3_Client_process_def HelloBye3_Client_getPkts_def process_batch_def take_packets_def)
qed

definition net_inv :: "('m, 'n) hb_net \<Rightarrow> bool" where
  "net_inv z \<longleftrightarrow> (\<exists>s k. server.idle s (n_srv z) \<and> client.idle k (n_cli z) \<and> agree key_ok (n_sent z) (a_conns s) (a_conns k))"

lemma net_admissible: "net_inv z \<Longrightarrow> copies (n_sent z) ps P \<Longrightarrow> admissible key_ok pkt_ident (ps, P)"
  using copies_admissible by (auto simp: net_inv_def)

lemma net_step_inv:
  assumes "hb_net_step (hb3_env d n clk) key_ok z z'" and "net_inv z"
  shows "net_inv z'"
proof -
  obtain s k where i: "server.idle s (n_srv z)" "client.idle k (n_cli z)" and a: "agree key_ok (n_sent z) (a_conns s) (a_conns k)"
    using assms(2) by (auto simp: net_inv_def)
  show ?thesis using assms(1)
  proof cases
    case (connect idn P p b srcIP dstIP srcPort dstPort x sc fc l f)
    have fresh: "\<not> said (n_sent z) idn r t j" for r t j using connect(3) said_ident by blast
    have new: "a_conns k idn = None" using agreeD(5) [OF a] fresh by (metis not_None_eq surj_pair)
    from client_connects [where P = P and p = p and b = b, OF i(2) connect(2) new connect(4), of srcIP dstIP srcPort dstPort] connect(5,6)
    obtain m c k' where k': "client.idle k' x" "l = [p]" "on_wire x [p] = {m}"
      "says idn ROLE_CLIENT MSG_HELLO (ucast (c_clientCookie c)) m" "is_byte (c_clientCookie c)"
      "a_conns k' = (a_conns k)(idn \<mapsto> (C_Bye, c))" by auto
    have "agree key_ok (insert m (n_sent z)) (a_conns s) (a_conns k)"
      using agree_sent [OF a k'(4) connect(2)] fresh by (simp add: entitled_def)
    then have "agree key_ok (insert m (n_sent z)) (a_conns s) ((a_conns k)(idn \<mapsto> (C_Bye, c)))"
      by - (rule agree_client, use k'(5) fresh in \<open>auto simp: said_insert [OF k'(4)]\<close>)
    then show ?thesis unfolding net_inv_def using connect(1) i(1) k'
      by (intro exI [of _ s] exI [of _ k']) simp
  next
    case (to_server ps P x sc fc l f)
    then show ?thesis using server_receives [OF i(1) a to_server(2)] i(2) by (auto simp: net_inv_def)
  next
    case (to_client ps P x sc fc l f)
    then show ?thesis using client_receives [OF i(2) a to_client(2)] i(1) by (auto simp: net_inv_def)
  qed
qed

text \<open>The abstract state of a reachable system.\<close>

lemma net_reachable_inv: "hb_net_reachable (hb3_env d n clk) key_ok rs rc z \<Longrightarrow> net_inv z"
proof (induction rule: hb_net_reachable.induct)
  case (start ba)
  have srv: "represents {} obj3 rs no_conns Map.empty (hb3_boot rs)" "heap_ok (hb3_boot rs)"
    and cli: "represents {} objc rc no_conns Map.empty (hb3_boot rc)" "heap_ok (hb3_boot rc)"
    by (simp_all add: represents_def no_conns_def hb3_boot_def tracks_def own_objects_def conn_rel_def heap_ok_def)
  have "well_behaved f" if "Some f \<in> set server3_functions" for f
    using that hb3_s_hello.well_behaved hb3_s_bye.well_behaved by (auto simp: server3_functions_def)
  then have "server.idle no_conns (hb3_server (hb3_env d n clk) ba rs)"
    unfolding hb3_server_def using srv by (intro server.idle_fresh server3_conf) (simp_all add: server_init_table)
  moreover have "well_behaved f" if "Some f \<in> set client_functions" for f
    using that hb3_c_hello.well_behaved hb3_c_bye.well_behaved hb3_c_recvbye.well_behaved by (auto simp: client_functions_def)
  then have "client.idle no_conns (hb_client (hb3_env d n clk) ba rc)"
    unfolding hb_client_def using cli by (intro client.idle_fresh client_conf) (simp_all add: client_init_table)
  moreover have "agree key_ok {} (a_conns no_conns) (a_conns no_conns)" by (simp add: agree_def no_conns_def said_def)
  ultimately show ?case unfolding net_inv_def hb_net.simps by blast
qed (rule net_step_inv)

text \<open>One packet delivered to the server, and to the client.\<close>

lemma copy_single: "m_data b \<in> N \<Longrightarrow> copies N [p] [p \<mapsto> b]"
  by (simp add: copies_def)

lemma single_reply: "w_pkts (c_world x) = a_pkts s \<Longrightarrow> on_wire x (map fst (filter snd (zip [p] [sent]))) = replied sent s p"
  by (cases sent) (auto simp: on_wire_def replied_def)

lemma server_single:
  assumes i: "server.idle s (n_srv z)" and inv: "net_inv z" and b: "m_data b \<in> n_sent z"
    and r: "spec_packet (hb_service rs (\<lambda>_. False)) p (hb_receive [p \<mapsto> b] s) = ret (sent, s')"
  shows "\<exists>z'. hb_net_step (hb3_env d n clk) key_ok z z' \<and> server.idle s' (n_srv z') \<and> n_cli z' = n_cli z \<and>
    n_sent z' = n_sent z \<union> replied sent s' p"
proof -
  let ?P = "[p \<mapsto> b]" and ?env = "hb3_env d n clk"
  have "spec_batch (hb_service rs (\<lambda>_. False)) [p] (hb_receive ?P s) = ret ([sent], s')" using r by simp
  from server.impl_call [OF i net_admissible [OF inv copy_single [OF b]] this] obtain x' where x':
    "process_batch ?env [p] 1 (load_pkts ?P (n_srv z)) = ret (x', getSendCount (c_batch x'), getFreeCount (c_batch x'))"
    "server.idle s' x'" "w_pkts (c_world x') = a_pkts s'"
    "take_packets (c_batch x') = ret (map fst (filter snd (zip [p] [sent])), map fst (filter (Not \<circ> snd) (zip [p] [sent])))"
    by (auto simp: load_pkts_def)
  let ?z = "z\<lparr>n_srv := x', n_sent := n_sent z \<union> on_wire x' (map fst (filter snd (zip [p] [sent])))\<rparr>"
  have "hb_net_step ?env key_ok z ?z"
    by (rule hb_net_step.to_server [OF copy_single [OF b]]) (use x'(1,4) in \<open>simp_all add: process3\<close>)
  then show ?thesis using x'(2) single_reply [OF x'(3), of p sent] by (intro exI [of _ ?z]) simp
qed

lemma client_single:
  assumes i: "client.idle s (n_cli z)" and inv: "net_inv z" and b: "m_data b \<in> n_sent z"
    and r: "spec_packet client_service p (hb_receive [p \<mapsto> b] s) = ret (sent, s')"
  shows "\<exists>z'. hb_net_step (hb3_env d n clk) key_ok z z' \<and> client.idle s' (n_cli z') \<and> n_srv z' = n_srv z \<and>
    n_sent z' = n_sent z \<union> replied sent s' p"
proof -
  let ?P = "[p \<mapsto> b]" and ?env = "hb3_env d n clk"
  have "spec_batch client_service [p] (hb_receive ?P s) = ret ([sent], s')" using r by simp
  from client.impl_call [OF i net_admissible [OF inv copy_single [OF b]] this] obtain x' where x':
    "process_batch ?env [p] 1 (load_pkts ?P (n_cli z)) = ret (x', getSendCount (c_batch x'), getFreeCount (c_batch x'))"
    "client.idle s' x'" "w_pkts (c_world x') = a_pkts s'"
    "take_packets (c_batch x') = ret (map fst (filter snd (zip [p] [sent])), map fst (filter (Not \<circ> snd) (zip [p] [sent])))"
    by (auto simp: load_pkts_def)
  let ?z = "z\<lparr>n_cli := x', n_sent := n_sent z \<union> on_wire x' (map fst (filter snd (zip [p] [sent])))\<rparr>"
  have "hb_net_step ?env key_ok z ?z"
    by (rule hb_net_step.to_client [OF copy_single [OF b]])
      (use x'(1,4) in \<open>simp_all add: HelloBye3_Client_process_def HelloBye3_Client_getPkts_def process_batch_def take_packets_def\<close>)
  then show ?thesis using x'(2) single_reply [OF x'(3), of p sent] by (intro exI [of _ ?z]) simp
qed

text \<open>The four turns of an exchange, each on a copy of the packet before.\<close>

lemma spec_known:
  assumes "says c r t k (m_data b)" and "a_conns s c = Some y"
  shows "spec_packet (conn_service ans op) p (hb_receive [p \<mapsto> b] s) = ret (conn_handle ans p c (hb_receive [p \<mapsto> b] s))"
  using assms says_pkt_ident [OF assms(1)] by (simp add: spec_packet_def hb_receive_def)

lemma server_greets:
  assumes i: "server.idle s (n_srv z)" and inv: "net_inv z" and m: "m \<in> n_sent z" "says c ROLE_CLIENT MSG_HELLO k m"
    and new: "a_conns s c = None"
  shows "\<exists>z' s' v m'. hb_net_step (hb3_env d n clk) key_ok z z' \<and> server.idle s' (n_srv z') \<and> n_cli z' = n_cli z \<and>
    m' \<in> n_sent z' \<and> says c ROLE_SERVER MSG_HELLO (ucast (s_serverCookie v)) m' \<and> is_byte (s_serverCookie v) \<and>
    s_clientCookie v = ucast k \<and> a_conns s' c = Some (S_Bye, v)"
proof -
  let ?b = "\<lparr>m_data = m, m_dataLen = 0, m_bufLen = 0\<rparr>" and ?v = "first_cookies rs (a_rnd s)"
  let ?s = "(hb_receive [1 \<mapsto> ?b] s)\<lparr>a_conns := (a_conns s)(c \<mapsto> (S_Hello, ?v)), a_rnd := a_rnd s + 1\<rparr>"
  let ?m = "hb_answer MSG_HELLO (ucast (s_serverCookie ?v)) m"
  have says: "says c ROLE_CLIENT MSG_HELLO k (m_data ?b)" using m(2) by simp
  obtain sent s' where h: "conn_handle server_answer 1 c ?s = (sent, s')" by fastforce
  have r: "spec_packet (hb_service rs (\<lambda>_. False)) 1 (hb_receive [1 \<mapsto> ?b] s) = ret (sent, s')"
    using h new says_pkt_ident [OF says] by (simp add: spec_packet_def hb_open_def hb_receive_def)
  have s': "sent" "a_pkts s' 1 = Some (?b\<lparr>m_data := ?m\<rparr>)" "a_conns s' c = Some (S_Bye, ?v\<lparr>s_clientCookie := ucast k\<rparr>)"
    using h by (auto simp: conn_handle_def hb_receive_def server_answer_says [OF says] server_answer_says [OF m(2)])
  show ?thesis using m(1) s' says_answer [OF m(2)] byte_first
    by (intro ex_forward [OF server_single [OF i inv _ r]] exI [of _ s'] exI [of _ "?v\<lparr>s_clientCookie := ucast k\<rparr>"] exI [of _ ?m]) auto
qed

lemma client_says_goodbye:
  assumes i: "client.idle s (n_cli z)" and inv: "net_inv z" and m: "m \<in> n_sent z" "says c ROLE_SERVER MSG_HELLO k m"
    and known: "a_conns s c = Some (C_Bye, v)"
  shows "\<exists>z' s' v' m'. hb_net_step (hb3_env d n clk) key_ok z z' \<and> client.idle s' (n_cli z') \<and> n_srv z' = n_srv z \<and>
    m' \<in> n_sent z' \<and> says c ROLE_CLIENT MSG_BYE k m' \<and> a_conns s' c = Some (C_RecvBye, v')"
proof -
  let ?b = "\<lparr>m_data = m, m_dataLen = 0, m_bufLen = 0\<rparr>"
  have says: "says c ROLE_SERVER MSG_HELLO k (m_data ?b)" using m(2) by simp
  obtain sent s' where h: "conn_handle client_answer 1 c (hb_receive [1 \<mapsto> ?b] s) = (sent, s')" by fastforce
  have r: "spec_packet client_service 1 (hb_receive [1 \<mapsto> ?b] s) = ret (sent, s')" using spec_known [OF says known] h by simp
  have s': "sent" "a_pkts s' 1 = Some (?b\<lparr>m_data := hb_goodbye k m\<rparr>)"
    "a_conns s' c = Some (C_RecvBye, v\<lparr>c_serverCookie := ucast k\<rparr>)"
    using h known by (auto simp: conn_handle_def hb_receive_def client_answer_says [OF says] client_answer_says [OF m(2)])
  show ?thesis using m(1) s' says_goodbye [OF m(2)]
    by (intro ex_forward [OF client_single [OF i inv _ r]] exI [of _ s'] exI [of _ "v\<lparr>c_serverCookie := ucast k\<rparr>"] exI [of _ "hb_goodbye k m"]) auto
qed

lemma server_says_goodbye:
  assumes i: "server.idle s (n_srv z)" and inv: "net_inv z" and m: "m \<in> n_sent z" "says c ROLE_CLIENT MSG_BYE k m"
    and known: "a_conns s c = Some (S_Bye, v)" and k: "ucast k = s_serverCookie v"
  shows "\<exists>z' s' m'. hb_net_step (hb3_env d n clk) key_ok z z' \<and> server.idle s' (n_srv z') \<and> n_cli z' = n_cli z \<and>
    m' \<in> n_sent z' \<and> says c ROLE_SERVER MSG_BYE (ucast (s_clientCookie v)) m' \<and> a_conns s' c = None"
proof -
  let ?b = "\<lparr>m_data = m, m_dataLen = 0, m_bufLen = 0\<rparr>" and ?m = "hb_answer MSG_BYE (ucast (s_clientCookie v)) m"
  have says: "says c ROLE_CLIENT MSG_BYE k (m_data ?b)" using m(2) by simp
  obtain sent s' where h: "conn_handle server_answer 1 c (hb_receive [1 \<mapsto> ?b] s) = (sent, s')" by fastforce
  have r: "spec_packet (hb_service rs (\<lambda>_. False)) 1 (hb_receive [1 \<mapsto> ?b] s) = ret (sent, s')" using spec_known [OF says known] h by simp
  have ne: "S_Bye \<noteq> S_Hello" by (simp add: S_Bye_def S_Hello_def)
  have s': "sent" "a_pkts s' 1 = Some (?b\<lparr>m_data := ?m\<rparr>)" "a_conns s' c = None"
    using h known k ne by (auto simp: conn_handle_def hb_receive_def server_answer_says [OF says] server_answer_says [OF m(2)])
  show ?thesis using m(1) s' says_answer [OF m(2)]
    by (intro ex_forward [OF server_single [OF i inv _ r]] exI [of _ s'] exI [of _ ?m]) auto
qed

lemma client_leaves:
  assumes i: "client.idle s (n_cli z)" and inv: "net_inv z" and m: "m \<in> n_sent z" "says c ROLE_SERVER MSG_BYE k m"
    and known: "a_conns s c = Some (C_RecvBye, v)"
  shows "\<exists>z' s'. hb_net_step (hb3_env d n clk) key_ok z z' \<and> client.idle s' (n_cli z') \<and> n_srv z' = n_srv z \<and>
    n_sent z \<subseteq> n_sent z' \<and> a_conns s' c = None"
proof -
  let ?b = "\<lparr>m_data = m, m_dataLen = 0, m_bufLen = 0\<rparr>"
  have says: "says c ROLE_SERVER MSG_BYE k (m_data ?b)" using m(2) by simp
  obtain sent s' where h: "conn_handle client_answer 1 c (hb_receive [1 \<mapsto> ?b] s) = (sent, s')" by fastforce
  have r: "spec_packet client_service 1 (hb_receive [1 \<mapsto> ?b] s) = ret (sent, s')" using spec_known [OF says known] h by simp
  have s': "\<not> sent" "a_conns s' c = None"
    using h known by (auto simp: conn_handle_def hb_receive_def client_answer_says [OF says] client_answer_says [OF m(2)] client_states)
  show ?thesis using m(1) s' by (intro ex_forward [OF client_single [OF i inv _ r]] exI [of _ s']) auto
qed

lemma client_opens:
  assumes i: "client.idle s (n_cli z)" and c: "key_ok c" "\<forall>m \<in> n_sent z. hb3_identify m \<noteq> Some c" and new: "a_conns s c = None"
  shows "\<exists>z' s' v m. hb_net_step (hb3_env d n clk) key_ok z z' \<and> client.idle s' (n_cli z') \<and> n_srv z' = n_srv z \<and> m \<in> n_sent z' \<and>
    says c ROLE_CLIENT MSG_HELLO (ucast (c_clientCookie v)) m \<and> a_conns s' c = Some (C_Bye, v)"
proof -
  let ?b = "\<lparr>m_data = undefined, m_dataLen = 0, m_bufLen = 0\<rparr>"
  obtain x m v s' where x: "HelloBye3_Client_connect (hb3_env d n clk) [1] 1 0 0 0 0 c (load_pkts [1 \<mapsto> ?b] (n_cli z)) =
      ret (x, getSendCount (c_batch x), getFreeCount (c_batch x))" "client.idle s' x" "HelloBye3_Client_getPkts (c_batch x) = ret ([1], [])"
      "on_wire x [1] = {m}" "says c ROLE_CLIENT MSG_HELLO (ucast (c_clientCookie v)) m" "a_conns s' c = Some (C_Bye, v)"
    using client_connects [where P = "[1 \<mapsto> ?b]" and p = 1 and b = ?b, OF i c(1) new, of 0 0 0 0] by auto
  let ?z = "z\<lparr>n_cli := x, n_sent := n_sent z \<union> on_wire x [1]\<rparr>"
  have "hb_net_step (hb3_env d n clk) key_ok z ?z"
    by (rule hb_net_step.connect [where P = "[1 \<mapsto> ?b]" and p = 1 and key_ok = key_ok and idn = c, OF c _ x(1,3)]) simp
  then show ?thesis using x(2,4-6) by (intro exI [of _ ?z] exI [of _ s'] exI [of _ v] exI [of _ m]) simp
qed

lemma exchange_reachable:
  assumes inv: "net_inv z" and c: "key_ok c" "\<forall>m \<in> n_sent z. hb3_identify m \<noteq> Some c"
  shows "\<exists>z' k. (hb_net_step (hb3_env d n clk) key_ok)\<^sup>*\<^sup>* z z' \<and> said (n_sent z') c ROLE_SERVER MSG_BYE k \<and>
    known (hb3_env d n clk) (n_srv z') c = None \<and> known (hb3_env d n clk) (n_cli z') c = None"
proof -
  let ?env = "hb3_env d n clk"
  obtain s k where i: "server.idle s (n_srv z)" "client.idle k (n_cli z)" and a: "agree key_ok (n_sent z) (a_conns s) (a_conns k)"
    using inv by (auto simp: net_inv_def)
  have unsaid: "\<not> said (n_sent z) c r t j" for r t j using c(2) said_ident by blast
  have new: "a_conns s c = None" "a_conns k c = None" using agreeD(4,5) [OF a] unsaid by (metis not_None_eq surj_pair)+
  obtain z1 k1 v m1 where s1: "hb_net_step ?env key_ok z z1" "client.idle k1 (n_cli z1)" "n_srv z1 = n_srv z" "m1 \<in> n_sent z1"
      "says c ROLE_CLIENT MSG_HELLO (ucast (c_clientCookie v)) m1" "a_conns k1 c = Some (C_Bye, v)"
    using client_opens [OF i(2) c new(2)] by blast
  note n1 = net_step_inv [OF s1(1) inv]
  obtain z2 s2 u m2 where s2: "hb_net_step ?env key_ok z1 z2" "server.idle s2 (n_srv z2)" "n_cli z2 = n_cli z1" "m2 \<in> n_sent z2"
      "says c ROLE_SERVER MSG_HELLO (ucast (s_serverCookie u)) m2" "is_byte (s_serverCookie u)" "a_conns s2 c = Some (S_Bye, u)"
    using server_greets [OF i(1) [folded s1(3)] n1 s1(4,5) new(1)] by blast
  note n2 = net_step_inv [OF s2(1) n1]
  obtain z3 k3 v3 m3 where s3: "hb_net_step ?env key_ok z2 z3" "client.idle k3 (n_cli z3)" "n_srv z3 = n_srv z2" "m3 \<in> n_sent z3"
      "says c ROLE_CLIENT MSG_BYE (ucast (s_serverCookie u)) m3" "a_conns k3 c = Some (C_RecvBye, v3)"
    using client_says_goodbye [OF s1(2) [folded s2(3)] n2 s2(4,5) s1(6)] by blast
  note n3 = net_step_inv [OF s3(1) n2]
  obtain z4 s4 m4 where s4: "hb_net_step ?env key_ok z3 z4" "server.idle s4 (n_srv z4)" "n_cli z4 = n_cli z3" "m4 \<in> n_sent z4"
      "says c ROLE_SERVER MSG_BYE (ucast (s_clientCookie u)) m4" "a_conns s4 c = None"
    using server_says_goodbye [OF s2(2) [folded s3(3)] n3 s3(4,5) s2(7)] s2(6) unfolding is_byte_def by blast
  note n4 = net_step_inv [OF s4(1) n3]
  obtain z5 k5 where s5: "hb_net_step ?env key_ok z4 z5" "client.idle k5 (n_cli z5)" "n_srv z5 = n_srv z4" "n_sent z4 \<subseteq> n_sent z5"
      "a_conns k5 c = None"
    using client_leaves [OF s3(2) [folded s4(3)] n4 s4(4,5) s3(6)] by blast
  have "(hb_net_step ?env key_ok)\<^sup>*\<^sup>* z z5" using s1(1) s2(1) s3(1) s4(1) s5(1) by (meson rtranclp.rtrancl_refl rtranclp.rtrancl_into_rtrancl)
  moreover have "said (n_sent z5) c ROLE_SERVER MSG_BYE (ucast (s_clientCookie u))" using s4(4,5) s5(4) by (auto simp: said_def)
  moreover have "known ?env (n_srv z5) c = None" "known ?env (n_cli z5) c = None"
    using abs_dom [OF server.idle_abs [OF s4(2)]] abs_dom [OF client.idle_abs [OF s5(2)]] s4(6) s5(3,5) by (auto simp: domIff)
  ultimately show ?thesis by blast
qed


text \<open>The abstract state, seen through the objects of the two programs.\<close>

lemma net_view:
  assumes "net_inv z"
  shows "\<exists>S C. agree key_ok (n_sent z) S C \<and>
    (\<forall>c a. known (hb3_env d n clk) (n_srv z) c = Some a \<longrightarrow>
      (\<exists>v. S c = Some (state a, v) \<and> w_heap (c_world (n_srv z)) (stateData a) = Some (ServerObj v))) \<and>
    (\<forall>c a. known (hb3_env d n clk) (n_cli z) c = Some a \<longrightarrow>
      (\<exists>v. C c = Some (state a, v) \<and> w_heap (c_world (n_cli z)) (stateData a) = Some (ClientObj v)))"
proof -
  obtain s k where i: "server.idle s (n_srv z)" "client.idle k (n_cli z)" and a: "agree key_ok (n_sent z) (a_conns s) (a_conns k)"
    using assms by (auto simp: net_inv_def)
  show ?thesis
    by (intro exI [of _ "a_conns s"] exI [of _ "a_conns k"] conjI a)
      (auto simp: obj3_def objc_def elim: abs_object [OF server.idle_abs [OF i(1)]] abs_object [OF client.idle_abs [OF i(2)]])
qed

lemma net_never_fails:
  assumes "net_inv z" and "copies (n_sent z) ps P"
  shows "(\<exists>r. HelloBye3_Server_process (hb3_env d n clk) ps (of_nat (length ps)) (load_pkts P (n_srv z)) = ret r) \<and>
    (\<exists>r. HelloBye3_Client_process (hb3_env d n clk) ps (of_nat (length ps)) (load_pkts P (n_cli z)) = ret r)"
  using assms server_receives client_receives unfolding net_inv_def by meson

end

section \<open>What the two sides agree on\<close>

interpretation hb_lists: hb_pair alist_ops alist_ops "alist_inv ok" "alist_inv (\<lambda>_. True)" ok clk rs rc
  for ok clk rs rc
  by unfold_locales

text \<open>
  C16.  A client and a server on a network that loses, duplicates, delays and reorders packets, after any number of calls:
  a goodbye of the server carries the cookie of the client's hello and came after a goodbye of the client, whose cookie is
  one the server said hello with; all hellos of the client for an identifier carry one cookie, and so do all its goodbyes.  (The
  server may have said hello with several cookies, since it draws a new one when a duplicate of the hello reaches it after
  its connection has ended.)  A connection of the server has the cookie of the client, and its own is one it said
  hello with; one of the client is waiting for a hello, or has said goodbye and then its cookie is the only one that a
  goodbye of the server can carry.  Neither side fails on any batch of packets of the network.
\<close>

theorem two_sides_agree:
  assumes "hash_map d tinv key_ok" and "hash_map n pinv (\<lambda>_. True)"
    and "hb_net_reachable (hb3_env d n clk) key_ok rs rc z"
  shows
   "(\<forall>c k. said (n_sent z) c ROLE_SERVER MSG_BYE k \<longrightarrow> said (n_sent z) c ROLE_CLIENT MSG_HELLO k \<and>
       (\<exists>j. said (n_sent z) c ROLE_CLIENT MSG_BYE j \<and> said (n_sent z) c ROLE_SERVER MSG_HELLO j)) \<and>
    (\<forall>c t k j. t = MSG_HELLO \<or> t = MSG_BYE \<longrightarrow> said (n_sent z) c ROLE_CLIENT t k \<longrightarrow> said (n_sent z) c ROLE_CLIENT t j \<longrightarrow> k = j) \<and>
    (\<forall>c a. known (hb3_env d n clk) (n_srv z) c = Some a \<longrightarrow>
       (\<exists>v. w_heap (c_world (n_srv z)) (stateData a) = Some (ServerObj v) \<and> state a = S_Bye \<and>
          said (n_sent z) c ROLE_CLIENT MSG_HELLO (ucast (s_clientCookie v)) \<and>
          said (n_sent z) c ROLE_SERVER MSG_HELLO (ucast (s_serverCookie v)))) \<and>
    (\<forall>c a. known (hb3_env d n clk) (n_cli z) c = Some a \<longrightarrow>
       (\<exists>v. w_heap (c_world (n_cli z)) (stateData a) = Some (ClientObj v) \<and>
          (state a = C_Bye \<or> state a = C_RecvBye \<and> said (n_sent z) c ROLE_CLIENT MSG_BYE (ucast (c_serverCookie v)) \<and>
             (\<forall>k. said (n_sent z) c ROLE_SERVER MSG_BYE k \<longrightarrow> k = ucast (c_clientCookie v))))) \<and>
    (\<forall>ps P. copies (n_sent z) ps P \<longrightarrow>
       (\<exists>r. HelloBye3_Server_process (hb3_env d n clk) ps (of_nat (length ps)) (load_pkts P (n_srv z)) = ret r) \<and>
       (\<exists>r. HelloBye3_Client_process (hb3_env d n clk) ps (of_nat (length ps)) (load_pkts P (n_cli z)) = ret r))"
proof -
  note pair = hb_pair.intro [OF assms(1,2)]
  note inv = hb_pair.net_reachable_inv [OF pair assms(3)]
  obtain S C where a: "agree key_ok (n_sent z) S C"
    and srv: "\<And>c a. known (hb3_env d n clk) (n_srv z) c = Some a \<Longrightarrow>
      \<exists>v. S c = Some (state a, v) \<and> w_heap (c_world (n_srv z)) (stateData a) = Some (ServerObj v)"
    and cli: "\<And>c a. known (hb3_env d n clk) (n_cli z) c = Some a \<Longrightarrow>
      \<exists>v. C c = Some (state a, v) \<and> w_heap (c_world (n_cli z)) (stateData a) = Some (ClientObj v)"
    using hb_pair.net_view [OF pair inv] by blast
  show ?thesis
    using agree_server_bye [OF a] agreeD(2,3) [OF a] srv agreeD(4) [OF a] cli agree_recv_bye [OF a] hb_pair.net_never_fails [OF pair inv]
    by (intro conjI allI impI) metis+
qed

lemma reachable_steps:
  "(hb_net_step env key_ok)\<^sup>*\<^sup>* z z' \<Longrightarrow> hb_net_reachable env key_ok rs rc z \<Longrightarrow> hb_net_reachable env key_ok rs rc z'"
  by (induction rule: rtranclp_induct) (auto intro: hb_net_reachable.step)

text \<open>An exchange on lists, from the start of the two programs to the goodbye of the server.\<close>

lemma hb_ex_exchange:
  "\<exists>z k. hb_net_reachable hb_ex_env hb_reserved (\<lambda>_. 7) (\<lambda>_. 3) z \<and> said (n_sent z) 5 ROLE_SERVER MSG_BYE k"
proof -
  let ?z = "\<lparr>n_srv = hb3_server hb_ex_env (c_batch (hb_ex_ctx 0)) (\<lambda>_. 7), n_cli = hb_client hb_ex_env (c_batch (hb_ex_ctx 0)) (\<lambda>_. 3), n_sent = {}\<rparr>"
  have z: "hb_net_reachable hb_ex_env hb_reserved (\<lambda>_. 7) (\<lambda>_. 3) ?z" by (rule hb_net_reachable.start)
  show ?thesis
    using hb_lists.exchange_reachable [OF hb_lists.net_reachable_inv [OF z [unfolded hb_ex_env_def]] hb_ex_key]
      reachable_steps [OF _ z] unfolding hb_ex_env_def by auto
qed

theorem two_sides_agree_witness:
  "\<exists>z k j. hb_net_reachable hb_ex_env hb_reserved (\<lambda>_. 7) (\<lambda>_. 3) z \<and> said (n_sent z) 5 ROLE_SERVER MSG_BYE k \<and>
    said (n_sent z) 5 ROLE_CLIENT MSG_HELLO k \<and> said (n_sent z) 5 ROLE_CLIENT MSG_BYE j"
proof -
  obtain z k where z: "hb_net_reachable hb_ex_env hb_reserved (\<lambda>_. 7) (\<lambda>_. 3) z" "said (n_sent z) 5 ROLE_SERVER MSG_BYE k"
    using hb_ex_exchange by blast
  then show ?thesis
    using two_sides_agree [OF alist.hash_map_axioms alist.hash_map_axioms z(1) [unfolded hb_ex_env_def]] by blast
qed

text \<open>
  C17.  In every state that a client and a server can reach on such a network, a connection can be opened under a fresh identifier and its
  exchange can complete: some further calls of the two programs bring the goodbye of the server
  onto the network, and leave neither side with the connection.
\<close>

theorem exchange_can_complete:
  assumes "hash_map d tinv key_ok" and "hash_map n pinv (\<lambda>_. True)"
    and "hb_net_reachable (hb3_env d n clk) key_ok rs rc z" and "key_ok c" and "\<forall>m \<in> n_sent z. hb3_identify m \<noteq> Some c"
  shows "\<exists>z' k. (hb_net_step (hb3_env d n clk) key_ok)\<^sup>*\<^sup>* z z' \<and> said (n_sent z') c ROLE_SERVER MSG_BYE k \<and>
    known (hb3_env d n clk) (n_srv z') c = None \<and> known (hb3_env d n clk) (n_cli z') c = None"
proof -
  note pair = hb_pair.intro [OF assms(1,2)]
  show ?thesis by (rule hb_pair.exchange_reachable [OF pair hb_pair.net_reachable_inv [OF pair assms(3)] assms(4,5)])
qed

theorem exchange_can_complete_witness:
  "\<exists>z k. hb_net_reachable hb_ex_env hb_reserved (\<lambda>_. 7) (\<lambda>_. 3) z \<and> said (n_sent z) 5 ROLE_SERVER MSG_BYE k \<and>
    known hb_ex_env (n_srv z) 5 = None \<and> known hb_ex_env (n_cli z) 5 = None"
proof -
  let ?z = "\<lparr>n_srv = hb3_server hb_ex_env (c_batch (hb_ex_ctx 0)) (\<lambda>_. 7), n_cli = hb_client hb_ex_env (c_batch (hb_ex_ctx 0)) (\<lambda>_. 3), n_sent = {}\<rparr>"
  have z: "hb_net_reachable hb_ex_env hb_reserved (\<lambda>_. 7) (\<lambda>_. 3) ?z" by (rule hb_net_reachable.start)
  show ?thesis
    using exchange_can_complete [OF alist.hash_map_axioms alist.hash_map_axioms z [unfolded hb_ex_env_def] hb_ex_key]
      reachable_steps [OF _ z] unfolding hb_ex_env_def by auto
qed

end
