(* ===== verification/Tcp.thy ===== *)
theory Tcp
  imports State_Machine Packet_World Headers Ident
begin

text \<open>
  The TCP server of \<open>include/tcp.hpp\<close> and \<open>src/tcp.cpp\<close>, a class template over a protocol
  (\<open>Proto\<close>) and a congestion control (\<open>ConCtl\<close>), with the two classes the repository instantiates
  it with: \<open>TcpConCtlSimple\<close> and \<open>TcpProtoJoke\<close>, which sends every payload back.

  A segment points to a block of bytes on the heap; blocks and connections are the objects of
  the world.  The template parameters are records of their operations.  The handlers
  \<open>runFin\<close> and the client are declared in the header but have no code.
\<close>

section \<open>Data\<close>

definition MSS :: u32 where "MSS = 1460"

definition TS_syn_ack :: StateID where "TS_syn_ack = 0"
definition TS_est :: StateID where "TS_est = 1"
definition TS_fin :: StateID where "TS_fin = 2"
definition TS_ack_fin :: StateID where "TS_ack_fin = 3"
definition TS_END :: StateID where "TS_END = 4"

record segment =
  seg_dataPtr :: ptr
  seg_seqNumber :: u32
  seg_dataLen :: u16

record ('cc, 'pp) connection =
  seqLocal :: u32
  seqRemote :: u32
  dataToSend :: "segment list"
  dataAlreadySent :: "segment list"
  sendWindow :: u16
  ipID :: u16
  closeConnectionAfterSending :: bool
  conCtl :: 'cc
  connProto :: 'pp

datatype ('cc, 'pp) tcp_obj = Conn "('cc, 'pp) connection" | Block "u8 list"

type_synonym ('cc, 'pp) tworld = "('cc, 'pp) tcp_obj hworld"
type_synonym ('cc, 'pp) tfi = "(ConnectionID, ptr, ('cc, 'pp) tcp_obj hworld, unit) FunIface"
type_synonym ('cc, 'pp) tfun = "(ConnectionID, ptr, ('cc, 'pp) tcp_obj hworld, unit) stateFun"

text \<open>The classes the template is instantiated with; \<open>reset\<close> returns the value it stores.\<close>

record 'cc con_ctl =
  cc_init :: 'cc
  cc_handlePacket :: "u32 \<Rightarrow> u32 \<Rightarrow> 'cc \<Rightarrow> 'cc"
  cc_reset :: "'cc \<Rightarrow> u32 option"
  cc_getConWindow :: "'cc \<Rightarrow> u32"

record ('cc, 'pp) tcp_env =
  te_conCtl :: "'cc con_ctl"
  te_proto_init :: 'pp
  te_handlePacket :: "u8 list \<Rightarrow> ('cc, 'pp) connection \<times> ('cc, 'pp) tworld \<Rightarrow>
     (('cc, 'pp) connection \<times> ('cc, 'pp) tworld) res"

definition get_conn :: "ptr \<Rightarrow> ('cc, 'pp) tworld \<Rightarrow> ('cc, 'pp) connection res" where
  "get_conn p w = rbind (heap_get p w) (\<lambda>ob. case ob of Conn c \<Rightarrow> ret c | Block _ \<Rightarrow> fail BadPointer)"

definition get_block :: "ptr \<Rightarrow> ('cc, 'pp) tworld \<Rightarrow> u8 list res" where
  "get_block p w = rbind (heap_get p w) (\<lambda>ob. case ob of Block bs \<Rightarrow> ret bs | Conn _ \<Rightarrow> fail BadPointer)"

text \<open>\<open>n\<close> bytes from offset \<open>k\<close> of a block; an access outside the block is an error.\<close>

definition read_block :: "ptr \<Rightarrow> nat \<Rightarrow> nat \<Rightarrow> ('cc, 'pp) tworld \<Rightarrow> u8 list res" where
  "read_block p k n w =
    rbind (get_block p w) (\<lambda>bs. if k + n \<le> length bs then ret (take n (drop k bs)) else fail OutOfBounds)"

section \<open>The interface of the protocol\<close>

definition ti_close :: "('cc, 'pp) connection \<times> ('cc, 'pp) tworld \<Rightarrow> ('cc, 'pp) connection \<times> ('cc, 'pp) tworld" where
  "ti_close cw = (let (c, w) = cw in (c\<lparr>closeConnectionAfterSending := True\<rparr>, w))"

definition push_segment :: "ptr \<Rightarrow> u16 \<Rightarrow> ('cc, 'pp) connection \<Rightarrow> ('cc, 'pp) connection" where
  "push_segment p len c =
    (let seg = \<lparr>seg_dataPtr = p, seg_seqNumber = seqLocal c, seg_dataLen = len\<rparr>
     in c\<lparr>seqLocal := seqLocal c + ucast len, dataToSend := dataToSend c @ [seg]\<rparr>)"

text \<open>The loop over the rest of the data: at most \<open>MSS\<close> bytes per segment, each copied.\<close>

function send_loop :: "ptr \<Rightarrow> u32 \<Rightarrow> u32 \<Rightarrow> ('cc, 'pp) connection \<Rightarrow> ('cc, 'pp) tworld \<Rightarrow>
    (('cc, 'pp) connection \<times> ('cc, 'pp) tworld) res" where
  "send_loop p dataLen totalLen c w =
    (if totalLen < dataLen then
       let curSize = min (dataLen - totalLen) MSS in
       rbind (read_block p (unat totalLen) (unat curSize) w) (\<lambda>bs.
       let (q, w) = heap_new (Block bs) w
       in send_loop p dataLen (totalLen + curSize) (push_segment q (ucast curSize) c) w)
     else ret (c, w))"
  by pat_completeness auto

lemma send_loop_step:
  fixes t d :: u32
  assumes "t < d"
  shows "unat (min (d - t) MSS) = min (unat d - unat t) 1460"
    and "unat (t + min (d - t) MSS) = unat t + min (unat d - unat t) 1460"
proof -
  have d: "unat (d - t) = unat d - unat t" using assms by (intro unat_sub) simp
  show m: "unat (min (d - t) MSS) = min (unat d - unat t) 1460"
    by (simp add: min_def word_le_nat_alt d MSS_def)
  have "unat t + unat (min (d - t) MSS) \<le> unat d"
    using assms by (simp add: m word_less_nat_alt)
  also have "\<dots> < 2 ^ LENGTH(32)" by (rule unat_bound)
  finally show "unat (t + min (d - t) MSS) = unat t + min (unat d - unat t) 1460"
    by (simp add: unat_word_ariths m)
qed

termination send_loop
proof (relation "measure (\<lambda>(p, d, t, c, w). unat d - unat t)", goal_cases)
  case 1
  then show ?case by simp
next
  case (2 p d t c w cur bs z q w')
  then have "unat (t + cur) = unat t + min (unat d - unat t) 1460" using send_loop_step(2) by simp
  moreover have "unat t < unat d" using 2(1) by (simp add: word_less_nat_alt)
  ultimately show ?case by simp
qed

declare send_loop.simps [simp del]

definition sendData :: "ptr \<Rightarrow> u32 \<Rightarrow> ('cc, 'pp) connection \<times> ('cc, 'pp) tworld \<Rightarrow>
    (('cc, 'pp) connection \<times> ('cc, 'pp) tworld) res" where
  "sendData p dataLen cw =
    (let (c, w) = cw in
     if dataLen \<le> MSS then ret (push_segment p (ucast dataLen) c, w)
     else send_loop p dataLen MSS (push_segment p (ucast MSS) c) w)"

section \<open>The handlers\<close>

definition tcp_factory ::
  "('cc, 'pp) tcp_env \<Rightarrow> ConnectionID \<Rightarrow> ('cc, 'pp) tworld \<Rightarrow> (ptr \<times> ('cc, 'pp) tworld) res" where
  "tcp_factory te cid w =
    ret (heap_new (Conn \<lparr>seqLocal = 0, seqRemote = 0, dataToSend = [], dataAlreadySent = [],
      sendWindow = 0, ipID = 0, closeConnectionAfterSending = False,
      conCtl = cc_init (te_conCtl te), connProto = te_proto_init te\<rparr>) w)"

text \<open>The three handlers start by turning the packet around.\<close>

definition tcp_turn_around :: "nat \<Rightarrow> nat \<Rightarrow> mem \<Rightarrow> mem" where
  "tcp_turn_around ipv4 tcp m =
    (let tmp = ip_getSrcIP ipv4 m;
         m = ip_setSrcIP ipv4 (ip_getDstIP ipv4 m) m;
         m = ip_setDstIP ipv4 tmp m;
         tmp16 = tcp_getSrcPort tcp m;
         m = tcp_setSrcPort tcp (tcp_getDstPort tcp m) m;
         m = tcp_setDstPort tcp tmp16 m;
         m = ip_setTTL ipv4 64 m;
         m = ip_setChecksum ipv4 0 m
     in m)"

definition runSynAck :: "('cc, 'pp) tfun" where
  "runSynAck pkt fi =
    (let cp = stateData (st fi) in
     rbind (getData pkt (world fi)) (\<lambda>m.
     let ipv4 = eth_getPayload 0;
         tcp = ip_getPayload ipv4 m;
         m = tcp_turn_around ipv4 tcp m;
         m = ip_setPayloadLength ipv4 (of_nat sizeof_Tcp) m
     in if \<not> tcp_getSynFlag tcp m \<or> tcp_getAckFlag tcp m \<or> tcp_getFinFlag tcp m \<or> tcp_getRstFlag tcp m
        then
          let m = tcp_clearFlags tcp m;
              m = tcp_setRstFlag tcp m
          in rbind (writeData pkt m (world fi)) (\<lambda>w. ret (transition TS_END (fi\<lparr>world := w\<rparr>)))
        else
          rbind (get_conn cp (world fi)) (\<lambda>c.
          let c = c\<lparr>seqRemote := tcp_getSeq tcp m + 1\<rparr>;
              c = c\<lparr>seqLocal := 0\<rparr>;
              m = tcp_setAck tcp (seqRemote c) m;
              curSeqNo = seqLocal c;
              c = c\<lparr>seqLocal := seqLocal c + 1\<rparr>;
              m = tcp_setSeq tcp curSeqNo m;
              m = tcp_setAckFlag tcp m;
              m = tcp_setOffset tcp 5 m
          in rbind (writeData pkt m (world fi)) (\<lambda>w.
             rbind (setDataLen pkt (of_nat (sizeof_Ethernet + sizeof_IPv4 + sizeof_Tcp)) w) (\<lambda>w.
             rbind (getDataLen pkt w) (\<lambda>len.
             let (q, w) = heap_new (Block (load_bytes 0 (unat len) m)) w;
                 seg = \<lparr>seg_dataPtr = q, seg_seqNumber = curSeqNo, seg_dataLen = len\<rparr>;
                 c = c\<lparr>dataAlreadySent := dataAlreadySent c @ [seg]\<rparr>;
                 w = heap_put cp (Conn c) w
             in ret (transition TS_est (fi\<lparr>world := w\<rparr>)))))))) "

text \<open>Erase and free the acknowledged segments.\<close>

fun erase_acked :: "u32 \<Rightarrow> segment list \<Rightarrow> ('cc, 'pp) tworld \<Rightarrow> (segment list \<times> ('cc, 'pp) tworld) res" where
  "erase_acked ack [] w = ret ([], w)"
| "erase_acked ack (s # ss) w =
    (if seg_seqNumber s + ucast (seg_dataLen s) < ack
     then rbind (heap_delete (seg_dataPtr s) w) (\<lambda>w. erase_acked ack ss w)
     else rbind (erase_acked ack ss w) (\<lambda>(ss, w). ret (s # ss, w)))"

text \<open>Put the segments sent after \<open>resetSeq\<close> back, each in front of the queue.\<close>

fun requeue :: "u32 \<Rightarrow> segment list \<Rightarrow> segment list \<Rightarrow> segment list \<times> segment list" where
  "requeue resetSeq [] q = ([], q)"
| "requeue resetSeq (s # ss) q =
    (if resetSeq < seg_seqNumber s then requeue resetSeq ss (s # q)
     else let (kept, q) = requeue resetSeq ss q in (s # kept, q))"

text \<open>What is done with the segment at the head of the queue: the segment to send, the new queue.\<close>

definition take_segment ::
  "u16 \<Rightarrow> segment \<Rightarrow> ('cc, 'pp) connection \<Rightarrow> ('cc, 'pp) tworld \<Rightarrow>
     (segment \<times> ('cc, 'pp) connection \<times> ('cc, 'pp) tworld) res" where
  "take_segment curSend seg c w =
    (if curSend = seg_dataLen seg then
       ret (seg, c\<lparr>dataToSend := tl (dataToSend c), dataAlreadySent := dataAlreadySent c @ [seg]\<rparr>, w)
     else
       let seg = seg\<lparr>seg_dataLen := curSend\<rparr>;
           old = seg;
           old = old\<lparr>seg_dataLen := seg_dataLen old - curSend\<rparr>;
           old = old\<lparr>seg_seqNumber := seg_seqNumber old + ucast curSend\<rparr>
       in rbind (read_block (seg_dataPtr seg) (unat curSend) (unat (seg_dataLen seg - curSend)) w) (\<lambda>rest.
       let (q, w) = heap_new (Block (take (unat (seg_dataLen old)) rest)) w;
           old = old\<lparr>seg_dataPtr := q\<rparr>;
           c = c\<lparr>dataToSend := old # tl (dataToSend c)\<rparr>
       in rbind (get_block (seg_dataPtr seg) w) (\<lambda>bs.
       let n = unat (seg_dataLen seg - curSend);
           w = heap_put (seg_dataPtr seg) (Block (rest @ drop n bs)) w;
           seg = seg\<lparr>seg_dataLen := seg_dataLen seg - curSend\<rparr>;
           c = c\<lparr>dataAlreadySent := dataAlreadySent c @ [seg]\<rparr>
       in ret (seg, c, w))))"

text \<open>The payload and the header fields of one outgoing segment.\<close>

definition fill_segment :: "nat \<Rightarrow> nat \<Rightarrow> segment \<Rightarrow> u8 list \<Rightarrow> u16 \<Rightarrow> mem \<Rightarrow> mem" where
  "fill_segment ipv4 tcp seg bs ipid m =
    (let m = store_bytes (tcp_getPayload tcp) bs m;
         m = ip_setId ipv4 (htons ipid) m;
         m = tcp_setWindow tcp (4 * ucast MSS) m;
         m = ip_setPayloadLength ipv4 (of_nat sizeof_Tcp + seg_dataLen seg) m;
         m = tcp_setSeq tcp (seg_seqNumber seg) m
     in m)"

text \<open>
  The sending loop.  \<open>firstPacket\<close> is set before the loop and never changed in it; \<open>cur\<close> is the
  buffer being filled and \<open>tcp\<close> the offset of its TCP header, \<open>pkt\<close> the received one.
\<close>

partial_function (option) est_send ::
  "ptr \<Rightarrow> ptr \<Rightarrow> nat \<Rightarrow> bool \<Rightarrow> u32 \<Rightarrow> u32 \<Rightarrow> ('cc, 'pp) connection \<Rightarrow> ('cc, 'pp) tfi \<Rightarrow> bool \<Rightarrow>
     (ptr \<times> nat \<times> ('cc, 'pp) connection \<times> ('cc, 'pp) tfi \<times> bool) res" where
  "est_send pkt cur tcp firstPacket maxSend alreadySent c fi freeP =
    (if maxSend > alreadySent \<and> dataToSend c \<noteq> [] then
       rbind (if \<not> firstPacket then getPkt fi else ret (cur, fi)) (\<lambda>(cur, fi).
       rbind (getData cur (world fi)) (\<lambda>m.
       let ipv4 = eth_getPayload 0;
           tcp = ip_getPayload ipv4 m;
           seg = hd (dataToSend c);
           curSend = min (seg_dataLen seg) (ucast (maxSend - alreadySent));
           alreadySent = alreadySent + ucast curSend
       in rbind (take_segment curSend seg c (world fi)) (\<lambda>(seg, c, w).
          rbind (read_block (seg_dataPtr seg) 0 (unat (seg_dataLen seg)) w) (\<lambda>bs.
          let m = fill_segment ipv4 tcp seg bs (ipID c) m;
              c = c\<lparr>ipID := ipID c + 1\<rparr>
          in rbind (writeData cur m w) (\<lambda>w.
             rbind (setDataLen pkt (of_nat (sizeof_Ethernet + sizeof_IPv4 + sizeof_Tcp) + seg_dataLen seg) w) (\<lambda>w.
             est_send pkt cur tcp firstPacket maxSend alreadySent c (fi\<lparr>world := w\<rparr>) False))))))
     else ret (cur, tcp, c, fi, freeP))"

text \<open>The answer to a packet with wrong flags.\<close>

definition est_rst :: "ptr \<Rightarrow> nat \<Rightarrow> nat \<Rightarrow> mem \<Rightarrow> ('cc, 'pp) connection \<Rightarrow> ('cc, 'pp) tfi \<Rightarrow> ('cc, 'pp) tfi res" where
  "est_rst pkt ipv4 tcp m c fi =
    (let m = tcp_clearFlags tcp m;
         m = tcp_setRstFlag tcp m;
         m = tcp_setAck tcp 0 m;
         m = tcp_setSeq tcp (seqLocal c) m;
         m = ip_setPayloadLength ipv4 (of_nat sizeof_Tcp) m
     in rbind (writeData pkt m (world fi)) (\<lambda>w.
        rbind (setDataLen pkt (of_nat (sizeof_Ethernet + sizeof_IPv4 + sizeof_Tcp)) w) (\<lambda>w.
        ret (transition TS_END (fi\<lparr>world := w\<rparr>)))))"

text \<open>The acknowledgement part: erase what is acknowledged, ask the congestion control.\<close>

definition est_ack ::
  "('cc, 'pp) tcp_env \<Rightarrow> u32 \<Rightarrow> ('cc, 'pp) connection \<Rightarrow> ('cc, 'pp) tworld \<Rightarrow>
     (('cc, 'pp) connection \<times> ('cc, 'pp) tworld) res" where
  "est_ack te ack c w =
    rbind (erase_acked ack (dataAlreadySent c) w) (\<lambda>(sent, w).
    let c = c\<lparr>dataAlreadySent := sent\<rparr>;
        c = c\<lparr>conCtl := cc_handlePacket (te_conCtl te) (seqLocal c) ack (conCtl c)\<rparr>
    in case cc_reset (te_conCtl te) (conCtl c) of
         None \<Rightarrow> ret (c, w)
       | Some resetSeq \<Rightarrow>
           let (sent, q) = requeue resetSeq (dataAlreadySent c) (dataToSend c)
           in ret (c\<lparr>dataAlreadySent := sent, dataToSend := q\<rparr>, w))"

text \<open>The header of the answer.\<close>

definition ack_header :: "nat \<Rightarrow> ('cc, 'pp) connection \<Rightarrow> mem \<Rightarrow> mem" where
  "ack_header tcp c m =
    (let m = tcp_clearFlags tcp m;
         m = tcp_setAckFlag tcp m;
         m = tcp_setSeq tcp (seqLocal c) m;
         m = tcp_setAck tcp (seqRemote c) m;
         m = tcp_setOffset tcp 5 m
     in m)"

text \<open>The answer to a packet that is not the next one.\<close>

definition est_dup_ack :: "ptr \<Rightarrow> nat \<Rightarrow> nat \<Rightarrow> mem \<Rightarrow> ptr \<Rightarrow> ('cc, 'pp) connection \<Rightarrow> ('cc, 'pp) tfi \<Rightarrow> ('cc, 'pp) tfi res" where
  "est_dup_ack pkt ipv4 tcp m cp c fi =
    (let m = ack_header tcp c m;
         m = ip_setPayloadLength ipv4 (of_nat sizeof_Tcp) m;
         m = tcp_setSeq tcp (if dataToSend c = [] then seqLocal c
                             else seg_seqNumber (hd (dataToSend c))) m;
         m = tcp_setWindow tcp (4 * ucast MSS) m
     in rbind (writeData pkt m (world fi)) (\<lambda>w.
        rbind (setDataLen pkt (of_nat (sizeof_Ethernet + sizeof_IPv4 + sizeof_Tcp)) w) (\<lambda>w.
        ret (fi\<lparr>world := heap_put cp (Conn c) w\<rparr>))))"

text \<open>The end of the handler: send a FIN when everything is sent, else keep or free the packet.\<close>

definition est_finish ::
  "ptr \<Rightarrow> ptr \<times> nat \<times> ('cc, 'pp) connection \<times> ('cc, 'pp) tfi \<times> bool \<Rightarrow> ('cc, 'pp) tfi res" where
  "est_finish cp r =
    (let (cur, tcp, c, fi, freeP) = r in
     if closeConnectionAfterSending c \<and> dataToSend c = [] then
       rbind (getData cur (world fi)) (\<lambda>m.
       let m = tcp_setFinFlag tcp m;
           c = c\<lparr>seqLocal := seqLocal c + 1\<rparr>
       in rbind (writeData cur m (world fi)) (\<lambda>w.
          ret (transition TS_ack_fin (fi\<lparr>world := heap_put cp (Conn c) w\<rparr>))))
     else
       let fi = fi\<lparr>world := heap_put cp (Conn c) (world fi)\<rparr>
       in ret (if freeP then freePkt fi else fi))"

text \<open>The expected packet: advance, hand the payload to the protocol, send, close.\<close>

definition est_advance :: "nat \<Rightarrow> mem \<Rightarrow> u16 \<Rightarrow> ('cc, 'pp) connection \<Rightarrow> ('cc, 'pp) connection" where
  "est_advance tcp m numBytesReceived c =
    (let c = c\<lparr>seqRemote := tcp_getSeq tcp m + ucast numBytesReceived\<rparr>
     in if tcp_getFinFlag tcp m
        then c\<lparr>closeConnectionAfterSending := True, seqRemote := seqRemote c + 1\<rparr> else c)"

definition est_accept ::
  "('cc, 'pp) tcp_env \<Rightarrow> ptr \<Rightarrow> nat \<Rightarrow> nat \<Rightarrow> mem \<Rightarrow> u16 \<Rightarrow> ptr \<Rightarrow> ('cc, 'pp) connection \<Rightarrow> ('cc, 'pp) tfi \<Rightarrow>
     ('cc, 'pp) tfi res" where
  "est_accept te pkt ipv4 tcp m numBytesReceived cp c fi =
    (let c = est_advance tcp m numBytesReceived c;
         m = ack_header tcp c m;
         dataLen = ip_getPayloadLength ipv4 m - ucast (tcp_getHeaderLen tcp m)
     in rbind (writeData pkt m (world fi)) (\<lambda>w.
        rbind (if dataLen > 0
               then te_handlePacket te (load_bytes (tcp_getPayload tcp) (unat dataLen) m) (c, w)
               else ret (c, w)) (\<lambda>(c, w).
        rbind (if dataToSend c \<noteq> []
               then est_send pkt pkt tcp True (min (ucast (sendWindow c)) (cc_getConWindow (te_conCtl te) (conCtl c)))
                      0 c (fi\<lparr>world := w\<rparr>) (\<not> dataLen > 0)
               else ret (pkt, tcp, c, fi\<lparr>world := w\<rparr>, \<not> dataLen > 0))
        (est_finish cp))))"

definition runEst :: "('cc, 'pp) tcp_env \<Rightarrow> ('cc, 'pp) tfun" where
  "runEst te pkt fi =
    (let cp = stateData (st fi) in
     rbind (getData pkt (world fi)) (\<lambda>m.
     rbind (get_conn cp (world fi)) (\<lambda>c.
     let ipv4 = eth_getPayload 0;
         tcp = ip_getPayload ipv4 m;
         m = tcp_turn_around ipv4 tcp m
     in if tcp_getSynFlag tcp m \<or> \<not> tcp_getAckFlag tcp m \<or> tcp_getRstFlag tcp m
        then est_rst pkt ipv4 tcp m c fi
        else
          rbind (est_ack te (tcp_getAck tcp m) c (world fi)) (\<lambda>(c, w).
          let c = c\<lparr>sendWindow := tcp_getWindow tcp m\<rparr>;
              numBytesReceived = ip_getPayloadLength ipv4 m - ucast (tcp_getHeaderLen tcp m);
              fi = fi\<lparr>world := w\<rparr>
          in if tcp_getSeq tcp m \<noteq> seqRemote c then est_dup_ack pkt ipv4 tcp m cp c fi
             else est_accept te pkt ipv4 tcp m numBytesReceived cp c fi))))"

definition runAckFin :: "('cc, 'pp) tfun" where
  "runAckFin pkt fi =
    (let cp = stateData (st fi) in
     rbind (getData pkt (world fi)) (\<lambda>m.
     let ipv4 = eth_getPayload 0;
         tcp = ip_getPayload ipv4 m;
         m = tcp_turn_around ipv4 tcp m
     in rbind (get_conn cp (world fi)) (\<lambda>c.
        if tcp_getSynFlag tcp m \<or> \<not> tcp_getAckFlag tcp m \<or> tcp_getRstFlag tcp m \<or>
           tcp_getAck tcp m \<noteq> seqLocal c \<or> tcp_getSeq tcp m \<noteq> seqRemote c
        then
          let m = tcp_clearFlags tcp m;
              m = tcp_setRstFlag tcp m
          in rbind (writeData pkt m (world fi)) (\<lambda>w. ret (transition TS_END (fi\<lparr>world := w\<rparr>)))
        else if tcp_getFinFlag tcp m then
          let c = c\<lparr>seqLocal := seqLocal c + 1\<rparr>;
              c = c\<lparr>seqRemote := tcp_getSeq tcp m\<rparr>;
              m = tcp_setSeq tcp (seqLocal c) m;
              m = tcp_setAck tcp (seqRemote c + 1) m;
              m = tcp_clearFlags tcp m;
              m = tcp_setAckFlag tcp m;
              m = tcp_setOffset tcp 5 m
          in rbind (writeData pkt m (world fi)) (\<lambda>w.
             ret (transition TS_END (fi\<lparr>world := heap_put cp (Conn c) w\<rparr>)))
        else
          rbind (writeData pkt m (world fi)) (\<lambda>w. ret (freePkt (fi\<lparr>world := w\<rparr>))))))"

section \<open>The simple congestion control\<close>

record simple_cc =
  lastAck :: u32
  alreadySeen :: u32

definition scc_initSeq :: "u32 \<Rightarrow> u32 \<Rightarrow> simple_cc \<Rightarrow> simple_cc" where
  "scc_initSeq seq ack s = s\<lparr>lastAck := ack\<rparr>"

definition scc_handlePacket :: "u32 \<Rightarrow> u32 \<Rightarrow> simple_cc \<Rightarrow> simple_cc" where
  "scc_handlePacket seq ack s =
    (if lastAck s = ack \<and> ack < seq then s\<lparr>alreadySeen := alreadySeen s + 1\<rparr>
     else s\<lparr>lastAck := ack, alreadySeen := 0\<rparr>)"

definition scc_reset :: "simple_cc \<Rightarrow> u32 option" where
  "scc_reset s = (if alreadySeen s \<ge> 3 then Some (lastAck s) else None)"

definition scc_getConWindow :: "simple_cc \<Rightarrow> u32" where
  "scc_getConWindow s = - 1"

text \<open>\<open>new connection()\<close> zeroes the members that have no initialiser.\<close>

definition TcpConCtlSimple :: "simple_cc con_ctl" where
  "TcpConCtlSimple = \<lparr>cc_init = \<lparr>lastAck = 0, alreadySeen = 0\<rparr>, cc_handlePacket = scc_handlePacket,
     cc_reset = scc_reset, cc_getConWindow = scc_getConWindow\<rparr>"

section \<open>The echo protocol and its C interface\<close>

definition joke_handlePacket :: "u8 list \<Rightarrow> ('cc, unit) connection \<times> ('cc, unit) tworld \<Rightarrow>
    (('cc, unit) connection \<times> ('cc, unit) tworld) res" where
  "joke_handlePacket data cw =
    (let (c, w) = cw; (q, w) = heap_new (Block data) w
     in sendData q (of_nat (length data)) (c, w))"

definition ServerJoke :: "(simple_cc, unit) tcp_env" where
  "ServerJoke = \<lparr>te_conCtl = TcpConCtlSimple, te_proto_init = (), te_handlePacket = joke_handlePacket\<rparr>"

text \<open>\<open>alloc\<close> is \<open>rte_pktmbuf_alloc\<close> on the given memory pool.\<close>

definition TCP_Server_Joke_init ::
  "((simple_cc, unit) tworld \<Rightarrow> (ptr \<times> (simple_cc, unit) tworld) res) \<Rightarrow>
     (ConnectionID, ptr, (simple_cc, unit) tcp_obj hworld, unit, 'm, 'n) env \<Rightarrow>
     (ConnectionID, ptr, (simple_cc, unit) tcp_obj hworld, unit, 'm) SM" where
  "TCP_Server_Joke_init alloc env =
    (let sm = new_StateMachine env;
         sm = registerGetPktCB (Some alloc) sm;
         sm = registerEndStateID TS_END sm;
         sm = registerStartStateID TS_syn_ack (Some (tcp_factory ServerJoke)) sm;
         sm = registerFunction TS_syn_ack (Some runSynAck) sm;
         sm = registerFunction TS_est (Some (runEst ServerJoke)) sm;
         sm = registerFunction TS_ack_fin (Some runAckFin) sm
     in sm)"

definition TCP_Server_Joke_process ::
  "(ConnectionID, ptr, (simple_cc, unit) tcp_obj hworld, unit, 'm, 'n) env \<Rightarrow> ptr list \<Rightarrow> u32 \<Rightarrow>
     (ConnectionID, ptr, (simple_cc, unit) tcp_obj hworld, unit, 'm, 'n) ctx \<Rightarrow>
     ((ConnectionID, ptr, (simple_cc, unit) tcp_obj hworld, unit, 'm, 'n) ctx \<times> u32 \<times> u32) res" where
  "TCP_Server_Joke_process env inPkts inCount x =
    rbind (new_BufArray inPkts inCount True) (\<lambda>ba.
    rbind (runPktBatch env (x\<lparr>c_batch := ba\<rparr>)) (\<lambda>x.
    ret (x, getSendCount (c_batch x), getFreeCount (c_batch x))))"

definition TCP_Server_Joke_getPkts :: "ptr bufArray \<Rightarrow> (ptr list \<times> ptr list) res" where
  "TCP_Server_Joke_getPkts ba =
    rbind (getSendBufs ba) (\<lambda>s. rbind (getFreeBufs ba) (\<lambda>f. ret (s, f)))"

end
