(* ===== verification/Tcp_Spec.thy ===== *)
theory Tcp_Spec
  imports Tcp "HOL-Library.Multiset"
begin

text \<open>
  What the parts of the TCP server promise: the invariant that ties a connection to the blocks
  its segments point to, the steps that keep it, and the stream of bytes a queue of segments
  stands for.  The protocol is an interface (\<open>tcp_protocol\<close>); the echo protocol provides it.
\<close>

section \<open>Connections and their blocks\<close>

definition segs :: "('cc, 'pp) connection \<Rightarrow> segment list" where
  "segs c = dataToSend c @ dataAlreadySent c"

definition blocks :: "('cc, 'pp) connection \<Rightarrow> ptr set" where
  "blocks c = seg_dataPtr ` set (segs c)"

definition seg_ok :: "('cc, 'pp) tworld \<Rightarrow> segment \<Rightarrow> bool" where
  "seg_ok w s \<longleftrightarrow> (\<exists>bs. w_heap w (seg_dataPtr s) = Some (Block bs) \<and> unat (seg_dataLen s) \<le> length bs)"

text \<open>Every segment has a live block of its own that is long enough.\<close>

definition conn_ok :: "('cc, 'pp) connection \<Rightarrow> ('cc, 'pp) tworld \<Rightarrow> bool" where
  "conn_ok c w \<longleftrightarrow> heap_ok w \<and> distinct (map seg_dataPtr (segs c)) \<and> (\<forall>s \<in> set (segs c). seg_ok w s)"

text \<open>A step of one connection: objects of others stay as they are and stay theirs.\<close>

definition conn_step ::
  "('cc, 'pp) connection \<times> ('cc, 'pp) tworld \<Rightarrow> ('cc, 'pp) connection \<times> ('cc, 'pp) tworld \<Rightarrow> bool" where
  "conn_step x y \<longleftrightarrow> (let (c, w) = x; (c', w') = y in
     conn_ok c' w' \<and> w_next w \<le> w_next w' \<and> dom (w_pkts w') = dom (w_pkts w) \<and>
     (\<forall>q. q < w_next w \<and> q \<notin> blocks c \<longrightarrow> w_heap w' q = w_heap w q \<and> q \<notin> blocks c'))"

lemma conn_step_refl: "conn_ok c w \<Longrightarrow> conn_step (c, w) (c, w)"
  by (simp add: conn_step_def)

lemma conn_step_trans:
  assumes "conn_step x y" and "conn_step y z"
  shows "conn_step x z"
  using assms by (auto simp: conn_step_def split: prod.splits)

lemma conn_step_ok: "conn_step x (c, w) \<Longrightarrow> conn_ok c w"
  by (auto simp: conn_step_def split: prod.splits)

lemma conn_step_dom: "conn_step (c, w) (c', w') \<Longrightarrow> dom (w_pkts w') = dom (w_pkts w)"
  by (simp add: conn_step_def)

lemma conn_step_other:
  "conn_step (c, w) (c', w') \<Longrightarrow> q < w_next w \<Longrightarrow> q \<notin> blocks c \<Longrightarrow>
     w_heap w' q = w_heap w q \<and> q \<notin> blocks c'"
  by (simp add: conn_step_def)

lemma conn_okD:
  assumes "conn_ok c w" and "s \<in> set (segs c)"
  obtains bs where "w_heap w (seg_dataPtr s) = Some (Block bs)" and "unat (seg_dataLen s) \<le> length bs"
    and "seg_dataPtr s < w_next w"
proof -
  from assms obtain bs where b: "w_heap w (seg_dataPtr s) = Some (Block bs)" "unat (seg_dataLen s) \<le> length bs"
    by (auto simp: conn_ok_def seg_ok_def)
  moreover have "seg_dataPtr s < w_next w" using assms(1) b(1) by (auto simp: conn_ok_def heap_ok_def)
  ultimately show ?thesis by (rule that)
qed

text \<open>Only the segments of a connection matter.\<close>

lemma conn_step_segs:
  assumes "conn_ok c w" and "mset (segs c') = mset (segs c)"
  shows "conn_step (c, w) (c', w)"
proof -
  have "set (segs c') = set (segs c)" using assms(2) by (rule mset_eq_setD)
  moreover have "distinct (map seg_dataPtr (segs c')) = distinct (map seg_dataPtr (segs c))"
    using assms(2) by (metis distinct_count_atmost_1 mset_map set_map \<open>set (segs c') = set (segs c)\<close>)
  ultimately show ?thesis using assms(1) by (simp add: conn_step_def conn_ok_def blocks_def)
qed

text \<open>Packets may change in between.\<close>

lemma conn_step_pkts:
  assumes "conn_ok c w" and "w_heap w' = w_heap w" and "w_next w' = w_next w"
    and "dom (w_pkts w') = dom (w_pkts w)"
  shows "conn_step (c, w) (c, w')"
  using assms by (simp add: conn_step_def conn_ok_def heap_ok_def seg_ok_def)

lemma push_new:
  assumes ok: "conn_ok c w" and len: "unat len \<le> length bs"
  shows "conn_step (c, w) (push_segment (w_next w) len c, snd (heap_new (Block bs) w))"
proof -
  have fresh: "w_next w \<noteq> seg_dataPtr s" if "s \<in> set (segs c)" for s
    using ok that by (metis conn_okD less_irrefl)
  have segs: "mset (segs (push_segment (w_next w) len c)) =
      mset (segs c) + {#\<lparr>seg_dataPtr = w_next w, seg_seqNumber = seqLocal c, seg_dataLen = len\<rparr>#}"
    by (simp add: segs_def push_segment_def Let_def)
  have set: "set (segs (push_segment (w_next w) len c)) =
      insert \<lparr>seg_dataPtr = w_next w, seg_seqNumber = seqLocal c, seg_dataLen = len\<rparr> (set (segs c))"
    by (auto simp: segs_def push_segment_def Let_def)
  have "distinct (map seg_dataPtr (segs (push_segment (w_next w) len c)))"
    using ok fresh by (auto simp: conn_ok_def segs_def push_segment_def Let_def)
  moreover have "seg_ok (snd (heap_new (Block bs) w)) s"
    if "s \<in> set (segs (push_segment (w_next w) len c))" for s
  proof (cases "s \<in> set (segs c)")
    case True
    then show ?thesis using ok fresh [OF True] by (auto simp: conn_ok_def seg_ok_def heap_new_def)
  next
    case False
    then show ?thesis using that len unfolding set by (simp add: seg_ok_def heap_new_def)
  qed
  moreover have "heap_ok (snd (heap_new (Block bs) w))"
    using ok by (intro heap_new_ok) (simp add: conn_ok_def)
  ultimately show ?thesis
    by (auto simp: conn_step_def conn_ok_def heap_new_def blocks_def set)
qed

lemma freed_blocks:
  assumes "conn_ok c w" and "dataAlreadySent c = s # ss"
  shows "conn_step (c, w) (c\<lparr>dataAlreadySent := ss\<rparr>, w\<lparr>w_heap := (w_heap w)(seg_dataPtr s := None)\<rparr>)"
    and "heap_delete (seg_dataPtr s) w = ret (w\<lparr>w_heap := (w_heap w)(seg_dataPtr s := None)\<rparr>)"
proof -
  let ?w = "w\<lparr>w_heap := (w_heap w)(seg_dataPtr s := None)\<rparr>"
  have s: "s \<in> set (segs c)" using assms(2) by (simp add: segs_def)
  obtain bs where b: "w_heap w (seg_dataPtr s) = Some (Block bs)" using conn_okD [OF assms(1) s] by metis
  have hok: "heap_ok w" using assms(1) by (simp add: conn_ok_def)
  show "heap_delete (seg_dataPtr s) w = ret ?w" using heap_delete_ret [OF b hok] by simp
  have "heap_ok ?w" using heap_delete_ret [OF b hok] by simp
  moreover have d: "distinct (map seg_dataPtr (dataToSend c @ ss))"
    and n: "seg_dataPtr s \<notin> seg_dataPtr ` set (dataToSend c @ ss)"
    using assms by (auto simp: conn_ok_def segs_def)
  from n have ne: "\<And>t. t \<in> set (dataToSend c @ ss) \<Longrightarrow> seg_dataPtr t \<noteq> seg_dataPtr s"
    by (metis imageI)
  moreover have "seg_ok ?w t" if "t \<in> set (dataToSend c @ ss)" for t
    using assms that ne [OF that] by (auto simp: conn_ok_def seg_ok_def segs_def)
  ultimately have "conn_ok (c\<lparr>dataAlreadySent := ss\<rparr>) ?w" using d by (simp add: conn_ok_def segs_def)
  then show "conn_step (c, w) (c\<lparr>dataAlreadySent := ss\<rparr>, ?w)"
    using assms(2) by (auto simp: conn_step_def blocks_def segs_def)
qed

text \<open>Erasing: the acknowledged segments go with their blocks, the others stay in order.\<close>

definition acked :: "u32 \<Rightarrow> segment \<Rightarrow> bool" where
  "acked ack s \<longleftrightarrow> seg_seqNumber s + ucast (seg_dataLen s) < ack"

lemma erase_acked_ok:
  assumes "conn_ok (c\<lparr>dataAlreadySent := ss @ kept\<rparr>) w"
  shows "\<exists>w'. erase_acked ack ss w = ret (filter (\<lambda>s. \<not> acked ack s) ss, w') \<and>
     conn_step (c\<lparr>dataAlreadySent := ss @ kept\<rparr>, w)
       (c\<lparr>dataAlreadySent := filter (\<lambda>s. \<not> acked ack s) ss @ kept\<rparr>, w')"
  using assms
proof (induction ss arbitrary: w kept)
  case Nil
  then show ?case by (simp add: conn_step_refl)
next
  case (Cons s ss)
  show ?case
  proof (cases "acked ack s")
    case True
    let ?w = "w\<lparr>w_heap := (w_heap w)(seg_dataPtr s := None)\<rparr>"
    have step: "conn_step (c\<lparr>dataAlreadySent := (s # ss) @ kept\<rparr>, w) (c\<lparr>dataAlreadySent := ss @ kept\<rparr>, ?w)"
      and del: "heap_delete (seg_dataPtr s) w = ret ?w"
      using freed_blocks [OF Cons.prems, of s "ss @ kept"] by simp_all
    from Cons.IH [OF conn_step_ok [OF step]] obtain w'
      where "erase_acked ack ss ?w = ret (filter (\<lambda>s. \<not> acked ack s) ss, w')"
        and "conn_step (c\<lparr>dataAlreadySent := ss @ kept\<rparr>, ?w)
               (c\<lparr>dataAlreadySent := filter (\<lambda>s. \<not> acked ack s) ss @ kept\<rparr>, w')"
      by blast
    then show ?thesis using True del conn_step_trans [OF step] by (auto simp: acked_def)
  next
    case False
    have rot: "conn_step (c\<lparr>dataAlreadySent := (s # xs) @ kept\<rparr>, v) (c\<lparr>dataAlreadySent := xs @ s # kept\<rparr>, v)"
      and rot': "conn_step (c\<lparr>dataAlreadySent := xs @ s # kept\<rparr>, v) (c\<lparr>dataAlreadySent := (s # xs) @ kept\<rparr>, v)"
      if "conn_ok (c\<lparr>dataAlreadySent := (s # xs) @ kept\<rparr>) v \<or> conn_ok (c\<lparr>dataAlreadySent := xs @ s # kept\<rparr>) v"
      for xs v
    proof -
      have "conn_ok (c\<lparr>dataAlreadySent := (s # xs) @ kept\<rparr>) v \<and> conn_ok (c\<lparr>dataAlreadySent := xs @ s # kept\<rparr>) v"
        using that by (auto simp: conn_ok_def segs_def)
      then show "conn_step (c\<lparr>dataAlreadySent := (s # xs) @ kept\<rparr>, v) (c\<lparr>dataAlreadySent := xs @ s # kept\<rparr>, v)"
        and "conn_step (c\<lparr>dataAlreadySent := xs @ s # kept\<rparr>, v) (c\<lparr>dataAlreadySent := (s # xs) @ kept\<rparr>, v)"
        by (auto intro!: conn_step_segs simp: segs_def)
    qed
    have r: "conn_step (c\<lparr>dataAlreadySent := (s # ss) @ kept\<rparr>, w) (c\<lparr>dataAlreadySent := ss @ s # kept\<rparr>, w)"
      using Cons.prems by (intro rot disjI1)
    from Cons.IH [OF conn_step_ok [OF r]] obtain w'
      where e: "erase_acked ack ss w = ret (filter (\<lambda>s. \<not> acked ack s) ss, w')"
        and st: "conn_step (c\<lparr>dataAlreadySent := ss @ s # kept\<rparr>, w)
               (c\<lparr>dataAlreadySent := filter (\<lambda>s. \<not> acked ack s) ss @ s # kept\<rparr>, w')"
      by blast
    have r': "conn_step (c\<lparr>dataAlreadySent := filter (\<lambda>s. \<not> acked ack s) ss @ s # kept\<rparr>, w')
        (c\<lparr>dataAlreadySent := (s # filter (\<lambda>s. \<not> acked ack s) ss) @ kept\<rparr>, w')"
      using conn_step_ok [OF st] by (intro rot' disjI2)
    show ?thesis
      using False e conn_step_trans [OF conn_step_trans [OF r st] r'] by (auto simp: acked_def)
  qed
qed

text \<open>Requeueing moves the segments after \<open>resetSeq\<close> in front of the queue, last first.\<close>

lemma requeue_eq:
  "requeue r ss q = (filter (\<lambda>s. \<not> r < seg_seqNumber s) ss, rev (filter (\<lambda>s. r < seg_seqNumber s) ss) @ q)"
  by (induction ss arbitrary: q) simp_all

lemma est_ack_ok:
  assumes "conn_ok c w"
  shows "\<exists>c' w'. est_ack te ack c w = ret (c', w') \<and> conn_step (c, w) (c', w') \<and>
     seqLocal c' = seqLocal c \<and> seqRemote c' = seqRemote c \<and>
     closeConnectionAfterSending c' = closeConnectionAfterSending c \<and>
     conCtl c' = cc_handlePacket (te_conCtl te) (seqLocal c) ack (conCtl c) \<and>
     (let kept = filter (\<lambda>s. \<not> acked ack s) (dataAlreadySent c)
      in case cc_reset (te_conCtl te) (conCtl c') of
           None \<Rightarrow> dataAlreadySent c' = kept \<and> dataToSend c' = dataToSend c
         | Some r \<Rightarrow> dataAlreadySent c' = filter (\<lambda>s. \<not> r < seg_seqNumber s) kept \<and>
             dataToSend c' = rev (filter (\<lambda>s. r < seg_seqNumber s) kept) @ dataToSend c)"
proof -
  let ?kept = "filter (\<lambda>s. \<not> acked ack s) (dataAlreadySent c)"
  obtain w' where e: "erase_acked ack (dataAlreadySent c) w = ret (?kept, w')"
    and st: "conn_step (c, w) (c\<lparr>dataAlreadySent := ?kept\<rparr>, w')"
    using erase_acked_ok [where ss = "dataAlreadySent c" and kept = "[]" and c = c and w = w and ack = ack] assms by auto
  let ?cc = "cc_handlePacket (te_conCtl te) (seqLocal c) ack (conCtl c)"
  let ?c1 = "c\<lparr>dataAlreadySent := ?kept, conCtl := ?cc\<rparr>"
  have st1: "conn_step (c, w) (?c1, w')"
    using conn_step_trans [OF st conn_step_segs [OF conn_step_ok [OF st], of ?c1]]
    by (simp add: segs_def)
  show ?thesis
  proof (cases "cc_reset (te_conCtl te) ?cc")
    case None
    then show ?thesis using st1 e by (simp add: est_ack_def Let_def)
  next
    case (Some r)
    let ?c2 = "?c1\<lparr>dataAlreadySent := filter (\<lambda>s. \<not> r < seg_seqNumber s) ?kept,
        dataToSend := rev (filter (\<lambda>s. r < seg_seqNumber s) ?kept) @ dataToSend c\<rparr>"
    have m: "mset (filter (\<lambda>s. r < seg_seqNumber s) xs) + mset (filter (\<lambda>s. \<not> r < seg_seqNumber s) xs) = mset xs"
      for xs
      by (induction xs) auto
    have "mset (segs ?c2) = mset (segs ?c1)"
      using m [of ?kept] by (simp add: segs_def ac_simps del: mset_filter filter_filter not_less)
    then have "conn_step (c, w) (?c2, w')"
      by (rule conn_step_trans [OF st1 conn_step_segs [OF conn_step_ok [OF st1]]])
    then show ?thesis using e Some by (simp add: est_ack_def requeue_eq Let_def)
  qed
qed

section \<open>The stream a queue stands for\<close>

definition seg_bytes :: "('cc, 'pp) tworld \<Rightarrow> segment \<Rightarrow> u8 list" where
  "seg_bytes w s =
    (case w_heap w (seg_dataPtr s) of
       Some (Block bs) \<Rightarrow> take (unat (seg_dataLen s)) bs
     | _ \<Rightarrow> [])"

text \<open>The sequence numbers of the segments run without gaps from one number to another.\<close>

fun seq_run :: "u32 \<Rightarrow> segment list \<Rightarrow> u32 \<Rightarrow> bool" where
  "seq_run a [] b \<longleftrightarrow> a = b"
| "seq_run a (s # ss) b \<longleftrightarrow> seg_seqNumber s = a \<and> seq_run (a + ucast (seg_dataLen s)) ss b"

lemma seq_run_append: "seq_run a ss b \<Longrightarrow> seq_run b ts d \<Longrightarrow> seq_run a (ss @ ts) d"
  by (induction ss arbitrary: a) auto

text \<open>\<open>(c', w')\<close> has queued \<open>bs\<close> behind what \<open>c\<close> had queued.\<close>

definition queued ::
  "('cc, 'pp) connection \<Rightarrow> ('cc, 'pp) connection \<Rightarrow> ('cc, 'pp) tworld \<Rightarrow> u8 list \<Rightarrow> bool" where
  "queued c c' w' bs \<longleftrightarrow> (\<exists>ss.
     c' = c\<lparr>dataToSend := dataToSend c @ ss, seqLocal := seqLocal c'\<rparr> \<and>
     (\<forall>s \<in> set ss. seg_dataLen s \<le> 1460) \<and> seq_run (seqLocal c) ss (seqLocal c') \<and>
     concat (map (seg_bytes w') ss) = bs)"

text \<open>No object is changed or freed.\<close>

definition heap_grows :: "'o hworld \<Rightarrow> 'o hworld \<Rightarrow> bool" where
  "heap_grows w w' \<longleftrightarrow> w_next w \<le> w_next w' \<and> w_pkts w' = w_pkts w \<and>
     (\<forall>q < w_next w. w_heap w' q = w_heap w q)"

lemma heap_grows_refl [simp]: "heap_grows w w"
  by (simp add: heap_grows_def)

lemma heap_grows_trans: "heap_grows a b \<Longrightarrow> heap_grows b c \<Longrightarrow> heap_grows a c"
  by (simp add: heap_grows_def)

lemma heap_grows_new [simp]: "heap_grows w (snd (heap_new ob w))"
  by (simp add: heap_grows_def heap_new_def)

lemma seg_bytes_grows:
  "heap_grows w w' \<Longrightarrow> seg_dataPtr s < w_next w \<Longrightarrow> seg_bytes w' s = seg_bytes w s"
  by (simp add: seg_bytes_def heap_grows_def)

lemma queued_push:
  assumes "queued (push_segment p len c) c' w' bs"
    and "seg_bytes w' \<lparr>seg_dataPtr = p, seg_seqNumber = seqLocal c, seg_dataLen = len\<rparr> = as"
    and "len \<le> 1460"
  shows "queued c c' w' (as @ bs)"
proof -
  let ?s = "\<lparr>seg_dataPtr = p, seg_seqNumber = seqLocal c, seg_dataLen = len\<rparr>"
  obtain ss where ss: "c' = (push_segment p len c)\<lparr>dataToSend := dataToSend (push_segment p len c) @ ss, seqLocal := seqLocal c'\<rparr>"
      "\<forall>s \<in> set ss. seg_dataLen s \<le> 1460" "seq_run (seqLocal (push_segment p len c)) ss (seqLocal c')"
      "concat (map (seg_bytes w') ss) = bs"
    using assms(1) by (auto simp: queued_def)
  have "c' = c\<lparr>dataToSend := dataToSend c @ ?s # ss, seqLocal := seqLocal c'\<rparr>"
    using ss(1) by (simp add: push_segment_def Let_def)
  moreover have "seq_run (seqLocal c) (?s # ss) (seqLocal c')"
    using ss(3) by (simp add: push_segment_def Let_def)
  ultimately show ?thesis
    using ss assms(2,3) unfolding queued_def by (intro exI [of _ "?s # ss"]) simp
qed

lemma queued_nil: "queued c c w []"
  by (auto simp: queued_def intro!: exI [of _ "[]"])

lemma seg_bytes_new:
  assumes "heap_grows (snd (heap_new (Block bs) w)) w'" and "unat len = length bs"
  shows "seg_bytes w' \<lparr>seg_dataPtr = w_next w, seg_seqNumber = n, seg_dataLen = len\<rparr> = bs"
proof -
  have "w_heap w' (w_next w) = Some (Block bs)"
    using assms(1) by (simp add: heap_grows_def heap_new_def)
  then show ?thesis using assms(2) by (simp add: seg_bytes_def)
qed

lemma send_loop_ok:
  assumes "conn_ok c w" and "w_heap w p = Some (Block bs)" and "unat d \<le> length bs"
  shows "\<exists>c' w'. send_loop p d t c w = ret (c', w') \<and> conn_step (c, w) (c', w') \<and>
     heap_grows w w' \<and> queued c c' w' (drop (unat t) (take (unat d) bs))"
  using assms
proof (induction "unat d - unat t" arbitrary: t c w rule: less_induct)
  case less
  show ?case
  proof (cases "t < d")
    case False
    then have "drop (unat t) (take (unat d) bs) = []"
      by (simp add: word_le_nat_alt not_less le_diff_conv)
    then show ?thesis
      using False less.prems(1) by (simp add: send_loop.simps conn_step_refl queued_nil)
  next
    case True
    let ?cur = "min (d - t) MSS"
    let ?chunk = "take (unat ?cur) (drop (unat t) bs)"
    let ?w1 = "snd (heap_new (Block ?chunk) w)"
    let ?c1 = "push_segment (w_next w) (ucast ?cur) c"
    note cur = send_loop_step [OF True]
    have td: "unat t < unat d" using True by (simp add: word_less_nat_alt)
    have chunk: "length ?chunk = unat ?cur" using less.prems(3) td cur(1) by simp
    have small: "unat (ucast ?cur :: u16) = unat ?cur"
    proof -
      have "unat ?cur < 2 ^ 16" using cur(1) by simp
      then show ?thesis by (simp add: unsigned_ucast_eq take_bit_nat_eq_self)
    qed
    have step: "conn_step (c, w) (?c1, ?w1)" using less.prems(1) small chunk by (intro push_new) simp_all
    have rd: "read_block p (unat t) (unat ?cur) w = ret ?chunk"
      using less.prems(2,3) td cur(1) by (simp add: read_block_def get_block_def heap_get_def)
    have pb: "w_heap ?w1 p = Some (Block bs)"
      using less.prems(1,2) heap_new_fresh [of w] by (auto simp: heap_new_def conn_ok_def)
    have ex: "\<exists>c' w'. send_loop p d (t + ?cur) ?c1 ?w1 = ret (c', w') \<and> conn_step (?c1, ?w1) (c', w') \<and>
        heap_grows ?w1 w' \<and> queued ?c1 c' w' (drop (unat (t + ?cur)) (take (unat d) bs))"
      using td cur(2) conn_step_ok [OF step] pb less.prems(3) by (intro less.hyps) simp_all
    then obtain c' w' where r: "send_loop p d (t + ?cur) ?c1 ?w1 = ret (c', w')"
      and st: "conn_step (?c1, ?w1) (c', w')" and g: "heap_grows ?w1 w'"
      and q: "queued ?c1 c' w' (drop (unat (t + ?cur)) (take (unat d) bs))" by blast
    have le: "(ucast ?cur :: u16) \<le> 1460" by (simp only: word_le_nat_alt small) (simp add: cur(1))
    have "drop (unat t) (take (unat d) bs) = ?chunk @ drop (unat (t + ?cur)) (take (unat d) bs)"
      using drop_take_chunk [of "unat t" "unat ?cur" "unat d" bs] td cur by simp
    moreover have "queued c c' w' (?chunk @ drop (unat (t + ?cur)) (take (unat d) bs))"
      using queued_push [OF q seg_bytes_new [OF g] le] small chunk by simp
    moreover have "send_loop p d t c w = ret (c', w')"
      using True r rd by (simp add: send_loop.simps [of p d t] heap_new_def Let_def)
    ultimately show ?thesis
      using conn_step_trans [OF step st] heap_grows_trans [OF heap_grows_new g] by auto
  qed
qed

section \<open>Queueing the data of the protocol\<close>

lemma push_block:
  assumes "conn_ok c w" and "w_heap w p = Some (Block bs)" and "p \<notin> blocks c" and "unat len \<le> length bs"
  shows "conn_ok (push_segment p len c) w"
  using assms by (auto simp: conn_ok_def segs_def push_segment_def Let_def blocks_def seg_ok_def)

lemma sendData_ok:
  assumes ok: "conn_ok c w" and p: "w_heap w p = Some (Block bs)" and fresh: "p \<notin> blocks c"
    and n: "unat n \<le> length bs"
  shows "\<exists>c' w'. sendData p n (c, w) = ret (c', w') \<and>
     conn_step (push_segment p (ucast (min n MSS)) c, w) (c', w') \<and>
     heap_grows w w' \<and> queued c c' w' (take (unat n) bs)"
proof -
  let ?k = "min n MSS"
  let ?c1 = "push_segment p (ucast ?k) c"
  have k: "unat ?k = min (unat n) 1460" by (simp add: min_def word_le_nat_alt MSS_def)
  have small: "unat (ucast ?k :: u16) = min (unat n) 1460"
  proof -
    have "unat ?k < 2 ^ 16" using k by simp
    then show ?thesis using k by (simp add: unsigned_ucast_eq take_bit_nat_eq_self)
  qed
  have le: "(ucast ?k :: u16) \<le> 1460" by (simp only: word_le_nat_alt small) simp
  have ok1: "conn_ok ?c1 w" using ok p fresh n small by (intro push_block) auto
  have first: "seg_bytes w' \<lparr>seg_dataPtr = p, seg_seqNumber = seqLocal c, seg_dataLen = ucast ?k\<rparr>
      = take (min (unat n) 1460) bs" if "heap_grows w w'" for w'
  proof -
    have "p < w_next w" using ok p by (auto simp: conn_ok_def heap_ok_def)
    then show ?thesis using that p small by (simp add: seg_bytes_def heap_grows_def)
  qed
  show ?thesis
  proof (cases "n \<le> MSS")
    case True
    then have "unat n \<le> 1460" by (simp add: word_le_nat_alt MSS_def)
    moreover have "queued c ?c1 w (take (min (unat n) 1460) bs @ [])"
      using queued_push [OF queued_nil first [OF heap_grows_refl] le] .
    moreover have "?k = n" using True by simp
    ultimately show ?thesis
      using True conn_step_refl [OF ok1] by (simp add: sendData_def)
  next
    case False
    then have big: "1460 < unat n" and kM: "?k = MSS" by (simp_all add: word_le_nat_alt MSS_def min_def)
    obtain c' w' where r: "send_loop p n MSS ?c1 w = ret (c', w')" and st: "conn_step (?c1, w) (c', w')"
      and g: "heap_grows w w'" and q: "queued ?c1 c' w' (drop (unat MSS) (take (unat n) bs))"
      using send_loop_ok [OF ok1 p n, of MSS] by blast
    have "take (unat n) bs = take (min (unat n) 1460) bs @ drop (unat MSS) (take (unat n) bs)"
      using drop_take_chunk [of 0 1460 "unat n" bs] big by (simp add: MSS_def)
    then have "queued c c' w' (take (unat n) bs)"
      using queued_push [OF q first [OF g] le] by simp
    then show ?thesis using r st g False kM by (auto simp: sendData_def)
  qed
qed

text \<open>
  The interface of a protocol: whatever the received bytes are, it returns, works on its own
  connection only and keeps the invariant.
\<close>

locale tcp_protocol =
  fixes te :: "('cc, 'pp) tcp_env"
  assumes handle: "conn_ok c w \<Longrightarrow> length data < 2 ^ 16 \<Longrightarrow>
    \<exists>c' w'. te_handlePacket te data (c, w) = ret (c', w') \<and> conn_step (c, w) (c', w')"

lemma joke_handlePacket_ok:
  assumes ok: "conn_ok c w" and len: "length data < 2 ^ 16"
  shows "\<exists>c' w'. joke_handlePacket data (c, w) = ret (c', w') \<and> conn_step (c, w) (c', w') \<and>
    heap_grows w w' \<and> queued c c' w' data"
proof -
  let ?n = "of_nat (length data) :: u32"
  let ?w1 = "snd (heap_new (Block data) w)"
  have n: "unat ?n = length data" using len by (intro unat_of_nat_less) simp
  have fresh: "w_next w \<notin> blocks c"
    using ok by (auto simp: blocks_def) (metis conn_okD less_irrefl)
  have "seg_ok ?w1 s" if "s \<in> set (segs c)" for s
  proof -
    have "seg_dataPtr s \<noteq> w_next w" using fresh that by (metis blocks_def imageI)
    then show ?thesis using ok that by (auto simp: conn_ok_def seg_ok_def heap_new_def)
  qed
  then have "conn_ok c ?w1" using ok heap_new_ok [of w] by (auto simp: conn_ok_def)
  moreover have "w_heap ?w1 (w_next w) = Some (Block data)" by (simp add: heap_new_def)
  ultimately obtain c' w' where r: "sendData (w_next w) ?n (c, ?w1) = ret (c', w')"
    and st: "conn_step (push_segment (w_next w) (ucast (min ?n MSS)) c, ?w1) (c', w')"
    and g: "heap_grows ?w1 w'" and q: "queued c c' w' data"
    using sendData_ok [of c ?w1 "w_next w" data ?n] fresh n by auto
  have "unat (min ?n MSS) \<le> unat ?n" by (simp only: word_le_nat_alt [symmetric] min.cobounded1)
  then have "unat (ucast (min ?n MSS) :: u16) \<le> length data"
    using unat_ucast_le [where x = "min ?n MSS" and 'b = 16] n by linarith
  then have "conn_step (c, w) (push_segment (w_next w) (ucast (min ?n MSS)) c, ?w1)"
    by (rule push_new [OF ok])
  from conn_step_trans [OF this st] r g q show ?thesis
    using heap_grows_trans [OF heap_grows_new g] by (auto simp: joke_handlePacket_def heap_new_def)
qed

interpretation joke: tcp_protocol ServerJoke
proof (unfold_locales, goal_cases)
  case (1 c w data)
  then show ?case using joke_handlePacket_ok [of c w data] by (auto simp: ServerJoke_def)
qed

end
