(* ===== verification/Tcp_Send.thy ===== *)
theory Tcp_Send
  imports Tcp_Spec
begin

text \<open>
  The sending loop of \<open>runEst\<close>: what it does to the queue as a function of the window
  (\<open>drain\<close>), that it ends, and what is in the packet afterwards.
\<close>

section \<open>Taking segments off the queue\<close>

lemma take_segment_whole:
  "take_segment (seg_dataLen seg) seg c w =
     ret (seg, c\<lparr>dataToSend := tl (dataToSend c), dataAlreadySent := dataAlreadySent c @ [seg]\<rparr>, w)"
  by (simp add: take_segment_def)

lemma take_segment_part:
  assumes ok: "conn_ok c w" and q: "dataToSend c = seg # ss" and lt: "n < seg_dataLen seg"
  shows "take_segment n seg c w =
     ret (seg\<lparr>seg_dataLen := 0\<rparr>,
       c\<lparr>dataToSend := \<lparr>seg_dataPtr = w_next w, seg_seqNumber = seg_seqNumber seg + ucast n, seg_dataLen = 0\<rparr> # ss,
         dataAlreadySent := dataAlreadySent c @ [seg\<lparr>seg_dataLen := 0\<rparr>]\<rparr>,
       snd (heap_new (Block []) w))"
proof -
  have seg: "seg \<in> set (segs c)" using q by (simp add: segs_def)
  obtain bs where b: "w_heap w (seg_dataPtr seg) = Some (Block bs)" "unat (seg_dataLen seg) \<le> length bs"
      "seg_dataPtr seg < w_next w"
    using conn_okD [OF ok seg] .
  have "unat n \<le> length bs" using lt b(2) by (simp add: word_less_nat_alt)
  moreover have "n \<noteq> seg_dataLen seg" using lt by simp
  moreover have "(w_heap w)(w_next w \<mapsto> Block [], seg_dataPtr seg \<mapsto> Block bs) = (w_heap w)(w_next w \<mapsto> Block [])"
    using b by (auto simp: fun_eq_iff)
  ultimately show ?thesis
    using b q by (simp add: take_segment_def read_block_def get_block_def heap_get_def heap_new_def
        heap_put_def Let_def)
qed

lemma conn_step_whole:
  assumes "conn_ok c w" and "dataToSend c = seg # ss"
  shows "conn_step (c, w) (c\<lparr>dataToSend := ss, dataAlreadySent := dataAlreadySent c @ [seg]\<rparr>, w)"
  using assms by (intro conn_step_segs) (simp_all add: segs_def)

lemma conn_step_part:
  assumes ok: "conn_ok c w" and q: "dataToSend c = seg # ss"
  shows "conn_step (c, w)
    (c\<lparr>dataToSend := \<lparr>seg_dataPtr = w_next w, seg_seqNumber = n, seg_dataLen = 0\<rparr> # ss,
       dataAlreadySent := dataAlreadySent c @ [seg\<lparr>seg_dataLen := 0\<rparr>]\<rparr>,
     snd (heap_new (Block []) w))"
proof -
  let ?c1 = "c\<lparr>dataToSend := ss, dataAlreadySent := dataAlreadySent c @ [seg\<lparr>seg_dataLen := 0\<rparr>]\<rparr>"
  let ?new = "\<lparr>seg_dataPtr = w_next w, seg_seqNumber = n, seg_dataLen = 0\<rparr>"
  have "conn_ok ?c1 w" and b1: "blocks ?c1 = blocks c"
    using ok q by (auto simp: conn_ok_def segs_def seg_ok_def blocks_def)
  then have st1: "conn_step (c, w) (?c1, w)" by (simp add: conn_step_def)
  have st2: "conn_step (?c1\<lparr>seqLocal := n\<rparr>, w)
      (push_segment (w_next w) 0 (?c1\<lparr>seqLocal := n\<rparr>), snd (heap_new (Block []) w))"
    using \<open>conn_ok ?c1 w\<close> by (intro push_new) (simp_all add: conn_ok_def segs_def)
  have st3: "conn_step (push_segment (w_next w) 0 (?c1\<lparr>seqLocal := n\<rparr>), snd (heap_new (Block []) w))
      (c\<lparr>dataToSend := ?new # ss, dataAlreadySent := dataAlreadySent c @ [seg\<lparr>seg_dataLen := 0\<rparr>]\<rparr>,
       snd (heap_new (Block []) w))"
    using conn_step_ok [OF st2] by (intro conn_step_segs) (simp_all add: segs_def push_segment_def Let_def)
  have st0: "conn_step (?c1, w) (?c1\<lparr>seqLocal := n\<rparr>, w)"
    using \<open>conn_ok ?c1 w\<close> by (intro conn_step_segs) (simp_all add: segs_def)
  from conn_step_trans [OF conn_step_trans [OF st1 st0] conn_step_trans [OF st2 st3]] show ?thesis
    by simp
qed

text \<open>
  The segments sent with \<open>m\<close> bytes of window left, and what stays in the queue.  When the
  window ends inside a segment, the segment and its rest both go on with length 0.
\<close>

fun drain :: "ptr \<Rightarrow> nat \<Rightarrow> segment list \<Rightarrow> segment list \<times> segment list" where
  "drain q m [] = ([], [])"
| "drain q m (s # ss) =
    (if m = 0 then ([], s # ss)
     else if unat (seg_dataLen s) \<le> m
     then let (a, b) = drain q (m - unat (seg_dataLen s)) ss in (s # a, b)
     else ([s\<lparr>seg_dataLen := 0\<rparr>],
           \<lparr>seg_dataPtr = q, seg_seqNumber = seg_seqNumber s + of_nat m, seg_dataLen = 0\<rparr> # ss))"

lemma drain_0 [simp]: "drain q 0 ss = ([], ss)"
  by (cases ss) simp_all

section \<open>The packet\<close>

text \<open>\<open>t\<close> is the offset of the TCP header.\<close>

definition carries :: "nat \<Rightarrow> segment \<Rightarrow> u8 list \<Rightarrow> mem \<Rightarrow> mbuf \<Rightarrow> bool" where
  "carries t s bs m b \<longleftrightarrow> m_dataLen b = 54 + seg_dataLen s \<and>
     ip_getPayload 14 (m_data b) = t \<and> ip_getPayloadLength 14 (m_data b) = 20 + seg_dataLen s \<and>
     tcp_getSeq t (m_data b) = seg_seqNumber s \<and> load_bytes (t + 20) (length bs) (m_data b) = bs \<and>
     tcp_getAck t (m_data b) = tcp_getAck t m \<and> m_data b (t + 13) = m (t + 13) \<and>
     (34 \<le> t \<longrightarrow> (\<forall>i. 26 \<le> i \<and> i < 34 \<or> t \<le> i \<and> i < t + 4 \<longrightarrow> m_data b i = m i))"

lemma fill_segment_payload:
  "ip_getPayload 14 (fill_segment 14 (ip_getPayload 14 m) s bs i m) = ip_getPayload 14 m"
  by (simp add: fill_segment_def ip_getPayload_def ip_ihl_def tcp_defs ip_defs tcp_getPayload_def
      sizeof_Tcp_def store_bytes_apply mem_simps)

lemma carries_fill:
  fixes m :: mem
  defines "t \<equiv> ip_getPayload 14 m"
  shows "carries t s bs m (b\<lparr>m_data := fill_segment 14 t s bs i m, m_dataLen := 54 + seg_dataLen s\<rparr>)"
proof -
  have t: "14 \<le> t" by (simp add: t_def ip_getPayload_def)
  have b14: "ip_ihl 14 (fill_segment 14 t s bs i m) = ip_ihl 14 m"
    using t by (simp add: fill_segment_def ip_ihl_def tcp_defs ip_defs tcp_getPayload_def
      sizeof_Tcp_def mem_simps)
  show ?thesis
    unfolding carries_def
    using t fill_segment_payload [of m s bs i, folded t_def]
    apply (simp add: t_def [symmetric])
    apply (simp add: ip_getPayloadLength_def b14)
    apply (simp add: fill_segment_def tcp_defs ip_defs tcp_getPayload_def sizeof_Tcp_def
      mem_simps ip_ihl_def)
    done
qed

section \<open>The loop\<close>

lemma est_send_iter:
  assumes "a < maxSend" and "dataToSend c = seg # ss" and "w_pkts (world fi) pkt = Some b"
    and "n = min (seg_dataLen seg) (ucast (maxSend - a))"
    and "take_segment n seg c (world fi) = ret (s, c1, w1)" and "w_pkts w1 = w_pkts (world fi)"
    and "read_block (seg_dataPtr s) 0 (unat (seg_dataLen s)) w1 = ret bs"
  shows "est_send pkt pkt tp True maxSend a c fi fr =
     est_send pkt pkt (ip_getPayload 14 (m_data b)) True maxSend (a + ucast n) (c1\<lparr>ipID := ipID c1 + 1\<rparr>)
       (fi\<lparr>world := w1\<lparr>w_pkts := (w_pkts (world fi))(pkt \<mapsto>
          b\<lparr>m_data := fill_segment 14 (ip_getPayload 14 (m_data b)) s bs (ipID c1) (m_data b),
            m_dataLen := 54 + seg_dataLen s\<rparr>)\<rparr>\<rparr>) False"
  using assms by (subst est_send.simps) (simp add: getData_def writeData_def setDataLen_def
      eth_getPayload_def sizeof_Ethernet_def sizeof_IPv4_def sizeof_Tcp_def Let_def)

lemma est_send_stop:
  "\<not> a < maxSend \<or> dataToSend c = [] \<Longrightarrow> est_send pkt cur tp fp maxSend a c fi fr = ret (cur, tp, c, fi, fr)"
  by (subst est_send.simps) auto

text \<open>What the loop leaves behind.\<close>

definition sent_all ::
  "ptr \<Rightarrow> segment list \<Rightarrow> segment list \<Rightarrow> ('cc, 'pp) connection \<Rightarrow> ('cc, 'pp) tworld \<Rightarrow> mbuf \<Rightarrow>
     ('cc, 'pp) tworld \<Rightarrow> mbuf \<Rightarrow> bool" where
  "sent_all pkt sent left c w b w' b' \<longleftrightarrow>
     conn_step (c, w) (c\<lparr>dataToSend := left, dataAlreadySent := dataAlreadySent c @ sent,
       ipID := ipID c + of_nat (length sent)\<rparr>, w') \<and>
     heap_grows w (w'\<lparr>w_pkts := w_pkts w\<rparr>) \<and> w_pkts w' = (w_pkts w)(pkt \<mapsto> b') \<and>
     (if sent = [] then b' = b
      else carries (ip_getPayload 14 (m_data b)) (last sent) (seg_bytes w' (last sent)) (m_data b) b')"

lemma window_arith:
  fixes a maxSend :: u32 and l :: u16
  assumes lt: "a < maxSend" and m: "unat maxSend < 65536"
  defines "n \<equiv> min l (ucast (maxSend - a))"
  shows "unat n = min (unat l) (unat maxSend - unat a)" and "unat (a + ucast n) = unat a + unat n"
    and "(ucast n :: u32) = of_nat (unat n)"
proof -
  have d: "unat (maxSend - a) = unat maxSend - unat a" using lt by (intro unat_sub) simp
  have "unat (ucast (maxSend - a) :: u16) = unat maxSend - unat a"
    using m by (simp add: unsigned_ucast_eq take_bit_nat_eq_self d)
  then show un: "unat n = min (unat l) (unat maxSend - unat a)"
    by (simp add: n_def min_def word_le_nat_alt)
  have u: "unat (ucast n :: u32) = unat n" by (rule unat_ucast_up) simp
  show "(ucast n :: u32) = of_nat (unat n)" by (simp add: word_unat_eq_iff u unat_of_nat_less)
  have "unat a + unat n < 2 ^ LENGTH(32)" using un m lt by (simp add: word_less_nat_alt)
  then show "unat (a + ucast n) = unat a + unat n" by (simp add: unat_word_ariths u)
qed

lemma read_seg:
  assumes "conn_ok c w" and "s \<in> set (segs c)"
  shows "read_block (seg_dataPtr s) 0 (unat (seg_dataLen s)) w = ret (seg_bytes w s)"
proof -
  obtain bs where "w_heap w (seg_dataPtr s) = Some (Block bs)" and "unat (seg_dataLen s) \<le> length bs"
    using conn_okD [OF assms] .
  then show ?thesis by (simp add: read_block_def get_block_def heap_get_def seg_bytes_def)
qed

lemma conn_same:
  "dataToSend c = q \<Longrightarrow>
     c\<lparr>dataToSend := q, dataAlreadySent := dataAlreadySent c, ipID := ipID c\<rparr> = (c :: ('cc, 'pp) connection)"
  by (cases c) simp

lemma sent_all_none:
  assumes "conn_ok c w" and "w_pkts w pkt = Some b"
  shows "sent_all pkt [] (dataToSend c) c w b w b"
proof -
  have "(w_pkts w)(pkt \<mapsto> b) = w_pkts w" using assms(2) by (auto simp: fun_eq_iff)
  then show ?thesis using assms by (simp add: sent_all_def conn_step_refl conn_same)
qed

lemma carries_trans:
  "carries t s bs m b \<Longrightarrow> carries t s' bs' (m_data b) b' \<Longrightarrow> carries t s' bs' m b'"
  by (simp add: carries_def)

lemma sent_all_step:
  fixes c :: "('cc, 'pp) connection"
  assumes c1: "c1 = c\<lparr>dataToSend := q, dataAlreadySent := dataAlreadySent c @ [s]\<rparr>"
    and st: "conn_step (c, w) (c1, w1)" and g: "heap_grows w w1" and b: "w_pkts w pkt = Some b"
    and bp: "bp = b\<lparr>m_data := fill_segment 14 (ip_getPayload 14 (m_data b)) s (seg_bytes w1 s) (ipID c1) (m_data b),
            m_dataLen := 54 + seg_dataLen s\<rparr>"
    and rest: "sent_all pkt sent left (c1\<lparr>ipID := ipID c1 + 1\<rparr>) (w1\<lparr>w_pkts := (w_pkts w)(pkt \<mapsto> bp)\<rparr>) bp w' b'"
  shows "sent_all pkt (s # sent) left c w b w' b'"
proof -
  let ?w1 = "w1\<lparr>w_pkts := (w_pkts w)(pkt \<mapsto> bp)\<rparr>"
  let ?c1 = "c1\<lparr>ipID := ipID c1 + 1\<rparr>"
  let ?t = "ip_getPayload 14 (m_data b)"
  have ok1: "conn_ok c1 w1" by (rule conn_step_ok [OF st])
  have dom: "dom (w_pkts ?w1) = dom (w_pkts w1)" using b g by (auto simp: heap_grows_def)
  have m1: "conn_step (c1, w1) (c1, ?w1)" using ok1 dom by (intro conn_step_pkts) simp_all
  have m2: "conn_step (c1, ?w1) (?c1, ?w1)"
    using conn_step_ok [OF m1] by (intro conn_step_segs) (simp_all add: segs_def)
  have c': "?c1\<lparr>dataToSend := left, dataAlreadySent := dataAlreadySent ?c1 @ sent,
       ipID := ipID ?c1 + of_nat (length sent)\<rparr> =
     c\<lparr>dataToSend := left, dataAlreadySent := dataAlreadySent c @ s # sent,
       ipID := ipID c + of_nat (length (s # sent))\<rparr>"
    by (simp add: c1 add.assoc)
  have step: "conn_step (c, w) (c\<lparr>dataToSend := left, dataAlreadySent := dataAlreadySent c @ s # sent,
       ipID := ipID c + of_nat (length (s # sent))\<rparr>, w')"
    using conn_step_trans [OF conn_step_trans [OF st m1] conn_step_trans [OF m2]] rest
    unfolding sent_all_def c' by blast
  have gr: "heap_grows w (w'\<lparr>w_pkts := w_pkts w\<rparr>)" and grow1: "w_next w1 \<le> w_next w'"
    and heap1: "\<And>x. x < w_next w1 \<Longrightarrow> w_heap w' x = w_heap w1 x"
    using rest g by (auto simp: sent_all_def heap_grows_def)
  have pk: "w_pkts w' = (w_pkts w)(pkt \<mapsto> b')" using rest by (simp add: sent_all_def)
  have first: "carries ?t s (seg_bytes w1 s) (m_data b) bp"
    unfolding bp by (rule carries_fill)
  have "s \<in> set (segs c1)" by (simp add: c1 segs_def)
  then have "seg_dataPtr s < w_next w1" using ok1 by (metis conn_okD)
  then have sb: "seg_bytes w' s = seg_bytes w1 s" by (simp add: seg_bytes_def heap1)
  have "carries ?t (last (s # sent)) (seg_bytes w' (last (s # sent))) (m_data b) b'"
  proof (cases "sent = []")
    case True
    then show ?thesis using rest first sb by (simp add: sent_all_def)
  next
    case False
    have "ip_getPayload 14 (m_data bp) = ?t" using first by (simp add: carries_def)
    then show ?thesis using rest False carries_trans [OF first] by (simp add: sent_all_def)
  qed
  then show ?thesis using step gr pk by (simp add: sent_all_def)
qed

text \<open>One round that sends the whole segment, and the last round when the window ends inside one.\<close>

lemma est_send_whole:
  assumes ok: "conn_ok c (world fi)" and b: "w_pkts (world fi) pkt = Some b"
    and lt: "a < maxSend" and q: "dataToSend c = seg # ss"
    and n: "min (seg_dataLen seg) (ucast (maxSend - a)) = seg_dataLen seg"
  defines "c1 \<equiv> c\<lparr>dataToSend := ss, dataAlreadySent := dataAlreadySent c @ [seg]\<rparr>"
  defines "bp \<equiv> b\<lparr>m_data := fill_segment 14 (ip_getPayload 14 (m_data b)) seg (seg_bytes (world fi) seg)
      (ipID c1) (m_data b), m_dataLen := 54 + seg_dataLen seg\<rparr>"
  defines "w1 \<equiv> (world fi)\<lparr>w_pkts := (w_pkts (world fi))(pkt \<mapsto> bp)\<rparr>"
  shows "est_send pkt pkt tp True maxSend a c fi fr = est_send pkt pkt (ip_getPayload 14 (m_data b)) True maxSend (a + ucast (seg_dataLen seg))
      (c1\<lparr>ipID := ipID c1 + 1\<rparr>) (fi\<lparr>world := w1\<rparr>) False"
    and "conn_ok (c1\<lparr>ipID := ipID c1 + 1\<rparr>) w1"
    and "sent_all pkt sent left (c1\<lparr>ipID := ipID c1 + 1\<rparr>) w1 bp w' b' \<Longrightarrow>
      sent_all pkt (seg # sent) left c (world fi) b w' b'"
proof -
  have st: "conn_step (c, world fi) (c1, world fi)" unfolding c1_def using ok q by (rule conn_step_whole)
  have "seg \<in> set (segs c1)" by (simp add: c1_def segs_def)
  note rd = read_seg [OF conn_step_ok [OF st] this]
  show "est_send pkt pkt tp True maxSend a c fi fr = est_send pkt pkt (ip_getPayload 14 (m_data b)) True maxSend (a + ucast (seg_dataLen seg))
      (c1\<lparr>ipID := ipID c1 + 1\<rparr>) (fi\<lparr>world := w1\<rparr>) False"
    unfolding w1_def bp_def
    by (rule est_send_iter [OF lt q b n [symmetric]])
      (use take_segment_whole [of seg c "world fi"] q rd in \<open>simp_all add: c1_def\<close>)
  have "conn_ok c1 w1" using conn_step_ok [OF st] by (simp add: w1_def conn_ok_def heap_ok_def seg_ok_def)
  then show "conn_ok (c1\<lparr>ipID := ipID c1 + 1\<rparr>) w1" by (simp add: conn_ok_def segs_def)
  show "sent_all pkt sent left (c1\<lparr>ipID := ipID c1 + 1\<rparr>) w1 bp w' b' \<Longrightarrow>
      sent_all pkt (seg # sent) left c (world fi) b w' b'"
    using sent_all_step [OF c1_def [THEN meta_eq_to_obj_eq] st heap_grows_refl b bp_def [THEN meta_eq_to_obj_eq]]
    by (simp add: w1_def)
qed

lemma est_send_part:
  assumes ok: "conn_ok c (world fi)" and b: "w_pkts (world fi) pkt = Some b"
    and lt: "a < maxSend" and q: "dataToSend c = seg # ss" and m: "unat maxSend < 65536"
    and part: "unat maxSend - unat a < unat (seg_dataLen seg)"
    and d: "drain (w_next (world fi)) (unat maxSend - unat a) (dataToSend c) = (sent, left)"
  shows "\<exists>w' b'. est_send pkt pkt tp True maxSend a c fi fr =
      ret (pkt, if sent = [] then tp else ip_getPayload 14 (m_data b), c\<lparr>dataToSend := left, dataAlreadySent := dataAlreadySent c @ sent,
             ipID := ipID c + of_nat (length sent)\<rparr>, fi\<lparr>world := w'\<rparr>, fr \<and> sent = []) \<and>
     sent_all pkt sent left c (world fi) b w' b'"
proof -
  let ?w = "world fi" and ?n = "min (seg_dataLen seg) (ucast (maxSend - a)) :: u16"
  let ?s = "seg\<lparr>seg_dataLen := 0\<rparr>" and ?w1 = "snd (heap_new (Block []) (world fi))"
  note n = window_arith [OF lt m, of "seg_dataLen seg"]
  have m0: "unat maxSend - unat a \<noteq> 0" using lt by (simp add: word_less_nat_alt)
  have un: "unat ?n = unat maxSend - unat a" using n(1) part by simp
  have nlt: "?n < seg_dataLen seg" using un part by (simp only: word_less_nat_alt)
  let ?old = "\<lparr>seg_dataPtr = w_next ?w, seg_seqNumber = seg_seqNumber seg + ucast ?n, seg_dataLen = 0\<rparr>"
  have res: "sent = [?s]" "left = ?old # ss"
    using d part m0 n(3) un by (simp_all add: q)
  define c1 where "c1 = c\<lparr>dataToSend := left, dataAlreadySent := dataAlreadySent c @ [?s]\<rparr>"
  have st: "conn_step (c, ?w) (c1, ?w1)" unfolding c1_def res by (rule conn_step_part [OF ok q])
  have "?s \<in> set (segs c1)" by (simp add: c1_def segs_def)
  note rd = read_seg [OF conn_step_ok [OF st] this]
  define bp where "bp = b\<lparr>m_data := fill_segment 14 (ip_getPayload 14 (m_data b)) ?s (seg_bytes ?w1 ?s)
      (ipID c1) (m_data b), m_dataLen := 54 + seg_dataLen ?s\<rparr>"
  define w1 where "w1 = ?w1\<lparr>w_pkts := (w_pkts ?w)(pkt \<mapsto> bp)\<rparr>"
  have ts: "take_segment ?n seg c ?w = ret (?s, c1, ?w1)"
    using take_segment_part [OF ok q nlt] by (simp add: c1_def res)
  have it: "est_send pkt pkt tp True maxSend a c fi fr = est_send pkt pkt (ip_getPayload 14 (m_data b)) True maxSend (a + ucast ?n)
      (c1\<lparr>ipID := ipID c1 + 1\<rparr>) (fi\<lparr>world := w1\<rparr>) False"
    unfolding w1_def bp_def
    by (rule est_send_iter [OF lt q b refl ts _ rd]) (simp add: heap_new_def)
  have "a + ucast ?n = maxSend" using n(2) un lt by (simp add: word_unat_eq_iff word_less_nat_alt)
  then have stop: "est_send pkt pkt tp True maxSend a c fi fr =
      ret (pkt, ip_getPayload 14 (m_data b), c1\<lparr>ipID := ipID c1 + 1\<rparr>, fi\<lparr>world := w1\<rparr>, False)"
    unfolding it by (intro est_send_stop) simp
  have pk: "w_pkts w1 pkt = Some bp" by (simp add: w1_def)
  have "dom (w_pkts w1) = dom (w_pkts ?w1)" using b by (auto simp: w1_def heap_new_def)
  then have "conn_ok (c1\<lparr>ipID := ipID c1 + 1\<rparr>) w1"
    using conn_step_ok [OF st] by (simp add: w1_def conn_ok_def heap_ok_def seg_ok_def segs_def)
  from sent_all_none [OF this pk]
  have "sent_all pkt [] left (c1\<lparr>ipID := ipID c1 + 1\<rparr>) w1 bp w1 bp" by (simp add: c1_def)
  then have "sent_all pkt [?s] left c ?w b w1 bp"
    unfolding w1_def by (rule sent_all_step [OF c1_def st heap_grows_new b bp_def])
  then show ?thesis using stop by (auto simp: c1_def res)
qed

lemma est_send_ok:
  assumes "conn_ok c (world fi)" and "w_pkts (world fi) pkt = Some b" and "unat maxSend < 65536"
    and "drain (w_next (world fi)) (unat maxSend - unat a) (dataToSend c) = (sent, left)"
  shows "\<exists>w' b'. est_send pkt pkt tp True maxSend a c fi fr =
      ret (pkt, if sent = [] then tp else ip_getPayload 14 (m_data b), c\<lparr>dataToSend := left, dataAlreadySent := dataAlreadySent c @ sent,
             ipID := ipID c + of_nat (length sent)\<rparr>, fi\<lparr>world := w'\<rparr>, fr \<and> sent = []) \<and>
     sent_all pkt sent left c (world fi) b w' b'"
  using assms
proof (induction "dataToSend c" arbitrary: c fi b a fr sent left tp)
  case Nil
  then have "dataToSend c = []" and "sent = []" and "left = []" by simp_all
  then show ?case
    using sent_all_none [OF Nil.prems(1,2)] conn_same [of c "[]"]
    by (intro exI [of _ "world fi"] exI [of _ b]) (simp add: est_send_stop)
next
  case (Cons seg ss)
  note q = Cons.hyps(2) [symmetric]
  let ?t = "ip_getPayload 14 (m_data b)" and ?w = "world fi" and ?m = "unat maxSend - unat a"
  consider (closed) "\<not> a < maxSend" | (part) "a < maxSend" "?m < unat (seg_dataLen seg)"
    | (whole) "a < maxSend" "unat (seg_dataLen seg) \<le> ?m" by linarith
  then show ?case
  proof cases
    case closed
    then have "?m = 0" by (simp add: word_less_nat_alt)
    then have "sent = []" and "left = dataToSend c" using Cons.prems(4) by simp_all
    then show ?thesis
      using closed sent_all_none [OF Cons.prems(1,2)]
      by (intro exI [of _ "world fi"] exI [of _ b]) (simp add: est_send_stop conn_same)
  next
    case part
    then show ?thesis using est_send_part [OF Cons.prems(1,2) _ q Cons.prems(3) _ Cons.prems(4)] by blast
  next
    case whole
    note n = window_arith [OF whole(1) Cons.prems(3), of "seg_dataLen seg"]
    have nl: "min (seg_dataLen seg) (ucast (maxSend - a)) = seg_dataLen seg"
      using n(1) whole(2) by (simp add: word_unat_eq_iff)
    obtain sent1 left1 where d: "drain (w_next ?w) (?m - unat (seg_dataLen seg)) ss = (sent1, left1)"
      by (cases "drain (w_next ?w) (?m - unat (seg_dataLen seg)) ss")
    have "?m \<noteq> 0" using whole by (simp add: word_less_nat_alt)
    then have res: "sent = seg # sent1" "left = left1" using Cons.prems(4) whole d by (simp_all add: q)
    define c1 where "c1 = c\<lparr>dataToSend := ss, dataAlreadySent := dataAlreadySent c @ [seg]\<rparr>"
    define bp where "bp = b\<lparr>m_data := fill_segment 14 (ip_getPayload 14 (m_data b)) seg (seg_bytes ?w seg)
      (ipID c1) (m_data b), m_dataLen := 54 + seg_dataLen seg\<rparr>"
    define w1 where "w1 = ?w\<lparr>w_pkts := (w_pkts ?w)(pkt \<mapsto> bp)\<rparr>"
    have tbp: "ip_getPayload 14 (m_data bp) = ?t" by (simp add: bp_def fill_segment_payload)
    note iter = est_send_whole [OF Cons.prems(1,2) whole(1) q nl,
        folded c1_def, folded bp_def, folded w1_def]
    have "unat maxSend - unat (a + ucast (seg_dataLen seg)) = ?m - unat (seg_dataLen seg)"
      using n(2) nl by simp
    then have "\<exists>w' b'. est_send pkt pkt ?t True maxSend (a + ucast (seg_dataLen seg)) (c1\<lparr>ipID := ipID c1 + 1\<rparr>)
          (fi\<lparr>world := w1\<rparr>) False =
        ret (pkt, if sent1 = [] then ?t else ip_getPayload 14 (m_data bp), (c1\<lparr>ipID := ipID c1 + 1\<rparr>)\<lparr>dataToSend := left1,
             dataAlreadySent := dataAlreadySent (c1\<lparr>ipID := ipID c1 + 1\<rparr>) @ sent1,
             ipID := ipID (c1\<lparr>ipID := ipID c1 + 1\<rparr>) + of_nat (length sent1)\<rparr>,
             (fi\<lparr>world := w1\<rparr>)\<lparr>world := w'\<rparr>, False \<and> sent1 = []) \<and>
        sent_all pkt sent1 left1 (c1\<lparr>ipID := ipID c1 + 1\<rparr>) (world (fi\<lparr>world := w1\<rparr>)) bp w' b'"
      using iter(2) Cons.prems(3) d by (intro Cons.hyps(1)) (simp_all add: c1_def w1_def)
    then obtain w' b' where r: "est_send pkt pkt ?t True maxSend (a + ucast (seg_dataLen seg))
          (c1\<lparr>ipID := ipID c1 + 1\<rparr>) (fi\<lparr>world := w1\<rparr>) False =
        ret (pkt, ?t, c1\<lparr>dataToSend := left1, dataAlreadySent := dataAlreadySent c1 @ sent1,
           ipID := ipID c1 + 1 + of_nat (length sent1)\<rparr>, fi\<lparr>world := w'\<rparr>, False)"
      and sa: "sent_all pkt sent1 left1 (c1\<lparr>ipID := ipID c1 + 1\<rparr>) w1 bp w' b'"
      by (auto simp: tbp)
    show ?thesis
      unfolding iter(1) r res using iter(3) [OF sa]
      by (intro exI [of _ w'] exI [of _ b']) (simp add: c1_def add.assoc)
  qed
qed

end
