(* ===== verification/Tcp_Props.thy ===== *)
theory Tcp_Props
  imports Tcp_Send
begin

text \<open>
  The handlers of the TCP server: they are state functions, they never fail and keep the
  invariant of the connection and everything that is not theirs, and what they answer.
\<close>

section \<open>The handlers as state functions\<close>

text \<open>The sending loop never asks for another packet: \<open>firstPacket\<close> stays true.\<close>

definition send_frame :: "bool \<Rightarrow> ptr \<Rightarrow> ('cc, 'pp) tfi \<Rightarrow> err + ptr \<times> nat \<times> ('cc, 'pp) connection \<times> ('cc, 'pp) tfi \<times> bool \<Rightarrow> bool" where
  "send_frame fp cur fi r \<longleftrightarrow> (\<forall>cur' tp' c' fi' fr'. r = Inr (cur', tp', c', fi', fr') \<longrightarrow> fp \<longrightarrow>
      cur' = cur \<and> pktsBA fi' = pktsBA fi \<and> fi_sm fi' = fi_sm fi \<and> pktIdx fi' = pktIdx fi \<and> cID fi' = cID fi)"

lemma send_frame_same [simp]: "send_frame fp cur (fi\<lparr>world := w\<rparr>) r = send_frame fp cur fi r"
  by (simp add: send_frame_def)

lemma est_send_frame:
  assumes "est_send pkt cur tp fp maxSend a c fi fr = ret (cur', tp', c', fi', fr')" and fp
  shows "cur' = cur \<and> pktsBA fi' = pktsBA fi \<and> fi_sm fi' = fi_sm fi \<and> pktIdx fi' = pktIdx fi \<and> cID fi' = cID fi"
proof -
  have "send_frame fp cur fi r" if "est_send pkt cur tp fp maxSend a c fi fr = Some r" for r
    using that
    apply (rule est_send.raw_induct [where P = "\<lambda>pkt cur tp fp maxSend a c fi fr r. send_frame fp cur fi r", rotated])
    subgoal premises p for es pkt cur tp fp maxSend a c fi fr r
    proof (unfold send_frame_def, intro allI impI)
      fix cur' tp' c' fi' fr' assume r: "r = Inr (cur', tp', c', fi', fr')" and fp
      show "cur' = cur \<and> pktsBA fi' = pktsBA fi \<and> fi_sm fi' = fi_sm fi \<and> pktIdx fi' = pktIdx fi \<and> cID fi' = cID fi"
      proof (cases "a < maxSend \<and> dataToSend c \<noteq> []")
        case False
        then show ?thesis using p(2) r by auto
      next
        case True
        with p(2) r \<open>fp\<close> obtain tp1 a1 c1 w1 where "es pkt cur tp1 True maxSend a1 c1 (fi\<lparr>world := w1\<rparr>) False = Some r"
          by (auto simp: rbind_eq_ret Let_def)
        from p(1) [OF this] show ?thesis using r by (simp add: send_frame_def)
      qed
    qed
    done
  with assms show ?thesis by (auto simp: send_frame_def)
qed
text \<open>What every handler leaves alone in its \<open>FunIface\<close>.\<close>

definition same_iface :: "('c, 'p, 'w, 'k) FunIface \<Rightarrow> ('c, 'p, 'w, 'k) FunIface \<Rightarrow> bool" where
  "same_iface fi fi' \<longleftrightarrow> pktsBA fi' = pktsBA fi \<and> fi_sm fi' = fi_sm fi \<and> pktIdx fi' = pktIdx fi \<and> cID fi' = cID fi"

lemma same_iface_simps [simp]:
  "same_iface fi fi"
  "same_iface fi (fi'\<lparr>world := w\<rparr>) = same_iface fi fi'"
  "same_iface fi (transition s fi') = same_iface fi fi'"
  "same_iface fi (freePkt fi') = same_iface fi fi'"
  by (simp_all add: same_iface_def)

lemma same_iface_frame: "fi_ok fi \<Longrightarrow> same_iface fi fi' \<Longrightarrow> fi_frame fi fi'"
  by (intro fi_frame_same) (simp_all add: same_iface_def)

lemma runSynAck_iface: "on_ret (same_iface fi) (runSynAck pkt fi)"
  unfolding runSynAck_def Let_def by (intro on_ret_intros) (simp_all add: on_ret_intros)

lemma runAckFin_iface: "on_ret (same_iface fi) (runAckFin pkt fi)"
  unfolding runAckFin_def Let_def by (intro on_ret_intros) simp_all

lemma est_send_iface:
  "on_ret (\<lambda>(cur, tp, c, fi', fr). same_iface fi fi') (est_send pkt cur tp True x a c (fi\<lparr>world := w\<rparr>) fr)"
  unfolding on_ret_def same_iface_def using est_send_frame by fastforce

lemma est_finish_iface:
  "on_ret (same_iface fi) (est_finish cp (cur, tp, c, fi', fr))" if "same_iface fi fi'"
  using that by (simp add: est_finish_def Let_def on_ret_rbind)

lemma est_accept_iface: "on_ret (same_iface fi) (est_accept te pkt ipv4 tcp m n cp c fi)"
proof -
  have send: "on_ret (same_iface fi) (rbind (if b then est_send pkt pkt tp True x a c2 (fi\<lparr>world := w\<rparr>) fr
      else ret (pkt, tp, c2, fi\<lparr>world := w\<rparr>, fr)) (est_finish cp))" for b tp x a c2 w fr
  proof (rule on_ret_rbindI [where Q = "\<lambda>(cur, tp, c, fi', fr). same_iface fi fi'"])
    show "on_ret (\<lambda>(cur, tp, c, fi', fr). same_iface fi fi') (if b then est_send pkt pkt tp True x a c2 (fi\<lparr>world := w\<rparr>) fr
        else ret (pkt, tp, c2, fi\<lparr>world := w\<rparr>, fr))"
      by (simp add: est_send_iface)
    show "on_ret (same_iface fi) (est_finish cp r)" if "case r of (cur, tp, c, fi', fr) \<Rightarrow> same_iface fi fi'" for r
      using that by (cases r) (simp add: est_finish_iface)
  qed
  show ?thesis
    unfolding est_accept_def Let_def by (intro on_ret_any on_ret_prod send)
qed

lemma runEst_iface: "on_ret (same_iface fi) (runEst te pkt fi)"
proof -
  have acc: "on_ret (same_iface fi) (est_accept te pkt ipv4 tcp m n cp c (fi\<lparr>world := w\<rparr>))" for ipv4 tcp m n cp c w
    using est_accept_iface [of "fi\<lparr>world := w\<rparr>"] by (simp add: on_ret_def same_iface_def)
  show ?thesis
    unfolding runEst_def Let_def est_rst_def est_dup_ack_def by (intro on_ret_intros acc) simp_all
qed

interpretation run_syn_ack: state_function runSynAck
  by unfold_locales (blast intro: same_iface_frame on_retD [OF runSynAck_iface])

interpretation run_est: state_function "runEst ServerJoke"
  by unfold_locales (blast intro: same_iface_frame on_retD [OF runEst_iface])

interpretation run_ack_fin: state_function runAckFin
  by unfold_locales (blast intro: same_iface_frame on_retD [OF runAckFin_iface])

section \<open>Safety\<close>

definition conn_at :: "ptr \<Rightarrow> ('cc, 'pp) connection \<Rightarrow> ('cc, 'pp) tworld \<Rightarrow> bool" where
  "conn_at cp c w \<longleftrightarrow> w_heap w cp = Some (Conn c) \<and> conn_ok c w"

text \<open>
  A call on the connection at \<open>cp\<close>: it is still there and in order, no other object of the heap
  is touched, no packet is added, removed or freed.
\<close>

definition conn_call :: "ptr \<Rightarrow> ('cc, 'pp) connection \<Rightarrow> ('cc, 'pp) tfi \<Rightarrow> ('cc, 'pp) tfi \<Rightarrow> bool" where
  "conn_call cp c fi fi' \<longleftrightarrow> same_iface fi fi' \<and> immediateTransition fi' = immediateTransition fi \<and>
     stateData (st fi') = stateData (st fi) \<and> timeoutID (st fi') = timeoutID (st fi) \<and>
     dom (w_pkts (world fi')) = dom (w_pkts (world fi)) \<and> (\<exists>c'. conn_at cp c' (world fi')) \<and>
     (\<forall>q < w_next (world fi). q \<noteq> cp \<and> q \<notin> blocks c \<longrightarrow> w_heap (world fi') q = w_heap (world fi) q)"

lemma conn_at_not_block: "conn_at cp c w \<Longrightarrow> cp \<notin> blocks c"
  by (auto simp: conn_at_def conn_ok_def seg_ok_def blocks_def)

lemma put_step:
  assumes at: "conn_at cp c w" and st: "conn_step (c, w) (c', w')"
  shows "conn_at cp c' (heap_put cp (Conn c') w')"
    and "dom (w_pkts (heap_put cp (Conn c') w')) = dom (w_pkts w)"
    and "\<forall>q < w_next w. q \<noteq> cp \<and> q \<notin> blocks c \<longrightarrow> w_heap (heap_put cp (Conn c') w') q = w_heap w q"
proof -
  have cp: "cp < w_next w" using at by (auto simp: conn_at_def conn_ok_def heap_ok_def)
  note other = conn_step_other [OF st cp conn_at_not_block [OF at]]
  have ok: "conn_ok c' w'" by (rule conn_step_ok [OF st])
  have "seg_dataPtr s \<noteq> cp" if "s \<in> set (segs c')" for s
    using other that by (auto simp: blocks_def)
  then have "seg_ok (heap_put cp (Conn c') w') s" if "s \<in> set (segs c')" for s
    using ok that by (auto simp: conn_ok_def seg_ok_def heap_put_def)
  moreover have "heap_ok (heap_put cp (Conn c') w')"
    using ok other at by (auto simp: conn_ok_def heap_ok_def heap_put_def conn_at_def)
  ultimately show "conn_at cp c' (heap_put cp (Conn c') w')"
    using ok by (simp add: conn_at_def conn_ok_def) (simp add: heap_put_def)
  show "dom (w_pkts (heap_put cp (Conn c') w')) = dom (w_pkts w)"
    using conn_step_dom [OF st] by (simp add: heap_put_def)
  show "\<forall>q < w_next w. q \<noteq> cp \<and> q \<notin> blocks c \<longrightarrow> w_heap (heap_put cp (Conn c') w') q = w_heap w q"
    using conn_step_other [OF st] by (simp add: heap_put_def)
qed

lemma write_ok:
  assumes "w_pkts w pkt = Some b"
  shows "writeData pkt m w = ret (w\<lparr>w_pkts := (w_pkts w)(pkt \<mapsto> b\<lparr>m_data := m\<rparr>)\<rparr>)"
    and "setDataLen pkt l w = ret (w\<lparr>w_pkts := (w_pkts w)(pkt \<mapsto> b\<lparr>m_dataLen := l\<rparr>)\<rparr>)"
    and "getData pkt w = ret (m_data b)" and "getDataLen pkt w = ret (m_dataLen b)"
  using assms by (simp_all add: pkt_defs)

lemma conn_step_write:
  assumes "conn_ok c w" and "w_pkts w pkt = Some b"
  shows "conn_step (c, w) (c, w\<lparr>w_pkts := (w_pkts w)(pkt \<mapsto> b')\<rparr>)"
  using assms by (intro conn_step_pkts) auto

text \<open>A handler that only answers leaves the connection alone.\<close>

lemma conn_call_pkts:
  assumes at: "conn_at cp c (world fi)" and b: "w_pkts (world fi) pkt = Some b"
    and fi': "fi' = fi\<lparr>world := (world fi)\<lparr>w_pkts := (w_pkts (world fi))(pkt \<mapsto> b')\<rparr>\<rparr>"
  shows "conn_call cp c fi fi'"
proof -
  have "conn_ok c ((world fi)\<lparr>w_pkts := (w_pkts (world fi))(pkt \<mapsto> b')\<rparr>)"
    using at b by (intro conn_step_ok [OF conn_step_write]) (simp_all add: conn_at_def)
  then have "conn_at cp c (world fi')" using at by (simp add: conn_at_def fi')
  then show ?thesis using b by (auto simp: conn_call_def fi')
qed

lemma conn_call_put:
  assumes "conn_at cp c (world fi)" and "conn_step (c, world fi) (c', w')"
    and "fi' = fi\<lparr>world := heap_put cp (Conn c') w'\<rparr>"
  shows "conn_call cp c fi fi'"
  using put_step [OF assms(1,2)] by (auto simp: conn_call_def assms(3))

lemma conn_call_simps [simp]:
  "conn_call cp c fi (transition s fi') = conn_call cp c fi fi'"
  "conn_call cp c fi (freePkt fi') = conn_call cp c fi fi'"
  by (simp_all add: conn_call_def)

lemma get_conn_at: "conn_at cp c w \<Longrightarrow> get_conn cp w = ret c"
  by (simp add: conn_at_def get_conn_def heap_get_def)

lemma conn_step_add:
  assumes "conn_ok c w" and "mset (segs c') = mset (segs c) + {#\<lparr>seg_dataPtr = w_next w, seg_seqNumber = n, seg_dataLen = len\<rparr>#}"
    and "unat len \<le> length bs"
  shows "conn_step (c, w) (c', snd (heap_new (Block bs) w))"
proof -
  let ?c1 = "c\<lparr>seqLocal := n\<rparr>"
  have st1: "conn_step (c, w) (?c1, w)" using assms(1) by (intro conn_step_segs) (simp_all add: segs_def)
  have st2: "conn_step (?c1, w) (push_segment (w_next w) len ?c1, snd (heap_new (Block bs) w))"
    using conn_step_ok [OF st1] assms(3) by (rule push_new)
  have "mset (segs c') = mset (segs (push_segment (w_next w) len ?c1))"
    using assms(2) by (simp add: segs_def push_segment_def Let_def)
  from conn_step_trans [OF conn_step_trans [OF st1 st2] conn_step_segs [OF conn_step_ok [OF st2] this]]
  show ?thesis .
qed

text \<open>The answer to a SYN, and the connection it leaves.\<close>

definition syn_ack_packet :: "mem \<Rightarrow> mem" where
  "syn_ack_packet m =
    (let t = ip_getPayload 14 m;
         m1 = ip_setPayloadLength 14 20 (tcp_turn_around 14 t m)
     in tcp_setOffset t 5 (tcp_setAckFlag t (tcp_setSeq t 0 (tcp_setAck t (tcp_getSeq t m1 + 1) m1))))"

definition bad_syn :: "nat \<Rightarrow> mem \<Rightarrow> bool" where
  "bad_syn t m \<longleftrightarrow> \<not> tcp_getSynFlag t m \<or> tcp_getAckFlag t m \<or> tcp_getFinFlag t m \<or> tcp_getRstFlag t m"

definition bad_est :: "nat \<Rightarrow> mem \<Rightarrow> bool" where
  "bad_est t m \<longleftrightarrow> tcp_getSynFlag t m \<or> \<not> tcp_getAckFlag t m \<or> tcp_getRstFlag t m"

lemma runSynAck_eq:
  fixes fi :: "('cc, 'pp) tfi"
  assumes at: "conn_at cp c (world fi)" and cp: "stateData (st fi) = cp"
    and b: "w_pkts (world fi) pkt = Some b"
  defines "t \<equiv> ip_getPayload 14 (m_data b)"
  defines "m1 \<equiv> ip_setPayloadLength 14 20 (tcp_turn_around 14 t (m_data b))"
  shows "bad_syn t m1 \<Longrightarrow> runSynAck pkt fi = ret (transition TS_END (fi\<lparr>world := (world fi)
      \<lparr>w_pkts := (w_pkts (world fi))(pkt \<mapsto> b\<lparr>m_data := tcp_setRstFlag t (tcp_clearFlags t m1)\<rparr>)\<rparr>\<rparr>))"
    and "\<not> bad_syn t m1 \<Longrightarrow> runSynAck pkt fi = ret (transition TS_est (fi\<lparr>world :=
       heap_put cp (Conn (c\<lparr>seqRemote := tcp_getSeq t m1 + 1, seqLocal := 1, dataAlreadySent := dataAlreadySent c @
         [\<lparr>seg_dataPtr = w_next (world fi), seg_seqNumber = 0, seg_dataLen = 54\<rparr>]\<rparr>))
       (snd (heap_new (Block (load_bytes 0 54 (syn_ack_packet (m_data b))))
         ((world fi)\<lparr>w_pkts := (w_pkts (world fi))(pkt \<mapsto> b\<lparr>m_data := syn_ack_packet (m_data b), m_dataLen := 54\<rparr>)\<rparr>)))\<rparr>))"
  using get_conn_at [OF at] cp b
  by (simp_all add: runSynAck_def write_ok bad_syn_def m1_def t_def eth_getPayload_def
      sizeof_Ethernet_def sizeof_IPv4_def sizeof_Tcp_def Let_def syn_ack_packet_def heap_new_def heap_put_def)

lemma runSynAck_safe:
  fixes fi :: "('cc, 'pp) tfi"
  assumes at: "conn_at cp c (world fi)" and cp: "stateData (st fi) = cp"
    and b: "w_pkts (world fi) pkt = Some b"
  shows "\<exists>fi'. runSynAck pkt fi = ret fi' \<and> conn_call cp c fi fi'"
proof (cases "bad_syn (ip_getPayload 14 (m_data b)) (ip_setPayloadLength 14 20 (tcp_turn_around 14 (ip_getPayload 14 (m_data b)) (m_data b)))")
  case True
  then show ?thesis using runSynAck_eq(1) [OF assms True] conn_call_pkts [OF at b refl] by simp
next
  case False
  let ?m = "syn_ack_packet (m_data b)"
  let ?w1 = "(world fi)\<lparr>w_pkts := (w_pkts (world fi))(pkt \<mapsto> b\<lparr>m_data := ?m, m_dataLen := 54\<rparr>)\<rparr>"
  have st1: "conn_step (c, world fi) (c, ?w1)"
    using at b by (intro conn_step_write) (simp_all add: conn_at_def)
  have st2: "conn_step (c, ?w1) (c\<lparr>seqRemote := s, seqLocal := 1, dataAlreadySent := dataAlreadySent c @
      [\<lparr>seg_dataPtr = w_next (world fi), seg_seqNumber = 0, seg_dataLen = 54\<rparr>]\<rparr>, snd (heap_new (Block (load_bytes 0 54 ?m)) ?w1))" for s
    using conn_step_ok [OF st1] by (intro conn_step_add [of _ _ _ 0 54]) (simp_all add: segs_def)
  show ?thesis
    using runSynAck_eq(2) [OF assms False] conn_call_put [OF at conn_step_trans [OF st1 st2] refl] by simp
qed

lemma runAckFin_safe:
  fixes fi :: "('cc, 'pp) tfi"
  assumes at: "conn_at cp c (world fi)" and cp: "stateData (st fi) = cp"
    and b: "w_pkts (world fi) pkt = Some b"
  shows "\<exists>fi'. runAckFin pkt fi = ret fi' \<and> conn_call cp c fi fi'"
proof -
  have pk: "conn_call cp c fi (fi\<lparr>world := (world fi)\<lparr>w_pkts := (w_pkts (world fi))(pkt \<mapsto> b')\<rparr>\<rparr>)" for b'
    by (rule conn_call_pkts [OF at b refl])
  have put: "conn_call cp c fi (fi\<lparr>world := heap_put cp (Conn c')
      ((world fi)\<lparr>w_pkts := (w_pkts (world fi))(pkt \<mapsto> b')\<rparr>)\<rparr>)" if "segs c' = segs c" for c' b'
  proof -
    have st1: "conn_step (c, world fi) (c, (world fi)\<lparr>w_pkts := (w_pkts (world fi))(pkt \<mapsto> b')\<rparr>)"
      using at b by (intro conn_step_write) (simp_all add: conn_at_def)
    have "conn_step (c, (world fi)\<lparr>w_pkts := (w_pkts (world fi))(pkt \<mapsto> b')\<rparr>)
        (c', (world fi)\<lparr>w_pkts := (w_pkts (world fi))(pkt \<mapsto> b')\<rparr>)"
      using conn_step_ok [OF st1] by (intro conn_step_segs) (simp_all add: that)
    from conn_call_put [OF at conn_step_trans [OF st1 this] refl] show ?thesis .
  qed
  show ?thesis
    using get_conn_at [OF at] cp b pk put by (auto simp: runAckFin_def write_ok Let_def segs_def)
qed

lemma est_finish_ok:
  fixes fi :: "('cc, 'pp) tfi"
  assumes at: "conn_at cp c0 (world fi)" and st: "conn_step (c0, world fi) (c, w)"
    and b: "w_pkts w cur = Some b"
  shows "\<exists>fi'. est_finish cp (cur, tp, c, fi\<lparr>world := w\<rparr>, fr) = ret fi' \<and> conn_call cp c0 fi fi'"
proof (cases "closeConnectionAfterSending c \<and> dataToSend c = []")
  case True
  let ?w = "\<lambda>b'. w\<lparr>w_pkts := (w_pkts w)(cur \<mapsto> b')\<rparr>"
  have "conn_step (c0, world fi) (c\<lparr>seqLocal := seqLocal c + 1\<rparr>, ?w b')" for b'
  proof -
    have s1: "conn_step (c, w) (c, ?w b')" using conn_step_ok [OF st] b by (rule conn_step_write)
    have "conn_step (c, ?w b') (c\<lparr>seqLocal := seqLocal c + 1\<rparr>, ?w b')"
      using conn_step_ok [OF s1] by (intro conn_step_segs) (simp_all add: segs_def)
    with conn_step_trans [OF st s1] show ?thesis by (rule conn_step_trans)
  qed
  from conn_call_put [OF at this refl] show ?thesis
    using True b by (simp add: est_finish_def write_ok)
next
  case False
  then show ?thesis using conn_call_put [OF at st refl] by (auto simp: est_finish_def Let_def)
qed

lemma advance_segs [simp]: "segs (est_advance tcp m n c) = segs c"
  by (simp add: est_advance_def segs_def Let_def)

lemma est_send_step:
  fixes fi :: "('cc, 'pp) tfi"
  assumes "conn_ok c w" and "w_pkts w pkt = Some b"
  shows "\<exists>tp' c' w' b' fr'. (if dataToSend c \<noteq> []
      then est_send pkt pkt tp True (min (ucast (sendWindow c)) x) 0 c (fi\<lparr>world := w\<rparr>) fr
      else ret (pkt, tp, c, fi\<lparr>world := w\<rparr>, fr)) = ret (pkt, tp', c', fi\<lparr>world := w'\<rparr>, fr') \<and>
    conn_step (c, w) (c', w') \<and> w_pkts w' pkt = Some b'"
proof (cases "dataToSend c = []")
  case True
  then show ?thesis using assms conn_step_refl by fastforce
next
  case False
  have "unat (min (ucast (sendWindow c)) x) \<le> unat (ucast (sendWindow c) :: u32)"
    by (simp only: word_le_nat_alt [symmetric] min.cobounded1)
  also have "\<dots> < 65536" using unat_u16_less [of "sendWindow c"] by (simp add: unat_ucast_up)
  finally have win: "unat (min (ucast (sendWindow c)) x) < 65536" .
  obtain sent left where d: "drain (w_next w) (unat (min (ucast (sendWindow c)) x) - unat (0 :: u32)) (dataToSend c) = (sent, left)"
    by (cases "drain (w_next w) (unat (min (ucast (sendWindow c)) x) - unat (0 :: u32)) (dataToSend c)")
  from est_send_ok [where c = c and fi = "fi\<lparr>world := w\<rparr>" and b = b and pkt = pkt and fr = fr and tp = tp, OF _ _ win, of 0 sent left] assms d
  obtain w' b' where r: "est_send pkt pkt tp True (min (ucast (sendWindow c)) x) 0 c (fi\<lparr>world := w\<rparr>) fr =
      ret (pkt, if sent = [] then tp else ip_getPayload 14 (m_data b), c\<lparr>dataToSend := left, dataAlreadySent := dataAlreadySent c @ sent,
        ipID := ipID c + of_nat (length sent)\<rparr>, fi\<lparr>world := w'\<rparr>, fr \<and> sent = [])"
    and sa: "sent_all pkt sent left c w b w' b'" by auto
  from sa have "w_pkts w' pkt = Some b'"
    and "conn_step (c, w) (c\<lparr>dataToSend := left, dataAlreadySent := dataAlreadySent c @ sent,
        ipID := ipID c + of_nat (length sent)\<rparr>, w')" by (simp_all add: sent_all_def)
  then show ?thesis using r False by auto
qed

context tcp_protocol
begin

lemma est_accept_ok:
  assumes at: "conn_at cp c0 (world fi)" and st: "conn_step (c0, world fi) (c, w)"
    and b: "w_pkts w pkt = Some b"
  shows "\<exists>fi'. est_accept te pkt 14 t m n cp c (fi\<lparr>world := w\<rparr>) = ret fi' \<and> conn_call cp c0 fi fi'"
proof -
  define c1 where "c1 = est_advance t m n c"
  define m1 where "m1 = ack_header t c1 m"
  define w1 where "w1 = w\<lparr>w_pkts := (w_pkts w)(pkt \<mapsto> b\<lparr>m_data := m1\<rparr>)\<rparr>"
  define len where "len = ip_getPayloadLength 14 m1 - ucast (tcp_getHeaderLen t m1)"
  have s1: "conn_step (c, w) (c, w1)" unfolding w1_def using conn_step_ok [OF st] b by (rule conn_step_write)
  have s2: "conn_step (c, w1) (c1, w1)"
    using conn_step_ok [OF s1] by (intro conn_step_segs) (simp_all add: c1_def)
  have "unat len < 2 ^ 16" using unat_u16_less [of len] by simp
  then obtain c2 w2 where h: "(if len > 0 then te_handlePacket te (load_bytes (tcp_getPayload t) (unat len) m1) (c1, w1)
      else ret (c1, w1)) = ret (c2, w2)" and s3: "conn_step (c1, w1) (c2, w2)"
    using handle [OF conn_step_ok [OF s2], of "load_bytes (tcp_getPayload t) (unat len) m1"]
      conn_step_refl [OF conn_step_ok [OF s2]] by (cases "len > 0") auto
  note s = conn_step_trans [OF st conn_step_trans [OF conn_step_trans [OF s1 s2] s3]]
  have "pkt \<in> dom (w_pkts w2)" using conn_step_dom [OF s3] by (simp add: w1_def)
  then obtain b2 where "w_pkts w2 pkt = Some b2" by auto
  from est_send_step [OF conn_step_ok [OF s3] this, where x = "cc_getConWindow (te_conCtl te) (conCtl c2)" and fi = fi and fr = "\<not> len > 0" and tp = t]
  obtain t3 c3 w3 b3 fr where e: "(if dataToSend c2 \<noteq> []
      then est_send pkt pkt t True (min (ucast (sendWindow c2)) (cc_getConWindow (te_conCtl te) (conCtl c2))) 0 c2
             (fi\<lparr>world := w2\<rparr>) (\<not> len > 0)
      else ret (pkt, t, c2, fi\<lparr>world := w2\<rparr>, \<not> len > 0)) = ret (pkt, t3, c3, fi\<lparr>world := w3\<rparr>, fr)"
    and s4: "conn_step (c2, w2) (c3, w3)" and b3: "w_pkts w3 pkt = Some b3" by blast
  have wr: "writeData pkt m1 w = ret w1" using write_ok(1) [OF b] by (simp add: w1_def)
  have "est_accept te pkt 14 t m n cp c (fi\<lparr>world := w\<rparr>) =
      rbind (writeData pkt m1 w) (\<lambda>w. rbind (if len > 0 then te_handlePacket te (load_bytes (tcp_getPayload t) (unat len) m1) (c1, w)
        else ret (c1, w)) (\<lambda>(c, w). rbind (if dataToSend c \<noteq> []
          then est_send pkt pkt t True (min (ucast (sendWindow c)) (cc_getConWindow (te_conCtl te) (conCtl c))) 0 c
                 (fi\<lparr>world := w\<rparr>) (\<not> len > 0)
          else ret (pkt, t, c, fi\<lparr>world := w\<rparr>, \<not> len > 0)) (est_finish cp)))"
    by (simp add: est_accept_def Let_def c1_def m1_def len_def cong: if_cong)
  also have "\<dots> = est_finish cp (pkt, t3, c3, fi\<lparr>world := w3\<rparr>, fr)"
    by (simp only: wr h e rbind_simps prod.case)
  finally have "est_accept te pkt 14 t m n cp c (fi\<lparr>world := w\<rparr>) = est_finish cp (pkt, t3, c3, fi\<lparr>world := w3\<rparr>, fr)" .
  then show ?thesis using est_finish_ok [OF at conn_step_trans [OF s s4] b3, of t3 fr] by simp
qed

end

lemma est_rst_ok:
  assumes at: "conn_at cp c (world fi)" and b: "w_pkts (world fi) pkt = Some b"
  shows "\<exists>fi'. est_rst pkt ipv4 t m c fi = ret fi' \<and> conn_call cp c fi fi' \<and> state (st fi') = TS_END"
  using b conn_call_pkts [OF at b refl] by (simp add: est_rst_def Let_def write_ok)

lemma est_dup_ack_ok:
  assumes at: "conn_at cp c0 (world fi)" and st: "conn_step (c0, world fi) (c, w)"
    and b: "w_pkts w pkt = Some b"
  shows "\<exists>fi'. est_dup_ack pkt ipv4 t m cp c (fi\<lparr>world := w\<rparr>) = ret fi' \<and> conn_call cp c0 fi fi'"
proof -
  have "conn_step (c0, world fi) (c, w\<lparr>w_pkts := (w_pkts w)(pkt \<mapsto> b')\<rparr>)" for b'
    using conn_step_trans [OF st conn_step_write [where w = w, OF conn_step_ok [OF st] b]] .
  from conn_call_put [OF at this refl] show ?thesis
    using b by (simp add: est_dup_ack_def Let_def write_ok)
qed

lemma runEst_eq:
  assumes at: "conn_at cp c (world fi)" and cp: "stateData (st fi) = cp"
    and b: "w_pkts (world fi) pkt = Some b"
  defines "t \<equiv> ip_getPayload 14 (m_data b)"
  defines "m \<equiv> tcp_turn_around 14 t (m_data b)"
  assumes ack: "est_ack te (tcp_getAck t m) c (world fi) = ret (c1, w1)"
  shows "runEst te pkt fi = (if bad_est t m then est_rst pkt 14 t m c fi
      else if tcp_getSeq t m \<noteq> seqRemote (c1\<lparr>sendWindow := tcp_getWindow t m\<rparr>)
      then est_dup_ack pkt 14 t m cp (c1\<lparr>sendWindow := tcp_getWindow t m\<rparr>) (fi\<lparr>world := w1\<rparr>)
      else est_accept te pkt 14 t m (ip_getPayloadLength 14 m - ucast (tcp_getHeaderLen t m)) cp
             (c1\<lparr>sendWindow := tcp_getWindow t m\<rparr>) (fi\<lparr>world := w1\<rparr>))"
  using get_conn_at [OF at] cp write_ok(3) [OF b] ack
  by (simp add: runEst_def Let_def bad_est_def eth_getPayload_def sizeof_Ethernet_def
      t_def [symmetric] m_def [symmetric])

context tcp_protocol
begin

lemma runEst_safe:
  assumes at: "conn_at cp c (world fi)" and cp: "stateData (st fi) = cp"
    and b: "w_pkts (world fi) pkt = Some b"
  shows "\<exists>fi'. runEst te pkt fi = ret fi' \<and> conn_call cp c fi fi'"
proof -
  define t where "t = ip_getPayload 14 (m_data b)"
  define m where "m = tcp_turn_around 14 t (m_data b)"
  define n where "n = ip_getPayloadLength 14 m - ucast (tcp_getHeaderLen t m)"
  have ok: "conn_ok c (world fi)" using at by (simp add: conn_at_def)
  obtain c1 w1 where ack: "est_ack te (tcp_getAck t m) c (world fi) = ret (c1, w1)"
    and s1: "conn_step (c, world fi) (c1, w1)" using est_ack_ok [OF ok, of te "tcp_getAck t m"] by blast
  define c2 where "c2 = c1\<lparr>sendWindow := tcp_getWindow t m\<rparr>"
  have s2: "conn_step (c, world fi) (c2, w1)"
    using conn_step_trans [OF s1 conn_step_segs [OF conn_step_ok [OF s1], of c2]] by (simp add: c2_def segs_def)
  have "pkt \<in> dom (w_pkts w1)" using conn_step_dom [OF s1] b by auto
  then obtain b1 where b1: "w_pkts w1 pkt = Some b1" by auto
  note eq = runEst_eq [OF at cp b, folded t_def, folded m_def, OF ack, folded c2_def, folded n_def]
  show ?thesis
    unfolding eq using est_rst_ok [OF at b, of 14 t m] est_dup_ack_ok [OF at s2 b1, of 14 t m]
      est_accept_ok [OF at s2 b1, of t m n] by auto
qed

end

text \<open>
  C30. Memory safety of the TCP server.  Called on a live connection whose segments point to live
  blocks of their own, with a packet that exists, each of the three handlers returns: no
  dangling pointer, no access outside a block, no block freed twice, no endless sending loop.
  It leaves the connection in order again, touches no other object of the heap, and adds no
  packet to the batch: however much is queued, \<open>getPkt\<close> is never called.
\<close>

theorem tcp_handlers_safe:
  assumes "f \<in> {runSynAck, runEst ServerJoke, runAckFin}"
    and "conn_at (stateData (st fi)) c (world fi)" and "pkt \<in> dom (w_pkts (world fi))"
  shows "\<exists>fi'. f pkt fi = ret fi' \<and> conn_call (stateData (st fi)) c fi fi' \<and> pktsBA fi' = pktsBA fi"
proof -
  obtain b where b: "w_pkts (world fi) pkt = Some b" using assms(3) by auto
  have "\<exists>fi'. f pkt fi = ret fi' \<and> conn_call (stateData (st fi)) c fi fi'"
    using assms(1) runSynAck_safe [OF assms(2) refl b] joke.runEst_safe [OF assms(2) refl b]
      runAckFin_safe [OF assms(2) refl b] by auto
  then show ?thesis by (auto simp: conn_call_def same_iface_def)
qed

text \<open>A call on a fresh connection at address 1, with a packet at 7.\<close>

definition ex_conn :: "(simple_cc, unit) connection" where
  "ex_conn = \<lparr>seqLocal = 0, seqRemote = 0, dataToSend = [], dataAlreadySent = [],
     sendWindow = 0, ipID = 0, closeConnectionAfterSending = False,
     conCtl = cc_init TcpConCtlSimple, connProto = ()\<rparr>"

definition ex_world :: "(simple_cc, unit) connection \<Rightarrow> mem \<Rightarrow> (simple_cc, unit) tworld" where
  "ex_world c m = \<lparr>w_pkts = [7 \<mapsto> \<lparr>m_data = m, m_dataLen = 54, m_bufLen = 2048\<rparr>], w_heap = [1 \<mapsto> Conn c],
     w_next = 2, w_rand = (\<lambda>_. 0), w_rnd = 0\<rparr>"

definition ex_fi :: "(simple_cc, unit) connection \<Rightarrow> mem \<Rightarrow> (simple_cc, unit) tfi" where
  "ex_fi c m = new_FunIface \<lparr>getPktCB = None, curTimeoutID = 0, timeoutsQ = [], timeoutFunctions = Map.empty\<rparr> 0
     \<lparr>pkts = [Some 7], sendMask = [True], numBufs = 1, numSlots = 1, fromLua = True\<rparr>
     \<lparr>dstIP = 1, srcIP = 2, dstPort = 3, srcPort = 4, ConnectionID.proto = 6\<rparr> (State_of TS_syn_ack 1) (ex_world c m)"

lemma ex_conn_at: "conn_at (stateData (st (ex_fi ex_conn m))) ex_conn (world (ex_fi ex_conn m))"
  by (auto simp: ex_fi_def new_FunIface_def State_of_def ex_world_def ex_conn_def conn_at_def conn_ok_def
      heap_ok_def segs_def split: if_splits)

theorem tcp_handlers_safe_witness:
  "\<exists>fi'. runEst ServerJoke 7 (ex_fi ex_conn (\<lambda>_. 0)) = ret fi' \<and>
     conn_call (stateData (st (ex_fi ex_conn (\<lambda>_. 0)))) ex_conn (ex_fi ex_conn (\<lambda>_. 0)) fi' \<and>
     pktsBA fi' = pktsBA (ex_fi ex_conn (\<lambda>_. 0))"
  using tcp_handlers_safe [OF _ ex_conn_at, of "runEst ServerJoke" 7 "\<lambda>_. 0"]
  by (simp add: ex_fi_def new_FunIface_def ex_world_def)

section \<open>Header fields\<close>

text \<open>Turning a packet around swaps the ends; the rest of the TCP header is as received.\<close>

lemma turn_around_fields:
  assumes "34 \<le> t"
  shows "tcp_getSynFlag t (tcp_turn_around 14 t m) = tcp_getSynFlag t m"
    "tcp_getAckFlag t (tcp_turn_around 14 t m) = tcp_getAckFlag t m"
    "tcp_getFinFlag t (tcp_turn_around 14 t m) = tcp_getFinFlag t m"
    "tcp_getRstFlag t (tcp_turn_around 14 t m) = tcp_getRstFlag t m"
    "tcp_getSeq t (tcp_turn_around 14 t m) = tcp_getSeq t m"
    "tcp_getAck t (tcp_turn_around 14 t m) = tcp_getAck t m"
    "tcp_getWindow t (tcp_turn_around 14 t m) = tcp_getWindow t m"
    "tcp_getHeaderLen t (tcp_turn_around 14 t m) = tcp_getHeaderLen t m"
    "ip_getPayloadLength 14 (tcp_turn_around 14 t m) = ip_getPayloadLength 14 m"
    "ip_ihl 14 (tcp_turn_around 14 t m) = ip_ihl 14 m"
    "load_bytes (t + 20) n (tcp_turn_around 14 t m) = load_bytes (t + 20) n m"
  using assms by (simp_all add: tcp_turn_around_def Let_def tcp_flag_defs tcp_defs ip_defs ip_ihl_def
      tcp_getHeaderLen_def mem_simps)

lemma turn_around_ends:
  assumes "34 \<le> t"
  shows "tcp_getSrcPort t (tcp_turn_around 14 t m) = tcp_getDstPort t m"
    "tcp_getDstPort t (tcp_turn_around 14 t m) = tcp_getSrcPort t m"
    "ip_getSrcIP 14 (tcp_turn_around 14 t m) = ip_getDstIP 14 m"
    "ip_getDstIP 14 (tcp_turn_around 14 t m) = ip_getSrcIP 14 m"
  using assms by (simp_all add: tcp_turn_around_def Let_def tcp_flag_defs tcp_defs ip_defs mem_simps)

definition swapped_ends :: "nat \<Rightarrow> mem \<Rightarrow> mem \<Rightarrow> bool" where
  "swapped_ends t m m' \<longleftrightarrow>
     tcp_getSrcPort t m' = tcp_getDstPort t m \<and> tcp_getDstPort t m' = tcp_getSrcPort t m \<and>
     ip_getSrcIP 14 m' = ip_getDstIP 14 m \<and> ip_getDstIP 14 m' = ip_getSrcIP 14 m"

lemma swapped_turn: "34 \<le> t \<Longrightarrow> swapped_ends t m (tcp_turn_around 14 t m)"
  by (simp add: swapped_ends_def turn_around_ends)

section \<open>Opening\<close>

lemma syn_ack_fields:
  assumes "34 \<le> t" and "t = ip_getPayload 14 m"
  shows "tcp_getSynFlag t (syn_ack_packet m) = tcp_getSynFlag t m" and "tcp_getAckFlag t (syn_ack_packet m)"
    and "tcp_getFinFlag t (syn_ack_packet m) = tcp_getFinFlag t m"
    and "tcp_getRstFlag t (syn_ack_packet m) = tcp_getRstFlag t m"
    and "tcp_getSeq t (syn_ack_packet m) = 0" and "tcp_getAck t (syn_ack_packet m) = tcp_getSeq t m + 1"
    and "tcp_getHeaderLen t (syn_ack_packet m) = 20" and "ip_getPayloadLength 14 (syn_ack_packet m) = 20"
    and "swapped_ends t m (syn_ack_packet m)"
proof -
  let ?m1 = "ip_setPayloadLength 14 20 (tcp_turn_around 14 t m)"
  have eq: "syn_ack_packet m = tcp_setOffset t 5 (tcp_setAckFlag t (tcp_setSeq t 0 (tcp_setAck t (tcp_getSeq t ?m1 + 1) ?m1)))"
    by (simp add: syn_ack_packet_def Let_def assms(2) [symmetric])
  have f: "?m1 (t + 13) = m (t + 13)" and q: "tcp_getSeq t ?m1 = tcp_getSeq t m"
    using assms(1) by (simp_all add: tcp_turn_around_def Let_def tcp_defs ip_defs mem_simps)
  have bits: "b AND (0x10 :: u8) = 0 \<Longrightarrow> (b OR 0x10) AND 0x10 = 0x10"
    "(b OR 0x10) AND (1 :: u8) = b AND 1" "(b OR 0x10) AND (2 :: u8) = b AND 2"
    "(b OR 0x10) AND (4 :: u8) = b AND 4" "(b OR 0x10) AND (0x10 :: u8) = 0x10" for b
    by (simp_all add: bit.conj_disj_distrib2)
  show "tcp_getSynFlag t (syn_ack_packet m) = tcp_getSynFlag t m" and "tcp_getAckFlag t (syn_ack_packet m)"
    and "tcp_getFinFlag t (syn_ack_packet m) = tcp_getFinFlag t m"
    and "tcp_getRstFlag t (syn_ack_packet m) = tcp_getRstFlag t m"
    using f by (simp_all add: eq tcp_flag_defs tcp_setOffset_def tcp_defs mem_simps bits)
  show "tcp_getSeq t (syn_ack_packet m) = 0" and "tcp_getAck t (syn_ack_packet m) = tcp_getSeq t m + 1"
    using q by (simp_all add: eq tcp_flag_defs tcp_setOffset_def tcp_defs mem_simps)
  show "tcp_getHeaderLen t (syn_ack_packet m) = 20" by (simp add: eq tcp_offset_5)
  show "ip_getPayloadLength 14 (syn_ack_packet m) = 20"
    using assms(1) ip_payload_length_set [of 14 20 "tcp_turn_around 14 t m"]
    by (simp add: eq tcp_flag_defs tcp_setOffset_def tcp_defs ip_getPayloadLength_def ip_ihl_def mem_simps)
  show "swapped_ends t m (syn_ack_packet m)"
    using assms(1) turn_around_ends [OF assms(1), of m]
    by (simp add: swapped_ends_def eq tcp_flag_defs tcp_setOffset_def tcp_defs ip_defs mem_simps)
qed

lemma set_length_flags:
  assumes "34 \<le> t"
  shows "bad_syn t (ip_setPayloadLength 14 n (tcp_turn_around 14 t m)) = bad_syn t m"
    and "bad_est t (tcp_turn_around 14 t m) = bad_est t m"
    and "tcp_getSeq t (ip_setPayloadLength 14 n (tcp_turn_around 14 t m)) = tcp_getSeq t m"
  using assms turn_around_fields [OF assms]
  by (simp_all add: bad_syn_def bad_est_def tcp_flag_defs tcp_defs ip_defs mem_simps)

text \<open>
  C32. Opening a connection.  A packet with SYN and none of ACK, FIN and RST is answered in place:
  ends swapped, SYN and ACK set, sequence number 0, acknowledgement one past the received
  sequence number, 54 bytes long.  The connection moves to the established state, expects the
  next sequence number, and keeps a copy of the answer as its first sent segment.
\<close>

theorem syn_answered:
  assumes at: "conn_at (stateData (st fi)) c (world fi)" and b: "w_pkts (world fi) pkt = Some b"
    and t: "t = ip_getPayload 14 (m_data b)" "34 \<le> t" and syn: "\<not> bad_syn t (m_data b)"
  shows "\<exists>fi' b' c'. runSynAck pkt fi = ret fi' \<and> state (st fi') = TS_est \<and>
     w_pkts (world fi') pkt = Some b' \<and> m_dataLen b' = 54 \<and> swapped_ends t (m_data b) (m_data b') \<and>
     tcp_getSynFlag t (m_data b') \<and> tcp_getAckFlag t (m_data b') \<and>
     \<not> tcp_getFinFlag t (m_data b') \<and> \<not> tcp_getRstFlag t (m_data b') \<and>
     tcp_getSeq t (m_data b') = 0 \<and> tcp_getAck t (m_data b') = tcp_getSeq t (m_data b) + 1 \<and>
     ip_getPayloadLength 14 (m_data b') = 20 \<and>
     conn_at (stateData (st fi')) c' (world fi') \<and> seqLocal c' = 1 \<and>
     seqRemote c' = tcp_getSeq t (m_data b) + 1 \<and>
     (\<exists>s. dataAlreadySent c' = dataAlreadySent c @ [s] \<and> seg_seqNumber s = 0 \<and>
        seg_bytes (world fi') s = load_bytes 0 54 (m_data b'))"
proof -
  let ?cp = "stateData (st fi)" and ?q = "w_next (world fi)"
  let ?b' = "b\<lparr>m_data := syn_ack_packet (m_data b), m_dataLen := 54\<rparr>"
  let ?s = "\<lparr>seg_dataPtr = ?q, seg_seqNumber = 0, seg_dataLen = 54\<rparr>"
  let ?c' = "c\<lparr>seqRemote := tcp_getSeq t (m_data b) + 1, seqLocal := 1, dataAlreadySent := dataAlreadySent c @ [?s]\<rparr>"
  let ?w = "snd (heap_new (Block (load_bytes 0 54 (syn_ack_packet (m_data b))))
      ((world fi)\<lparr>w_pkts := (w_pkts (world fi))(pkt \<mapsto> ?b')\<rparr>))"
  let ?fi = "transition TS_est (fi\<lparr>world := heap_put ?cp (Conn ?c') ?w\<rparr>)"
  have r: "runSynAck pkt fi = ret ?fi"
    using runSynAck_eq(2) [OF at refl b] syn set_length_flags(1,3) [OF t(2)] by (simp add: t(1) [symmetric])
  with runSynAck_safe [OF at refl b] have "conn_call ?cp c fi ?fi" by simp
  then have at': "conn_at ?cp ?c' (world ?fi)" by (auto simp: conn_call_def conn_at_def heap_put_def)
  have "?q \<noteq> ?cp" using at by (auto simp: conn_at_def conn_ok_def heap_ok_def)
  then have sb: "seg_bytes (world ?fi) ?s = load_bytes 0 54 (m_data ?b')"
    by (simp add: seg_bytes_def heap_put_def heap_new_def)
  show ?thesis
    using r at' sb syn syn_ack_fields [OF t(2,1)]
    by (intro exI [of _ ?fi] exI [of _ ?b'] exI [of _ ?c'])
      (simp add: bad_syn_def heap_put_def heap_new_def)
qed

definition ex_mem :: "u8 \<Rightarrow> mem" where
  "ex_mem f = (\<lambda>i. if i = 14 then 0x45 else if i = 47 then f else 0)"

lemma ex_mem_payload [simp]: "ip_getPayload 14 (ex_mem f) = 34"
  by (simp add: ip_getPayload_def ip_ihl_def ex_mem_def)

lemma ex_fi_simps [simp]:
  "w_pkts (world (ex_fi c m)) 7 = Some \<lparr>m_data = m, m_dataLen = 54, m_bufLen = 2048\<rparr>"
  "stateData (st (ex_fi c m)) = 1"
  by (simp_all add: ex_fi_def new_FunIface_def ex_world_def State_of_def)

lemma ex_fi_heap: "w_heap (world (ex_fi c m)) = [1 \<mapsto> Conn c]"
  by (simp add: ex_fi_def new_FunIface_def ex_world_def)

theorem syn_answered_witness:
  "\<exists>fi' b'. runSynAck 7 (ex_fi ex_conn (ex_mem 2)) = ret fi' \<and> state (st fi') = TS_est \<and>
     w_pkts (world fi') 7 = Some b' \<and> tcp_getAckFlag 34 (m_data b') \<and> tcp_getAck 34 (m_data b') = 1"
proof -
  have "tcp_getSeq 34 (ex_mem 2) = 0" by code_simp
  moreover have "\<not> bad_syn 34 (ex_mem 2)" by code_simp
  ultimately show ?thesis
    using syn_answered [OF ex_conn_at ex_fi_simps(1), of 34 "ex_mem 2"] by fastforce
qed

section \<open>Wrong flags, wrong numbers\<close>

lemma rst_fields:
  assumes "34 \<le> t"
  shows "swapped_ends t m (tcp_setRstFlag t (tcp_clearFlags t (tcp_turn_around 14 t m)))"
    and "tcp_setRstFlag t (tcp_clearFlags t m1) (t + 13) = 4"
  using assms turn_around_ends [OF assms, of m]
  by (simp_all add: swapped_ends_def tcp_flag_defs tcp_defs ip_defs mem_simps)

definition wrong_flags :: "('cc, 'pp) tcp_env \<Rightarrow> ('cc, 'pp) tfun \<Rightarrow> ('cc, 'pp) connection \<Rightarrow> nat \<Rightarrow> mem \<Rightarrow> bool" where
  "wrong_flags te f c t m \<longleftrightarrow> f = runSynAck \<and> bad_syn t m \<or> f = runEst te \<and> bad_est t m \<or>
     f = runAckFin \<and> (bad_est t m \<or> tcp_getAck t m \<noteq> seqLocal c \<or> tcp_getSeq t m \<noteq> seqRemote c)"

lemma swapped_frame:
  assumes "swapped_ends t m m1" and "34 \<le> t"
    and "\<And>i. 26 \<le> i \<Longrightarrow> i < 34 \<Longrightarrow> m2 i = m1 i" and "\<And>i. t \<le> i \<Longrightarrow> i < t + 4 \<Longrightarrow> m2 i = m1 i"
  shows "swapped_ends t m m2"
proof -
  have "load32 m2 26 = load32 m1 26" "load32 m2 30 = load32 m1 30"
    "load16 m2 t = load16 m1 t" "load16 m2 (t + 2) = load16 m1 (t + 2)"
    using assms(3,4) by (auto intro!: load_cong)
  then show ?thesis using assms(1) by (simp add: swapped_ends_def tcp_defs ip_defs)
qed

text \<open>
  A packet whose flags do not fit the state (and, while closing, one whose numbers are not
  the expected ones) is answered with a reset: ends swapped, RST the only flag.  The
  connection goes to the end state.  The heap is as before: neither the connection object
  nor its segments are freed, although the state machine now forgets them.
\<close>

theorem wrong_packet_reset:
  assumes at: "conn_at (stateData (st fi)) c (world fi)" and b: "w_pkts (world fi) pkt = Some b"
    and t: "t = ip_getPayload 14 (m_data b)" "34 \<le> t" and wrong: "wrong_flags te f c t (m_data b)"
  shows "\<exists>fi' b'. f pkt fi = ret fi' \<and> state (st fi') = TS_END \<and> sendPkt fi' = sendPkt fi \<and>
     w_heap (world fi') = w_heap (world fi) \<and>
     w_pkts (world fi') = (w_pkts (world fi))(pkt \<mapsto> b') \<and>
     m_data b' (t + 13) = 4 \<and> swapped_ends t (m_data b) (m_data b')"
proof -
  let ?m = "tcp_turn_around 14 t (m_data b)"
  let ?rst = "\<lambda>m. tcp_setRstFlag t (tcp_clearFlags t m)"
  have rst: "?rst m1 (t + 13) = 4" for m1 by (rule rst_fields(2) [OF t(2)])
  have sw: "swapped_ends t (m_data b) (?rst ?m)" by (rule rst_fields(1) [OF t(2)])
  note g = get_conn_at [OF at] and f = turn_around_fields [OF t(2)] set_length_flags [OF t(2)]
  have concl: ?thesis if "f pkt fi = ret (transition TS_END (fi\<lparr>world := (world fi)
        \<lparr>w_pkts := (w_pkts (world fi))(pkt \<mapsto> b')\<rparr>\<rparr>))"
      and "m_data b' (t + 13) = 4" and "swapped_ends t (m_data b) (m_data b')" for b'
    using that by (intro exI [of _ b'] exI) auto
  from wrong consider (syn) "f = runSynAck" "bad_syn t (m_data b)" | (est) "f = runEst te" "bad_est t (m_data b)"
    | (fin) "f = runAckFin" "bad_est t (m_data b) \<or> tcp_getAck t (m_data b) \<noteq> seqLocal c \<or> tcp_getSeq t (m_data b) \<noteq> seqRemote c"
    by (auto simp: wrong_flags_def)
  then show ?thesis
  proof cases
    case syn
    let ?m' = "?rst (ip_setPayloadLength 14 20 ?m)"
    have "swapped_ends t (m_data b) ?m'"
      by (rule swapped_frame [OF sw t(2)]) (use t(2) in \<open>simp_all add: tcp_flag_defs ip_defs mem_simps\<close>)
    moreover have "runSynAck pkt fi = ret (transition TS_END (fi\<lparr>world := (world fi)
        \<lparr>w_pkts := (w_pkts (world fi))(pkt \<mapsto> b\<lparr>m_data := ?m'\<rparr>)\<rparr>\<rparr>))"
      using runSynAck_eq(1) [OF at refl b] syn f(12) by (simp add: t(1) [symmetric])
    ultimately show ?thesis using concl [of "b\<lparr>m_data := ?m'\<rparr>"] syn rst by simp
  next
    case est
    let ?m' = "ip_setPayloadLength 14 20 (tcp_setSeq t (seqLocal c) (tcp_setAck t 0 (?rst ?m)))"
    have "swapped_ends t (m_data b) ?m'"
      by (rule swapped_frame [OF sw t(2)]) (use t(2) in \<open>simp_all add: tcp_flag_defs tcp_defs ip_defs mem_simps\<close>)
    moreover have "?m' (t + 13) = 4" using rst t(2) by (simp add: tcp_defs ip_defs mem_simps)
    moreover have "runEst te pkt fi = est_rst pkt 14 t ?m c fi"
      using est f g b t(1) by (simp add: runEst_def Let_def bad_est_def write_ok eth_getPayload_def sizeof_Ethernet_def)
    then have "runEst te pkt fi = ret (transition TS_END (fi\<lparr>world := (world fi)
        \<lparr>w_pkts := (w_pkts (world fi))(pkt \<mapsto> b\<lparr>m_data := ?m', m_dataLen := 54\<rparr>)\<rparr>\<rparr>))"
      using b by (simp add: est_rst_def Let_def write_ok sizeof_Tcp_def sizeof_Ethernet_def sizeof_IPv4_def)
    ultimately show ?thesis using concl [of "b\<lparr>m_data := ?m', m_dataLen := 54\<rparr>"] est by simp
  next
    case fin
    have "runAckFin pkt fi = ret (transition TS_END (fi\<lparr>world := (world fi)
        \<lparr>w_pkts := (w_pkts (world fi))(pkt \<mapsto> b\<lparr>m_data := ?rst ?m\<rparr>)\<rparr>\<rparr>))"
      using fin f g b t(1)
      by (simp add: runAckFin_def Let_def bad_est_def write_ok eth_getPayload_def sizeof_Ethernet_def)
    then show ?thesis using concl [of "b\<lparr>m_data := ?rst ?m\<rparr>"] fin rst sw by simp
  qed
qed

theorem wrong_packet_reset_witness:
  "\<exists>fi' b'. runEst ServerJoke 7 (ex_fi ex_conn (ex_mem 2)) = ret fi' \<and> state (st fi') = TS_END \<and>
     w_heap (world fi') = [1 \<mapsto> Conn ex_conn] \<and> w_pkts (world fi') 7 = Some b' \<and> m_data b' 47 = 4"
proof -
  have "wrong_flags ServerJoke (runEst ServerJoke) ex_conn 34 (ex_mem 2)"
    unfolding wrong_flags_def by (rule disjI2, rule disjI1, rule conjI [OF refl]) code_simp
  then show ?thesis
    using wrong_packet_reset [OF ex_conn_at ex_fi_simps(1), of 34 "ex_mem 2" ServerJoke "runEst ServerJoke"]
    by (simp add: ex_fi_heap) (metis fun_upd_same)
qed

lemma ack_header_fields:
  assumes "34 \<le> t"
  shows "ack_header t c m (t + 13) = 0x10" "tcp_getSeq t (ack_header t c m) = seqLocal c"
    "tcp_getAck t (ack_header t c m) = seqRemote c" "tcp_getHeaderLen t (ack_header t c m) = 20"
    "ip_getPayloadLength 14 (ack_header t c m) = ip_getPayloadLength 14 m"
    "load_bytes (t + 20) n (ack_header t c m) = load_bytes (t + 20) n m"
    "ip_getPayload 14 (ack_header t c m) = ip_getPayload 14 m"
    "swapped_ends t m0 (ack_header t c m) = swapped_ends t m0 m"
proof -
  show "tcp_getHeaderLen t (ack_header t c m) = 20"
    by (simp add: ack_header_def Let_def tcp_offset_5)
  show "ack_header t c m (t + 13) = 0x10" "tcp_getSeq t (ack_header t c m) = seqLocal c"
    "tcp_getAck t (ack_header t c m) = seqRemote c"
    "ip_getPayloadLength 14 (ack_header t c m) = ip_getPayloadLength 14 m"
    "load_bytes (t + 20) n (ack_header t c m) = load_bytes (t + 20) n m"
    "ip_getPayload 14 (ack_header t c m) = ip_getPayload 14 m"
    "swapped_ends t m0 (ack_header t c m) = swapped_ends t m0 m"
    using assms by (simp_all add: ack_header_def Let_def tcp_flag_defs tcp_defs ip_defs tcp_setOffset_def
        ip_ihl_def ip_getPayload_def swapped_ends_def mem_simps)
qed

text \<open>
  An established connection answers a segment that is not the next one with an
  acknowledgement for what it has: the answer carries ACK alone and the number the connection
  still expects, and no data.  What the connection expects does not move, and the packet goes
  back to the peer.
\<close>

theorem unexpected_segment_reacked:
  assumes at: "conn_at (stateData (st fi)) c (world fi)" and b: "w_pkts (world fi) pkt = Some b"
    and t: "t = ip_getPayload 14 (m_data b)" "34 \<le> t" and good: "\<not> bad_est t (m_data b)"
    and seq: "tcp_getSeq t (m_data b) \<noteq> seqRemote c"
  shows "\<exists>fi' b' c'. runEst te pkt fi = ret fi' \<and> st fi' = st fi \<and> sendPkt fi' = sendPkt fi \<and>
     w_pkts (world fi') pkt = Some b' \<and> m_dataLen b' = 54 \<and> ip_getPayloadLength 14 (m_data b') = 20 \<and>
     swapped_ends t (m_data b) (m_data b') \<and> m_data b' (t + 13) = 0x10 \<and>
     tcp_getAck t (m_data b') = seqRemote c \<and>
     tcp_getSeq t (m_data b') = (if dataToSend c' = [] then seqLocal c else seg_seqNumber (hd (dataToSend c'))) \<and>
     conn_at (stateData (st fi)) c' (world fi') \<and> seqRemote c' = seqRemote c \<and> seqLocal c' = seqLocal c"
proof -
  let ?m = "tcp_turn_around 14 t (m_data b)" and ?cp = "stateData (st fi)"
  have ok: "conn_ok c (world fi)" using at by (simp add: conn_at_def)
  obtain c1 w1 where ack: "est_ack te (tcp_getAck t ?m) c (world fi) = ret (c1, w1)"
    and s1: "conn_step (c, world fi) (c1, w1)" and eqs: "seqLocal c1 = seqLocal c" "seqRemote c1 = seqRemote c"
    using est_ack_ok [OF ok, of te "tcp_getAck t ?m"] by blast
  define c2 where "c2 = c1\<lparr>sendWindow := tcp_getWindow t ?m\<rparr>"
  have c2: "seqLocal c2 = seqLocal c" "seqRemote c2 = seqRemote c" by (simp_all add: c2_def eqs)
  have s2: "conn_step (c, world fi) (c2, w1)"
    using conn_step_trans [OF s1 conn_step_segs [OF conn_step_ok [OF s1], of c2]] by (simp add: c2_def segs_def)
  have "pkt \<in> dom (w_pkts w1)" using conn_step_dom [OF s1] b by auto
  then obtain b1 where b1: "w_pkts w1 pkt = Some b1" by auto
  define s where "s = (if dataToSend c2 = [] then seqLocal c2 else seg_seqNumber (hd (dataToSend c2)))"
  define m' where "m' = tcp_setWindow t (4 * ucast MSS) (tcp_setSeq t s (ip_setPayloadLength 14 20 (ack_header t c2 ?m)))"
  define fi' where "fi' = fi\<lparr>world := heap_put ?cp (Conn c2)
      (w1\<lparr>w_pkts := (w_pkts w1)(pkt \<mapsto> b1\<lparr>m_data := m', m_dataLen := 54\<rparr>)\<rparr>)\<rparr>"
  have "runEst te pkt fi = est_dup_ack pkt 14 t ?m ?cp c2 (fi\<lparr>world := w1\<rparr>)"
    using runEst_eq [OF at refl b, folded t(1), OF ack] good seq c2
    by (simp add: set_length_flags(2) [OF t(2)] turn_around_fields [OF t(2)] c2_def)
  also have "\<dots> = ret fi'"
    using b1 by (simp add: est_dup_ack_def Let_def write_ok fi'_def m'_def s_def sizeof_Tcp_def
        sizeof_Ethernet_def sizeof_IPv4_def)
  finally have r: "runEst te pkt fi = ret fi'" .
  have "conn_step (c, world fi) (c2, w1\<lparr>w_pkts := (w_pkts w1)(pkt \<mapsto> b1\<lparr>m_data := m', m_dataLen := 54\<rparr>)\<rparr>)"
    using conn_step_trans [OF s2 conn_step_write [OF conn_step_ok [OF s2] b1]] .
  from put_step(1) [OF at this] have at': "conn_at ?cp c2 (world fi')" by (simp add: fi'_def)
  have sw: "swapped_ends t (m_data b) ?m" by (rule swapped_turn [OF t(2)])
  note h = ack_header_fields [OF t(2), where c = c2 and m = ?m]
  have "ip_getPayloadLength 14 (ip_setPayloadLength 14 20 (ack_header t c2 ?m)) = 20"
    by (rule ip_payload_length_set)
  then have "ip_getPayloadLength 14 m' = 20" and "tcp_getSeq t m' = s" and "tcp_getAck t m' = seqRemote c"
    and "m' (t + 13) = 0x10" and "swapped_ends t (m_data b) m'"
    using t(2) h sw by (simp_all add: m'_def tcp_defs ip_defs ip_ihl_def swapped_ends_def mem_simps c2)
  then show ?thesis
    using r at' by (intro exI [of _ fi'] exI [of _ "b1\<lparr>m_data := m', m_dataLen := 54\<rparr>"] exI [of _ c2])
      (simp add: fi'_def heap_put_def c2 s_def)
qed

lemma ex_conn_at_gen: "segs c = [] \<Longrightarrow> conn_at (stateData (st (ex_fi c m))) c (world (ex_fi c m))"
  by (auto simp: ex_fi_def new_FunIface_def State_of_def ex_world_def conn_at_def conn_ok_def
      heap_ok_def split: if_splits)

theorem unexpected_segment_reacked_witness:
  "\<exists>fi' b'. runEst ServerJoke 7 (ex_fi (ex_conn\<lparr>seqRemote := 5\<rparr>) (ex_mem 0x10)) = ret fi' \<and>
     w_pkts (world fi') 7 = Some b' \<and> tcp_getAck 34 (m_data b') = 5"
proof -
  have "\<not> bad_est 34 (ex_mem 0x10)" by code_simp
  moreover have "tcp_getSeq 34 (ex_mem 0x10) \<noteq> seqRemote (ex_conn\<lparr>seqRemote := 5\<rparr>)" by code_simp
  ultimately show ?thesis
    using unexpected_segment_reacked [OF ex_conn_at_gen ex_fi_simps(1), of "ex_conn\<lparr>seqRemote := 5\<rparr>" 34 "ex_mem 0x10" ServerJoke]
    by (fastforce simp: segs_def ex_conn_def)
qed

section \<open>Echo\<close>

lemma joke_small:
  assumes "length data \<le> 1460"
  shows "joke_handlePacket data (c, w) =
     ret (push_segment (w_next w) (of_nat (length data)) c, snd (heap_new (Block data) w))"
proof -
  have "unat (of_nat (length data) :: u32) = length data" using assms by (intro unat_of_nat_less) simp
  then have "(of_nat (length data) :: u32) \<le> MSS" using assms by (simp add: word_le_nat_alt MSS_def)
  moreover have "(ucast (of_nat (length data) :: u32) :: u16) = of_nat (length data)"
    by (simp add: word_unat_eq_iff unsigned_ucast_eq unsigned_of_nat take_bit_take_bit)
  ultimately show ?thesis by (simp add: joke_handlePacket_def sendData_def heap_new_def)
qed

text \<open>Sending the one segment that is queued, when the window has room for it.\<close>

lemma send_one:
  fixes fi :: "('cc, 'pp) tfi"
  assumes ok: "conn_ok c w" and b: "w_pkts w pkt = Some b" and q: "dataToSend c = [s]"
    and s: "0 < seg_dataLen s" "seg_dataLen s \<le> sendWindow c"
  shows "\<exists>w' b'. est_send pkt pkt tp True (min (ucast (sendWindow c)) (- 1)) 0 c (fi\<lparr>world := w\<rparr>) False =
      ret (pkt, ip_getPayload 14 (m_data b), c\<lparr>dataToSend := [], dataAlreadySent := dataAlreadySent c @ [s], ipID := ipID c + 1\<rparr>,
           fi\<lparr>world := w'\<rparr>, False) \<and>
     sent_all pkt [s] [] c w b w' b'"
proof -
  have "min (ucast (sendWindow c)) (- 1 :: u32) = ucast (sendWindow c)"
    by (rule min_absorb1) simp
  moreover have u: "unat (ucast (sendWindow c) :: u32) = unat (sendWindow c)"
    by (rule unat_ucast_up) simp
  moreover have "drain (w_next w) (unat (sendWindow c)) (dataToSend c) = ([s], [])"
    using s by (auto simp: q word_le_nat_alt word_less_nat_alt)
  ultimately show ?thesis
    using est_send_ok [where c = c and fi = "fi\<lparr>world := w\<rparr>" and pkt = pkt and b = b and maxSend = "ucast (sendWindow c)" and a = 0 and sent = "[s]" and left = "[]" and fr = False and tp = tp] ok b
      unat_u16_less [of "sendWindow c"] by simp
qed

lemma push_fields [simp]:
  "dataToSend (push_segment p len c) =
     dataToSend c @ [\<lparr>seg_dataPtr = p, seg_seqNumber = seqLocal c, seg_dataLen = len\<rparr>]"
  "seqLocal (push_segment p len c) = seqLocal c + ucast len"
  "dataAlreadySent (push_segment p len c) = dataAlreadySent c"
  "sendWindow (push_segment p len c) = sendWindow c" "seqRemote (push_segment p len c) = seqRemote c"
  "closeConnectionAfterSending (push_segment p len c) = closeConnectionAfterSending c"
  "conCtl (push_segment p len c) = conCtl c" "ipID (push_segment p len c) = ipID c"
  by (simp_all add: push_segment_def Let_def)

lemma advance_no_fin:
  "\<not> tcp_getFinFlag t m \<Longrightarrow> est_advance t m n c = c\<lparr>seqRemote := tcp_getSeq t m + ucast n\<rparr>"
  by (simp add: est_advance_def Let_def)

lemma est_accept_echo:
  fixes fi :: "(simple_cc, unit) tfi"
  assumes at: "conn_at cp c0 (world fi)" and st: "conn_step (c0, world fi) (c, w)"
    and b: "w_pkts w pkt = Some b" and t: "t = ip_getPayload 14 m" "34 \<le> t"
    and fin: "\<not> tcp_getFinFlag t m" "\<not> closeConnectionAfterSending c" and q: "dataToSend c = []"
    and n: "ip_getPayloadLength 14 m - 20 = n" "0 < n" "n \<le> 1460" "n \<le> sendWindow c"
  shows "\<exists>fi' b' c' s. est_accept ServerJoke pkt 14 t m r cp c (fi\<lparr>world := w\<rparr>) = ret fi' \<and>
     st fi' = st fi \<and> sendPkt fi' = sendPkt fi \<and> w_pkts (world fi') pkt = Some b' \<and>
     carries t s (load_bytes (t + 20) (unat n) m)
       (ack_header t (c\<lparr>seqRemote := tcp_getSeq t m + ucast r\<rparr>) m) b' \<and>
     seg_seqNumber s = seqLocal c \<and> seg_dataLen s = n \<and>
     conn_at cp c' (world fi') \<and> seqLocal c' = seqLocal c + ucast n \<and>
     seqRemote c' = tcp_getSeq t m + ucast r \<and> dataToSend c' = [] \<and> dataAlreadySent c' = dataAlreadySent c @ [s]"
proof -
  define c1 where "c1 = c\<lparr>seqRemote := tcp_getSeq t m + ucast r\<rparr>"
  define m1 where "m1 = ack_header t c1 m"
  define w1 where "w1 = w\<lparr>w_pkts := (w_pkts w)(pkt \<mapsto> b\<lparr>m_data := m1\<rparr>)\<rparr>"
  define data where "data = load_bytes (t + 20) (unat n) m"
  define s where "s = \<lparr>seg_dataPtr = w_next w1, seg_seqNumber = seqLocal c, seg_dataLen = n\<rparr>"
  define c2 where "c2 = push_segment (w_next w1) n c1"
  define w2 where "w2 = snd (heap_new (Block data) w1)"
  note h = ack_header_fields [OF t(2), where c = c1 and m = m, folded m1_def]
  have len: "length data = unat n" and small: "length data \<le> 1460"
    using n(3) by (simp_all add: data_def word_le_nat_alt)
  have s1: "conn_step (c, w) (c, w1)" unfolding w1_def using conn_step_ok [OF st] b by (rule conn_step_write)
  have s2: "conn_step (c, w1) (c1, w1)"
    using conn_step_ok [OF s1] by (intro conn_step_segs) (simp_all add: c1_def segs_def)
  have s3: "conn_step (c1, w1) (c2, w2)" unfolding c2_def w2_def
    using conn_step_ok [OF s2] len by (intro push_new) simp_all
  have h1: "te_handlePacket ServerJoke data (c1, w1) = ret (c2, w2)"
    using joke_small [OF small, of c1 w1] len by (simp add: ServerJoke_def c2_def w2_def)
  have b2: "w_pkts w2 pkt = Some (b\<lparr>m_data := m1\<rparr>)" by (simp add: w2_def heap_new_def w1_def)
  have q2: "dataToSend c2 = [s]" and c2: "closeConnectionAfterSending c2 = False" "sendWindow c2 = sendWindow c"
    "seqLocal c2 = seqLocal c + ucast n" "seqRemote c2 = tcp_getSeq t m + ucast r" "dataAlreadySent c2 = dataAlreadySent c"
    using q fin by (simp_all add: c2_def c1_def s_def)
  define c3 where "c3 = c2\<lparr>dataToSend := [], dataAlreadySent := dataAlreadySent c2 @ [s], ipID := ipID c2 + 1\<rparr>"
  obtain w3 b3 where e: "est_send pkt pkt t True (min (ucast (sendWindow c2)) (- 1)) 0 c2 (fi\<lparr>world := w2\<rparr>) False =
      ret (pkt, t, c3, fi\<lparr>world := w3\<rparr>, False)" and sa: "sent_all pkt [s] [] c2 w2 (b\<lparr>m_data := m1\<rparr>) w3 b3"
    using send_one [OF conn_step_ok [OF s3] b2 q2, where fi = fi and tp = t] n c2 h t by (auto simp: s_def c3_def)
  have cc: "cc_getConWindow (te_conCtl ServerJoke) x = - 1" for x
    by (simp add: ServerJoke_def TcpConCtlSimple_def scc_getConWindow_def)
  have wr: "writeData pkt m1 w = ret w1" using write_ok(1) [OF b] by (simp add: w1_def)
  have "est_accept ServerJoke pkt 14 t m r cp c (fi\<lparr>world := w\<rparr>) = est_finish cp (pkt, t, c3, fi\<lparr>world := w3\<rparr>, False)"
    using wr h1 e q2 n h by (simp add: est_accept_def Let_def advance_no_fin fin c1_def [symmetric]
        m1_def [symmetric] cc tcp_getPayload_def sizeof_Tcp_def data_def [symmetric])
  also have "\<dots> = ret (fi\<lparr>world := heap_put cp (Conn c3) w3\<rparr>)" by (simp add: est_finish_def c3_def c2)
  finally have run: "est_accept ServerJoke pkt 14 t m r cp c (fi\<lparr>world := w\<rparr>) = ret (fi\<lparr>world := heap_put cp (Conn c3) w3\<rparr>)" .
  have s4: "conn_step (c2, w2) (c3, w3)" using sa by (simp add: sent_all_def c3_def)
  note steps = conn_step_trans [OF st conn_step_trans [OF conn_step_trans [OF s1 s2] conn_step_trans [OF s3 s4]]]
  have "heap_grows w2 (w3\<lparr>w_pkts := w_pkts w2\<rparr>)" using sa by (simp add: sent_all_def)
  then have "seg_bytes w3 s = data"
    using seg_bytes_new [of data w1 "w3\<lparr>w_pkts := w_pkts w2\<rparr>" n "seqLocal c"] len
    by (simp add: w2_def s_def seg_bytes_def)
  then have "carries t s data m1 b3" using sa h t by (simp add: sent_all_def)
  then show ?thesis
    using run put_step(1) [OF at steps] sa c2
    by (intro exI [of _ "fi\<lparr>world := heap_put cp (Conn c3) w3\<rparr>"] exI [of _ b3] exI [of _ c3] exI [of _ s])
      (simp add: c3_def s_def m1_def c1_def data_def sent_all_def heap_put_def)
qed

text \<open>
  C31. The echo server echoes.  The next in-order segment of an established connection is answered in the same packet
  with the bytes that follow the first 20 of its header, sequence number where the connection stood and ACK as the only
  flag, and the answer is kept as sent and not yet acknowledged.  The sequence number of the server advances by the number
  of bytes it sends; the acknowledgement, and the number it expects next, by the length of the data, the payload of IP without
  the whole header.  The two lengths are the same when the header has no options; otherwise the options are echoed as if
  they were data.  Assumed are a segment without SYN, RST and FIN, between 1 and 1460 such bytes that the window the peer
  offers has room for, nothing queued, a connection that is not closing, and an acknowledgement that does not make the
  congestion control ask for a retransmission.
\<close>

theorem server_echoes:
  assumes at: "conn_at (stateData (st fi)) c (world fi)" and b: "w_pkts (world fi) pkt = Some b"
    and t: "t = ip_getPayload 14 (m_data b)" "34 \<le> t" and good: "\<not> bad_est t (m_data b)"
    and seq: "tcp_getSeq t (m_data b) = seqRemote c" and fin: "\<not> tcp_getFinFlag t (m_data b)"
    and idle: "dataToSend c = []" "\<not> closeConnectionAfterSending c"
    and calm: "scc_reset (scc_handlePacket (seqLocal c) (tcp_getAck t (m_data b)) (conCtl c)) = None"
    and r: "r = ip_getPayloadLength 14 (m_data b) - ucast (tcp_getHeaderLen t (m_data b))"
    and n: "n = ip_getPayloadLength 14 (m_data b) - 20"
    and fits: "0 < n" "n \<le> 1460" "n \<le> tcp_getWindow t (m_data b)"
  shows "\<exists>fi' b' c' s. runEst ServerJoke pkt fi = ret fi' \<and> st fi' = st fi \<and> sendPkt fi' = sendPkt fi \<and>
     w_pkts (world fi') pkt = Some b' \<and> m_dataLen b' = 54 + n \<and> ip_getPayloadLength 14 (m_data b') = 20 + n \<and>
     swapped_ends t (m_data b) (m_data b') \<and> m_data b' (t + 13) = 0x10 \<and>
     tcp_getSeq t (m_data b') = seqLocal c \<and> tcp_getAck t (m_data b') = seqRemote c + ucast r \<and>
     load_bytes (t + 20) (unat n) (m_data b') = load_bytes (t + 20) (unat n) (m_data b) \<and>
     conn_at (stateData (st fi)) c' (world fi') \<and> dataToSend c' = [] \<and>
     seqLocal c' = seqLocal c + ucast n \<and> seqRemote c' = seqRemote c + ucast r \<and> (tcp_getHeaderLen t (m_data b) = 20 \<longrightarrow> r = n) \<and>
     s \<in> set (dataAlreadySent c') \<and> seg_seqNumber s = seqLocal c \<and> seg_dataLen s = n"
proof -
  let ?m = "tcp_turn_around 14 t (m_data b)" and ?cp = "stateData (st fi)"
  note f = turn_around_fields [OF t(2)]
  have ok: "conn_ok c (world fi)" using at by (simp add: conn_at_def)
  have cc: "cc_handlePacket (te_conCtl ServerJoke) = scc_handlePacket" "cc_reset (te_conCtl ServerJoke) = scc_reset"
    by (simp_all add: ServerJoke_def TcpConCtlSimple_def)
  obtain c1 w1 where ack: "est_ack ServerJoke (tcp_getAck t ?m) c (world fi) = ret (c1, w1)"
    and s1: "conn_step (c, world fi) (c1, w1)" and eqs: "seqLocal c1 = seqLocal c" "seqRemote c1 = seqRemote c"
      "dataToSend c1 = []" "closeConnectionAfterSending c1 = closeConnectionAfterSending c"
    using est_ack_ok [OF ok, of ServerJoke "tcp_getAck t ?m"] calm idle
    by (auto simp: cc f Let_def)
  define c2 where "c2 = c1\<lparr>sendWindow := tcp_getWindow t ?m\<rparr>"
  have s2: "conn_step (c, world fi) (c2, w1)"
    using conn_step_trans [OF s1 conn_step_segs [OF conn_step_ok [OF s1], of c2]] by (simp add: c2_def segs_def)
  have "pkt \<in> dom (w_pkts w1)" using conn_step_dom [OF s1] b by auto
  then obtain b1 where b1: "w_pkts w1 pkt = Some b1" by auto
  have c2: "seqLocal c2 = seqLocal c" "seqRemote c2 = seqRemote c" "dataToSend c2 = []"
    "\<not> closeConnectionAfterSending c2" "n \<le> sendWindow c2"
    using eqs idle fits f by (simp_all add: c2_def)
  have tm: "t = ip_getPayload 14 ?m" using t(1) f(10) by (simp add: ip_getPayload_def)
  have nm: "ip_getPayloadLength 14 ?m - ucast (tcp_getHeaderLen t ?m) = r" using r f by simp
  have "runEst ServerJoke pkt fi = est_accept ServerJoke pkt 14 t ?m r ?cp c2 (fi\<lparr>world := w1\<rparr>)"
    using runEst_eq [OF at refl b, folded t(1), OF ack, folded c2_def] good seq c2 f nm
    by (simp add: set_length_flags(2) [OF t(2)])
  moreover obtain fi' b' c' s where "est_accept ServerJoke pkt 14 t ?m r ?cp c2 (fi\<lparr>world := w1\<rparr>) = ret fi'"
    and "st fi' = st fi" "sendPkt fi' = sendPkt fi" "w_pkts (world fi') pkt = Some b'"
    and car: "carries t s (load_bytes (t + 20) (unat n) ?m) (ack_header t (c2\<lparr>seqRemote := tcp_getSeq t ?m + ucast r\<rparr>) ?m) b'"
    and s: "seg_seqNumber s = seqLocal c2" "seg_dataLen s = n"
    and "conn_at ?cp c' (world fi')" "seqLocal c' = seqLocal c2 + ucast n"
    "seqRemote c' = tcp_getSeq t ?m + ucast r" "dataToSend c' = []" "dataAlreadySent c' = dataAlreadySent c2 @ [s]"
    using est_accept_echo [where r = r, OF at s2 b1 tm t(2) _ c2(4,3) _ fits(1,2) c2(5)] fin f n by auto
  moreover have "swapped_ends t (m_data b) (m_data b')"
  proof (rule swapped_frame [OF _ t(2)])
    show "swapped_ends t (m_data b) (ack_header t (c2\<lparr>seqRemote := tcp_getSeq t ?m + ucast r\<rparr>) ?m)"
      by (simp only: ack_header_fields(8) [OF t(2)] swapped_turn [OF t(2)])
  qed (use car t(2) in \<open>auto simp: carries_def\<close>)
  moreover have "m_dataLen b' = 54 + n" "ip_getPayloadLength 14 (m_data b') = 20 + n"
    "m_data b' (t + 13) = 0x10" "tcp_getSeq t (m_data b') = seqLocal c"
    "tcp_getAck t (m_data b') = seqRemote c + ucast r"
    "load_bytes (t + 20) (unat n) (m_data b') = load_bytes (t + 20) (unat n) (m_data b)"
    using car s c2 seq by (simp_all add: carries_def f ack_header_fields(1,3) [OF t(2)])
  ultimately show ?thesis
    using c2 seq f(5) s r n by (intro exI [of _ fi'] exI [of _ b'] exI [of _ c'] exI [of _ s]) simp
qed

definition ex_data :: mem where
  "ex_data = (\<lambda>i. if i = 14 then 0x45 else if i = 17 then 41 else if i = 46 then 0x50
     else if i = 47 then 0x10 else if i = 48 then 0x10 else if i = 54 then 0xAB else 0)"

theorem server_echoes_witness:
  "\<exists>fi' b'. runEst ServerJoke 7 (ex_fi ex_conn ex_data) = ret fi' \<and>
     w_pkts (world fi') 7 = Some b' \<and> load_bytes 54 1 (m_data b') = [0xAB] \<and> tcp_getAck 34 (m_data b') = 1"
proof -
  have "34 = ip_getPayload 14 ex_data" and "\<not> bad_est 34 ex_data" and "tcp_getSeq 34 ex_data = seqRemote ex_conn"
    and "\<not> tcp_getFinFlag 34 ex_data" and "dataToSend ex_conn = []" and "\<not> closeConnectionAfterSending ex_conn"
    and "scc_reset (scc_handlePacket (seqLocal ex_conn) (tcp_getAck 34 ex_data) (conCtl ex_conn)) = None"
    and "1 = ip_getPayloadLength 14 ex_data - ucast (tcp_getHeaderLen 34 ex_data)" and "1 = ip_getPayloadLength 14 ex_data - 20"
    and "1 \<le> tcp_getWindow 34 ex_data" and "seqRemote ex_conn = 0"
    and "load_bytes 54 1 ex_data = [0xAB]"
    by code_simp+
  moreover from server_echoes [OF ex_conn_at ex_fi_simps(1), of 34 ex_data 1 1]
  show ?thesis using calculation by fastforce
qed

section \<open>Closing\<close>

text \<open>
  Closing.  In the state after the server's FIN, the peer's FIN with the expected numbers is
  acknowledged: ACK alone, one past the received number.  The connection ends; its object is
  updated but not freed.
\<close>

theorem fin_acknowledged:
  assumes at: "conn_at (stateData (st fi)) c (world fi)" and b: "w_pkts (world fi) pkt = Some b"
    and t: "t = ip_getPayload 14 (m_data b)" "34 \<le> t" and good: "\<not> bad_est t (m_data b)"
    and num: "tcp_getAck t (m_data b) = seqLocal c" "tcp_getSeq t (m_data b) = seqRemote c"
    and fin: "tcp_getFinFlag t (m_data b)"
  shows "\<exists>fi' b'. runAckFin pkt fi = ret fi' \<and> state (st fi') = TS_END \<and> sendPkt fi' = sendPkt fi \<and>
     w_pkts (world fi') pkt = Some b' \<and> m_data b' (t + 13) = 0x10 \<and>
     tcp_getAck t (m_data b') = seqRemote c + 1 \<and> tcp_getSeq t (m_data b') = seqLocal c + 1 \<and>
     swapped_ends t (m_data b) (m_data b') \<and>
     w_heap (world fi') = (w_heap (world fi))(stateData (st fi) \<mapsto> Conn (c\<lparr>seqLocal := seqLocal c + 1\<rparr>))"
proof -
  let ?m = "tcp_turn_around 14 t (m_data b)"
  let ?m' = "tcp_setOffset t 5 (tcp_setAckFlag t (tcp_clearFlags t
      (tcp_setAck t (seqRemote c + 1) (tcp_setSeq t (seqLocal c + 1) ?m))))"
  let ?b' = "b\<lparr>m_data := ?m'\<rparr>"
  let ?fi' = "transition TS_END (fi\<lparr>world := heap_put (stateData (st fi)) (Conn (c\<lparr>seqLocal := seqLocal c + 1, seqRemote := seqRemote c\<rparr>))
      ((world fi)\<lparr>w_pkts := (w_pkts (world fi))(pkt \<mapsto> ?b')\<rparr>)\<rparr>)"
  have same: "c\<lparr>seqLocal := seqLocal c + 1, seqRemote := seqRemote c\<rparr> = c\<lparr>seqLocal := seqLocal c + 1\<rparr>" by simp
  have "runAckFin pkt fi = ret ?fi'"
    using get_conn_at [OF at] b good num fin t(1) turn_around_fields [OF t(2)]
    by (simp add: runAckFin_def Let_def bad_est_def write_ok eth_getPayload_def sizeof_Ethernet_def)
  moreover have "?m' (t + 13) = 0x10" "tcp_getAck t ?m' = seqRemote c + 1" "tcp_getSeq t ?m' = seqLocal c + 1"
    using t(2) by (simp_all add: tcp_flag_defs tcp_defs tcp_setOffset_def mem_simps)
  moreover have "swapped_ends t (m_data b) ?m'"
    by (rule swapped_frame [OF swapped_turn [OF t(2)] t(2)])
      (use t(2) in \<open>simp_all add: tcp_flag_defs tcp_defs tcp_setOffset_def mem_simps\<close>)
  ultimately show ?thesis
    by (intro exI [of _ ?fi'] exI [of _ ?b']) (simp add: heap_put_def same)
qed

theorem fin_acknowledged_witness:
  "\<exists>fi' b'. runAckFin 7 (ex_fi ex_conn (ex_mem 0x11)) = ret fi' \<and> state (st fi') = TS_END \<and>
     w_pkts (world fi') 7 = Some b' \<and> tcp_getAck 34 (m_data b') = 1"
proof -
  have "\<not> bad_est 34 (ex_mem 0x11)" and "tcp_getAck 34 (ex_mem 0x11) = seqLocal ex_conn"
    and "tcp_getSeq 34 (ex_mem 0x11) = seqRemote ex_conn" and "tcp_getFinFlag 34 (ex_mem 0x11)"
    and "seqRemote ex_conn + 1 = 1"
    by code_simp+
  then show ?thesis
    using fin_acknowledged [OF ex_conn_at ex_fi_simps(1), of 34 "ex_mem 0x11"] by fastforce
qed

end
