(* ===== verification/Tcp_Queue.thy ===== *)
theory Tcp_Queue
  imports Tcp_Props
begin

text \<open>
  The queues of a connection: how the data of the protocol is cut into segments, how much of it
  the sending loop sends, what an acknowledgement removes, and when the congestion control asks
  for a retransmission.
\<close>

section \<open>Cutting data into segments\<close>

lemma seq_run_end:
  "seq_run a ss b \<Longrightarrow> \<forall>s \<in> set ss. seg_ok w s \<Longrightarrow> b = a + of_nat (length (concat (map (seg_bytes w) ss)))"
proof (induction ss arbitrary: a)
  case (Cons s ss)
  then obtain bs where "w_heap w (seg_dataPtr s) = Some (Block bs)" "unat (seg_dataLen s) \<le> length bs"
    by (auto simp: seg_ok_def)
  then have "length (seg_bytes w s) = unat (seg_dataLen s)" by (simp add: seg_bytes_def)
  then have "(of_nat (length (seg_bytes w s)) :: u32) = ucast (seg_dataLen s)"
    by (simp add: word_unat_eq_iff unat_ucast_up unat_of_nat_less unsigned_of_nat take_bit_nat_eq_self
        less_trans [OF unat_u16_less])
  moreover have "b = a + ucast (seg_dataLen s) + of_nat (length (concat (map (seg_bytes w) ss)))"
    using Cons.prems by (intro Cons.IH) simp_all
  ultimately show ?case by (simp add: add.assoc)
qed simp

text \<open>
  C33. \<open>sendData\<close> queues exactly the given bytes, in order, behind what is queued: segments of at
  most 1460 bytes whose sequence numbers run on without a gap from where the connection
  stood, each with a live block of its own.  The connection's sequence number advances by the
  length, and no existing object changes.  This holds for every length up to the block's,
  also when the sequence numbers wrap around.
\<close>

theorem sendData_queues:
  assumes "conn_ok c w" and "w_heap w p = Some (Block bs)" and "p \<notin> blocks c" and "unat n \<le> length bs"
  shows "\<exists>c' w' ss. sendData p n (c, w) = ret (c', w') \<and>
     c' = c\<lparr>dataToSend := dataToSend c @ ss, seqLocal := seqLocal c + n\<rparr> \<and>
     concat (map (seg_bytes w') ss) = take (unat n) bs \<and> seq_run (seqLocal c) ss (seqLocal c + n) \<and>
     (\<forall>s \<in> set ss. seg_dataLen s \<le> 1460) \<and> conn_ok c' w' \<and> heap_grows w w'"
proof -
  obtain c' w' where r: "sendData p n (c, w) = ret (c', w')" and st: "conn_step (push_segment p (ucast (min n MSS)) c, w) (c', w')"
    and g: "heap_grows w w'" and q: "queued c c' w' (take (unat n) bs)"
    using sendData_ok [OF assms] by blast
  then obtain ss where ss: "c' = c\<lparr>dataToSend := dataToSend c @ ss, seqLocal := seqLocal c'\<rparr>"
    "\<forall>s \<in> set ss. seg_dataLen s \<le> 1460" "seq_run (seqLocal c) ss (seqLocal c')"
    "concat (map (seg_bytes w') ss) = take (unat n) bs" by (auto simp: queued_def)
  have ok: "conn_ok c' w'" by (rule conn_step_ok [OF st])
  have "segs c' = dataToSend c @ ss @ dataAlreadySent c" by (subst ss(1)) (simp add: segs_def)
  then have "\<forall>s \<in> set ss. seg_ok w' s" using ok by (simp add: conn_ok_def)
  from seq_run_end [OF ss(3) this] have "seqLocal c' = seqLocal c + n"
    using assms(4) ss(4) by simp
  then show ?thesis using r g ok ss by auto
qed

theorem sendData_queues_witness:
  "\<exists>c' w' ss. sendData 2 3000 (ex_conn, (ex_world ex_conn (\<lambda>_. 0))
       \<lparr>w_heap := [1 \<mapsto> Conn ex_conn, 2 \<mapsto> Block (replicate 3000 7)], w_next := 3\<rparr>) = ret (c', w') \<and>
     seqLocal c' = 3000 \<and> concat (map (seg_bytes w') ss) = replicate 3000 7"
proof -
  let ?w = "(ex_world ex_conn (\<lambda>_. 0))
       \<lparr>w_heap := [1 \<mapsto> Conn ex_conn, 2 \<mapsto> Block (replicate 3000 7)], w_next := 3\<rparr>"
  have "conn_ok ex_conn ?w" and "2 \<notin> blocks ex_conn"
    by (auto simp: conn_ok_def heap_ok_def segs_def ex_conn_def ex_world_def blocks_def split: if_splits)
  moreover have "w_heap ?w 2 = Some (Block (replicate 3000 7))" and "seqLocal ex_conn = 0"
    by (simp_all add: ex_conn_def)
  ultimately show ?thesis
    using sendData_queues [of ex_conn ?w 2 "replicate 3000 7" 3000] by fastforce
qed

section \<open>Sending\<close>

lemma drain_bound:
  "drain q m ss = (sent, left) \<Longrightarrow> (\<Sum>s\<leftarrow>sent. unat (seg_dataLen s)) \<le> m"
proof (induction q m ss arbitrary: sent left rule: drain.induct)
  case (2 q m s ss)
  then show ?case by (fastforce split: if_splits prod.splits)
qed simp

text \<open>
  C34. The sending loop always ends, for every queue and every window the peer can offer, and does
  what \<open>drain\<close> says: it takes segments off the front as long as the window lasts and appends them
  to the sent ones.  It never sends more bytes than the window.  However many segments it takes,
  it writes them all into the received packet, over each other: afterwards the packet carries the last
  one alone, and the batch has got no other packet.
\<close>

theorem sending_loop_drains:
  assumes "conn_ok c (world fi)" and "w_pkts (world fi) pkt = Some b" and "unat maxSend < 65536"
    and "drain (w_next (world fi)) (unat maxSend) (dataToSend c) = (sent, left)"
  shows "\<exists>w' b'. est_send pkt pkt tp True maxSend 0 c fi fr =
      ret (pkt, if sent = [] then tp else ip_getPayload 14 (m_data b), c\<lparr>dataToSend := left, dataAlreadySent := dataAlreadySent c @ sent,
             ipID := ipID c + of_nat (length sent)\<rparr>, fi\<lparr>world := w'\<rparr>, fr \<and> sent = []) \<and>
     (\<Sum>s\<leftarrow>sent. unat (seg_dataLen s)) \<le> unat maxSend \<and>
     w_pkts w' = (w_pkts (world fi))(pkt \<mapsto> b') \<and>
     (sent \<noteq> [] \<longrightarrow> carries (ip_getPayload 14 (m_data b)) (last sent) (seg_bytes w' (last sent)) (m_data b) b')"
  using est_send_ok [OF assms(1-3), of 0 sent left tp fr] assms(4) drain_bound [OF assms(4)]
  by (fastforce simp: sent_all_def)

definition ex_seg :: "ptr \<Rightarrow> u32 \<Rightarrow> segment" where
  "ex_seg p n = \<lparr>seg_dataPtr = p, seg_seqNumber = n, seg_dataLen = 2\<rparr>"

definition ex_queue :: "(simple_cc, unit) tfi" where
  "ex_queue = (ex_fi ex_conn (ex_mem 0x10))\<lparr>world := (ex_world ex_conn (ex_mem 0x10))
     \<lparr>w_heap := [1 \<mapsto> Conn ex_conn, 2 \<mapsto> Block [7, 8], 3 \<mapsto> Block [9, 10]], w_next := 4\<rparr>\<rparr>"

lemma ex_queue_ok: "conn_ok (ex_conn\<lparr>dataToSend := [ex_seg 2 0, ex_seg 3 2]\<rparr>) (world ex_queue)"
  by (auto simp: conn_ok_def heap_ok_def segs_def seg_ok_def ex_conn_def ex_queue_def ex_seg_def split: if_splits)

lemma ex_queue_pkt: "w_pkts (world ex_queue) 7 = Some \<lparr>m_data = ex_mem 0x10, m_dataLen = 54, m_bufLen = 2048\<rparr>"
  by (simp add: ex_queue_def ex_world_def)

theorem sending_loop_drains_witness:
  "\<exists>c' fi' b'. est_send 7 7 34 True 100 0 (ex_conn\<lparr>dataToSend := [ex_seg 2 0, ex_seg 3 2]\<rparr>) ex_queue False =
      ret (7, 34, c', fi', False) \<and> dataAlreadySent c' = [ex_seg 2 0, ex_seg 3 2] \<and>
     w_pkts (world fi') 7 = Some b' \<and> tcp_getSeq 34 (m_data b') = 2"
proof -
  have "drain (w_next (world ex_queue)) (unat (100 :: u32)) (dataToSend (ex_conn\<lparr>dataToSend := [ex_seg 2 0, ex_seg 3 2]\<rparr>)) =
      ([ex_seg 2 0, ex_seg 3 2], [])" by (simp add: ex_seg_def)
  from sending_loop_drains [OF ex_queue_ok ex_queue_pkt _ this, of 34 False] show ?thesis
    by (auto simp: carries_def ex_seg_def ex_conn_def)
qed

text \<open>
  When the window ends inside a segment, the segment's data is lost: what is recorded as
  sent and what stays queued are both empty, and the packet carries no data, although the sequence
  number of the rest has advanced as if the first part had been sent.
\<close>

theorem window_cut_loses_data:
  assumes "conn_ok c (world fi)" and "w_pkts (world fi) pkt = Some b"
    and q: "dataToSend c = [s]" and cut: "0 < maxSend" "unat maxSend < unat (seg_dataLen s)"
  shows "seg_bytes (world fi) s \<noteq> [] \<and> (\<exists>c' w' b' s1 s2. est_send pkt pkt tp True maxSend 0 c fi fr = ret (pkt, ip_getPayload 14 (m_data b), c', fi\<lparr>world := w'\<rparr>, False) \<and>
     dataAlreadySent c' = dataAlreadySent c @ [s1] \<and> dataToSend c' = [s2] \<and>
     seg_bytes w' s1 = [] \<and> seg_bytes w' s2 = [] \<and>
     seg_seqNumber s1 = seg_seqNumber s \<and> seg_seqNumber s2 = seg_seqNumber s + maxSend \<and>
     w_pkts w' pkt = Some b' \<and> m_dataLen b' = 54)"
proof -
  let ?s1 = "s\<lparr>seg_dataLen := 0\<rparr>"
  let ?s2 = "\<lparr>seg_dataPtr = w_next (world fi), seg_seqNumber = seg_seqNumber s + maxSend, seg_dataLen = 0\<rparr>"
  have "unat maxSend \<noteq> 0" using cut(1) by (simp add: word_less_nat_alt)
  then have d: "drain (w_next (world fi)) (unat maxSend) (dataToSend c) = ([?s1], [?s2])"
    using cut(2) by (simp add: q)
  have "unat maxSend < 65536" using cut(2) unat_u16_less [of "seg_dataLen s"] by simp
  from est_send_ok [OF assms(1,2) this, of 0 "[?s1]" "[?s2]" tp fr] d
  obtain w' b' where r: "est_send pkt pkt tp True maxSend 0 c fi fr = ret (pkt, ip_getPayload 14 (m_data b), c\<lparr>dataToSend := [?s2],
      dataAlreadySent := dataAlreadySent c @ [?s1], ipID := ipID c + 1\<rparr>, fi\<lparr>world := w'\<rparr>, False)"
    and sa: "sent_all pkt [?s1] [?s2] c (world fi) b w' b'" by auto
  have empty: "seg_bytes w x = []" if "seg_dataLen x = 0" for w x
    using that by (simp add: seg_bytes_def split: option.split tcp_obj.split)
  obtain bs where "w_heap (world fi) (seg_dataPtr s) = Some (Block bs)" "unat (seg_dataLen s) \<le> length bs"
    using conn_okD [OF assms(1), of s] q by (auto simp: segs_def)
  then have "seg_bytes (world fi) s \<noteq> []" using cut by (auto simp: seg_bytes_def)
  moreover have "w_pkts w' pkt = Some b'" and "m_dataLen b' = 54" using sa by (simp_all add: sent_all_def carries_def)
  ultimately show ?thesis
    using r by - (rule conjI, assumption, rule exI [of _ "c\<lparr>dataToSend := [?s2],
        dataAlreadySent := dataAlreadySent c @ [?s1], ipID := ipID c + 1\<rparr>"], rule exI [of _ w'], rule exI [of _ b'],
        rule exI [of _ ?s1], rule exI [of _ ?s2], simp add: empty)
qed

theorem window_cut_loses_data_witness:
  "\<exists>c' fi'. est_send 7 7 34 True 1 0 (ex_conn\<lparr>dataToSend := [ex_seg 2 0]\<rparr>) ex_queue False = ret (7, 34, c', fi', False) \<and>
     seg_bytes (world ex_queue) (ex_seg 2 0) \<noteq> [] \<and>
     concat (map (seg_bytes (world fi')) (dataAlreadySent c' @ dataToSend c')) = []"
proof -
  have "conn_ok (ex_conn\<lparr>dataToSend := [ex_seg 2 0]\<rparr>) (world ex_queue)"
    using ex_queue_ok by (simp add: conn_ok_def segs_def)
  from window_cut_loses_data [OF this ex_queue_pkt, of "ex_seg 2 0" 1 34 False] show ?thesis
    by (auto simp: ex_seg_def ex_conn_def)
qed
section \<open>Acknowledgements\<close>

text \<open>
  C35. What an acknowledgement does.  Every sent segment whose end lies before the acknowledged
  number is removed and its block freed, the others stay in order.  A segment that ends at
  the acknowledged number, which is therefore acknowledged completely, stays.  When the
  congestion control asks for it, the remaining segments after \<open>resetSeq\<close> go back to the front of
  the queue in reverse order, the last one first.
\<close>

theorem acknowledged_segments_freed:
  fixes ack :: u32 and te :: "('cc, 'pp) tcp_env" and c :: "('cc, 'pp) connection"
  assumes "conn_ok c w"
  defines "kept \<equiv> filter (\<lambda>s. \<not> acked ack s) (dataAlreadySent c)"
  defines "cc' \<equiv> cc_handlePacket (te_conCtl te) (seqLocal c) ack (conCtl c)"
  shows "\<exists>c' w'. est_ack te ack c w = ret (c', w') \<and> conn_step (c, w) (c', w') \<and> conCtl c' = cc' \<and>
     (\<forall>s \<in> set (dataAlreadySent c). seg_seqNumber s + ucast (seg_dataLen s) = ack \<longrightarrow> s \<in> set kept) \<and>
     (case cc_reset (te_conCtl te) cc' of
        None \<Rightarrow> dataAlreadySent c' = kept \<and> dataToSend c' = dataToSend c
      | Some r \<Rightarrow> dataAlreadySent c' = filter (\<lambda>s. seg_seqNumber s \<le> r) kept \<and>
          dataToSend c' = rev (filter (\<lambda>s. r < seg_seqNumber s) kept) @ dataToSend c)"
proof -
  obtain c' w' where e: "est_ack te ack c w = ret (c', w')" "conn_step (c, w) (c', w')" "conCtl c' = cc'"
    "case cc_reset (te_conCtl te) (conCtl c') of
       None \<Rightarrow> dataAlreadySent c' = kept \<and> dataToSend c' = dataToSend c
     | Some r \<Rightarrow> dataAlreadySent c' = filter (\<lambda>s. \<not> r < seg_seqNumber s) kept \<and>
         dataToSend c' = rev (filter (\<lambda>s. r < seg_seqNumber s) kept) @ dataToSend c"
    using est_ack_ok [OF assms(1), of te ack] unfolding kept_def cc'_def Let_def by blast
  have "\<forall>s \<in> set (dataAlreadySent c). seg_seqNumber s + ucast (seg_dataLen s) = ack \<longrightarrow> s \<in> set kept"
    by (simp add: kept_def acked_def)
  then show ?thesis using e by (auto simp: not_less split: option.splits)
qed

theorem acknowledged_segments_freed_witness:
  "\<exists>c' w'. est_ack ServerJoke 2 (ex_conn\<lparr>dataAlreadySent := [ex_seg 2 0]\<rparr>) (world ex_queue) = ret (c', w') \<and>
     dataAlreadySent c' = [ex_seg 2 0]"
proof -
  have "conn_ok (ex_conn\<lparr>dataAlreadySent := [ex_seg 2 0]\<rparr>) (world ex_queue)"
    using ex_queue_ok by (simp add: conn_ok_def segs_def ex_conn_def)
  from acknowledged_segments_freed [OF this, of ServerJoke 2] show ?thesis
    by (auto simp: acked_def ex_seg_def ServerJoke_def TcpConCtlSimple_def scc_reset_def scc_handlePacket_def ex_conn_def)
qed

text \<open>The congestion control after \<open>k\<close> packets with the same acknowledgement.\<close>

fun scc_repeat :: "nat \<Rightarrow> u32 \<Rightarrow> u32 \<Rightarrow> simple_cc \<Rightarrow> simple_cc" where
  "scc_repeat 0 seq ack s = s"
| "scc_repeat (Suc k) seq ack s = scc_repeat k seq ack (scc_handlePacket seq ack s)"

lemma scc_repeat_same:
  "lastAck s = ack \<Longrightarrow> ack < seq \<Longrightarrow> scc_repeat k seq ack s = s\<lparr>alreadySeen := alreadySeen s + of_nat k\<rparr>"
proof (induction k arbitrary: s)
  case (Suc k)
  then show ?case by (simp add: scc_handlePacket_def add.assoc)
qed simp

text \<open>
  The simple congestion control asks for a retransmission, from the acknowledged number on, exactly from
  the third duplicate of an acknowledgement on that leaves data outstanding: a new
  acknowledgement followed by \<open>k\<close> copies of it.  An acknowledgement of everything that was sent never counts.
  (The counter has 32 bits and would start again after \<open>2 ^ 32\<close> copies.)
\<close>

theorem reset_after_three_duplicates:
  assumes new: "lastAck s \<noteq> ack" and k: "k < 2 ^ 32"
  shows "scc_reset (scc_repeat (Suc k) seq ack s) = (if ack < seq \<and> 3 \<le> k then Some ack else None)"
proof -
  have s0: "scc_handlePacket seq ack s = s\<lparr>lastAck := ack, alreadySeen := 0\<rparr>"
    using new by (simp add: scc_handlePacket_def)
  show ?thesis
  proof (cases "ack < seq")
    case True
    have "(3 :: u32) \<le> of_nat k \<longleftrightarrow> 3 \<le> k"
      using k by (simp add: word_le_nat_alt unat_of_nat_less)
    then show ?thesis using True by (simp add: s0 scc_repeat_same scc_reset_def)
  next
    case False
    have "scc_repeat k seq ack (s\<lparr>lastAck := ack, alreadySeen := 0\<rparr>) = s\<lparr>lastAck := ack, alreadySeen := 0\<rparr>"
      using False by (induction k) (simp_all add: scc_handlePacket_def)
    then show ?thesis using False by (simp add: s0 scc_reset_def)
  qed
qed

theorem reset_after_three_duplicates_witness:
  "scc_reset (scc_repeat (Suc 3) 9 5 (cc_init TcpConCtlSimple)) = Some 5"
  using reset_after_three_duplicates [of "cc_init TcpConCtlSimple" 5 3 9]
  by (simp add: TcpConCtlSimple_def del: scc_repeat.simps)

end
