(* ===== verification/Hello_Bye3_Mem_Pool.thy ===== *)
theory Hello_Bye3_Mem_Pool
  imports Hello_Bye3
begin

text \<open>
  The third version of the protocol with its objects in a DPDK memory pool: \<open>include/helloBye3MemPool.hpp\<close>
  and \<open>src/helloBye3MemPool.cpp\<close>.  The messages, the objects and the numbers of the
  states are those of \<open>Hello_Bye3\<close>; \<open>new\<close> and \<open>delete\<close> become \<open>rte_mempool_get\<close> and
  \<open>rte_mempool_put\<close> on a static pool, one for the servers and one for the clients.

  The pools are third-party: their contents are a type \<open>'m\<close> and their operations a record of
  parameters.  Two static pointers name the pools (\<open>0\<close> is \<open>nullptr\<close>); a pointer that is not in
  \<open>mp_pools\<close> is one to a pool that has been freed.  An object that has been taken from a pool is in
  the heap of the world \<open>hw\<close>; its fields are all written before it is used.  The mutexes are not
  represented: the functions that lock them run one at a time here.
\<close>

section \<open>Identification\<close>

definition mp_identify :: "mem \<Rightarrow> u64 option" where
  "mp_identify m =
    (let eth = 0 in
     if eth_getEthertype eth m \<noteq> ETHERTYPE_IPv4 then None
     else let ipv4 = eth_getPayload eth in
       if ip_proto ipv4 m \<noteq> PROTO_UDP then None
       else let udp = ip_getPayload ipv4 m; msg = udp_getPayload udp
            in Some (msg_ident msg m))"

definition mp_getDelKey :: u64 where "mp_getDelKey = - 1"
definition mp_getEmptyKey :: u64 where "mp_getEmptyKey = - 1 - 1"

section \<open>The pools and the world\<close>

text \<open>
  \<open>mpo_create\<close> is given the name, the number and the size of the elements, and the pools that
  exist; \<open>None\<close> is the null pointer, and for \<open>mpo_get\<close> an error code.
\<close>

record 'm mempool_ops =
  mpo_create :: "string \<Rightarrow> u32 \<Rightarrow> u32 \<Rightarrow> (ptr \<rightharpoonup> 'm) \<Rightarrow> 'm option"
  mpo_get :: "'m \<Rightarrow> (ptr \<times> 'm) option"
  mpo_put :: "ptr \<Rightarrow> 'm \<Rightarrow> 'm"

record 'm mp_world =
  hw :: "hb_obj hworld"
  mp_pools :: "ptr \<rightharpoonup> 'm"
  mp_next :: ptr
  Server_mempool :: ptr
  Client_mempool :: ptr

type_synonym 'm mp_fi = "(u64, ptr, 'm mp_world, unit) FunIface"
type_synonym 'm mp_fun = "(u64, ptr, 'm mp_world, unit) stateFun"

definition the_pool :: "ptr \<Rightarrow> 'm mp_world \<Rightarrow> 'm res" where
  "the_pool pl w =
    (case mp_pools w pl of None \<Rightarrow> fail (if pl = 0 then BadPointer else Dangling) | Some m \<Rightarrow> ret m)"

definition rte_mempool_get :: "'m mempool_ops \<Rightarrow> ptr \<Rightarrow> 'm mp_world \<Rightarrow> (ptr option \<times> 'm mp_world) res" where
  "rte_mempool_get ops pl w =
    rbind (the_pool pl w) (\<lambda>m.
    case mpo_get ops m of
      None \<Rightarrow> ret (None, w)
    | Some (p, m) \<Rightarrow> ret (Some p, w\<lparr>mp_pools := (mp_pools w)(pl \<mapsto> m)\<rparr>))"

text \<open>The object given back is dead from then on; it must have been alive.\<close>

definition rte_mempool_put :: "'m mempool_ops \<Rightarrow> ptr \<Rightarrow> ptr \<Rightarrow> 'm mp_world \<Rightarrow> 'm mp_world res" where
  "rte_mempool_put ops pl p w =
    rbind (the_pool pl w) (\<lambda>m.
    case w_heap (hw w) p of
      None \<Rightarrow> fail (if p = 0 then BadPointer else Dangling)
    | Some _ \<Rightarrow> ret (w\<lparr>hw := (hw w)\<lparr>w_heap := (w_heap (hw w))(p := None)\<rparr>,
                       mp_pools := (mp_pools w)(pl \<mapsto> mpo_put ops p m)\<rparr>))"

definition rte_mempool_create ::
  "'m mempool_ops \<Rightarrow> string \<Rightarrow> u32 \<Rightarrow> u32 \<Rightarrow> 'm mp_world \<Rightarrow> ptr \<times> 'm mp_world" where
  "rte_mempool_create ops name n eltSize w =
    (case mpo_create ops name n eltSize (mp_pools w) of
       None \<Rightarrow> (0, w)
     | Some m \<Rightarrow> (mp_next w, w\<lparr>mp_pools := (mp_pools w)(mp_next w \<mapsto> m), mp_next := mp_next w + 1\<rparr>))"

definition rte_mempool_free :: "ptr \<Rightarrow> 'm mp_world \<Rightarrow> 'm mp_world res" where
  "rte_mempool_free pl w =
    (if pl = 0 then ret w
     else rbind (the_pool pl w) (\<lambda>_. ret (w\<lparr>mp_pools := (mp_pools w)(pl := None)\<rparr>)))"

text \<open>The packets and the stream of \<open>rand()\<close> are those of the world below.\<close>

definition mp_writeData :: "ptr \<Rightarrow> mem \<Rightarrow> 'm mp_world \<Rightarrow> 'm mp_world res" where
  "mp_writeData p m w = rbind (writeData p m (hw w)) (\<lambda>h. ret (w\<lparr>hw := h\<rparr>))"

definition mp_put_obj :: "ptr \<Rightarrow> hb_obj \<Rightarrow> 'm mp_world \<Rightarrow> 'm mp_world" where
  "mp_put_obj p ob w = w\<lparr>hw := heap_put p ob (hw w)\<rparr>"

definition mp_rand :: "'m mp_world \<Rightarrow> u32 \<times> 'm mp_world" where
  "mp_rand w = (let (r, h) = rand (hw w) in (r, w\<lparr>hw := h\<rparr>))"

text \<open>The end that the handlers share: transition, give back the object, free the packet.\<close>

definition mp_terminate :: "'m mempool_ops \<Rightarrow> ptr \<Rightarrow> StateID \<Rightarrow> 'm mp_fi \<Rightarrow> 'm mp_fi res" where
  "mp_terminate ops pl sid fi =
    (let p = stateData (st fi); fi = transition sid fi
     in rbind (rte_mempool_put ops pl p (world fi)) (\<lambda>w. ret (freePkt (fi\<lparr>world := w\<rparr>))))"

section \<open>Server\<close>

definition mp_factory :: "'m mempool_ops \<Rightarrow> u64 \<Rightarrow> 'm mp_world \<Rightarrow> (ptr \<times> 'm mp_world) res" where
  "mp_factory ops cid w =
    rbind (rte_mempool_get ops (Server_mempool w) w) (\<lambda>(got, w).
    case got of
      None \<Rightarrow> fail Thrown
    | Some s \<Rightarrow>
        let (r, w) = mp_rand w
        in ret (s, mp_put_obj s (ServerObj \<lparr>s_clientCookie = 0, s_serverCookie = r mod 256\<rparr>) w))"

definition mp_server_runHello :: "'m mempool_ops \<Rightarrow> 'm mp_fun" where
  "mp_server_runHello ops pkt fi =
    (let sp = stateData (st fi); pl = Server_mempool (world fi) in
     rbind (getData pkt (hw (world fi))) (\<lambda>m.
     let ether = 0;
         ipv4 = eth_getPayload ether;
         udp = ip_getPayload ipv4 m;
         msg = udp_getPayload udp
     in if msg_role msg m \<noteq> 0 then mp_terminate ops pl S_Terminate fi
        else if msg_msg msg m \<noteq> 0 then mp_terminate ops pl S_Terminate fi
        else
          rbind (get_server sp (hw (world fi))) (\<lambda>s.
          let s = s\<lparr>s_clientCookie := ucast (msg_cookie msg m)\<rparr>;
              w = mp_put_obj sp (ServerObj s) (world fi);
              m = set_role msg ROLE_SERVER m;
              m = set_msg msg MSG_HELLO m;
              m = set_cookie msg (ucast (s_serverCookie s)) m;
              m = hb_turn_around ipv4 udp m
          in rbind (mp_writeData pkt m w) (\<lambda>w.
             ret (transition S_Bye (fi\<lparr>world := w\<rparr>))))))"

definition mp_server_runBye :: "'m mempool_ops \<Rightarrow> 'm mp_fun" where
  "mp_server_runBye ops pkt fi =
    (let sp = stateData (st fi); pl = Server_mempool (world fi) in
     rbind (getData pkt (hw (world fi))) (\<lambda>m.
     let ether = 0;
         ipv4 = eth_getPayload ether;
         udp = ip_getPayload ipv4 m;
         msg = udp_getPayload udp
     in if msg_role msg m \<noteq> ROLE_CLIENT \<or> msg_msg msg m \<noteq> MSG_BYE then mp_terminate ops pl S_Terminate fi
        else
          rbind (get_server sp (hw (world fi))) (\<lambda>s.
          if ucast (msg_cookie msg m) \<noteq> s_serverCookie s then mp_terminate ops pl S_Terminate fi
          else
            let m = set_cookie msg (ucast (s_clientCookie s)) m;
                m = set_role msg ROLE_SERVER m;
                m = set_msg msg MSG_BYE m;
                m = hb_turn_around ipv4 udp m
            in rbind (mp_writeData pkt m (world fi)) (\<lambda>w.
               let fi = transition S_Terminate (fi\<lparr>world := w\<rparr>)
               in rbind (rte_mempool_put ops pl sp (world fi)) (\<lambda>w. ret (fi\<lparr>world := w\<rparr>))))))"

section \<open>Client\<close>

definition mp_createHello ::
  "'m mempool_ops \<Rightarrow> u32 \<Rightarrow> u32 \<Rightarrow> u16 \<Rightarrow> u16 \<Rightarrow> u64 \<Rightarrow> 'm mp_world \<Rightarrow> (State \<times> 'm mp_world) res" where
  "mp_createHello ops srcIp dstIp srcPort dstPort idn w =
    rbind (rte_mempool_get ops (Client_mempool w) w) (\<lambda>(got, w).
    case got of
      None \<Rightarrow> fail Thrown
    | Some c \<Rightarrow>
        let (r, w) = mp_rand w;
            w = mp_put_obj c (ClientObj \<lparr>c_ident = idn, c_srcIp = srcIp, c_dstIp = dstIp,
                     c_clientCookie = r mod 256, c_serverCookie = 0,
                     c_srcPort = srcPort, c_dstPort = dstPort\<rparr>) w
        in ret (State_of C_Hello c, w))"

definition mp_client_runHello :: "'m mp_fun" where
  "mp_client_runHello pkt fi =
    (let cp = stateData (st fi) in
     rbind (getData pkt (hw (world fi))) (\<lambda>m.
     rbind (getDataLen pkt (hw (world fi))) (\<lambda>len.
     rbind (get_client cp (hw (world fi))) (\<lambda>c.
     let m = (\<lambda>i. if i < unat len then 0 else m i);
         ether = 0;
         ipv4 = eth_getPayload ether;
         m = ip_setVersion ipv4 m;
         m = ip_setIHL ipv4 5 m;
         m = ip_setTTL ipv4 64 m;
         m = ip_setLength ipv4 (100 - 14) m;
         m = ip_setDstIP ipv4 (c_dstIp c) m;
         m = ip_setSrcIP ipv4 (c_srcIp c) m;
         m = ip_setProtoUDP ipv4 m;
         m = ip_setChecksum ipv4 0 m;
         udp = ip_getPayload ipv4 m;
         msg = udp_getPayload udp;
         m = set_ident msg (c_ident c) m;
         m = set_role msg ROLE_CLIENT m;
         m = set_cookie msg (ucast (c_clientCookie c)) m;
         m = set_msg msg MSG_HELLO m;
         m = eth_setEthertype ether 0x0800 m;
         m = udp_setChecksum udp 0 m;
         m = udp_setDstPort udp (c_dstPort c) m;
         m = udp_setSrcPort udp (c_srcPort c) m;
         m = udp_setPayloadLength udp 50 m
     in rbind (mp_writeData pkt m (world fi)) (\<lambda>w.
        ret (transition C_Bye (fi\<lparr>world := w\<rparr>)))))))"

definition mp_client_runBye :: "'m mempool_ops \<Rightarrow> 'm mp_fun" where
  "mp_client_runBye ops pkt fi =
    (let cp = stateData (st fi); pl = Client_mempool (world fi) in
     rbind (getData pkt (hw (world fi))) (\<lambda>m.
     let ether = 0;
         ipv4 = eth_getPayload ether;
         udp = ip_getPayload ipv4 m;
         msg = udp_getPayload udp
     in if msg_role msg m \<noteq> ROLE_SERVER \<or> msg_msg msg m \<noteq> MSG_HELLO then mp_terminate ops pl C_Terminate fi
        else
          rbind (get_client cp (hw (world fi))) (\<lambda>c.
          let c = c\<lparr>c_serverCookie := ucast (msg_cookie msg m)\<rparr>;
              w = mp_put_obj cp (ClientObj c) (world fi);
              m = set_cookie msg (ucast (c_serverCookie c)) m;
              m = set_role msg ROLE_CLIENT m;
              m = set_msg msg MSG_BYE m;
              m = hb_turn_around ipv4 udp m
          in rbind (mp_writeData pkt m w) (\<lambda>w.
             ret (transition C_RecvBye (fi\<lparr>world := w\<rparr>))))))"

definition mp_client_runRecvBye :: "'m mempool_ops \<Rightarrow> 'm mp_fun" where
  "mp_client_runRecvBye ops pkt fi =
    (let cp = stateData (st fi); pl = Client_mempool (world fi) in
     rbind (getData pkt (hw (world fi))) (\<lambda>m.
     let ether = 0;
         ipv4 = eth_getPayload ether;
         udp = ip_getPayload ipv4 m;
         msg = udp_getPayload udp
     in if msg_role msg m \<noteq> ROLE_SERVER \<or> msg_msg msg m \<noteq> MSG_BYE then mp_terminate ops pl C_Terminate fi
        else
          rbind (get_client cp (hw (world fi))) (\<lambda>c.
          if ucast (msg_cookie msg m) \<noteq> c_clientCookie c then mp_terminate ops pl C_Terminate fi
          else
            let fi = transition C_Terminate (freePkt fi)
            in rbind (rte_mempool_put ops pl cp (world fi)) (\<lambda>w. ret (fi\<lparr>world := w\<rparr>)))))"

section \<open>The C interface\<close>

type_synonym ('m, 't) mp_sm = "(u64, ptr, 'm mp_world, unit, 't) SM"
type_synonym ('m, 't, 'n) mp_env = "(u64, ptr, 'm mp_world, unit, 't, 'n) env"
type_synonym ('m, 't, 'n) mp_ctx = "(u64, ptr, 'm mp_world, unit, 't, 'n) ctx"

definition mp_env ::
  "('t, u64, State) map_ops \<Rightarrow> ('n, u64, State) map_ops \<Rightarrow> ('m mp_world \<Rightarrow> int \<times> 'm mp_world) \<Rightarrow> ('m, 't, 'n) mp_env" where
  "mp_env d n clk =
    \<lparr>dense = d, poolOps = n,
     ident = \<lambda>w p. case w_pkts (hw w) p of None \<Rightarrow> None | Some b \<Rightarrow> mp_identify (m_data b),
     clock = clk, timeoutFun = \<lambda>k fi. ret fi\<rparr>"

text \<open>The sizes of the two structs on the 64-bit target: 8 bytes, and 28 bytes padded to 32.\<close>

definition sizeof_server :: u32 where "sizeof_server = 8"
definition sizeof_client :: u32 where "sizeof_client = 32"

definition mp_server_table :: "'m mempool_ops \<Rightarrow> ('m, 't, 'n) mp_env \<Rightarrow> ('m, 't) mp_sm" where
  "mp_server_table ops env =
    (let sm = new_StateMachine env;
         sm = registerEndStateID S_Terminate sm;
         sm = registerStartStateID S_Hello (Some (mp_factory ops)) sm;
         sm = registerFunction S_Hello (Some (mp_server_runHello ops)) sm;
         sm = registerFunction S_Bye (Some (mp_server_runBye ops)) sm
     in sm)"

definition HelloBye3MemPool_Server_init ::
  "'m mempool_ops \<Rightarrow> ('m, 't, 'n) mp_env \<Rightarrow> 'm mp_world \<Rightarrow> (('m, 't) mp_sm \<times> 'm mp_world) res" where
  "HelloBye3MemPool_Server_init ops env w =
    rbind
      (if Server_mempool w = 0 then
         let (pl, w) = rte_mempool_create ops ''Server MemPool'' 8192 sizeof_server w;
             w = w\<lparr>Server_mempool := pl\<rparr>
         in if pl = 0 then fail Abort else ret w
       else ret w) (\<lambda>w.
    ret (mp_server_table ops env, w))"

definition HelloBye3MemPool_Server_process ::
  "('m, 't, 'n) mp_env \<Rightarrow> ptr list \<Rightarrow> u32 \<Rightarrow> ('m, 't, 'n) mp_ctx \<Rightarrow> (('m, 't, 'n) mp_ctx \<times> u32 \<times> u32) res" where
  "HelloBye3MemPool_Server_process env inPkts inCount x =
    rbind (new_BufArray inPkts inCount True) (\<lambda>ba.
    rbind (runPktBatch env (x\<lparr>c_batch := ba\<rparr>)) (\<lambda>x.
    ret (x, getSendCount (c_batch x), getFreeCount (c_batch x))))"

definition HelloBye3MemPool_Server_getPkts :: "ptr bufArray \<Rightarrow> (ptr list \<times> ptr list) res" where
  "HelloBye3MemPool_Server_getPkts ba =
    rbind (getSendBufs ba) (\<lambda>s. rbind (getFreeBufs ba) (\<lambda>f. ret (s, f)))"

text \<open>The state machine is gone after \<open>free\<close>; what stays is the world.\<close>

definition HelloBye3MemPool_Server_free :: "'m mp_world \<Rightarrow> 'm mp_world res" where
  "HelloBye3MemPool_Server_free w = rte_mempool_free (Server_mempool w) w"

definition mp_client_table :: "'m mempool_ops \<Rightarrow> ('m, 't, 'n) mp_env \<Rightarrow> ('m, 't) mp_sm" where
  "mp_client_table ops env =
    (let sm = new_StateMachine env;
         sm = registerEndStateID C_Terminate sm;
         sm = registerFunction C_Hello (Some mp_client_runHello) sm;
         sm = registerFunction C_Bye (Some (mp_client_runBye ops)) sm;
         sm = registerFunction C_RecvBye (Some (mp_client_runRecvBye ops)) sm
     in sm)"

definition HelloBye3MemPool_Client_init ::
  "'m mempool_ops \<Rightarrow> ('m, 't, 'n) mp_env \<Rightarrow> 'm mp_world \<Rightarrow> (('m, 't) mp_sm \<times> 'm mp_world) res" where
  "HelloBye3MemPool_Client_init ops env w =
    rbind
      (if Client_mempool w = 0 then
         let (pl, w) = rte_mempool_create ops ''Client MemPool'' 8192 sizeof_client w;
             w = w\<lparr>Client_mempool := pl\<rparr>
         in if pl = 0 then fail Abort else ret w
       else ret w) (\<lambda>w.
    ret (mp_client_table ops env, w))"

definition HelloBye3MemPool_Client_connect ::
  "'m mempool_ops \<Rightarrow> ('m, 't, 'n) mp_env \<Rightarrow> ptr list \<Rightarrow> u32 \<Rightarrow> u32 \<Rightarrow> u32 \<Rightarrow> u16 \<Rightarrow> u16 \<Rightarrow> u64 \<Rightarrow>
     ('m, 't, 'n) mp_ctx \<Rightarrow> (('m, 't, 'n) mp_ctx \<times> u32 \<times> u32) res" where
  "HelloBye3MemPool_Client_connect ops env inPkts inCount srcIP dstIP srcPort dstPort idn x =
    rbind (new_BufArray inPkts inCount True) (\<lambda>ba.
    rbind (mp_createHello ops srcIP dstIP srcPort dstPort idn (c_world x)) (\<lambda>(s, w).
    rbind (addState env idn s (x\<lparr>c_batch := ba, c_world := w\<rparr>)) (\<lambda>x.
    ret (x, getSendCount (c_batch x), getFreeCount (c_batch x)))))"

definition HelloBye3MemPool_Client_getPkts :: "ptr bufArray \<Rightarrow> (ptr list \<times> ptr list) res" where
  "HelloBye3MemPool_Client_getPkts ba =
    rbind (getSendBufs ba) (\<lambda>s. rbind (getFreeBufs ba) (\<lambda>f. ret (s, f)))"

definition HelloBye3MemPool_Client_process ::
  "('m, 't, 'n) mp_env \<Rightarrow> ptr list \<Rightarrow> u32 \<Rightarrow> ('m, 't, 'n) mp_ctx \<Rightarrow> (('m, 't, 'n) mp_ctx \<times> u32 \<times> u32) res" where
  "HelloBye3MemPool_Client_process env inPkts inCount x =
    rbind (new_BufArray inPkts inCount True) (\<lambda>ba.
    rbind (runPktBatch env (x\<lparr>c_batch := ba\<rparr>)) (\<lambda>x.
    ret (x, getSendCount (c_batch x), getFreeCount (c_batch x))))"

definition HelloBye3MemPool_Client_free :: "'m mp_world \<Rightarrow> 'm mp_world res" where
  "HelloBye3MemPool_Client_free w = rte_mempool_free (Client_mempool w) w"

end
