(* ===== verification/Mem_Pool_Props.thy ===== *)
theory Mem_Pool_Props
  imports Hello_Bye3_Mem_Pool Hello_Bye3_Props
begin

text \<open>
  What the pooled version of the protocol does: its handlers are those of \<open>Hello_Bye3\<close> with the
  object given back to the pool where it is deleted there, the pool and the objects in use stay
  balanced, an exhausted pool makes the opening of a connection throw, and freeing a state machine
  leaves a dangling pool behind.
\<close>

section \<open>The contract of a pool\<close>

text \<open>
  \<open>own\<close> are the elements of a pool, \<open>avail\<close> those that are not handed out.  The laws are those of
  \<open>rte_mempool.h\<close>: a pool is created with the given number of elements, all free;
  \<open>get\<close> fails only when no element is left; \<open>put\<close> takes back an element that was handed out.
\<close>

text \<open>The pool \<open>pl\<close> is alive, its elements are \<open>E\<close>, and the free ones are those that hold no object.\<close>

definition balanced ::
  "('m \<Rightarrow> bool) \<Rightarrow> ('m \<Rightarrow> ptr set) \<Rightarrow> ('m \<Rightarrow> ptr set) \<Rightarrow> ptr \<Rightarrow> ptr set \<Rightarrow> 'm mp_world \<Rightarrow> bool" where
  "balanced mok own avail pl E w \<longleftrightarrow> (\<exists>m. mp_pools w pl = Some m \<and> mok m \<and> own m = E \<and>
     (\<forall>p \<in> E. p \<in> avail m \<longleftrightarrow> w_heap (hw w) p = None))"

locale mempool =
  fixes ops :: "'m mempool_ops" and mok :: "'m \<Rightarrow> bool" and own :: "'m \<Rightarrow> ptr set" and avail :: "'m \<Rightarrow> ptr set"
  assumes create_new: "mpo_create ops name n eltSize pools = Some m \<Longrightarrow>
      mok m \<and> avail m = own m \<and> card (own m) = unat n"
    and get_some: "\<lbrakk>mok m; mpo_get ops m = Some (p, m')\<rbrakk> \<Longrightarrow>
      p \<in> avail m \<and> mok m' \<and> own m' = own m \<and> avail m' = avail m - {p}"
    and get_none: "mok m \<Longrightarrow> mpo_get ops m = None \<longleftrightarrow> avail m = {}"
    and put_back: "\<lbrakk>mok m; p \<in> own m; p \<notin> avail m\<rbrakk> \<Longrightarrow>
      mok (mpo_put ops p m) \<and> own (mpo_put ops p m) = own m \<and> avail (mpo_put ops p m) = insert p (avail m)"
    and avail_own: "mok m \<Longrightarrow> avail m \<subseteq> own m \<and> finite (own m) \<and> 0 \<notin> own m"
begin

lemma balanced_put:
  assumes "balanced mok own avail pl E w" and "p \<in> E" and "w_heap (hw w) p \<noteq> None"
  shows "\<exists>w'. rte_mempool_put ops pl p w = ret w' \<and> balanced mok own avail pl E w'"
proof -
  obtain m where m: "mp_pools w pl = Some m" "mok m" "own m = E" "\<forall>p \<in> E. p \<in> avail m \<longleftrightarrow> w_heap (hw w) p = None"
    using assms(1) by (auto simp: balanced_def)
  then have "p \<notin> avail m" using assms(2,3) by auto
  then show ?thesis
    using m assms(2,3) put_back [of m p] by (auto simp: rte_mempool_put_def the_pool_def balanced_def)
qed

lemma balanced_get:
  assumes "balanced mok own avail pl E w"
  shows "(\<forall>p \<in> E. w_heap (hw w) p \<noteq> None) \<and> rte_mempool_get ops pl w = ret (None, w) \<or>
    (\<exists>p m. p \<in> E \<and> w_heap (hw w) p = None \<and> rte_mempool_get ops pl w = ret (Some p, w\<lparr>mp_pools := (mp_pools w)(pl \<mapsto> m)\<rparr>) \<and>
       mok m \<and> own m = E \<and> (\<forall>q \<in> E. q \<in> avail m \<longleftrightarrow> w_heap (hw w) q = None \<and> q \<noteq> p))"
proof -
  obtain m where m: "mp_pools w pl = Some m" "mok m" "own m = E" "\<forall>p \<in> E. p \<in> avail m \<longleftrightarrow> w_heap (hw w) p = None"
    using assms(1) by (auto simp: balanced_def)
  show ?thesis
  proof (cases "mpo_get ops m")
    case None
    then have "avail m = {}" using get_none m(2) by blast
    then show ?thesis using None m by (auto simp: rte_mempool_get_def the_pool_def)
  next
    case (Some r)
    obtain p m' where r: "r = (p, m')" by fastforce
    have "p \<in> avail m \<and> mok m' \<and> own m' = own m \<and> avail m' = avail m - {p}"
      using get_some [OF m(2)] Some r by blast
    moreover have "p \<in> E" using calculation avail_own [OF m(2)] m(3) by blast
    ultimately show ?thesis
      using Some r m by (intro disjI2 exI [of _ p] exI [of _ m']) (auto simp: rte_mempool_get_def the_pool_def)
  qed
qed

text \<open>Storing an object in a element that is handed out, or writing packets, keeps the balance.\<close>

lemma balanced_keep:
  assumes "balanced mok own avail pl E w" and "mp_pools w' = mp_pools w" and "\<forall>p \<in> E. w_heap (hw w') p = None \<longleftrightarrow> w_heap (hw w) p = None"
  shows "balanced mok own avail pl E w'"
  using assms by (auto simp: balanced_def)

lemma objects_bounded:
  assumes "balanced mok own avail pl E w"
  shows "finite E \<and> card {p \<in> E. w_heap (hw w) p \<noteq> None} \<le> card E"
proof -
  have "finite E" using assms avail_own by (auto simp: balanced_def)
  then show ?thesis by (auto intro: card_mono)
qed

end

section \<open>Pools as lists of free elements\<close>

text \<open>The laws can be met: a pool that keeps its elements and the list of the free ones.\<close>

type_synonym list_pool = "ptr list \<times> ptr list"

definition list_pool_inv :: "list_pool \<Rightarrow> bool" where
  "list_pool_inv m \<longleftrightarrow> distinct (snd m) \<and> set (snd m) \<subseteq> set (fst m) \<and> 0 \<notin> set (fst m)"

definition list_pool_ops :: "list_pool mempool_ops" where
  "list_pool_ops = \<lparr>
     mpo_create = \<lambda>name n eltSize pools. let es = [1..<Suc (unat n)] in Some (es, es),
     mpo_get = \<lambda>m. (case snd m of [] \<Rightarrow> None | p # ps \<Rightarrow> Some (p, (fst m, ps))),
     mpo_put = \<lambda>p m. (fst m, p # snd m)\<rparr>"

interpretation list_pool: mempool list_pool_ops list_pool_inv "\<lambda>m. set (fst m)" "\<lambda>m. set (snd m)"
  by unfold_locales (auto simp: list_pool_ops_def list_pool_inv_def Let_def simp del: upt_Suc split: list.splits)

section \<open>The handlers and those of the unpooled version\<close>

text \<open>The interface object without the pools.\<close>

definition lower :: "'m mp_fi \<Rightarrow> hb_fi" where
  "lower fi =
    \<lparr>fi_sm = \<lparr>getPktCB = None, curTimeoutID = curTimeoutID (fi_sm fi), timeoutsQ = timeoutsQ (fi_sm fi),
              timeoutFunctions = timeoutFunctions (fi_sm fi)\<rparr>,
     pktIdx = pktIdx fi, pktsBA = pktsBA fi, cID = cID fi, st = st fi, sendPkt = sendPkt fi,
     immediateTransition = immediateTransition fi, world = hw (world fi)\<rparr>"

definition lowered :: "'m mp_fi res \<Rightarrow> hb_fi res" where
  "lowered m = rbind m (\<lambda>fi. ret (lower fi))"

lemma lower_simps [simp]:
  "st (lower fi) = st fi" "world (lower fi) = hw (world fi)"
  "lower (transition sid fi) = transition sid (lower fi)" "lower (freePkt fi) = freePkt (lower fi)"
  "lower (fi\<lparr>world := w\<rparr>) = (lower fi)\<lparr>world := hw w\<rparr>"
  by (simp_all add: lower_def transition_def freePkt_def)

lemma lowered_simps [simp]:
  "lowered (ret fi) = ret (lower fi)" "lowered (fail e) = fail e"
  "lowered (rbind m f) = rbind m (\<lambda>x. lowered (f x))"
  "lowered (if b then x else y) = (if b then lowered x else lowered y)"
  by (simp_all add: lowered_def rbind_assoc)

text \<open>Giving back an object is deleting it.\<close>

lemma put_lowered:
  assumes "mp_pools w pl = Some m" and "0 < p"
  shows "rbind (rte_mempool_put ops pl p w) (\<lambda>w. f (hw w)) = rbind (heap_delete p (hw w)) f"
  using assms by (cases "w_heap (hw w) p") (simp_all add: rte_mempool_put_def the_pool_def heap_delete_def)

lemma mp_terminate_lowered:
  assumes "mp_pools (world fi) pl = Some m" and "0 < stateData (st fi)"
  shows "lowered (mp_terminate ops pl sid fi) = hb_terminate sid (lower fi)"
  using put_lowered [OF assms, of ops "\<lambda>h. ret (freePkt ((transition sid (lower fi))\<lparr>world := h\<rparr>))"]
  by (simp add: mp_terminate_def hb_terminate_def Let_def)

lemma mp_writeData_bind:
  "rbind (mp_writeData pkt m w) f = rbind (writeData pkt m (hw w)) (\<lambda>h. f (w\<lparr>hw := h\<rparr>))"
  by (simp add: mp_writeData_def rbind_assoc)

lemma mp_put_obj_simps [simp]:
  "hw (mp_put_obj p ob w) = heap_put p ob (hw w)" "mp_pools (mp_put_obj p ob w) = mp_pools w"
  by (simp_all add: mp_put_obj_def)

lemma put_lowered_world:
  fixes fi :: hb_fi
  assumes "mp_pools w pl = Some m" and "0 < p"
  shows "rbind (rte_mempool_put ops pl p w) (\<lambda>w. ret (fi\<lparr>world := hw w\<rparr>)) =
    rbind (heap_delete p (hw w)) (\<lambda>h. ret (fi\<lparr>world := h\<rparr>))"
  by (rule put_lowered [OF assms])

lemmas mp_lowering = Let_def mp_terminate_lowered mp_writeData_bind put_lowered_world

lemma server_lowered:
  assumes "mp_pools (world fi) (Server_mempool (world fi)) = Some m" and "0 < stateData (st fi)"
  shows "lowered (mp_server_runHello ops pkt fi) = hb3_server_runHello pkt (lower fi)"
    and "lowered (mp_server_runBye ops pkt fi) = hb3_server_runBye pkt (lower fi)"
  using assms
  by (simp_all add: mp_server_runHello_def hb3_server_runHello_def mp_server_runBye_def hb3_server_runBye_def
      mp_lowering cong: if_cong)

text \<open>
  Each handler of the pooled version does exactly what its counterpart does with \<open>new\<close> and
  \<open>delete\<close>: with a live pool and a non-null object, forgetting the pools in its outcome gives the outcome of
  the counterpart, on every branch and for every failure.
\<close>

theorem pooled_handlers_refine:
  assumes "mp_pools (world fi) (Server_mempool (world fi)) = Some ms"
    and "mp_pools (world fi) (Client_mempool (world fi)) = Some mc" and "0 < stateData (st fi)"
  shows "lowered (mp_server_runHello ops pkt fi) = hb3_server_runHello pkt (lower fi) \<and>
    lowered (mp_server_runBye ops pkt fi) = hb3_server_runBye pkt (lower fi) \<and>
    lowered (mp_client_runHello pkt fi) = hb3_client_runHello pkt (lower fi) \<and>
    lowered (mp_client_runBye ops pkt fi) = hb3_client_runBye pkt (lower fi) \<and>
    lowered (mp_client_runRecvBye ops pkt fi) = hb3_client_runRecvBye pkt (lower fi)"
  using assms server_lowered [of fi ms]
  by (intro conjI)
    (simp_all add: mp_client_runHello_def hb3_client_runHello_def mp_client_runBye_def hb3_client_runBye_def
      mp_client_runRecvBye_def hb3_client_runRecvBye_def mp_lowering cong: if_cong)

text \<open>Like their counterparts, the handlers meet the contract of the state machine.\<close>

lemma mp_terminate_frame: "fi_ok fi \<Longrightarrow> mp_terminate ops pl sid fi = ret fi' \<Longrightarrow> fi_frame fi fi'"
  by (auto simp: mp_terminate_def Let_def rbind_eq_ret intro!: fi_frame_same)

lemmas mp_run_defs = mp_server_runHello_def mp_server_runBye_def mp_client_runHello_def mp_client_runBye_def
  mp_client_runRecvBye_def

interpretation mp_s_hello: state_function "mp_server_runHello ops" for ops
  by unfold_locales (auto simp: mp_run_defs Let_def rbind_eq_ret split: if_splits
      intro: mp_terminate_frame fi_frame_same)

interpretation mp_s_bye: state_function "mp_server_runBye ops" for ops
  by unfold_locales (auto simp: mp_run_defs Let_def rbind_eq_ret split: if_splits
      intro: mp_terminate_frame fi_frame_same)

interpretation mp_c_hello: state_function mp_client_runHello
  by unfold_locales (auto simp: mp_run_defs Let_def rbind_eq_ret intro!: fi_frame_same)

interpretation mp_c_bye: state_function "mp_client_runBye ops" for ops
  by unfold_locales (auto simp: mp_run_defs Let_def rbind_eq_ret split: if_splits
      intro: mp_terminate_frame fi_frame_same)

interpretation mp_c_recvbye: state_function "mp_client_runRecvBye ops" for ops
  by unfold_locales (auto simp: mp_run_defs Let_def rbind_eq_ret split: if_splits
      intro: mp_terminate_frame fi_frame_same)

section \<open>The balance of a pool\<close>

text \<open>The outcome of a handler: the object is kept, or given back on the way to the end state.\<close>

definition pool_outcome ::
  "('m \<Rightarrow> bool) \<Rightarrow> ('m \<Rightarrow> ptr set) \<Rightarrow> ('m \<Rightarrow> ptr set) \<Rightarrow> ptr \<Rightarrow> ptr set \<Rightarrow> StateID \<Rightarrow> 'm mp_fi \<Rightarrow> 'm mp_fi \<Rightarrow> bool" where
  "pool_outcome mok own avail pl E sid fi fi' \<longleftrightarrow> balanced mok own avail pl E (world fi') \<and>
     (state (st fi') = sid \<longleftrightarrow> w_heap (hw (world fi')) (stateData (st fi)) = None) \<and>
     (\<forall>q. q \<noteq> stateData (st fi) \<longrightarrow> w_heap (hw (world fi')) q = w_heap (hw (world fi)) q)"

context mempool
begin

lemma own_pos: "balanced mok own avail pl E w \<Longrightarrow> p \<in> E \<Longrightarrow> 0 < p"
  using avail_own by (auto simp: balanced_def intro: gr0I)

lemma put_outcome:
  assumes "balanced mok own avail pl E w" and "p \<in> E" and "w_heap (hw w) p \<noteq> None"
  obtains w' where "rte_mempool_put ops pl p w = ret w'" "balanced mok own avail pl E w'"
    "w_heap (hw w') = (w_heap (hw w))(p := None)"
proof -
  obtain w' where w': "rte_mempool_put ops pl p w = ret w'" "balanced mok own avail pl E w'"
    using balanced_put [OF assms] by blast
  moreover have "w_heap (hw w') = (w_heap (hw w))(p := None)"
    using w'(1) by (auto simp: rte_mempool_put_def the_pool_def rbind_eq_ret split: option.splits if_splits)
  ultimately show ?thesis using that by blast
qed

lemma terminate_outcome:
  assumes "balanced mok own avail pl E (world fi)" and "stateData (st fi) \<in> E"
    and "w_heap (hw (world fi)) (stateData (st fi)) \<noteq> None"
  shows "\<exists>fi'. mp_terminate ops pl sid fi = ret fi' \<and> pool_outcome mok own avail pl E sid fi fi'"
proof -
  obtain w' where "rte_mempool_put ops pl (stateData (st fi)) (world fi) = ret w'" "balanced mok own avail pl E w'"
    "w_heap (hw w') = (w_heap (hw (world fi)))(stateData (st fi) := None)"
    by (rule put_outcome [OF assms])
  then show ?thesis by (simp add: mp_terminate_def Let_def pool_outcome_def freePkt_def transition_def)
qed

lemma writeData_heap: "writeData pkt m h = ret h' \<Longrightarrow> w_heap h' = w_heap h"
  by (auto simp: writeData_def split: option.splits)

lemma keep_outcome:
  assumes "balanced mok own avail pl E (world fi)" and "w_heap (hw (world fi)) (stateData (st fi)) = Some ob"
    and "sid' \<noteq> sid" and "ob' = Some x"
  shows "pool_outcome mok own avail pl E sid fi (transition sid' (fi\<lparr>world := (world fi)\<lparr>hw := (hw (world fi))
      \<lparr>w_heap := (w_heap (hw (world fi)))(stateData (st fi) := ob'), w_pkts := P\<rparr>\<rparr>\<rparr>))"
  using balanced_keep [OF assms(1)] assms(2-) by (simp add: pool_outcome_def)

lemma end_outcome:
  assumes bal: "balanced mok own avail pl E (world fi)" and p: "stateData (st fi) \<in> E"
    and ob: "w_heap (hw (world fi)) (stateData (st fi)) = Some ob"
  obtains w' where "rte_mempool_put ops pl (stateData (st fi)) ((world fi)\<lparr>hw := (hw (world fi))\<lparr>w_pkts := P\<rparr>\<rparr>) = ret w'"
    and "\<And>fi'. state (st fi') = sid \<Longrightarrow> world fi' = w' \<Longrightarrow> pool_outcome mok own avail pl E sid fi fi'"
proof -
  let ?w = "(world fi)\<lparr>hw := (hw (world fi))\<lparr>w_pkts := P\<rparr>\<rparr>"
  have "balanced mok own avail pl E ?w" by (rule balanced_keep [OF bal]) simp_all
  moreover have "w_heap (hw ?w) (stateData (st fi)) \<noteq> None" using ob by simp
  ultimately obtain w' where "rte_mempool_put ops pl (stateData (st fi)) ?w = ret w'"
    "balanced mok own avail pl E w'" "w_heap (hw w') = (w_heap (hw ?w))(stateData (st fi) := None)"
    using put_outcome p by blast
  then show ?thesis by (intro that [of w']) (auto simp: pool_outcome_def)
qed

text \<open>The factory of a pool that has a free element, and of one that has none.\<close>

lemma factory_takes:
  assumes bal: "balanced mok own avail (Server_mempool w) E w" and some: "\<not> (\<forall>p \<in> E. w_heap (hw w) p \<noteq> None)"
  shows "\<exists>p w'. mp_factory ops cid w = ret (p, w') \<and> p \<in> E \<and> w_heap (hw w) p = None \<and>
    w_heap (hw w') = (w_heap (hw w))(p \<mapsto> ServerObj \<lparr>s_clientCookie = 0, s_serverCookie = fst (rand (hw w)) mod 256\<rparr>) \<and>
    w_pkts (hw w') = w_pkts (hw w) \<and> w_rand (hw w') = w_rand (hw w) \<and> w_rnd (hw w') = w_rnd (hw w) + 1 \<and>
    Server_mempool w' = Server_mempool w \<and> balanced mok own avail (Server_mempool w) E w'"
proof -
  from balanced_get [OF bal] some obtain p m where p: "p \<in> E" "w_heap (hw w) p = None"
    "rte_mempool_get ops (Server_mempool w) w = ret (Some p, w\<lparr>mp_pools := (mp_pools w)(Server_mempool w \<mapsto> m)\<rparr>)"
    "mok m" "own m = E" "\<forall>q \<in> E. q \<in> avail m \<longleftrightarrow> w_heap (hw w) q = None \<and> q \<noteq> p" by blast
  have "mp_factory ops cid w = ret (p, w\<lparr>mp_pools := (mp_pools w)(Server_mempool w \<mapsto> m),
      hw := heap_put p (ServerObj \<lparr>s_clientCookie = 0, s_serverCookie = fst (rand (hw w)) mod 256\<rparr>) (snd (rand (hw w)))\<rparr>)"
    using p by (simp add: mp_factory_def mp_rand_def mp_put_obj_def split: prod.split)
  then show ?thesis using p by (auto simp: balanced_def heap_put_def rand_def)
qed

lemma factory_throws:
  assumes "balanced mok own avail (Server_mempool w) E w" and "\<forall>p \<in> E. w_heap (hw w) p \<noteq> None"
  shows "mp_factory ops cid w = fail Thrown"
  using balanced_get [OF assms(1)] assms(2) by (auto simp: mp_factory_def)

lemma server_outcomes:
  assumes bal: "balanced mok own avail (Server_mempool (world fi)) E (world fi)" and p: "stateData (st fi) \<in> E"
    and ob: "w_heap (hw (world fi)) (stateData (st fi)) = Some (ServerObj s)"
    and b: "w_pkts (hw (world fi)) pkt = Some b"
  shows "\<exists>fi'. mp_server_runHello ops pkt fi = ret fi' \<and>
      pool_outcome mok own avail (Server_mempool (world fi)) E S_Terminate fi fi'"
    and "\<exists>fi'. mp_server_runBye ops pkt fi = ret fi' \<and>
      pool_outcome mok own avail (Server_mempool (world fi)) E S_Terminate fi fi'"
proof -
  note T = terminate_outcome [OF bal p, of S_Terminate]
  let ?P = "pool_outcome mok own avail (Server_mempool (world fi)) E S_Terminate fi"
  have ids: "S_Bye \<noteq> S_Terminate" by (simp add: S_Bye_def S_Terminate_def)
  show "\<exists>fi'. mp_server_runHello ops pkt fi = ret fi' \<and> ?P fi'"
    using T ob b keep_outcome [OF bal ob ids] by (auto simp: mp_server_runHello_def Let_def getData_def
        get_server_def heap_get_def mp_writeData_def writeData_def mp_put_obj_def heap_put_def)
  have "\<exists>fi'. rbind (rte_mempool_put ops (Server_mempool (world fi)) (stateData (st fi))
        ((world fi)\<lparr>hw := (hw (world fi))\<lparr>w_pkts := P\<rparr>\<rparr>)) (\<lambda>w. ret ((transition S_Terminate
          (fi\<lparr>world := (world fi)\<lparr>hw := (hw (world fi))\<lparr>w_pkts := P\<rparr>\<rparr>\<rparr>))\<lparr>world := w\<rparr>)) = ret fi' \<and> ?P fi'" for P
    by (rule end_outcome [OF bal p ob, of P S_Terminate]) auto
  then show "\<exists>fi'. mp_server_runBye ops pkt fi = ret fi' \<and> ?P fi'"
    using T ob b by (auto simp: mp_server_runBye_def Let_def getData_def get_server_def heap_get_def
        mp_writeData_def writeData_def)
qed

lemma client_outcomes:
  assumes bal: "balanced mok own avail (Client_mempool (world fi)) E (world fi)" and p: "stateData (st fi) \<in> E"
    and ob: "w_heap (hw (world fi)) (stateData (st fi)) = Some (ClientObj c)"
    and b: "w_pkts (hw (world fi)) pkt = Some b"
  shows "\<exists>fi'. mp_client_runHello pkt fi = ret fi' \<and>
      pool_outcome mok own avail (Client_mempool (world fi)) E C_Terminate fi fi'"
    and "\<exists>fi'. mp_client_runBye ops pkt fi = ret fi' \<and>
      pool_outcome mok own avail (Client_mempool (world fi)) E C_Terminate fi fi'"
    and "\<exists>fi'. mp_client_runRecvBye ops pkt fi = ret fi' \<and>
      pool_outcome mok own avail (Client_mempool (world fi)) E C_Terminate fi fi'"
proof -
  note T = terminate_outcome [OF bal p, of C_Terminate]
  let ?P = "pool_outcome mok own avail (Client_mempool (world fi)) E C_Terminate fi"
  have ids: "C_Bye \<noteq> C_Terminate" "C_RecvBye \<noteq> C_Terminate"
    by (simp_all add: C_Bye_def C_RecvBye_def C_Terminate_def)
  have "?P (transition C_Bye (fi\<lparr>world := (world fi)\<lparr>hw := (hw (world fi))\<lparr>w_pkts := P\<rparr>\<rparr>\<rparr>))" for P
    using keep_outcome [OF bal ob ids(1) ob, of P] by (simp add: fun_upd_idem)
  then show "\<exists>fi'. mp_client_runHello pkt fi = ret fi' \<and> ?P fi'"
    using ob b by (simp add: mp_client_runHello_def Let_def getData_def getDataLen_def get_client_def
        heap_get_def mp_writeData_def writeData_def)
  show "\<exists>fi'. mp_client_runBye ops pkt fi = ret fi' \<and> ?P fi'"
    using T ob b keep_outcome [OF bal ob ids(2)] by (auto simp: mp_client_runBye_def Let_def getData_def
        get_client_def heap_get_def mp_writeData_def writeData_def mp_put_obj_def heap_put_def)
  have "\<exists>fi'. rbind (rte_mempool_put ops (Client_mempool (world fi)) (stateData (st fi)) (world fi))
      (\<lambda>w. ret ((transition C_Terminate (freePkt fi))\<lparr>world := w\<rparr>)) = ret fi' \<and> ?P fi'"
    by (rule end_outcome [OF bal p ob, of "w_pkts (hw (world fi))" C_Terminate]) auto
  then show "\<exists>fi'. mp_client_runRecvBye ops pkt fi = ret fi' \<and> ?P fi'"
    using T ob b by (auto simp: mp_client_runRecvBye_def Let_def getData_def get_client_def heap_get_def)
qed

end

section \<open>Properties\<close>

text \<open>
  C20.  Handlers keep the pool balanced: on an object of the pool and a packet that exists, each
  handler returns, the free elements are again those that hold no object, no other object is touched, and the
  object is given back exactly when the connection reaches its end state.
\<close>

theorem pool_stays_balanced:
  assumes "mempool ops mok own avail" and "stateData (st fi) \<in> E" and "pkt \<in> dom (w_pkts (hw (world fi)))"
  shows "(balanced mok own avail (Server_mempool (world fi)) E (world fi) \<and>
      w_heap (hw (world fi)) (stateData (st fi)) = Some (ServerObj s) \<longrightarrow>
      (\<forall>f \<in> {mp_server_runHello ops, mp_server_runBye ops}. \<exists>fi'. f pkt fi = ret fi' \<and>
        pool_outcome mok own avail (Server_mempool (world fi)) E S_Terminate fi fi')) \<and>
    (balanced mok own avail (Client_mempool (world fi)) E (world fi) \<and>
      w_heap (hw (world fi)) (stateData (st fi)) = Some (ClientObj c) \<longrightarrow>
      (\<forall>f \<in> {mp_client_runHello, mp_client_runBye ops, mp_client_runRecvBye ops}. \<exists>fi'. f pkt fi = ret fi' \<and>
        pool_outcome mok own avail (Client_mempool (world fi)) E C_Terminate fi fi'))"
proof -
  obtain b where b: "w_pkts (hw (world fi)) pkt = Some b" using assms(3) by blast
  show ?thesis
    using mempool.server_outcomes [OF assms(1) _ assms(2) _ b] mempool.client_outcomes [OF assms(1) _ assms(2) _ b]
    by simp
qed

text \<open>
  A server has at most as many connections as its pool has elements.  While an element is
  free, opening a connection takes one that holds no object and stores the new object in it; when none is left,
  the factory throws (an exception no one catches, so the process ends).
\<close>

theorem pool_bounds_connections:
  assumes "mempool ops mok own avail" and "balanced mok own avail (Server_mempool w) E w"
  shows "card {p \<in> E. w_heap (hw w) p \<noteq> None} \<le> card E \<and>
    (card {p \<in> E. w_heap (hw w) p \<noteq> None} < card E \<longrightarrow>
      (\<exists>p w'. mp_factory ops cid w = ret (p, w') \<and> p \<in> E \<and> w_heap (hw w) p = None \<and>
        w_heap (hw w') = (w_heap (hw w))(p \<mapsto> ServerObj \<lparr>s_clientCookie = 0, s_serverCookie = fst (rand (hw w)) mod 256\<rparr>) \<and>
        Server_mempool w' = Server_mempool w \<and> balanced mok own avail (Server_mempool w) E w')) \<and>
    (card {p \<in> E. w_heap (hw w) p \<noteq> None} = card E \<longrightarrow> mp_factory ops cid w = fail Thrown)"
proof -
  note fin = mempool.objects_bounded [OF assms]
  have all: "card {p \<in> E. w_heap (hw w) p \<noteq> None} = card E \<longleftrightarrow> (\<forall>p \<in> E. w_heap (hw w) p \<noteq> None)"
    using fin card_subset_eq [of E "{p \<in> E. w_heap (hw w) p \<noteq> None}"] by (auto simp: subset_eq intro: arg_cong [where f = card])
  show ?thesis
  proof (cases "\<forall>p \<in> E. w_heap (hw w) p \<noteq> None")
    case True
    then show ?thesis using fin all mempool.factory_throws [OF assms True] by simp
  next
    case False
    from mempool.factory_takes [OF assms False, of cid] show ?thesis using fin all False by (elim exE conjE) simp
  qed
qed

text \<open>A server that finds no pool creates one of 8192 elements.\<close>

lemma server_init_balanced:
  assumes "mempool ops mok own avail" and "Server_mempool w = 0" and "w_heap (hw w) = Map.empty" and "0 < mp_next w"
    and "mpo_create ops ''Server MemPool'' 8192 sizeof_server (mp_pools w) = Some m"
  shows "\<exists>w'. HelloBye3MemPool_Server_init ops env w = ret (mp_server_table ops env, w') \<and>
    hw w' = hw w \<and> balanced mok own avail (Server_mempool w') (own m) w' \<and> card (own m) = 8192"
proof -
  have "mok m \<and> avail m = own m \<and> card (own m) = unat (8192 :: u32)"
    using mempool.create_new [OF assms(1,5)] .
  then show ?thesis
    using assms by (simp add: HelloBye3MemPool_Server_init_def rte_mempool_create_def balanced_def)
qed

text \<open>
  Freeing a server leaves a dangling pool behind: the static pointer still names the freed
  pool, so a server that is initialised afterwards takes it for a live one and creates none, its first
  new connection reads a freed pool, and freeing it frees the pool a second time.
\<close>

theorem freed_pool_is_used_again:
  assumes "Server_mempool w \<noteq> 0" and "HelloBye3MemPool_Server_free w = ret w'"
  shows "HelloBye3MemPool_Server_init ops env w' = ret (mp_server_table ops env, w') \<and>
    mp_factory ops cid w' = fail Dangling \<and> HelloBye3MemPool_Server_free w' = fail Dangling"
  using assms by (auto simp: HelloBye3MemPool_Server_free_def rte_mempool_free_def rbind_eq_ret
      HelloBye3MemPool_Server_init_def mp_factory_def rte_mempool_get_def the_pool_def)

section \<open>Examples\<close>

text \<open>A pool of two elements, the free ones \<open>fr\<close>, and the packet of the examples of \<open>Hello_Bye3\<close>.\<close>

definition mp_ex_world :: "ptr list \<Rightarrow> (ptr \<rightharpoonup> hb_obj) \<Rightarrow> list_pool mp_world" where
  "mp_ex_world fr h = \<lparr>hw = (hb_ex_world 0)\<lparr>w_heap := h\<rparr>, mp_pools = [1 \<mapsto> ([1, 2], fr), 2 \<mapsto> ([3], [3])],
     mp_next = 3, Server_mempool = 1, Client_mempool = 2\<rparr>"

definition mp_ex_fi :: "list_pool mp_fi" where
  "mp_ex_fi = new_FunIface \<lparr>getPktCB = None, curTimeoutID = 0, timeoutsQ = [], timeoutFunctions = Map.empty\<rparr>
     0 (c_batch (hb_ex_ctx 0)) 5 (State_of S_Hello 1)
     (mp_ex_world [2] [1 \<mapsto> ServerObj \<lparr>s_clientCookie = 0, s_serverCookie = 7\<rparr>])"

lemma mp_ex_balanced:
  "(\<forall>p \<in> {1, 2}. p \<in> set fr \<longleftrightarrow> h p = None) \<Longrightarrow> distinct fr \<Longrightarrow> set fr \<subseteq> {1, 2} \<Longrightarrow>
   balanced list_pool_inv (\<lambda>m. set (fst m)) (\<lambda>m. set (snd m)) 1 {1, 2} (mp_ex_world fr h)"
  by (simp add: balanced_def mp_ex_world_def list_pool_inv_def)

lemma mp_ex_fi_simps [simp]:
  "world mp_ex_fi = mp_ex_world [2] [1 \<mapsto> ServerObj \<lparr>s_clientCookie = 0, s_serverCookie = 7\<rparr>]"
  "stateData (st mp_ex_fi) = 1" "Server_mempool (mp_ex_world fr h) = 1" "w_heap (hw (mp_ex_world fr h)) = h"
  "w_pkts (hw (mp_ex_world fr h)) = w_pkts (hb_ex_world 0)"
  by (simp_all add: mp_ex_fi_def new_FunIface_def State_of_def mp_ex_world_def)

theorem pooled_handlers_refine_witness:
  "lowered (mp_server_runHello list_pool_ops 1 mp_ex_fi) = hb3_server_runHello 1 (lower mp_ex_fi)"
  using pooled_handlers_refine [of mp_ex_fi "([1, 2], [2])" "([3], [3])" list_pool_ops 1]
  by (simp add: mp_ex_world_def)

theorem pool_stays_balanced_witness:
  "\<exists>fi'. mp_server_runBye list_pool_ops 1 mp_ex_fi = ret fi' \<and>
     pool_outcome list_pool_inv (\<lambda>m. set (fst m)) (\<lambda>m. set (snd m)) 1 {1, 2} S_Terminate mp_ex_fi fi'"
  using pool_stays_balanced [OF list_pool.mempool_axioms, of mp_ex_fi "{1, 2}" 1
      "\<lparr>s_clientCookie = 0, s_serverCookie = 7\<rparr>"] mp_ex_balanced
  by (simp add: hb_ex_world_def)

theorem pool_bounds_connections_witness:
  "mp_factory list_pool_ops 5 (mp_ex_world [] [1 \<mapsto> ServerObj \<lparr>s_clientCookie = 0, s_serverCookie = 7\<rparr>,
     2 \<mapsto> ServerObj \<lparr>s_clientCookie = 0, s_serverCookie = 9\<rparr>]) = fail Thrown"
proof -
  let ?w = "mp_ex_world [] [1 \<mapsto> ServerObj \<lparr>s_clientCookie = 0, s_serverCookie = 7\<rparr>,
     2 \<mapsto> ServerObj \<lparr>s_clientCookie = 0, s_serverCookie = 9\<rparr>]"
  have "balanced list_pool_inv (\<lambda>m. set (fst m)) (\<lambda>m. set (snd m)) (Server_mempool ?w) {1, 2} ?w"
    using mp_ex_balanced by simp
  moreover have "{p \<in> {1, 2 :: nat}. w_heap (hw ?w) p \<noteq> None} = {1, 2}" by auto
  ultimately show ?thesis
    using pool_bounds_connections [OF list_pool.mempool_axioms, of ?w "{1, 2}"] by simp
qed

theorem freed_pool_is_used_again_witness:
  "\<exists>w'. HelloBye3MemPool_Server_free (mp_ex_world [1, 2] Map.empty) = ret w' \<and>
     mp_factory list_pool_ops 5 w' = fail Dangling"
proof -
  have "\<exists>w'. HelloBye3MemPool_Server_free (mp_ex_world [1, 2] Map.empty) = ret w'"
    by (simp add: HelloBye3MemPool_Server_free_def rte_mempool_free_def the_pool_def mp_ex_world_def)
  then show ?thesis using freed_pool_is_used_again [of "mp_ex_world [1, 2] Map.empty"] by fastforce
qed

end
