(* ===== verification/Mem_Pool_Service.thy ===== *)
theory Mem_Pool_Service
  imports Hello_Bye_Service Mem_Pool_Props
begin

text \<open>
  The pooled server from its start.  It implements the same service as the others with one difference, the
  capacity: at 8192 connections the service is full.  As long as it never is, the server reports what the unpooled
  ones report; the first connection beyond stops the service, and the server with it, with an exception.
\<close>

section \<open>What a version has to show\<close>

definition mp_put_pkts :: "(ptr \<rightharpoonup> mbuf) \<Rightarrow> 'm mp_world \<Rightarrow> 'm mp_world" where
  "mp_put_pkts P w = w\<lparr>hw := put_pkts P (hw w)\<rparr>"

text \<open>The server's pool is balanced, and all objects are elements of it.\<close>

definition pool_ok ::
  "('m \<Rightarrow> bool) \<Rightarrow> ('m \<Rightarrow> ptr set) \<Rightarrow> ('m \<Rightarrow> ptr set) \<Rightarrow> ptr set \<Rightarrow> 'm mp_world \<Rightarrow> bool" where
  "pool_ok mok elems avail E w \<longleftrightarrow> balanced mok elems avail (Server_mempool w) E w \<and> dom (w_heap (hw w)) \<subseteq> E"

definition pooled_fun :: "'m mempool_ops \<Rightarrow> StateID \<Rightarrow> 'm mp_fun" where
  "pooled_fun ops sid = (if sid = S_Hello then mp_server_runHello ops else mp_server_runBye ops)"

lemma lower_keeps: "sendPkt (lower fi) = sendPkt fi"
  by (simp add: lower_def)

lemma mp_put_static: "rte_mempool_put ops pl p w = ret w' \<Longrightarrow> Server_mempool w' = Server_mempool w"
  by (auto simp: rte_mempool_put_def rbind_eq_ret split: option.splits if_splits)

text \<open>The handlers leave the batch, the state machine and the static pointer alone.\<close>

lemma mp_write_static: "mp_writeData p m w = ret w' \<Longrightarrow> Server_mempool w' = Server_mempool w"
  by (auto simp: mp_writeData_def rbind_eq_ret)

lemma mp_end_static:
  "mp_writeData p m w = ret w1 \<Longrightarrow> rte_mempool_put ops pl q w1 = ret w2 \<Longrightarrow> Server_mempool w2 = Server_mempool w"
  using mp_write_static mp_put_static by metis

definition quiet_pool :: "'m mp_fi \<Rightarrow> 'm mp_fi \<Rightarrow> bool" where
  "quiet_pool fi fi' \<longleftrightarrow> quiet fi fi' \<and> Server_mempool (world fi') = Server_mempool (world fi)"

lemma quiet_pool_world:
  "Server_mempool w = Server_mempool (world fi) \<Longrightarrow> quiet_pool fi (transition sid (fi\<lparr>world := w\<rparr>))"
  "Server_mempool w = Server_mempool (world fi) \<Longrightarrow> quiet_pool fi ((transition sid fi)\<lparr>world := w\<rparr>)"
  by (simp_all add: quiet_pool_def quiet_def)

lemma quiet_terminate: "mp_terminate ops pl sid fi = ret fi' \<Longrightarrow> quiet_pool fi fi'"
  by (auto simp: mp_terminate_def Let_def rbind_eq_ret quiet_pool_def quiet_def dest: mp_put_static)

lemma pooled_quiet:
  "mp_server_runHello ops p fi = ret fi' \<Longrightarrow> quiet_pool fi fi'"
  "mp_server_runBye ops p fi = ret fi' \<Longrightarrow> quiet_pool fi fi'"
proof -
  show "mp_server_runHello ops p fi = ret fi' \<Longrightarrow> quiet_pool fi fi'"
    unfolding mp_server_runHello_def Let_def rbind_eq_ret
    by (auto simp: mp_put_obj_def rbind_eq_ret split: if_splits intro!: quiet_pool_world
        dest: quiet_terminate mp_write_static)
  show "mp_server_runBye ops p fi = ret fi' \<Longrightarrow> quiet_pool fi fi'"
    unfolding mp_server_runBye_def Let_def rbind_eq_ret
    by (auto simp: rbind_eq_ret split: if_splits dest: quiet_terminate)
      (auto simp: quiet_pool_def quiet_def intro: mp_end_static)
qed

context mempool
begin

lemma pooled_effect:
  assumes ok: "pool_ok mok own avail E (world fi)" and x: "w_heap (hw (world fi)) (stateData (st fi)) = Some (ServerObj v)"
    and b: "w_pkts (hw (world fi)) p = Some b" and sp: "sendPkt fi" and sid: "sid = S_Hello \<or> sid = S_Bye"
  shows "\<exists>fi'. pooled_fun ops sid p fi = ret fi' \<and> server_effect hw obj3 p b sid v fi fi' \<and>
    pool_ok mok own avail E (world fi')"
proof -
  let ?pl = "Server_mempool (world fi)"
  have bal: "balanced mok own avail ?pl E (world fi)" and e: "stateData (st fi) \<in> E"
    using ok x by (auto simp: pool_ok_def)
  obtain m where m: "mp_pools (world fi) ?pl = Some m" using bal by (auto simp: balanced_def)
  have pos: "0 < stateData (st fi)" using own_pos [OF bal e] .
  from server_outcomes [OF bal e x b] obtain fi' where f: "pooled_fun ops sid p fi = ret fi'"
    and bal': "balanced mok own avail ?pl E (world fi')"
    by (cases "sid = S_Hello") (auto simp: pooled_fun_def pool_outcome_def)
  have "quiet_pool fi fi'" using pooled_quiet [of ops p fi fi'] f by (auto simp: pooled_fun_def split: if_splits)
  then have q: "quiet fi fi'" "Server_mempool (world fi') = ?pl" by (simp_all add: quiet_pool_def)
  have "server3_fun sid p (lower fi) = ret (lower fi')"
    using server_lowered [OF m pos, of ops p] f by (auto simp: pooled_fun_def server3_fun_def split: if_splits)
  with server3_effect [of "lower fi" p b v sid] x b sp pos sid
  have l: "server_effect (\<lambda>w. w) obj3 p b sid v (lower fi) (lower fi')"
    and d: "dom (w_heap (hw (world fi'))) \<subseteq> dom (w_heap (hw (world fi)))" by (auto simp: lower_keeps)
  have "server_effect hw obj3 p b sid v fi fi'" using l q(1) unfolding answer_effect_def lower_simps lower_keeps by simp
  moreover have "pool_ok mok own avail E (world fi')" using bal' q(2) d ok by (auto simp: pool_ok_def)
  ultimately show ?thesis using f by blast
qed

end

definition pooled_functions :: "'m mempool_ops \<Rightarrow> 'm mp_fun option list" where
  "pooled_functions ops = [Some (mp_server_runHello ops), Some (mp_server_runBye ops)]"

lemma pooled_at: "sid = S_Hello \<or> sid = S_Bye \<Longrightarrow> fun_at (pooled_functions ops) sid (pooled_fun ops sid)"
  by (auto simp: fun_at_def pooled_functions_def pooled_fun_def S_Hello_def S_Bye_def)

lemma pooled_conf: "conf_is (pooled_functions ops) (Some (mp_factory ops)) S_Hello S_Terminate (mp_server_table ops env)"
  by (simp add: conf_is_def plain_smi_def mp_server_table_def registerFunction_def registerEndStateID_def
      registerStartStateID_def new_StateMachine_def pooled_functions_def S_Hello_def S_Bye_def S_Terminate_def Let_def)

lemma pooled_table: "stateTable (mp_server_table ops env) = hm_empty (dense env)"
  by (simp add: mp_server_table_def registerFunction_def registerEndStateID_def
      registerStartStateID_def new_StateMachine_def Let_def)

lemma mp_maps:
  assumes "hash_map d tinv key_ok" and "hash_map n pinv (\<lambda>_. True)"
  shows "machine_maps (mp_env d n clk) tinv pinv key_ok"
  using assms by (simp add: machine_maps_def mp_env_def)

context mempool
begin

text \<open>A pool has a free element exactly when there are fewer connections than elements.\<close>

lemma pool_full:
  assumes ok: "pool_ok mok own avail E w" and t: "tracks {} t (w_heap (hw w))"
  shows "card (dom t) = card E \<longleftrightarrow> (\<forall>p \<in> E. w_heap (hw w) p \<noteq> None)"
proof -
  have "finite E" using ok objects_bounded by (auto simp: pool_ok_def)
  moreover have "dom (w_heap (hw w)) \<subseteq> E" using ok by (simp add: pool_ok_def)
  ultimately have "card (dom (w_heap (hw w))) = card E \<longleftrightarrow> dom (w_heap (hw w)) = E" using card_subset_eq by metis
  also have "\<dots> \<longleftrightarrow> (\<forall>p \<in> E. w_heap (hw w) p \<noteq> None)" using \<open>dom (w_heap (hw w)) \<subseteq> E\<close> by (auto simp: domIff)
  finally show ?thesis by (simp add: tracks_card [OF t])
qed

lemma pooled_version:
  assumes "hash_map d tinv key_ok" and "hash_map n pinv (\<lambda>_. True)"
  shows "hb_version (mp_env d n clk) tinv pinv key_ok (pooled_functions ops) (mp_factory ops) hw mp_put_pkts {} obj3 rnd
    (\<lambda>k. k = card E) (\<lambda>t w. pool_ok mok own avail E w)"
proof (intro hb_version.intro hb_version_axioms.intro mp_maps [OF assms])
  fix s t w c
  assume r: "represents {} obj3 rnd s t (hw w)" and ok: "pool_ok mok own avail E w"
  then have t: "tracks {} t (w_heap (hw w))" and bal: "balanced mok own avail (Server_mempool w) E w"
    by (simp_all add: represents_def pool_ok_def)
  { assume "card (dom t) = card E"
    then show "mp_factory ops c w = fail Thrown" using pool_full [OF ok t] by (intro factory_throws [OF bal]) simp }
  assume "card (dom t) \<noteq> card E"
  then have free: "\<not> (\<forall>p \<in> E. w_heap (hw w) p \<noteq> None)" using pool_full [OF ok t] by blast
  let ?x = "ServerObj \<lparr>s_clientCookie = 0, s_serverCookie = fst (rand (hw w)) mod 256\<rparr>"
  from factory_takes [OF bal free, of c] obtain p v where f: "mp_factory ops c w = ret (p, v)" "p \<in> E" "w_heap (hw w) p = None"
    "w_heap (hw v) = (w_heap (hw w))(p \<mapsto> ?x)" "w_pkts (hw v) = w_pkts (hw w)" "w_rand (hw v) = w_rand (hw w)"
    "w_rnd (hw v) = w_rnd (hw w) + 1" "Server_mempool v = Server_mempool w" "balanced mok own avail (Server_mempool w) E v"
    by blast
  moreover have "pool_ok mok own avail E v" using f ok by (simp add: pool_ok_def)
  moreover have "obj3 S_Hello (first_cookies rnd (a_rnd s)) ?x"
    using r by (simp add: obj3_def first_cookies_def rand_def represents_def)
  ultimately show "\<exists>p v x. mp_factory ops c w = ret (p, v) \<and> w_heap (hw w) p = None \<and>
      obj3 S_Hello (first_cookies rnd (a_rnd s)) x \<and> w_heap (hw v) = (w_heap (hw w))(p \<mapsto> x) \<and> w_pkts (hw v) = w_pkts (hw w) \<and>
      w_rand (hw v) = w_rand (hw w) \<and> w_rnd (hw v) = w_rnd (hw w) + 1 \<and> pool_ok mok own avail E v"
    by blast
next
  fix s t w c x v p b i ba and a :: State
  assume "pool_ok mok own avail E w" "w_heap (hw w) (stateData a) = Some x" "obj3 (state a) v x"
    and sid: "state a = S_Hello \<or> state a = S_Bye" and "w_pkts (hw w) p = Some b"
  then show "\<exists>f fi. fun_at (pooled_functions ops) (state a) f \<and> f p (call_of i ba c a w) = ret fi \<and>
      server_effect hw obj3 p b (state a) v (call_of i ba c a w) fi \<and> pool_ok mok own avail E (world fi)"
    using pooled_effect [of E "call_of i ba c a w" v p b "state a"] pooled_at [OF sid] by (auto simp: obj3_def)
qed (auto simp: mp_env_def pkt_ident_def mp_identify_def hb3_identify_def mp_put_pkts_def pool_ok_def balanced_def
    obj3_def split: option.splits)

end

interpretation pooled_lists: hb_version "mp_env alist_ops alist_ops clk" "alist_inv ok" "alist_inv (\<lambda>_. True)" ok
  "pooled_functions list_pool_ops" "mp_factory list_pool_ops" hw mp_put_pkts "{}" obj3 rnd "\<lambda>k. k = card E"
  "\<lambda>t w. pool_ok list_pool_inv (\<lambda>m. set (fst m)) (\<lambda>m. set (snd m)) E w" for clk ok rnd E
  by (rule list_pool.pooled_version) (rule alist.hash_map_axioms)+

section \<open>The pooled server\<close>

definition mp_serve ::
  "('m, 't, 'n) mp_env \<Rightarrow> (ptr list \<times> (ptr \<rightharpoonup> mbuf)) list \<Rightarrow> ('m, 't, 'n) mp_ctx \<Rightarrow> ((ptr, mbuf) report list \<times> ('m, 't, 'n) mp_ctx) res" where
  "mp_serve env = serve (\<lambda>w. w_pkts (hw w)) mp_put_pkts (HelloBye3MemPool_Server_process env) HelloBye3MemPool_Server_getPkts"

text \<open>From the C function that configures the server to its last batch.\<close>

definition mp_session ::
  "'m mempool_ops \<Rightarrow> ('m, 't, 'n) mp_env \<Rightarrow> ptr bufArray \<Rightarrow> (ptr list \<times> (ptr \<rightharpoonup> mbuf)) list \<Rightarrow> 'm mp_world \<Rightarrow>
     ((ptr, mbuf) report list \<times> ('m, 't, 'n) mp_ctx) res" where
  "mp_session ops env ba bs w = rbind (HelloBye3MemPool_Server_init ops env w) (\<lambda>(sm, w).
     mp_serve env bs (fresh_ctx (poolOps env) sm ba w))"

lemma process_pooled:
  "HelloBye3MemPool_Server_process = process_batch" "HelloBye3MemPool_Server_getPkts = take_packets"
  by (simp_all add: fun_eq_iff HelloBye3MemPool_Server_process_def HelloBye3MemPool_Server_getPkts_def
      process_batch_def take_packets_def)

text \<open>
  C15.  The pooled server is the service with a capacity of 8192 connections.  Configured in a program that has
  no pool yet and given any batches, it reports what the service reports, batch for batch, as long as the service
  accepts every new connection, and then holds exactly one pool element for each connection;
  when the service is asked for connection 8193, both stop with an exception, on the same packet.
\<close>

theorem pooled_server_implements_service:
  assumes "mempool ops mok elems avail" and "hash_map d tinv key_ok" and "hash_map n pinv (\<lambda>_. True)"
    and "Server_mempool w = 0" and "0 < mp_next w" and "hw w = hb3_boot rnd"
    and "mpo_create ops ''Server MemPool'' 8192 sizeof_server (mp_pools w) = Some m"
    and "\<forall>b \<in> set bs. admissible key_ok pkt_ident b"
  shows "(\<exists>out s x. hb_spec_serve rnd (\<lambda>k. k = 8192) bs = ret (out, s) \<and>
      mp_session ops (mp_env d n clk) ba bs w = ret (out, x) \<and> dom (known (mp_env d n clk) x) = dom (a_conns s) \<and>
      tracks {} (known (mp_env d n clk) x) (w_heap (hw (c_world x)))) \<or>
    hb_spec_serve rnd (\<lambda>k. k = 8192) bs = fail Thrown \<and> mp_session ops (mp_env d n clk) ba bs w = fail Thrown"
proof -
  let ?env = "mp_env d n clk"
  have empty: "w_heap (hw w) = Map.empty" using assms(6) by (simp add: hb3_boot_def)
  from server_init_balanced [OF assms(1,4) empty assms(5,7), of ?env] obtain w1
    where i: "HelloBye3MemPool_Server_init ops ?env w = ret (mp_server_table ops ?env, w1)" "hw w1 = hw w"
      and bal: "balanced mok elems avail (Server_mempool w1) (elems m) w1" and E: "card (elems m) = 8192" by blast
  note V = hb_version.implements [OF mempool.pooled_version [OF assms(1-3), of clk rnd "elems m"]]
  have "represents {} obj3 rnd no_conns Map.empty (hw w1)" "pool_ok mok elems avail (elems m) w1"
    using i(2) assms(6) bal
    by (simp_all add: represents_def no_conns_def hb3_boot_def tracks_def own_objects_def conn_rel_def pool_ok_def)
  moreover have "well_behaved f" if "Some f \<in> set (pooled_functions ops)" for f
    using that mp_s_hello.well_behaved mp_s_bye.well_behaved by (auto simp: pooled_functions_def)
  ultimately have "res_rel (\<lambda>(out, s') (out', x'). out' = out \<and> abs_rel hw {} obj3 rnd
      (\<lambda>t w. pool_ok mok elems avail (elems m) w) s' (known ?env x') (c_world x')) (hb_spec_serve rnd (\<lambda>k. k = card (elems m)) bs)
    (serve (\<lambda>w. w_pkts (hw w)) mp_put_pkts (process_batch ?env) take_packets bs (fresh_ctx (poolOps ?env) (mp_server_table ops ?env) ba w1))"
    unfolding hb_spec_serve_def using assms(8) by (intro conn_version.serves [OF V] pooled_conf) (simp_all add: pooled_table)
  then have r: "res_rel (\<lambda>(out, s') (out', x'). out' = out \<and> abs_rel hw {} obj3 rnd
      (\<lambda>t w. pool_ok mok elems avail (elems m) w) s' (known ?env x') (c_world x')) (hb_spec_serve rnd (\<lambda>k. k = 8192) bs)
    (mp_session ops ?env ba bs w)"
    by (simp add: mp_session_def mp_serve_def process_pooled i(1) E)
  consider (ok) out s where "hb_spec_serve rnd (\<lambda>k. k = 8192) bs = ret (out, s)"
    | (full) "hb_spec_serve rnd (\<lambda>k. k = 8192) bs = fail Thrown"
    using spec_stops [of "\<lambda>k. k = 8192" rnd bs] by (auto simp: stops_with_cases)
  then show ?thesis
  proof cases
    case ok
    then obtain x where x: "mp_session ops ?env ba bs w = ret (out, x)"
      and a: "abs_rel hw {} obj3 rnd (\<lambda>t w. pool_ok mok elems avail (elems m) w) s (known ?env x) (c_world x)"
      using r by auto
    have "tracks {} (known ?env x) (w_heap (hw (c_world x)))"
      using a unfolding abs_rel_def by (simp add: represents_def)
    then show ?thesis using ok x abs_dom [OF a] by blast
  next
    case full
    then show ?thesis using r by (auto simp: rel_sum.simps option.rel_sel)
  qed
qed

text \<open>A program without a pool; its pool has 8192 elements.\<close>

definition mp_ex_boot :: "list_pool mp_world" where
  "mp_ex_boot = \<lparr>hw = hb3_boot (\<lambda>_. 7), mp_pools = Map.empty, mp_next = 1, Server_mempool = 0, Client_mempool = 0\<rparr>"

theorem pooled_server_implements_service_witness:
  "\<exists>r. hb_spec_serve (\<lambda>_. 7) (\<lambda>k. k = 8192) hb_ex_batches = r \<and>
    rbind r (\<lambda>(out, _). ret out) = rbind (mp_session list_pool_ops (mp_env alist_ops alist_ops (\<lambda>w. (0, w)))
      (c_batch (hb_ex_ctx 0)) hb_ex_batches mp_ex_boot) (\<lambda>(out, _). ret out)"
proof -
  have b: "Server_mempool mp_ex_boot = 0" "0 < mp_next mp_ex_boot" "hw mp_ex_boot = hb3_boot (\<lambda>_. 7)"
    and c: "\<exists>m. mpo_create list_pool_ops ''Server MemPool'' 8192 sizeof_server (mp_pools mp_ex_boot) = Some m"
    by (simp_all add: mp_ex_boot_def list_pool_ops_def Let_def)
  obtain m where m: "mpo_create list_pool_ops ''Server MemPool'' 8192 sizeof_server (mp_pools mp_ex_boot) = Some m" using c by blast
  from pooled_server_implements_service [OF list_pool.mempool_axioms alist.hash_map_axioms alist.hash_map_axioms b m hb_ex_admissible,
      of "\<lambda>w. (0, w)" "c_batch (hb_ex_ctx 0)"]
  show ?thesis by auto
qed

end
