(* ===== verification/Hello_Bye1.thy ===== *)
theory Hello_Bye1
  imports Hello_Bye3 Ident
begin

text \<open>
  The first version of the protocol: \<open>include/helloByeProto.hpp\<close>, \<open>src/helloByeProto.cpp\<close>,
  \<open>src/helloByeProtoStatic.cpp\<close> and \<open>src/helloBye_C.cpp\<close>.  Messages are text, a connection is
  identified by its five-tuple, and the numbers of the states are those of the later versions.

  An \<open>int\<close> is a 32-bit word that is read as a signed number when it is printed.  The \<open>run\<close> of the server's
  first state replaces the object by one of the next class; those of the client do not, so
  the later classes of the client work on the \<open>HelloByeClientHello\<close> that \<open>connect\<close> allocated.  A
  client object is therefore its memory, four bytes at offset 0, four at 4 and two at 8,
  which is the layout of all three classes on the target; each class reads and writes its own members there.

  A member that a constructor leaves uninitialised is 0 here; it is written before it is read.

  The static pointer \<open>instance\<close> is a cell at the address \<open>instance_ptr\<close>, null until
  \<open>createInstance\<close> has run.
\<close>

section \<open>Text\<close>

definition ascii :: "string \<Rightarrow> u8 list" where
  "ascii s = map of_char s"

fun show_nat :: "nat \<Rightarrow> u8 list" where
  "show_nat n = (if n < 10 then [48 + of_nat n] else show_nat (n div 10) @ [48 + of_nat (n mod 10)])"

declare show_nat.simps [simp del]

text \<open>An \<open>int\<close> written to a stream.\<close>

definition show_int :: "u32 \<Rightarrow> u8 list" where
  "show_int i = (if sint i < 0 then 45 # show_nat (nat (- sint i)) else show_nat (nat (sint i)))"

definition endl :: "u8 list" where "endl = [10]"

text \<open>\<open>memcmp\<close> with a string literal finds a difference.\<close>

definition differs :: "nat \<Rightarrow> u8 list \<Rightarrow> mem \<Rightarrow> bool" where
  "differs a s m \<longleftrightarrow> load_bytes a (length s) m \<noteq> s"

text \<open>The byte after the literal as a cookie: \<open>static_cast<int>(cookieChar) - 48\<close>.\<close>

definition cookie_at :: "nat \<Rightarrow> u8 list \<Rightarrow> mem \<Rightarrow> u32" where
  "cookie_at a s m = ucast (m (a + length s)) - 48"

section \<open>Objects\<close>

record server1 =
  s1_clientCookie :: u32
  s1_serverCookie :: u32

record client1 =
  cm_0 :: u32   \<comment> \<open>\<open>clientCookie\<close> in all classes\<close>
  cm_4 :: u32   \<comment> \<open>\<open>dstIp\<close> of \<open>HelloByeClientHello\<close>, \<open>serverCookie\<close> of the others\<close>
  cm_8 :: u16   \<comment> \<open>\<open>srcPort\<close> of \<open>HelloByeClientHello\<close>\<close>

record config1 =
  cfg1_srcIp :: u32
  cfg1_dstPort :: u16

datatype hb1_obj = S1Hello server1 | S1Bye server1 | C1Obj client1 | C1Config config1 | Instance ptr

type_synonym hb1_world = "hb1_obj hworld"
type_synonym hb1_fi = "(ConnectionID, ptr, hb1_obj hworld, unit) FunIface"
type_synonym hb1_fun = "(ConnectionID, ptr, hb1_obj hworld, unit) stateFun"

definition as_s1hello :: "ptr \<Rightarrow> hb1_world \<Rightarrow> server1 res" where
  "as_s1hello p w = rbind (heap_get p w) (\<lambda>ob. case ob of S1Hello s \<Rightarrow> ret s | _ \<Rightarrow> fail BadPointer)"

definition as_s1bye :: "ptr \<Rightarrow> hb1_world \<Rightarrow> server1 res" where
  "as_s1bye p w = rbind (heap_get p w) (\<lambda>ob. case ob of S1Bye s \<Rightarrow> ret s | _ \<Rightarrow> fail BadPointer)"

definition as_client1 :: "ptr \<Rightarrow> hb1_world \<Rightarrow> client1 res" where
  "as_client1 p w = rbind (heap_get p w) (\<lambda>ob. case ob of C1Obj c \<Rightarrow> ret c | _ \<Rightarrow> fail BadPointer)"

definition as_config1 :: "ptr \<Rightarrow> hb1_world \<Rightarrow> config1 res" where
  "as_config1 p w = rbind (heap_get p w) (\<lambda>ob. case ob of C1Config c \<Rightarrow> ret c | _ \<Rightarrow> fail BadPointer)"

definition instance_ptr :: ptr where "instance_ptr = 1"

definition getInstance1 :: "hb1_world \<Rightarrow> ptr res" where
  "getInstance1 w =
    rbind (heap_get instance_ptr w) (\<lambda>ob. case ob of Instance p \<Rightarrow> ret p | _ \<Rightarrow> fail BadPointer)"

definition createInstance1 :: "hb1_world \<Rightarrow> hb1_world res" where
  "createInstance1 w =
    rbind (getInstance1 w) (\<lambda>p.
    if p = 0 then
      let (q, w) = heap_new (C1Config \<lparr>cfg1_srcIp = 0, cfg1_dstPort = 0\<rparr>) w
      in ret (heap_put instance_ptr (Instance q) w)
    else ret w)"

section \<open>Server\<close>

definition hb1_factory :: "ConnectionID \<Rightarrow> hb1_world \<Rightarrow> (ptr \<times> hb1_world) res" where
  "hb1_factory cid w =
    (let (r, w) = rand w
     in ret (heap_new (S1Hello \<lparr>s1_clientCookie = 0, s1_serverCookie = r mod 10\<rparr>) w))"

definition ServerHello1_fun :: "ptr \<Rightarrow> hb1_fun" where
  "ServerHello1_fun this pkt fi =
    rbind (getData pkt (world fi)) (\<lambda>m.
    let ether = 0;
        ipv4 = eth_getPayload ether;
        udp = ip_getPayload ipv4 m;
        pl = udp_getPayload udp;
        clientStr = ascii ''CLIENT HELLO:''
    in if differs pl clientStr m then ret (freePkt (transition S_Terminate fi))
       else
         rbind (as_s1hello this (world fi)) (\<lambda>h.
         let h = h\<lparr>s1_clientCookie := cookie_at pl clientStr m\<rparr>;
             w = heap_put this (S1Hello h) (world fi);
             serverHelloStr = ascii ''SERVER HELLO:'' @ show_int (s1_serverCookie h) @ endl;
             m = store_bytes pl serverHelloStr m;
             m = hb_turn_around ipv4 udp m
         in rbind (writeData pkt m w) (\<lambda>w.
            ret (transition S_Bye (fi\<lparr>world := w\<rparr>)))))"

definition ServerBye1 :: "server1 \<Rightarrow> server1" where
  "ServerBye1 h = \<lparr>s1_clientCookie = s1_clientCookie h, s1_serverCookie = s1_serverCookie h\<rparr>"

definition ServerHello1_run :: hb1_fun where
  "ServerHello1_run pkt fi =
    (let t = stateData (st fi) in
     rbind (ServerHello1_fun t pkt fi) (\<lambda>fi.
     if state (st fi) = S_Bye then
       rbind (as_s1hello t (world fi)) (\<lambda>h.
       let (q, w) = heap_new (S1Bye (ServerBye1 h)) (world fi);
           fi = fi\<lparr>st := (st fi)\<lparr>stateData := q\<rparr>, world := w\<rparr>
       in rbind (heap_delete t (world fi)) (\<lambda>w. ret (fi\<lparr>world := w\<rparr>)))
     else if state (st fi) = S_Terminate then rbind (heap_delete t (world fi)) (\<lambda>w. ret (fi\<lparr>world := w\<rparr>))
     else ret fi))"

definition ServerBye1_fun :: "ptr \<Rightarrow> hb1_fun" where
  "ServerBye1_fun this pkt fi =
    rbind (getData pkt (world fi)) (\<lambda>m.
    let ether = 0;
        ipv4 = eth_getPayload ether;
        udp = ip_getPayload ipv4 m;
        pl = udp_getPayload udp;
        clientStr = ascii ''CLIENT BYE:''
    in if differs pl clientStr m then ret (transition S_Terminate fi)
       else
         rbind (as_s1bye this (world fi)) (\<lambda>b.
         let recvCookie = cookie_at pl clientStr m
         in if recvCookie \<noteq> s1_serverCookie b then ret (transition S_Terminate fi)
            else
              let serverByeStr = ascii ''SERVER BYE:'' @ show_int (s1_clientCookie b) @ endl;
                  m = store_bytes pl serverByeStr m;
                  m = hb_turn_around ipv4 udp m
              in rbind (writeData pkt m (world fi)) (\<lambda>w.
                 ret (transition S_Terminate (fi\<lparr>world := w\<rparr>)))))"

definition ServerBye1_run :: hb1_fun where
  "ServerBye1_run pkt fi = (let t = stateData (st fi) in ServerBye1_fun t pkt fi)"

section \<open>Client\<close>

definition ClientHello1 :: "u32 \<Rightarrow> u16 \<Rightarrow> hb1_world \<Rightarrow> client1 \<times> hb1_world" where
  "ClientHello1 dip sport w =
    (let (r, w) = rand w in (\<lparr>cm_0 = r mod 10, cm_4 = dip, cm_8 = sport\<rparr>, w))"

definition ClientHello1_fun :: "ptr \<Rightarrow> hb1_fun" where
  "ClientHello1_fun this pkt fi =
    rbind (getData pkt (world fi)) (\<lambda>m.
    rbind (getDataLen pkt (world fi)) (\<lambda>len.
    rbind (getInstance1 (world fi)) (\<lambda>p.
    rbind (as_client1 this (world fi)) (\<lambda>c.
    rbind (as_config1 p (world fi)) (\<lambda>config.
    let m = (\<lambda>i. if i < unat len then 0 else m i);
        ether = 0;
        ipv4 = eth_getPayload ether;
        m = ip_setVersion ipv4 m;
        m = ip_setIHL ipv4 5 m;
        m = ip_setTTL ipv4 64 m;
        m = ip_setLength ipv4 (100 - 14) m;
        m = ip_setDstIP ipv4 (cm_4 c) m;
        m = ip_setSrcIP ipv4 (cfg1_srcIp config) m;
        m = ip_setProtoUDP ipv4 m;
        m = ip_setChecksum ipv4 0 m;
        udp = ip_getPayload ipv4 m;
        clientHelloStr = ascii ''CLIENT HELLO:'' @ show_int (cm_0 c) @ endl;
        m = store_bytes (udp_getPayload udp) clientHelloStr m;
        m = eth_setEthertype ether 0x0800 m;
        m = udp_setChecksum udp 0 m;
        m = udp_setDstPort udp (cfg1_dstPort config) m;
        m = udp_setSrcPort udp (cm_8 c) m;
        m = udp_setPayloadLength udp 50 m
    in rbind (writeData pkt m (world fi)) (\<lambda>w.
       ret (transition C_Bye (fi\<lparr>world := w\<rparr>))))))))"

definition ClientHello1_run :: hb1_fun where
  "ClientHello1_run pkt fi = (let t = stateData (st fi) in ClientHello1_fun t pkt fi)"

definition ClientBye1_fun :: "ptr \<Rightarrow> hb1_fun" where
  "ClientBye1_fun this pkt fi =
    rbind (getData pkt (world fi)) (\<lambda>m.
    let ether = 0;
        ipv4 = eth_getPayload ether;
        udp = ip_getPayload ipv4 m;
        pl = udp_getPayload udp;
        serverStr = ascii ''SERVER HELLO:''
    in if differs pl serverStr m then ret (transition C_Terminate fi)
       else
         rbind (as_client1 this (world fi)) (\<lambda>c.
         let c = c\<lparr>cm_4 := cookie_at pl serverStr m\<rparr>;
             w = heap_put this (C1Obj c) (world fi);
             clientByeStr = ascii ''CLIENT BYE:'' @ show_int (cm_4 c) @ endl;
             m = store_bytes pl (replicate 20 0) m;
             m = store_bytes pl clientByeStr m;
             m = hb_turn_around ipv4 udp m
         in rbind (writeData pkt m w) (\<lambda>w.
            ret (transition C_RecvBye (fi\<lparr>world := w\<rparr>)))))"

definition ClientBye1_run :: hb1_fun where
  "ClientBye1_run pkt fi = (let t = stateData (st fi) in ClientBye1_fun t pkt fi)"

definition ClientRecvBye1_fun :: "ptr \<Rightarrow> hb1_fun" where
  "ClientRecvBye1_fun this pkt fi =
    rbind (getData pkt (world fi)) (\<lambda>m.
    let ether = 0;
        ipv4 = eth_getPayload ether;
        udp = ip_getPayload ipv4 m;
        pl = udp_getPayload udp;
        serverStr = ascii ''SERVER BYE:''
    in if differs pl serverStr m then ret (transition C_Terminate fi)
       else
         let recvCookie = cookie_at pl serverStr m in
         rbind (as_client1 this (world fi)) (\<lambda>c.
         if recvCookie \<noteq> cm_0 c then ret (transition C_Terminate fi)
         else ret (transition C_Terminate (freePkt fi))))"

definition ClientRecvBye1_run :: hb1_fun where
  "ClientRecvBye1_run pkt fi = (let t = stateData (st fi) in ClientRecvBye1_fun t pkt fi)"

section \<open>The C interface\<close>

type_synonym 'm hb1_sm = "(ConnectionID, ptr, hb1_obj hworld, unit, 'm) SM"
type_synonym ('m, 'n) hb1_env = "(ConnectionID, ptr, hb1_obj hworld, unit, 'm, 'n) env"
type_synonym ('m, 'n) hb1_ctx = "(ConnectionID, ptr, hb1_obj hworld, unit, 'm, 'n) ctx"

definition hb1_env ::
  "('m, ConnectionID, State) map_ops \<Rightarrow> ('n, ConnectionID, State) map_ops \<Rightarrow> (hb1_world \<Rightarrow> int \<times> hb1_world) \<Rightarrow> ('m, 'n) hb1_env" where
  "hb1_env d n clk =
    \<lparr>dense = d, poolOps = n,
     ident = \<lambda>w p. case w_pkts w p of None \<Rightarrow> None | Some b \<Rightarrow> identify (m_data b),
     clock = clk, timeoutFun = \<lambda>k fi. ret fi\<rparr>"

definition HelloByeServer_init :: "('m, 'n) hb1_env \<Rightarrow> 'm hb1_sm" where
  "HelloByeServer_init env =
    (let sm = new_StateMachine env;
         sm = registerEndStateID S_Terminate sm;
         sm = registerStartStateID S_Hello (Some hb1_factory) sm;
         sm = registerFunction S_Hello (Some ServerHello1_run) sm;
         sm = registerFunction S_Bye (Some ServerBye1_run) sm
     in sm)"

definition HelloByeServer_process ::
  "('m, 'n) hb1_env \<Rightarrow> ptr list \<Rightarrow> u32 \<Rightarrow> ('m, 'n) hb1_ctx \<Rightarrow> (('m, 'n) hb1_ctx \<times> u32 \<times> u32) res" where
  "HelloByeServer_process env inPkts inCount x =
    rbind (new_BufArray inPkts inCount True) (\<lambda>ba.
    rbind (runPktBatch env (x\<lparr>c_batch := ba\<rparr>)) (\<lambda>x.
    ret (x, getSendCount (c_batch x), getFreeCount (c_batch x))))"

definition HelloByeServer_getPkts :: "ptr bufArray \<Rightarrow> (ptr list \<times> ptr list) res" where
  "HelloByeServer_getPkts ba =
    rbind (getSendBufs ba) (\<lambda>s. rbind (getFreeBufs ba) (\<lambda>f. ret (s, f)))"

definition HelloByeClient_init :: "('m, 'n) hb1_env \<Rightarrow> 'm hb1_sm" where
  "HelloByeClient_init env =
    (let sm = new_StateMachine env;
         sm = registerEndStateID C_Terminate sm;
         sm = registerFunction C_Hello (Some ClientHello1_run) sm;
         sm = registerFunction C_Bye (Some ClientBye1_run) sm;
         sm = registerFunction C_RecvBye (Some ClientRecvBye1_run) sm
     in sm)"

definition HelloByeClient_config :: "u32 \<Rightarrow> u16 \<Rightarrow> hb1_world \<Rightarrow> hb1_world res" where
  "HelloByeClient_config sip dport w =
    rbind (createInstance1 w) (\<lambda>w.
    rbind (getInstance1 w) (\<lambda>p.
    rbind (as_config1 p w) (\<lambda>config.
    let config = config\<lparr>cfg1_srcIp := sip\<rparr>;
        config = config\<lparr>cfg1_dstPort := dport\<rparr>
    in ret (heap_put p (C1Config config) w))))"

text \<open>The identifier of the answers to expect: the server is their source.\<close>

definition connect_cid :: "u32 \<Rightarrow> u16 \<Rightarrow> config1 \<Rightarrow> ConnectionID" where
  "connect_cid dip sport config =
    (let cid = new_ConnectionID;
         cid = cid\<lparr>dstIP := htonl (cfg1_srcIp config)\<rparr>;
         cid = cid\<lparr>srcIP := htonl dip\<rparr>;
         cid = cid\<lparr>dstPort := htons sport\<rparr>;
         cid = cid\<lparr>srcPort := htons (cfg1_dstPort config)\<rparr>;
         cid = cid\<lparr>proto := PROTO_UDP\<rparr>
     in cid)"

definition HelloByeClient_connect ::
  "('m, 'n) hb1_env \<Rightarrow> ptr list \<Rightarrow> u32 \<Rightarrow> u32 \<Rightarrow> u16 \<Rightarrow> ('m, 'n) hb1_ctx \<Rightarrow>
     (('m, 'n) hb1_ctx \<times> u32 \<times> u32) res" where
  "HelloByeClient_connect env inPkts inCount dip sport x =
    rbind (new_BufArray inPkts inCount True) (\<lambda>ba.
    rbind (getInstance1 (c_world x)) (\<lambda>p.
    rbind (as_config1 p (c_world x)) (\<lambda>config.
    let cid = connect_cid dip sport config;
        (h, w) = ClientHello1 dip sport (c_world x);
        (hello, w) = heap_new (C1Obj h) w;
        s = State_of C_Hello hello
    in rbind (addState env cid s (x\<lparr>c_batch := ba, c_world := w\<rparr>)) (\<lambda>x.
       ret (x, getSendCount (c_batch x), getFreeCount (c_batch x))))))"

definition HelloByeClient_getPkts :: "ptr bufArray \<Rightarrow> (ptr list \<times> ptr list) res" where
  "HelloByeClient_getPkts ba =
    rbind (getSendBufs ba) (\<lambda>s. rbind (getFreeBufs ba) (\<lambda>f. ret (s, f)))"

definition HelloByeClient_process ::
  "('m, 'n) hb1_env \<Rightarrow> ptr list \<Rightarrow> u32 \<Rightarrow> ('m, 'n) hb1_ctx \<Rightarrow> (('m, 'n) hb1_ctx \<times> u32 \<times> u32) res" where
  "HelloByeClient_process env inPkts inCount x =
    rbind (new_BufArray inPkts inCount True) (\<lambda>ba.
    rbind (runPktBatch env (x\<lparr>c_batch := ba\<rparr>)) (\<lambda>x.
    ret (x, getSendCount (c_batch x), getFreeCount (c_batch x))))"

end
