(* ===== verification/Hello_Bye1_Props.thy ===== *)
theory Hello_Bye1_Props
  imports Hello_Bye1 Hello_Bye3_Props
begin

text \<open>
  The properties of the text version of the protocol: a cookie of one digit survives being printed and
  read, an answer carries the identifier the client waits for, an exchange completes but leaves
  both objects on the heap, and a rejected goodbye goes back to its sender.
\<close>

section \<open>The contract of the state machine\<close>

lemma server1_hello_frame:
  "fi_ok fi \<Longrightarrow> ServerHello1_fun t pkt fi = ret fi' \<Longrightarrow> fi_frame fi fi'"
  by (auto simp: ServerHello1_fun_def Let_def rbind_eq_ret split: if_splits intro!: fi_frame_same)

lemmas run1_defs = ServerBye1_run_def ServerBye1_fun_def ClientHello1_run_def ClientHello1_fun_def
  ClientBye1_run_def ClientBye1_fun_def ClientRecvBye1_run_def ClientRecvBye1_fun_def

interpretation hb1_s_hello: state_function ServerHello1_run
  by unfold_locales (auto simp: ServerHello1_run_def Let_def rbind_eq_ret heap_new_def fi_frame_def
      split: if_splits dest!: server1_hello_frame)

interpretation hb1_s_bye: state_function ServerBye1_run
  by unfold_locales (auto simp: run1_defs Let_def rbind_eq_ret split: if_splits intro!: fi_frame_same)

interpretation hb1_c_hello: state_function ClientHello1_run
  by unfold_locales (auto simp: run1_defs Let_def rbind_eq_ret intro!: fi_frame_same)

interpretation hb1_c_bye: state_function ClientBye1_run
  by unfold_locales (auto simp: run1_defs Let_def rbind_eq_ret split: if_splits intro!: fi_frame_same)

interpretation hb1_c_recvbye: state_function ClientRecvBye1_run
  by unfold_locales (auto simp: run1_defs Let_def rbind_eq_ret split: if_splits intro!: fi_frame_same)

section \<open>Cookies as text\<close>

definition digit :: "u32 \<Rightarrow> u8" where
  "digit r = 48 + ucast r"

lemma less_ten_cases:
  fixes r :: u32
  assumes "r < 10"
  shows "r \<in> {0, 1, 2, 3, 4, 5, 6, 7, 8, 9}"
proof -
  have "unat r < 10" using assms by (simp add: word_less_nat_alt)
  then have "unat r \<in> {0, 1, 2, 3, 4, 5, 6, 7, 8, 9}" by auto
  then have "of_nat (unat r) \<in> (of_nat ` {0, 1, 2, 3, 4, 5, 6, 7, 8, 9} :: u32 set)" by (rule imageI)
  then show ?thesis by simp
qed

lemma show_digit: "r < 10 \<Longrightarrow> show_int r = [digit r]"
  by (drule less_ten_cases) (auto simp: show_int_def show_nat.simps digit_def)

lemma read_digit: "r < 10 \<Longrightarrow> ucast (digit r) - 48 = r"
  by (drule less_ten_cases) (auto simp: digit_def)

lemma mod_ten_less: "r mod 10 < 10" for r :: u32
  by (rule word_mod_less_divisor) simp

text \<open>What \<open>show_nat\<close> prints are digits.\<close>

lemma show_nat_digits: "\<forall>x \<in> set (show_nat n). 48 \<le> x \<and> x \<le> 57"
proof (induction n rule: show_nat.induct)
  case (1 n)
  have d: "(48 :: u8) \<le> 48 + of_nat k \<and> (48 :: u8) + of_nat k \<le> 57" if "k < 10" for k
  proof -
    from that have "k \<in> {0, 1, 2, 3, 4, 5, 6, 7, 8, 9}" by auto
    then show ?thesis by auto
  qed
  show ?case
    using 1 d [of n] d [of "n mod 10"] by (subst show_nat.simps) auto
qed

section \<open>Answers\<close>

lemmas ascii_simps = ascii_def

definition text_at :: "u8 list \<Rightarrow> mem \<Rightarrow> bool" where
  "text_at s m \<longleftrightarrow> load_bytes (msg_at m) (length s) m = s"

text \<open>The packet turned around with the text \<open>s\<close>: its identifier is the one of the other direction.\<close>

definition text_reply :: "mem \<Rightarrow> mem \<Rightarrow> u8 list \<Rightarrow> bool" where
  "text_reply m m' s \<longleftrightarrow> msg_at m' = msg_at m \<and> text_at s m' \<and>
     identify m' = map_option cid_mirror (identify m)"

lemma text_reply_of:
  assumes ihl: "5 \<le> unat (ip_ihl 14 m)" and low: "\<And>i. i < msg_at m \<Longrightarrow> m1 i = m i"
    and tx: "load_bytes (msg_at m) (length s) m1 = s"
    and udp: "ip_proto 14 m = PROTO_UDP"
  shows "text_reply m (hb_turn_around 14 (ip_getPayload 14 m) m1) s"
proof -
  let ?u = "ip_getPayload 14 m"
  have u: "34 \<le> ?u" using ihl by (simp add: ip_getPayload_def)
  have a: "msg_at m = ?u + 8" by (simp add: msg_at_def udp_getPayload_def sizeof_Udp_def)
  define m' where "m' = hb_turn_around 14 ?u m1"
  note t = hb_turn_around_fields [OF u m'_def]
  have m1: "load16 m1 i = load16 m i" "load32 m1 i = load32 m i" if "i + 4 \<le> ?u + 8" for i
    using that a by (auto intro!: load_cong low)
  have "ip_ihl 14 m' = ip_ihl 14 m" using t(6) [of 14] low [of 14] u a by (simp add: ip_ihl_def)
  then have pay: "ip_getPayload 14 m' = ?u" by (simp add: ip_getPayload_def)
  then have at: "msg_at m' = msg_at m" by (simp add: msg_at_def)
  have "load_bytes (msg_at m) (length s) m' = load_bytes (msg_at m) (length s) m1"
    using t(5) a by (intro load_bytes_cong) simp
  then have "text_at s m'" using tx at by (simp add: text_at_def)
  moreover have pr: "ip_proto 14 m' = ip_proto 14 m" using t(7) low [of 23] u a by (simp add: ip_proto_def)
  then have "identify m' = map_option cid_mirror (identify m)"
    using t(1-4) m1 [of 26] m1 [of 30] m1 [of ?u] m1 [of "?u + 2"] u udp pay unfolding m'_def [symmetric]
    by (simp add: identify_def Let_def cid_mirror_def new_ConnectionID_def PROTO_UDP_def
        ip_srcIP_def ip_dstIP_def udp_srcPort_def udp_dstPort_def)
  ultimately show ?thesis using at unfolding m'_def by (simp add: text_reply_def)
qed

lemma text_at_append:
  "text_at (s @ t) m \<longleftrightarrow> text_at s m \<and> load_bytes (msg_at m + length s) (length t) m = t"
proof -
  have "load_bytes (msg_at m) (length s + length t) m =
      load_bytes (msg_at m) (length s) m @ load_bytes (msg_at m + length s) (length t) m"
    by (rule nth_equalityI) (auto simp: load_bytes_def nth_append)
  then show ?thesis by (auto simp: text_at_def)
qed

text \<open>A text that starts with the literal \<open>s\<close>, followed by a digit.\<close>

lemma text_cookie:
  assumes "text_at (s @ [digit r] @ endl) m" and "r < 10"
  shows "\<not> differs (msg_at m) s m \<and> cookie_at (msg_at m) s m = r"
proof -
  have "text_at s m" "load_bytes (msg_at m + length s) 2 m = [digit r, 10]"
    using assms(1) by (simp_all add: text_at_append endl_def numeral_2_eq_2)
  then have "text_at s m" "m (msg_at m + length s) = digit r"
    by (simp_all add: load_bytes_def numeral_2_eq_2)
  then show ?thesis using read_digit [OF assms(2)] by (simp add: differs_def text_at_def cookie_at_def)
qed

section \<open>The handlers on matching texts\<close>

lemma server1_hello:
  assumes b: "w_pkts (world fi) pkt = Some b" and ok: "heap_ok (world fi)"
    and ihl: "5 \<le> unat (ip_ihl 14 (m_data b))" and udp: "ip_proto 14 (m_data b) = PROTO_UDP"
    and h: "w_heap (world fi) (stateData (st fi)) = Some (S1Hello h)" and r: "s1_serverCookie h < 10"
    and tx: "text_at (ascii ''CLIENT HELLO:'' @ [digit c] @ endl) (m_data b)" and c: "c < 10"
  shows "\<exists>fi' m'. ServerHello1_run pkt fi = ret fi' \<and> state (st fi') = S_Bye \<and>
    stateData (st fi') = w_next (world fi) \<and> w_next (world fi') = Suc (w_next (world fi)) \<and>
    w_heap (world fi') = (w_heap (world fi))(stateData (st fi) := None,
      w_next (world fi) \<mapsto> S1Bye \<lparr>s1_clientCookie = c, s1_serverCookie = s1_serverCookie h\<rparr>) \<and>
    w_pkts (world fi') = (w_pkts (world fi))(pkt \<mapsto> b\<lparr>m_data := m'\<rparr>) \<and> sendPkt fi' = sendPkt fi \<and>
    text_reply (m_data b) m' (ascii ''SERVER HELLO:'' @ [digit (s1_serverCookie h)] @ endl)"
proof -
  let ?m = "m_data b" and ?p = "stateData (st fi)" and ?t = "ascii ''SERVER HELLO:'' @ [digit (s1_serverCookie h)] @ endl"
  let ?m' = "hb_turn_around 14 (ip_getPayload 14 ?m) (store_bytes (msg_at ?m) ?t ?m)"
  have p: "0 < ?p" "?p < w_next (world fi)" using ok h by (auto simp: heap_ok_def)
  have "text_reply ?m ?m' ?t"
    by (rule text_reply_of [OF ihl _ _ udp]) (simp_all add: store_bytes_apply)
  moreover note text_cookie [OF tx c]
  ultimately show ?thesis
    using b h p show_digit [OF r]
    by (simp add: ServerHello1_run_def ServerHello1_fun_def Let_def getData_def eth_getPayload_def sizeof_Ethernet_def
        msg_at_def [symmetric] as_s1hello_def heap_get_def heap_put_def writeData_def heap_new_def heap_delete_def
        transition_def ServerBye1_def fun_upd_twist) blast
qed

text \<open>
  The goodbye: the object stays on the heap in every case, and the packet is sent in every case.
\<close>

lemma server1_bye:
  assumes b: "w_pkts (world fi) pkt = Some b" and h: "w_heap (world fi) (stateData (st fi)) = Some (S1Bye v)"
  shows "\<exists>fi'. ServerBye1_run pkt fi = ret fi' \<and> state (st fi') = S_Terminate \<and>
    w_heap (world fi') = w_heap (world fi) \<and> w_next (world fi') = w_next (world fi) \<and> sendPkt fi' = sendPkt fi \<and>
    (text_at (ascii ''CLIENT BYE:'') (m_data b) \<and>
       cookie_at (msg_at (m_data b)) (ascii ''CLIENT BYE:'') (m_data b) = s1_serverCookie v \<longrightarrow>
       w_pkts (world fi') = (w_pkts (world fi))(pkt \<mapsto> b\<lparr>m_data := hb_turn_around 14 (ip_getPayload 14 (m_data b))
         (store_bytes (msg_at (m_data b)) (ascii ''SERVER BYE:'' @ show_int (s1_clientCookie v) @ endl) (m_data b))\<rparr>)) \<and>
    (\<not> (text_at (ascii ''CLIENT BYE:'') (m_data b) \<and>
       cookie_at (msg_at (m_data b)) (ascii ''CLIENT BYE:'') (m_data b) = s1_serverCookie v) \<longrightarrow>
       w_pkts (world fi') = w_pkts (world fi))"
  using b h
  by (auto simp: ServerBye1_run_def ServerBye1_fun_def Let_def getData_def eth_getPayload_def sizeof_Ethernet_def
      msg_at_def [symmetric] as_s1bye_def heap_get_def writeData_def transition_def differs_def text_at_def)

lemma server1_bye_reply:
  assumes b: "w_pkts (world fi) pkt = Some b" and h: "w_heap (world fi) (stateData (st fi)) = Some (S1Bye v)"
    and ihl: "5 \<le> unat (ip_ihl 14 (m_data b))" and udp: "ip_proto 14 (m_data b) = PROTO_UDP"
    and tx: "text_at (ascii ''CLIENT BYE:'' @ [digit (s1_serverCookie v)] @ endl) (m_data b)"
    and "s1_serverCookie v < 10" "s1_clientCookie v < 10"
  shows "\<exists>fi' m'. ServerBye1_run pkt fi = ret fi' \<and> state (st fi') = S_Terminate \<and>
    w_heap (world fi') = w_heap (world fi) \<and> w_next (world fi') = w_next (world fi) \<and> sendPkt fi' = sendPkt fi \<and>
    w_pkts (world fi') = (w_pkts (world fi))(pkt \<mapsto> b\<lparr>m_data := m'\<rparr>) \<and>
    text_reply (m_data b) m' (ascii ''SERVER BYE:'' @ [digit (s1_clientCookie v)] @ endl)"
proof -
  let ?m = "m_data b" and ?t = "ascii ''SERVER BYE:'' @ [digit (s1_clientCookie v)] @ endl"
  have "text_reply ?m (hb_turn_around 14 (ip_getPayload 14 ?m) (store_bytes (msg_at ?m) ?t ?m)) ?t"
    by (rule text_reply_of [OF ihl _ _ udp]) (simp_all add: store_bytes_apply)
  moreover have "text_at (ascii ''CLIENT BYE:'') ?m" using tx text_at_append by blast
  moreover note text_cookie [OF tx assms(6)]
  ultimately show ?thesis using server1_bye [OF b h] show_digit [OF assms(7)] by auto
qed

text \<open>The client's first packet, whatever the buffer held before.\<close>

lemma client1_hello:
  assumes b: "w_pkts (world fi) pkt = Some b" and c: "w_heap (world fi) (stateData (st fi)) = Some (C1Obj c)"
    and i: "w_heap (world fi) instance_ptr = Some (Instance p)" and k: "w_heap (world fi) p = Some (C1Config cfg)"
    and r: "cm_0 c < 10"
  shows "\<exists>m'. ClientHello1_run pkt fi = ret (transition C_Bye (fi\<lparr>world :=
      (world fi)\<lparr>w_pkts := (w_pkts (world fi))(pkt \<mapsto> b\<lparr>m_data := m'\<rparr>)\<rparr>\<rparr>)) \<and>
    msg_at m' = 42 \<and> ip_proto 14 m' = PROTO_UDP \<and> text_at (ascii ''CLIENT HELLO:'' @ [digit (cm_0 c)] @ endl) m' \<and>
    identify m' = Some (cid_mirror (connect_cid (cm_4 c) (cm_8 c) cfg))"
proof -
  let ?m0 = "\<lambda>i. if i < unat (m_dataLen b) then 0 else m_data b i"
  let ?t = "ascii ''CLIENT HELLO:'' @ [digit (cm_0 c)] @ endl"
  define m1 where "m1 = ip_setIHL 14 5 (ip_setVersion 14 ?m0)"
  define m2 where "m2 = ip_setChecksum 14 0 (ip_setProtoUDP 14 (ip_setSrcIP 14 (cfg1_srcIp cfg)
    (ip_setDstIP 14 (cm_4 c) (ip_setLength 14 (100 - 14) (ip_setTTL 14 64 m1)))))"
  define m3 where "m3 = store_bytes 42 ?t m2"
  define m' where "m' = udp_setPayloadLength 34 50 (udp_setSrcPort 34 (cm_8 c) (udp_setDstPort 34 (cfg1_dstPort cfg)
    (udp_setChecksum 34 0 (eth_setEthertype 0 0x0800 m3))))"
  have i1: "m1 14 AND 15 = 5"
    using ihl_setIHL [of 14 5 "ip_setVersion 14 ?m0"] by (simp add: m1_def ip_ihl_def)
  have i2: "m2 14 = m1 14" by (simp add: m2_def ip_defs mem_simps)
  have i3: "m' 14 = m1 14" by (simp add: m'_def m3_def i2 udp_defs eth_setEthertype_def mem_simps)
  have pay2: "ip_getPayload 14 m2 = 34" using i1 by (simp add: ip_getPayload_def ip_ihl_def i2)
  have pay: "ip_getPayload 14 m' = 34" using i1 by (simp add: ip_getPayload_def ip_ihl_def i3)
  have at: "msg_at m' = 42" by (simp add: msg_at_def pay udp_getPayload_def sizeof_Udp_def)
  have "load_bytes 42 (length ?t) m' = load_bytes 42 (length ?t) m3"
    by (simp add: m'_def udp_defs eth_setEthertype_def mem_simps)
  then have tx: "text_at ?t m'" by (simp add: text_at_def at m3_def)
  have pr: "ip_proto 14 m' = PROTO_UDP"
    by (simp add: ip_proto_def m'_def m3_def m2_def udp_defs eth_setEthertype_def ip_defs mem_simps)
  have low: "load32 m' 30 = load32 m2 30" "load32 m' 26 = load32 m2 26"
    by (simp_all add: m'_def m3_def udp_defs eth_setEthertype_def mem_simps)
  have fields: "load32 m' 30 = htonl (cm_4 c)" "load32 m' 26 = htonl (cfg1_srcIp cfg)"
    "load16 m' 36 = htons (cfg1_dstPort cfg)" "load16 m' 34 = htons (cm_8 c)"
    unfolding low by (simp_all add: m2_def m'_def udp_defs ip_defs mem_simps)
  have "identify m' = Some (cid_mirror (connect_cid (cm_4 c) (cm_8 c) cfg))"
    by (simp add: identify_udp [OF pr pay] fields connect_cid_def Let_def cid_mirror_def new_ConnectionID_def PROTO_UDP_def)
  moreover have "ClientHello1_run pkt fi = ret (transition C_Bye (fi\<lparr>world :=
      (world fi)\<lparr>w_pkts := (w_pkts (world fi))(pkt \<mapsto> b\<lparr>m_data := m'\<rparr>)\<rparr>\<rparr>))"
    using assms pay2 show_digit [OF r] unfolding m'_def m3_def m2_def m1_def
    by (simp add: ClientHello1_run_def ClientHello1_fun_def Let_def getData_def getDataLen_def as_client1_def
        getInstance1_def as_config1_def heap_get_def writeData_def eth_getPayload_def sizeof_Ethernet_def
        udp_getPayload_def sizeof_Udp_def)
  ultimately show ?thesis using at tx pr by (intro exI [of _ m']) simp
qed

lemma client1_bye:
  assumes b: "w_pkts (world fi) pkt = Some b" and c: "w_heap (world fi) (stateData (st fi)) = Some (C1Obj c)"
    and ihl: "5 \<le> unat (ip_ihl 14 (m_data b))" and udp: "ip_proto 14 (m_data b) = PROTO_UDP"
    and tx: "text_at (ascii ''SERVER HELLO:'' @ [digit r] @ endl) (m_data b)" and r: "r < 10"
  shows "\<exists>m'. ClientBye1_run pkt fi = ret (transition C_RecvBye (fi\<lparr>world :=
      (heap_put (stateData (st fi)) (C1Obj (c\<lparr>cm_4 := r\<rparr>)) (world fi))
        \<lparr>w_pkts := (w_pkts (world fi))(pkt \<mapsto> b\<lparr>m_data := m'\<rparr>)\<rparr>\<rparr>)) \<and>
    text_reply (m_data b) m' (ascii ''CLIENT BYE:'' @ [digit r] @ endl)"
proof -
  let ?m = "m_data b" and ?t = "ascii ''CLIENT BYE:'' @ [digit r] @ endl"
  let ?m' = "hb_turn_around 14 (ip_getPayload 14 ?m) (store_bytes (msg_at ?m) ?t (store_bytes (msg_at ?m) (replicate 20 0) ?m))"
  have "text_reply ?m ?m' ?t"
    by (rule text_reply_of [OF ihl _ _ udp]) (simp_all add: store_bytes_apply)
  moreover note text_cookie [OF tx r]
  ultimately show ?thesis
    using b c show_digit [OF r]
    by (intro exI [of _ ?m'])
      (simp add: ClientBye1_run_def ClientBye1_fun_def Let_def getData_def eth_getPayload_def sizeof_Ethernet_def
        msg_at_def [symmetric] as_client1_def heap_get_def heap_put_def writeData_def)
qed

lemma client1_recvbye:
  assumes b: "w_pkts (world fi) pkt = Some b" and c: "w_heap (world fi) (stateData (st fi)) = Some (C1Obj c)"
    and tx: "text_at (ascii ''SERVER BYE:'' @ [digit (cm_0 c)] @ endl) (m_data b)" and r: "cm_0 c < 10"
  shows "ClientRecvBye1_run pkt fi = ret (transition C_Terminate (freePkt fi))"
  using b c text_cookie [OF tx r]
  by (simp add: ClientRecvBye1_run_def ClientRecvBye1_fun_def Let_def getData_def eth_getPayload_def sizeof_Ethernet_def
      msg_at_def [symmetric] as_client1_def heap_get_def)

lemma identify_field: "identify m = Some k \<Longrightarrow> ip_proto 14 m = proto k"
  by (auto simp: identify_def Let_def split: if_splits)

lemma text_reply_next:
  assumes "text_reply m m' s" and "5 \<le> unat (ip_ihl 14 m)"
  shows "5 \<le> unat (ip_ihl 14 m')" and "text_at s m'"
    and "identify m = Some c \<Longrightarrow> proto c = PROTO_UDP \<Longrightarrow> ip_proto 14 m' = PROTO_UDP"
proof -
  show "5 \<le> unat (ip_ihl 14 m')" "text_at s m'"
    using assms msg_at_ihl [of m] msg_at_ihl [of m'] by (simp_all add: text_reply_def)
  assume c: "identify m = Some c" "proto c = PROTO_UDP"
  have "identify m' = Some (cid_mirror c)" using assms(1) c by (simp add: text_reply_def)
  then have "ip_proto 14 m' = proto (cid_mirror c)" by (rule identify_field)
  then show "ip_proto 14 m' = PROTO_UDP" using c by (simp add: cid_mirror_def)
qed

section \<open>The exchange\<close>

text \<open>One client and one server over one buffer, as for the later versions.\<close>

definition hb1_exchange :: "u32 \<Rightarrow> u16 \<Rightarrow> ConnectionID \<Rightarrow> ptr \<Rightarrow> hb1_fi \<Rightarrow> (State \<times> State \<times> hb1_fi) res" where
  "hb1_exchange dip sport cid pkt fi =
    (let (h, w) = ClientHello1 dip sport (world fi); (cp, w) = heap_new (C1Obj h) w in
     rbind (ClientHello1_run pkt (fi\<lparr>st := State_of C_Hello cp, world := w\<rparr>)) (\<lambda>fi1.
     rbind (hb1_factory cid (world fi1)) (\<lambda>(sp, w).
     rbind (ServerHello1_run pkt (fi1\<lparr>st := State_of S_Hello sp, world := w\<rparr>)) (\<lambda>fi2.
     rbind (ClientBye1_run pkt (fi2\<lparr>st := st fi1\<rparr>)) (\<lambda>fi3.
     rbind (ServerBye1_run pkt (fi3\<lparr>st := st fi2\<rparr>)) (\<lambda>fi4.
     rbind (ClientRecvBye1_run pkt (fi4\<lparr>st := st fi3\<rparr>)) (\<lambda>fi5.
     ret (st fi5, st fi4, fi5))))))))"

text \<open>The first half: both greetings.\<close>

lemma hb1_greetings:
  assumes ok: "heap_ok (world fi)" and b: "w_pkts (world fi) pkt = Some b"
    and i: "w_heap (world fi) instance_ptr = Some (Instance p)" and k: "w_heap (world fi) p = Some (C1Config cfg)"
  defines "q \<equiv> w_next (world fi)" and "r1 \<equiv> fst (rand (world fi)) mod 10"
  obtains fi1 fi2 w1 w2 sp r2 m2 where
    "heap_new (C1Obj (fst (ClientHello1 dip sport (world fi)))) (snd (ClientHello1 dip sport (world fi))) = (q, w1)"
    "ClientHello1_run pkt (fi\<lparr>st := State_of C_Hello q, world := w1\<rparr>) = ret fi1" "st fi1 = State_of C_Bye q"
    "hb1_factory cid (world fi1) = ret (sp, w2)"
    "ServerHello1_run pkt (fi1\<lparr>st := State_of S_Hello sp, world := w2\<rparr>) = ret fi2"
    "stateData (st fi2) = q + 2" "r2 < 10" "w_next (world fi2) = q + 3"
    "w_heap (world fi2) = (w_heap (world fi))(q \<mapsto> C1Obj \<lparr>cm_0 = r1, cm_4 = dip, cm_8 = sport\<rparr>,
      q + 2 \<mapsto> S1Bye \<lparr>s1_clientCookie = r1, s1_serverCookie = r2\<rparr>)"
    "w_pkts (world fi2) = (w_pkts (world fi))(pkt \<mapsto> b\<lparr>m_data := m2\<rparr>)"
    "5 \<le> unat (ip_ihl 14 m2)" "text_at (ascii ''SERVER HELLO:'' @ [digit r2] @ endl) m2"
    "ip_proto 14 m2 = PROTO_UDP" "identify m2 = Some (connect_cid dip sport cfg)"
proof -
  let ?w0 = "world fi"
  define c where "c = \<lparr>cm_0 = r1, cm_4 = dip, cm_8 = sport\<rparr>"
  define w1 where "w1 = (snd (rand ?w0))\<lparr>w_heap := (w_heap ?w0)(q \<mapsto> C1Obj c), w_next := q + 1\<rparr>"
  have free: "w_heap ?w0 x = None" if "q \<le> x" for x
    using ok that unfolding heap_ok_def q_def by (metis domIff leD)
  have ne: "instance_ptr \<noteq> q" "p \<noteq> q" using free [of q] i k by auto
  have qpos: "0 < q" using ok by (simp add: heap_ok_def q_def)
  have create: "heap_new (C1Obj (fst (ClientHello1 dip sport ?w0))) (snd (ClientHello1 dip sport ?w0)) = (q, w1)"
    by (simp add: ClientHello1_def split_beta heap_new_def w1_def q_def c_def r1_def rand_def)
  have w1: "w_heap w1 = (w_heap ?w0)(q \<mapsto> C1Obj c)" "w_next w1 = q + 1" "w_pkts w1 = w_pkts ?w0"
    by (simp_all add: w1_def rand_def)
  let ?i0 = "fi\<lparr>st := State_of C_Hello q, world := w1\<rparr>"
  have sd: "stateData (State_of a x) = x" "(State_of a x)\<lparr>state := a'\<rparr> = State_of a' x" for a a' x
    by (simp_all add: State_of_def)
  obtain m1 where run1: "ClientHello1_run pkt ?i0 = ret (transition C_Bye (?i0\<lparr>world :=
      w1\<lparr>w_pkts := (w_pkts w1)(pkt \<mapsto> b\<lparr>m_data := m1\<rparr>)\<rparr>\<rparr>))"
    and m1: "msg_at m1 = 42" "ip_proto 14 m1 = PROTO_UDP" "text_at (ascii ''CLIENT HELLO:'' @ [digit r1] @ endl) m1"
      "identify m1 = Some (cid_mirror (connect_cid dip sport cfg))"
    using client1_hello [of ?i0 pkt b c p cfg] b i k w1 ne mod_ten_less by (auto simp: sd c_def r1_def)
  have ihl1: "5 \<le> unat (ip_ihl 14 m1)" using msg_at_ihl [of m1] m1(1) by simp
  define wa where "wa = w1\<lparr>w_pkts := (w_pkts w1)(pkt \<mapsto> b\<lparr>m_data := m1\<rparr>)\<rparr>"
  define r2 where "r2 = fst (rand wa) mod 10"
  define h where "h = \<lparr>s1_clientCookie = 0, s1_serverCookie = r2\<rparr>"
  define w2 where "w2 = (snd (rand wa))\<lparr>w_heap := (w_heap w1)(q + 1 \<mapsto> S1Hello h), w_next := q + 2\<rparr>"
  have fact: "hb1_factory cid wa = ret (q + 1, w2)"
    by (simp add: hb1_factory_def split_beta heap_new_def w2_def h_def r2_def rand_def wa_def w1)
  have w2: "w_heap w2 = (w_heap w1)(q + 1 \<mapsto> S1Hello h)" "w_pkts w2 = (w_pkts w1)(pkt \<mapsto> b\<lparr>m_data := m1\<rparr>)"
    "w_next w2 = q + 2"
    by (simp_all add: w2_def rand_def wa_def)
  have ok2: "heap_ok w2" using ok w2 w1 qpos by (auto simp: heap_ok_def q_def less_Suc_eq)
  have r: "r1 < 10" "r2 < 10" by (simp_all add: r1_def r2_def mod_ten_less)
  let ?fi1 = "transition C_Bye (?i0\<lparr>world := wa\<rparr>)"
  let ?i1 = "?fi1\<lparr>st := State_of S_Hello (q + 1), world := w2\<rparr>"
  obtain fi2 m2 where run2: "ServerHello1_run pkt ?i1 = ret fi2" "stateData (st fi2) = q + 2" "w_next (world fi2) = q + 3"
    and h2: "w_heap (world fi2) = (w_heap w2)(q + 1 := None, q + 2 \<mapsto> S1Bye \<lparr>s1_clientCookie = r1, s1_serverCookie = r2\<rparr>)"
    and p2: "w_pkts (world fi2) = (w_pkts w2)(pkt \<mapsto> b\<lparr>m_data := m2\<rparr>)"
    and m2: "text_reply m1 m2 (ascii ''SERVER HELLO:'' @ [digit r2] @ endl)"
    using server1_hello [of ?i1 pkt "b\<lparr>m_data := m1\<rparr>" h r1] w2 ok2 ihl1 m1 r by (auto simp: sd h_def)
  have "w_heap (world fi2) = (w_heap ?w0)(q \<mapsto> C1Obj c, q + 2 \<mapsto> S1Bye \<lparr>s1_clientCookie = r1, s1_serverCookie = r2\<rparr>)"
    using free [of "q + 1"] by (auto simp: h2 w2 w1 fun_eq_iff)
  moreover have "w_pkts (world fi2) = (w_pkts ?w0)(pkt \<mapsto> b\<lparr>m_data := m2\<rparr>)" by (simp add: p2 w2 w1)
  moreover have "proto (cid_mirror (connect_cid dip sport cfg)) = PROTO_UDP"
    by (simp add: connect_cid_def Let_def cid_mirror_def)
  moreover have "identify m2 = Some (connect_cid dip sport cfg)" using m2 m1(4) by (simp add: text_reply_def)
  ultimately show ?thesis
    using that [of w1 ?fi1 "q + 1" w2 fi2 r2 m2] create run1 fact run2 r text_reply_next [OF m2 ihl1] m1(4)
    by (simp add: sd c_def wa_def)
qed

lemma hb1_goodbyes:
  assumes b: "w_pkts (world fi2) pkt = Some b2" and ne: "cp \<noteq> stateData (st fi2)"
    and c: "w_heap (world fi2) cp = Some (C1Obj c)" and v: "w_heap (world fi2) (stateData (st fi2)) = Some (S1Bye v)"
    and ihl: "5 \<le> unat (ip_ihl 14 (m_data b2))" and pr: "ip_proto 14 (m_data b2) = PROTO_UDP"
    and idn: "identify (m_data b2) = Some k" "proto k = PROTO_UDP"
    and tx: "text_at (ascii ''SERVER HELLO:'' @ [digit (s1_serverCookie v)] @ endl) (m_data b2)"
    and ck: "s1_serverCookie v < 10" "s1_clientCookie v = cm_0 c" "cm_0 c < 10"
  obtains fi3 fi4 m4 where
    "ClientBye1_run pkt (fi2\<lparr>st := State_of C_Bye cp\<rparr>) = ret fi3" "st fi3 = State_of C_RecvBye cp"
    "ServerBye1_run pkt (fi3\<lparr>st := st fi2\<rparr>) = ret fi4" "state (st fi4) = S_Terminate"
    "stateData (st fi4) = stateData (st fi2)"
    "ClientRecvBye1_run pkt (fi4\<lparr>st := st fi3\<rparr>) = ret (transition C_Terminate (freePkt (fi4\<lparr>st := st fi3\<rparr>)))"
    "w_heap (world fi4) = (w_heap (world fi2))(cp \<mapsto> C1Obj (c\<lparr>cm_4 := s1_serverCookie v\<rparr>))"
    "w_pkts (world fi4) = (w_pkts (world fi2))(pkt \<mapsto> b2\<lparr>m_data := m4\<rparr>)"
    "text_at (ascii ''SERVER BYE:'' @ [digit (cm_0 c)] @ endl) m4" "identify m4 = Some k"
proof -
  have sd: "stateData (State_of a x) = x" "(State_of a x)\<lparr>state := a'\<rparr> = State_of a' x" for a a' x
    by (simp_all add: State_of_def)
  let ?i2 = "fi2\<lparr>st := State_of C_Bye cp\<rparr>" and ?c = "c\<lparr>cm_4 := s1_serverCookie v\<rparr>"
  obtain m3 where run3: "ClientBye1_run pkt ?i2 = ret (transition C_RecvBye (?i2\<lparr>world :=
      (heap_put cp (C1Obj ?c) (world fi2))\<lparr>w_pkts := (w_pkts (world fi2))(pkt \<mapsto> b2\<lparr>m_data := m3\<rparr>)\<rparr>\<rparr>))"
    and m3: "text_reply (m_data b2) m3 (ascii ''CLIENT BYE:'' @ [digit (s1_serverCookie v)] @ endl)"
    using client1_bye [of ?i2 pkt b2 c "s1_serverCookie v"] b c ihl pr tx ck by (auto simp: sd)
  note n3 = text_reply_next [OF m3 ihl]
  let ?fi3 = "transition C_RecvBye (?i2\<lparr>world :=
      (heap_put cp (C1Obj ?c) (world fi2))\<lparr>w_pkts := (w_pkts (world fi2))(pkt \<mapsto> b2\<lparr>m_data := m3\<rparr>)\<rparr>\<rparr>)"
  let ?i3 = "?fi3\<lparr>st := st fi2\<rparr>"
  have w3: "w_heap (world ?i3) = (w_heap (world fi2))(cp \<mapsto> C1Obj ?c)"
    "w_pkts (world ?i3) pkt = Some (b2\<lparr>m_data := m3\<rparr>)" by (simp_all add: heap_put_def)
  obtain fi4 m4 where run4: "ServerBye1_run pkt ?i3 = ret fi4" "state (st fi4) = S_Terminate"
    and w4: "w_heap (world fi4) = w_heap (world ?i3)"
      "w_pkts (world fi4) = (w_pkts (world ?i3))(pkt \<mapsto> b2\<lparr>m_data := m3\<rparr>\<lparr>m_data := m4\<rparr>)"
    and m4: "text_reply m3 m4 (ascii ''SERVER BYE:'' @ [digit (cm_0 c)] @ endl)"
    using server1_bye_reply [of ?i3 pkt "b2\<lparr>m_data := m3\<rparr>" v] w3 ne v n3 idn ck by auto
  have sd4: "stateData (st fi4) = stateData (st fi2)"
    using run4(1) by (auto simp: ServerBye1_run_def ServerBye1_fun_def Let_def rbind_eq_ret split: if_splits)
  have k4: "identify m4 = Some k" using m3 m4 idn by (simp add: text_reply_def)
  let ?i4 = "fi4\<lparr>st := st ?fi3\<rparr>"
  have "ClientRecvBye1_run pkt ?i4 = ret (transition C_Terminate (freePkt ?i4))"
    by (rule client1_recvbye [of _ _ "b2\<lparr>m_data := m4\<rparr>" ?c])
      (use w4 w3 text_reply_next(2) [OF m4 n3(1)] ck in \<open>simp_all add: sd\<close>)
  then show ?thesis
    using that [of ?fi3 fi4 m4] run3 run4 sd4 w4 w3 text_reply_next(2) [OF m4 n3(1)] k4 by (simp add: sd heap_put_def)
qed

text \<open>
  C19.  A client and a server of the text version that talk to each other complete the exchange: from any
  buffer contents all handlers return, both connections end in their end states, and the last packet,
  which the client frees, is the server's goodbye with the digit the client chose and the identifier
  the client waits for.  But both objects stay on the heap, and the client's server cookie has replaced
  the address it was connected to.
\<close>

theorem text_exchange_completes:
  assumes "heap_ok (world fi)" and "w_pkts (world fi) pkt = Some b"
    and "w_heap (world fi) instance_ptr = Some (Instance p)" and "w_heap (world fi) p = Some (C1Config cfg)"
  shows "\<exists>cs ss fi' m r1 r2. hb1_exchange dip sport cid pkt fi = ret (cs, ss, fi') \<and>
    state cs = C_Terminate \<and> state ss = S_Terminate \<and> \<not> sendPkt fi' \<and> r1 = fst (rand (world fi)) mod 10 \<and>
    stateData cs \<noteq> stateData ss \<and> w_heap (world fi) (stateData cs) = None \<and> w_heap (world fi) (stateData ss) = None \<and>
    w_heap (world fi') = (w_heap (world fi))(stateData cs \<mapsto> C1Obj \<lparr>cm_0 = r1, cm_4 = r2, cm_8 = sport\<rparr>,
      stateData ss \<mapsto> S1Bye \<lparr>s1_clientCookie = r1, s1_serverCookie = r2\<rparr>) \<and>
    w_pkts (world fi') = (w_pkts (world fi))(pkt \<mapsto> b\<lparr>m_data := m\<rparr>) \<and>
    text_at (ascii ''SERVER BYE:'' @ [digit r1] @ endl) m \<and> identify m = Some (connect_cid dip sport cfg)"
proof -
  let ?q = "w_next (world fi)" and ?r1 = "fst (rand (world fi)) mod 10"
  have free: "w_heap (world fi) x = None" if "?q \<le> x" for x
    using assms(1) that unfolding heap_ok_def by (metis domIff leD)
  obtain fi1 fi2 w1 w2 sp r2 m2 where g: "heap_new (C1Obj (fst (ClientHello1 dip sport (world fi)))) (snd (ClientHello1 dip sport (world fi))) = (?q, w1)"
    "ClientHello1_run pkt (fi\<lparr>st := State_of C_Hello ?q, world := w1\<rparr>) = ret fi1" "st fi1 = State_of C_Bye ?q"
    "hb1_factory cid (world fi1) = ret (sp, w2)"
    "ServerHello1_run pkt (fi1\<lparr>st := State_of S_Hello sp, world := w2\<rparr>) = ret fi2"
    and s2: "stateData (st fi2) = ?q + 2" "r2 < 10"
    and h2: "w_heap (world fi2) = (w_heap (world fi))(?q \<mapsto> C1Obj \<lparr>cm_0 = ?r1, cm_4 = dip, cm_8 = sport\<rparr>,
      ?q + 2 \<mapsto> S1Bye \<lparr>s1_clientCookie = ?r1, s1_serverCookie = r2\<rparr>)"
    and p2: "w_pkts (world fi2) = (w_pkts (world fi))(pkt \<mapsto> b\<lparr>m_data := m2\<rparr>)"
    and m2: "5 \<le> unat (ip_ihl 14 m2)" "text_at (ascii ''SERVER HELLO:'' @ [digit r2] @ endl) m2"
      "ip_proto 14 m2 = PROTO_UDP" "identify m2 = Some (connect_cid dip sport cfg)"
    by (rule hb1_greetings [OF assms])
  have pr: "proto (connect_cid dip sport cfg) = PROTO_UDP" by (simp add: connect_cid_def Let_def)
  obtain fi3 fi4 m4 where f: "ClientBye1_run pkt (fi2\<lparr>st := State_of C_Bye ?q\<rparr>) = ret fi3" "st fi3 = State_of C_RecvBye ?q"
    "ServerBye1_run pkt (fi3\<lparr>st := st fi2\<rparr>) = ret fi4" "state (st fi4) = S_Terminate"
    "stateData (st fi4) = stateData (st fi2)"
    "ClientRecvBye1_run pkt (fi4\<lparr>st := st fi3\<rparr>) = ret (transition C_Terminate (freePkt (fi4\<lparr>st := st fi3\<rparr>)))"
    and h4: "w_heap (world fi4) = (w_heap (world fi2))(?q \<mapsto> C1Obj \<lparr>cm_0 = ?r1, cm_4 = r2, cm_8 = sport\<rparr>)"
    and p4: "w_pkts (world fi4) = (w_pkts (world fi2))(pkt \<mapsto> b\<lparr>m_data := m2\<rparr>\<lparr>m_data := m4\<rparr>)"
    and m4: "text_at (ascii ''SERVER BYE:'' @ [digit ?r1] @ endl) m4" "identify m4 = Some (connect_cid dip sport cfg)"
    using hb1_goodbyes [of fi2 pkt "b\<lparr>m_data := m2\<rparr>" ?q "\<lparr>cm_0 = ?r1, cm_4 = dip, cm_8 = sport\<rparr>"
        "\<lparr>s1_clientCookie = ?r1, s1_serverCookie = r2\<rparr>" "connect_cid dip sport cfg"]
      s2 h2 p2 m2 pr mod_ten_less by auto
  let ?fi5 = "transition C_Terminate (freePkt (fi4\<lparr>st := st fi3\<rparr>))"
  have "hb1_exchange dip sport cid pkt fi = ret (st ?fi5, st fi4, ?fi5)"
    using g f by (simp add: hb1_exchange_def split_beta)
  moreover have "w_heap (world ?fi5) = (w_heap (world fi))(?q \<mapsto> C1Obj \<lparr>cm_0 = ?r1, cm_4 = r2, cm_8 = sport\<rparr>,
      ?q + 2 \<mapsto> S1Bye \<lparr>s1_clientCookie = ?r1, s1_serverCookie = r2\<rparr>)"
    by (simp add: h4 h2 fun_upd_twist)
  moreover have "w_pkts (world ?fi5) = (w_pkts (world fi))(pkt \<mapsto> b\<lparr>m_data := m4\<rparr>)" by (simp add: p4 p2)
  ultimately show ?thesis
    using f s2 m4 free by (intro exI [of _ "st ?fi5"] exI [of _ "st fi4"] exI [of _ ?fi5] exI [of _ m4] exI [of _ ?r1] exI [of _ r2])
      (simp add: State_of_def)
qed

definition hb1_ex_world :: "hb1_obj \<Rightarrow> hb1_world" where
  "hb1_ex_world ob = \<lparr>w_pkts = w_pkts (hb_ex_world 0),
     w_heap = [1 \<mapsto> Instance 2, 2 \<mapsto> C1Config \<lparr>cfg1_srcIp = 10, cfg1_dstPort = 2000\<rparr>, 3 \<mapsto> ob],
     w_next = 4, w_rand = (\<lambda>_. 17), w_rnd = 0\<rparr>"

definition hb1_ex_fi :: "hb1_obj \<Rightarrow> hb1_fi" where
  "hb1_ex_fi ob = new_FunIface \<lparr>getPktCB = None, curTimeoutID = 0, timeoutsQ = [], timeoutFunctions = Map.empty\<rparr>
     0 (c_batch (hb_ex_ctx 0)) new_ConnectionID (State_of S_Bye 3) (hb1_ex_world ob)"

lemma hb1_ex_simps [simp]:
  "world (hb1_ex_fi ob) = hb1_ex_world ob" "stateData (st (hb1_ex_fi ob)) = 3" "sendPkt (hb1_ex_fi ob)"
  by (simp_all add: hb1_ex_fi_def new_FunIface_def State_of_def)

theorem text_exchange_completes_witness:
  "\<exists>cs ss fi'. hb1_exchange 20 1000 new_ConnectionID 1 (hb1_ex_fi (Instance 0)) = ret (cs, ss, fi') \<and>
     state cs = C_Terminate \<and> state ss = S_Terminate \<and> \<not> sendPkt fi'"
proof -
  have "heap_ok (hb1_ex_world (Instance 0))" by (auto simp: heap_ok_def hb1_ex_world_def)
  then show ?thesis
    using text_exchange_completes [of "hb1_ex_fi (Instance 0)" 1 "\<lparr>m_data = hb_ex_mem 0, m_dataLen = 100, m_bufLen = 2048\<rparr>" 2
        "\<lparr>cfg1_srcIp = 10, cfg1_dstPort = 2000\<rparr>" 20 1000 new_ConnectionID]
    by (simp add: hb1_ex_world_def hb_ex_world_def instance_ptr_def) blast
qed

text \<open>
  The last state of the server always ends the connection, always sends the packet and never
  deletes the object: a goodbye with the server's digit is answered with the client's cookie, in print; any
  other packet goes back out as it came in (the later versions free it and delete the object).
\<close>

theorem text_bye_never_frees:
  assumes "w_pkts (world fi) pkt = Some b" and "w_heap (world fi) (stateData (st fi)) = Some (S1Bye v)" and "sendPkt fi"
  shows "\<exists>fi'. ServerBye1_run pkt fi = ret fi' \<and> state (st fi') = S_Terminate \<and> sendPkt fi' \<and>
    w_heap (world fi') = w_heap (world fi) \<and>
    (if text_at (ascii ''CLIENT BYE:'') (m_data b) \<and>
        cookie_at (msg_at (m_data b)) (ascii ''CLIENT BYE:'') (m_data b) = s1_serverCookie v
     then w_pkts (world fi') = (w_pkts (world fi))(pkt \<mapsto> b\<lparr>m_data := hb_turn_around 14 (ip_getPayload 14 (m_data b))
         (store_bytes (msg_at (m_data b)) (ascii ''SERVER BYE:'' @ show_int (s1_clientCookie v) @ endl) (m_data b))\<rparr>)
     else w_pkts (world fi') = w_pkts (world fi))"
  using server1_bye [OF assms(1,2)] assms(3) by (auto split: if_split)

theorem text_bye_never_frees_witness:
  "\<exists>fi'. ServerBye1_run 1 (hb1_ex_fi (S1Bye \<lparr>s1_clientCookie = 1, s1_serverCookie = 2\<rparr>)) = ret fi' \<and>
     sendPkt fi' \<and> w_heap (world fi') 3 = Some (S1Bye \<lparr>s1_clientCookie = 1, s1_serverCookie = 2\<rparr>)"
  using text_bye_never_frees [of "hb1_ex_fi (S1Bye \<lparr>s1_clientCookie = 1, s1_serverCookie = 2\<rparr>)" 1
      "\<lparr>m_data = hb_ex_mem 0, m_dataLen = 100, m_bufLen = 2048\<rparr>" "\<lparr>s1_clientCookie = 1, s1_serverCookie = 2\<rparr>"]
  by (auto simp: hb1_ex_world_def hb_ex_world_def)

text \<open>
  Cookies of one digit, the only ones the two constructors choose, survive printing and reading:
  the printed text is the literal, one digit and a newline, and reading the byte after the literal gives the
  number back.  The other way round, a byte read as a cookie is printed as that byte exactly when it is a
  digit, so a cookie sent by a foreign client that is not a digit is not what it gets back.
\<close>

theorem cookie_text_roundtrip:
  assumes "r < 10" and "text_at (s @ show_int r @ endl) m"
  shows "show_int r = [digit r] \<and> cookie_at (msg_at m) s m = r \<and>
    (show_int (ucast (x :: u8) - 48) = [x] \<longleftrightarrow> 48 \<le> x \<and> x \<le> 57)"
proof -
  have nonempty: "show_nat n \<noteq> []" for n by (subst show_nat.simps) simp
  have "48 \<le> x \<and> x \<le> 57" if "show_int (ucast x - 48) = [x]"
    using that nonempty show_nat_digits [of "nat (sint (ucast x - 48 :: u32))"]
    by (simp add: show_int_def split: if_splits)
  moreover have "show_int (ucast x - 48) = [x]" if "48 \<le> x" "x \<le> 57"
  proof -
    from that have "48 \<le> unat x" "unat x \<le> 57" by (simp_all add: word_le_nat_alt)
    then have "unat x \<in> {48, 49, 50, 51, 52, 53, 54, 55, 56, 57}" by (simp only: insert_iff empty_iff) presburger
    then have "of_nat (unat x) \<in> (of_nat ` {48, 49, 50, 51, 52, 53, 54, 55, 56, 57} :: u8 set)" by (rule imageI)
    then have "x \<in> {48, 49, 50, 51, 52, 53, 54, 55, 56, 57}" by simp
    then show ?thesis by (auto simp: show_int_def show_nat.simps)
  qed
  moreover have "cookie_at (msg_at m) s m = r" using text_cookie [of s r m] assms show_digit by simp
  ultimately show ?thesis using show_digit [OF assms(1)] by blast
qed

theorem cookie_text_roundtrip_witness:
  "show_int 7 = [55] \<and> (\<exists>m. text_at (ascii ''CLIENT BYE:'' @ show_int 7 @ endl) m \<and>
     cookie_at (msg_at m) (ascii ''CLIENT BYE:'') m = 7)"
proof -
  let ?s = "ascii ''CLIENT BYE:''"
  let ?m = "store_bytes 42 (?s @ show_int 7 @ endl) ((\<lambda>_. 0)(14 := 5))"
  have "msg_at ?m = 42"
    by (simp add: msg_at_def ip_getPayload_def ip_ihl_def store_bytes_apply udp_getPayload_def sizeof_Udp_def)
  then have "text_at (?s @ show_int 7 @ endl) ?m" by (simp add: text_at_def)
  from cookie_text_roundtrip [OF _ this, of 55] this show ?thesis by (auto simp: digit_def)
qed

end
