(* ===== verification/Openssl.thy ===== *)
theory Openssl
  imports Packet_World
begin

text \<open>
  What the DTLS client and server use of OpenSSL and of DPDK's packet pools.  Both libraries are
  third-party: the state of OpenSSL is a type \<open>'l\<close>, its objects (\<open>SSL\<close>, \<open>BIO\<close>, \<open>SSL_CTX\<close>) are pointers
  into it, and the functions the code calls are a record of parameters.  A function that fills a
  buffer returns the bytes it wrote; the result of one whose result the code ignores is left out.

  The locale \<open>output_bio\<close> states what the code relies on when it empties the output of a
  connection: a BIO is at its end when no bytes wait in it, and reading from it otherwise takes some
  of the first bytes, at most as many as there is room for.
\<close>

record ('o, 'l) ssl_world =
  sw :: "'o hworld"
  lib :: 'l

record 'l ssl_ops =
  SSL_new :: "ptr \<Rightarrow> 'l \<Rightarrow> ptr \<times> 'l"
  BIO_new :: "'l \<Rightarrow> ptr \<times> 'l"
  SSL_set_accept_state :: "ptr \<Rightarrow> 'l \<Rightarrow> 'l"
  SSL_set_connect_state :: "ptr \<Rightarrow> 'l \<Rightarrow> 'l"
  SSL_set_bio :: "ptr \<Rightarrow> ptr \<Rightarrow> ptr \<Rightarrow> 'l \<Rightarrow> 'l"
  SSL_set_mtu :: "ptr \<Rightarrow> int \<Rightarrow> 'l \<Rightarrow> 'l"
  BIO_eof :: "ptr \<Rightarrow> 'l \<Rightarrow> bool"
  BIO_read :: "ptr \<Rightarrow> int \<Rightarrow> 'l \<Rightarrow> int \<times> u8 list \<times> 'l"
  BIO_write :: "ptr \<Rightarrow> u8 list \<Rightarrow> 'l \<Rightarrow> int \<times> 'l"
  SSL_accept :: "ptr \<Rightarrow> 'l \<Rightarrow> 'l"
  SSL_connect :: "ptr \<Rightarrow> 'l \<Rightarrow> 'l"
  SSL_is_init_finished :: "ptr \<Rightarrow> 'l \<Rightarrow> bool"
  SSL_read :: "ptr \<Rightarrow> int \<Rightarrow> 'l \<Rightarrow> int \<times> u8 list \<times> 'l"
  SSL_write :: "ptr \<Rightarrow> u8 list \<Rightarrow> 'l \<Rightarrow> int \<times> 'l"
  SSL_shutdown :: "ptr \<Rightarrow> 'l \<Rightarrow> int \<times> 'l"
  SSL_get_shutdown :: "ptr \<Rightarrow> 'l \<Rightarrow> int"
  SSL_free :: "ptr \<Rightarrow> 'l \<Rightarrow> 'l"

locale output_bio =
  fixes ops :: "'l ssl_ops" and pend :: "ptr \<Rightarrow> 'l \<Rightarrow> u8 list"
  assumes eof: "BIO_eof ops b l \<longleftrightarrow> pend b l = []"
    and read: "\<lbrakk>pend b l \<noteq> []; 0 < k\<rbrakk> \<Longrightarrow> \<exists>n l'. 0 < n \<and> int n \<le> k \<and> n \<le> length (pend b l) \<and>
      BIO_read ops b k l = (int n, take n (pend b l), l') \<and> pend b l' = drop n (pend b l)"

text \<open>A library that keeps the waiting bytes of every BIO, and whose sessions send back what they receive.\<close>

type_synonym bio_lib = "ptr \<Rightarrow> u8 list"

definition bio_lib_ops :: "bio_lib ssl_ops" where
  "bio_lib_ops = \<lparr>
     SSL_new = \<lambda>ctx l. (1, l), BIO_new = \<lambda>l. (2, l), SSL_set_accept_state = \<lambda>s l. l,
     SSL_set_connect_state = \<lambda>s l. l, SSL_set_bio = \<lambda>s r w l. l, SSL_set_mtu = \<lambda>s n l. l,
     BIO_eof = \<lambda>b l. l b = [],
     BIO_read = \<lambda>b k l. (let n = min (nat k) (length (l b)) in (int n, take n (l b), l(b := drop n (l b)))),
     BIO_write = \<lambda>b bs l. (int (length bs), l),
     SSL_accept = \<lambda>s l. l, SSL_connect = \<lambda>s l. l, SSL_is_init_finished = \<lambda>s l. False,
     SSL_read = \<lambda>s k l. (0, [], l), SSL_write = \<lambda>s bs l. (int (length bs), l(2 := l 2 @ bs)),
     SSL_shutdown = \<lambda>s l. (1, l), SSL_get_shutdown = \<lambda>s l. 0, SSL_free = \<lambda>s l. l\<rparr>"

interpretation bio_lib: output_bio bio_lib_ops "\<lambda>b l. l b"
proof
  show "BIO_eof bio_lib_ops b l \<longleftrightarrow> l b = []" for b l by (simp add: bio_lib_ops_def)
next
  fix b and l :: bio_lib and k :: int
  assume "l b \<noteq> []" "0 < k"
  then show "\<exists>n l'. 0 < n \<and> int n \<le> k \<and> n \<le> length (l b) \<and>
      BIO_read bio_lib_ops b k l = (int n, take n (l b), l') \<and> l' b = drop n (l b)"
    by (intro exI [of _ "min (nat k) (length (l b))"]) (simp add: bio_lib_ops_def Let_def)
qed

end
