(* ===== verification/Dtls_Server.thy ===== *)
theory Dtls_Server
  imports Openssl State_Machine Headers Ident
begin

text \<open>
  The DTLS server of \<open>include/dtlsServer.hpp\<close> and \<open>src/dtlsServer.cpp\<close>: state functions that feed the
  packets of a connection to an OpenSSL session and send what the session wants to write, in the received packet
  and, where that is not enough, in packets obtained with \<open>getPkt\<close>.  Bytes received over
  the session are sent back.

  The creation of the SSL context (\<open>createCTX\<close>, \<open>get_dh2048\<close>) and the time stamps are not
  represented.  The static \<open>ctx\<close> is an argument of \<open>factory\<close>; the static \<open>mp\<close> is represented by the
  function \<open>alloc\<close> that takes a packet from it, \<open>rte_pktmbuf_alloc\<close>.
\<close>

section \<open>Objects\<close>

record dtlsServer =
  ds_ssl :: ptr
  ds_wbio :: ptr
  ds_rbio :: ptr
  ds_localIP :: u32
  ds_remoteIP :: u32
  ds_localMac :: "u8 list"
  ds_remoteMac :: "u8 list"
  ds_remotePort :: u16
  ds_localPort :: u16

type_synonym 'l ds_world = "(dtlsServer, 'l) ssl_world"
type_synonym 'l ds_fi = "(ConnectionID, ptr, 'l ds_world, unit) FunIface"
type_synonym 'l ds_fun = "(ConnectionID, ptr, 'l ds_world, unit) stateFun"

definition DS_HANDSHAKE :: StateID where "DS_HANDSHAKE = 1"
definition DS_ESTABLISHED :: StateID where "DS_ESTABLISHED = 2"
definition DS_RUN_TEARDOWN :: StateID where "DS_RUN_TEARDOWN = 3"
definition DS_DELETED :: StateID where "DS_DELETED = 4"

definition ds_upd :: "('l \<Rightarrow> 'l) \<Rightarrow> ('o, 'l) ssl_world \<Rightarrow> ('o, 'l) ssl_world" where
  "ds_upd f w = w\<lparr>lib := f (lib w)\<rparr>"

definition ds_factory :: "'l ssl_ops \<Rightarrow> ptr \<Rightarrow> ConnectionID \<Rightarrow> 'l ds_world \<Rightarrow> (ptr \<times> 'l ds_world) res" where
  "ds_factory ops ctx cid w =
    (let (p, h) = heap_new \<lparr>ds_ssl = 0, ds_wbio = 0, ds_rbio = 0, ds_localIP = 0, ds_remoteIP = 0,
           ds_localMac = replicate 6 0, ds_remoteMac = replicate 6 0, ds_remotePort = 0, ds_localPort = 0\<rparr> (sw w);
         (ssl, l) = SSL_new ops ctx (lib w)
     in rbind (rassert (ssl \<noteq> 0)) (\<lambda>_.
     let (wbio, l) = BIO_new ops l in
     rbind (rassert (wbio \<noteq> 0)) (\<lambda>_.
     let (rbio, l) = BIO_new ops l in
     rbind (rassert (rbio \<noteq> 0)) (\<lambda>_.
     let l = SSL_set_accept_state ops ssl l;
         l = SSL_set_bio ops ssl rbio wbio l;
         l = SSL_set_mtu ops ssl 1280 l
     in rbind (heap_get p h) (\<lambda>s.
        ret (p, w\<lparr>sw := heap_put p (s\<lparr>ds_ssl := ssl, ds_wbio := wbio, ds_rbio := rbio\<rparr>) h, lib := l\<rparr>))))))"

section \<open>Sending what the session wants to write\<close>

definition allHeaderLength :: int where
  "allHeaderLength = int sizeof_Ethernet + int sizeof_IPv4 + int sizeof_Udp"

definition ds_headers_first :: "dtlsServer \<Rightarrow> int \<Rightarrow> nat \<Rightarrow> mem \<Rightarrow> mem" where
  "ds_headers_first s dataLen udp m =
    (let ethernet = 0; ipv4 = eth_getPayload ethernet;
         m = eth_setDstAddr ethernet (ds_remoteMac s) m;
         m = eth_setSrcAddr ethernet (ds_localMac s) m;
         m = eth_setEthertype ethernet ETHERTYPE_IPv4 m;
         m = ip_setVersion ipv4 m;
         m = ip_setIHL ipv4 5 m;
         m = ip_setPayloadLength ipv4 (of_int (dataLen + int sizeof_Udp)) m;
         m = ip_setProtoUDP ipv4 m;
         m = ip_setSrcIP ipv4 (ds_localIP s) m;
         m = ip_setDstIP ipv4 (ds_remoteIP s) m;
         m = ip_setChecksum ipv4 0 m;
         m = ip_setTTL ipv4 64 m;
         m = udp_setDstPort udp (ds_remotePort s) m;
         m = udp_setSrcPort udp (ds_localPort s) m
     in udp_setPayloadLength udp (of_int dataLen) m)"

definition ds_headers_extra :: "dtlsServer \<Rightarrow> int \<Rightarrow> nat \<Rightarrow> mem \<Rightarrow> mem" where
  "ds_headers_extra s dataLen udp m =
    (let ethernet = 0; ipv4 = eth_getPayload ethernet;
         m = eth_setEthertype ethernet ETHERTYPE_IPv4 m;
         m = eth_setDstAddr ethernet (ds_remoteMac s) m;
         m = eth_setSrcAddr ethernet (ds_localMac s) m;
         m = ip_setPayloadLength ipv4 (of_int (dataLen + int sizeof_Udp)) m;
         m = ip_setProtoUDP ipv4 m;
         m = ip_setSrcIP ipv4 (ds_localIP s) m;
         m = ip_setDstIP ipv4 (ds_remoteIP s) m;
         m = ip_setChecksum ipv4 0 m;
         m = ip_setTTL ipv4 64 m;
         m = udp_setDstPort udp (ds_remotePort s) m;
         m = udp_setSrcPort udp (ds_localPort s) m
     in udp_setPayloadLength udp (of_int dataLen) m)"

text \<open>
  One packet \<open>p\<close> is filled from the output; the room is that of the packet \<open>pkt\<close>, in both cases.
\<close>

definition ds_fill ::
  "'l ssl_ops \<Rightarrow> (dtlsServer \<Rightarrow> int \<Rightarrow> nat \<Rightarrow> mem \<Rightarrow> mem) \<Rightarrow> dtlsServer \<Rightarrow> ptr \<Rightarrow> ptr \<Rightarrow> 'l ds_world \<Rightarrow> 'l ds_world res" where
  "ds_fill ops headers s pkt p w =
    rbind (getData p (sw w)) (\<lambda>m.
    rbind (getBufLen pkt (sw w)) (\<lambda>bufLen.
    let ipv4 = eth_getPayload 0;
        m = ip_setVersion ipv4 m;
        m = ip_setIHL ipv4 5 m;
        udp = ip_getPayload ipv4 m;
        udpMaxLen = int (unat (min bufLen 1500)) - allHeaderLength;
        (dataLen, bs, l) = BIO_read ops (ds_wbio s) udpMaxLen (lib w);
        m = store_bytes (udp_getPayload udp) bs m
    in rbind (rassert (0 < dataLen)) (\<lambda>_.
       rbind (setDataLen p (of_int (dataLen + allHeaderLength)) (sw w)) (\<lambda>h.
       rbind (writeData p (headers s dataLen udp m) h) (\<lambda>h.
       ret (w\<lparr>sw := h, lib := l\<rparr>))))))"

partial_function (option) ds_extra_loop ::
  "'l ssl_ops \<Rightarrow> dtlsServer \<Rightarrow> ptr \<Rightarrow> nat \<Rightarrow> 'l ds_fi \<Rightarrow> (nat \<times> 'l ds_fi) res" where
  "ds_extra_loop ops s pkt n fi =
    (if BIO_eof ops (ds_wbio s) (lib (world fi)) then ret (n, fi)
     else rbind (getPkt fi) (\<lambda>(xtra, fi).
          rbind (rassert (xtra \<noteq> 0)) (\<lambda>_.
          rbind (ds_fill ops ds_headers_extra s pkt xtra (world fi)) (\<lambda>w.
          ds_extra_loop ops s pkt (n + 1) (fi\<lparr>world := w\<rparr>)))))"

definition ds_writeAllDataAvailable ::
  "'l ssl_ops \<Rightarrow> ptr \<Rightarrow> ptr \<Rightarrow> 'l ds_fi \<Rightarrow> (nat \<times> 'l ds_fi) res" where
  "ds_writeAllDataAvailable ops server pkt fi =
    rbind (heap_get server (sw (world fi))) (\<lambda>s.
    rbind
      (if \<not> BIO_eof ops (ds_wbio s) (lib (world fi)) then
         rbind (ds_fill ops ds_headers_first s pkt pkt (world fi)) (\<lambda>w. ret (1, fi\<lparr>world := w\<rparr>))
       else ret (0, freePkt fi)) (\<lambda>(n, fi).
    ds_extra_loop ops s pkt n fi))"

section \<open>State functions\<close>

text \<open>The payload of a UDP packet, as long as the header says, and its way into the session.\<close>

definition udp_payload :: "mem \<Rightarrow> u8 list" where
  "udp_payload m =
    (let ipv4 = eth_getPayload 0; udp = ip_getPayload ipv4 m
     in load_bytes (udp_getPayload udp) (unat (udp_getPayloadLength udp m)) m)"

definition bio_feed :: "'l ssl_ops \<Rightarrow> ptr \<Rightarrow> mem \<Rightarrow> ('o, 'l) ssl_world \<Rightarrow> ('o, 'l) ssl_world res" where
  "bio_feed ops rbio m w =
    (let (writeBytes, l) = BIO_write ops rbio (udp_payload m) (lib w)
     in rbind (rassert (0 < writeBytes)) (\<lambda>_. ret (w\<lparr>lib := l\<rparr>)))"

text \<open>Send back \<open>readLen\<close> bytes; a short write is an exception.\<close>

definition ds_reflect :: "'l ssl_ops \<Rightarrow> ptr \<Rightarrow> int \<Rightarrow> u8 list \<Rightarrow> ('o, 'l) ssl_world \<Rightarrow> ('o, 'l) ssl_world res" where
  "ds_reflect ops ssl readLen buf w =
    (if 0 < readLen then
       let (n, l) = SSL_write ops ssl (take (nat readLen) buf) (lib w)
       in if n \<noteq> readLen then fail Thrown else ret (w\<lparr>lib := l\<rparr>)
     else ret w)"

definition ds_runHandshake :: "'l ssl_ops \<Rightarrow> 'l ds_fun" where
  "ds_runHandshake ops pkt fi =
    (let server = stateData (st fi) in
     rbind (heap_get server (sw (world fi))) (\<lambda>s.
     rbind (getData pkt (sw (world fi))) (\<lambda>m.
     let ethernet = 0;
         ipv4 = eth_getPayload ethernet;
         udp = ip_getPayload ipv4 m;
         s = s\<lparr>ds_localIP := ip_getDstIP ipv4 m, ds_remoteIP := ip_getSrcIP ipv4 m,
               ds_localPort := udp_getDstPort udp m, ds_remotePort := udp_getSrcPort udp m,
               ds_localMac := load_bytes ethernet 6 m, ds_remoteMac := load_bytes (ethernet + 6) 6 m\<rparr>;
         w = (world fi)\<lparr>sw := heap_put server s (sw (world fi))\<rparr>
     in rbind (bio_feed ops (ds_rbio s) m w) (\<lambda>w.
     let w = ds_upd (SSL_accept ops (ds_ssl s)) w;
         fi = fi\<lparr>world := w\<rparr>
     in rbind
          (if SSL_is_init_finished ops (ds_ssl s) (lib w) then
             let fi = transition DS_ESTABLISHED fi;
                 (readLen, buf, l) = SSL_read ops (ds_ssl s) 2048 (lib w)
             in rbind (ds_reflect ops (ds_ssl s) readLen buf (w\<lparr>lib := l\<rparr>)) (\<lambda>w. ret (fi\<lparr>world := w\<rparr>))
           else ret fi) (\<lambda>fi.
        rbind (ds_writeAllDataAvailable ops server pkt fi) (\<lambda>(_, fi). ret fi))))))"

definition ds_sendData :: "'l ssl_ops \<Rightarrow> 'l ds_fun" where
  "ds_sendData ops pkt fi =
    (let server = stateData (st fi) in
     rbind (heap_get server (sw (world fi))) (\<lambda>s.
     rbind (getData pkt (sw (world fi))) (\<lambda>m.
     rbind (bio_feed ops (ds_rbio s) m (world fi)) (\<lambda>w.
     let (readLen, buf, l) = SSL_read ops (ds_ssl s) 2048 (lib w)
     in rbind (ds_reflect ops (ds_ssl s) readLen buf (w\<lparr>lib := l\<rparr>)) (\<lambda>w.
        let fi = (if SSL_get_shutdown ops (ds_ssl s) (lib w) \<noteq> 0
                  then transition DS_DELETED (fi\<lparr>world := ds_upd (\<lambda>l. snd (SSL_shutdown ops (ds_ssl s) l)) w\<rparr>)
                  else fi\<lparr>world := w\<rparr>)
        in rbind (ds_writeAllDataAvailable ops server pkt fi) (\<lambda>(_, fi). ret fi))))))"

definition ds_runTeardown :: "'l ssl_ops \<Rightarrow> 'l ds_fun" where
  "ds_runTeardown ops pkt fi =
    (let server = stateData (st fi) in
     rbind (heap_get server (sw (world fi))) (\<lambda>s.
     rbind (getData pkt (sw (world fi))) (\<lambda>m.
     rbind (bio_feed ops (ds_rbio s) m (world fi)) (\<lambda>w.
     let (r, l) = SSL_shutdown ops (ds_ssl s) (lib w);
         w = w\<lparr>lib := l\<rparr>
     in rbind
          (if r = 1 then
             let w = ds_upd (SSL_free ops (ds_ssl s)) w
             in rbind (heap_delete server (sw w)) (\<lambda>h.
                ret (freePkt (transition DS_DELETED (fi\<lparr>world := w\<lparr>sw := h\<rparr>\<rparr>))))
           else ret (fi\<lparr>world := w\<rparr>)) (\<lambda>fi.
        rbind (ds_writeAllDataAvailable ops server pkt fi) (\<lambda>(_, fi). ret fi))))))"

section \<open>Configuration and the C interface\<close>

type_synonym ('l, 'm) ds_sm = "(ConnectionID, ptr, 'l ds_world, unit, 'm) SM"
type_synonym ('l, 'm, 'n) ds_env = "(ConnectionID, ptr, 'l ds_world, unit, 'm, 'n) env"
type_synonym ('l, 'm, 'n) ds_ctx = "(ConnectionID, ptr, 'l ds_world, unit, 'm, 'n) ctx"

text \<open>Connections are identified by their five-tuple; no timeout is ever set.\<close>

definition dtls_env ::
  "('m, ConnectionID, State) map_ops \<Rightarrow> ('n, ConnectionID, State) map_ops \<Rightarrow>
     (('o, 'l) ssl_world \<Rightarrow> int \<times> ('o, 'l) ssl_world) \<Rightarrow> (ConnectionID, ptr, ('o, 'l) ssl_world, unit, 'm, 'n) env" where
  "dtls_env d n clk =
    \<lparr>dense = d, poolOps = n,
     ident = \<lambda>w p. case w_pkts (sw w) p of None \<Rightarrow> None | Some b \<Rightarrow> identify (m_data b),
     clock = clk, timeoutFun = \<lambda>k fi. ret fi\<rparr>"

text \<open>The callback behind \<open>getPkt\<close>; a packet without a buffer has a null \<open>buf_addr\<close>.\<close>

definition pkt_callback ::
  "(('o, 'l) ssl_world \<Rightarrow> ptr \<times> ('o, 'l) ssl_world) \<Rightarrow> ('o, 'l) ssl_world \<Rightarrow> (ptr \<times> ('o, 'l) ssl_world) res" where
  "pkt_callback alloc w =
    (let (buf, w) = alloc w
     in rbind (rassert (buf \<noteq> 0)) (\<lambda>_.
        rbind (rassert (w_pkts (sw w) buf \<noteq> None)) (\<lambda>_. ret (buf, w))))"

definition ds_configStateMachine ::
  "'l ssl_ops \<Rightarrow> ptr \<Rightarrow> ('l ds_world \<Rightarrow> ptr \<times> 'l ds_world) \<Rightarrow> ('l, 'm) ds_sm \<Rightarrow> ('l, 'm) ds_sm" where
  "ds_configStateMachine ops ctx alloc sm =
    (let sm = registerFunction DS_HANDSHAKE (Some (ds_runHandshake ops)) sm;
         sm = registerFunction DS_ESTABLISHED (Some (ds_sendData ops)) sm;
         sm = registerFunction DS_RUN_TEARDOWN (Some (ds_runTeardown ops)) sm;
         sm = registerStartStateID DS_HANDSHAKE (Some (ds_factory ops ctx)) sm;
         sm = registerGetPktCB (Some (pkt_callback alloc)) sm
     in registerEndStateID DS_DELETED sm)"

text \<open>An exception that reaches the C interface ends the process.\<close>

definition catch_abort :: "'a res \<Rightarrow> 'a res" where
  "catch_abort m = (case m of Some (Inl Thrown) \<Rightarrow> fail Abort | _ \<Rightarrow> m)"

lemma catch_abort_ret: "catch_abort m = ret x \<longleftrightarrow> m = ret x"
  by (auto simp: catch_abort_def split: option.splits sum.splits err.splits)

definition DtlsServer_process ::
  "('l, 'm, 'n) ds_env \<Rightarrow> ptr list \<Rightarrow> u32 \<Rightarrow> ('l, 'm, 'n) ds_ctx \<Rightarrow> (('l, 'm, 'n) ds_ctx \<times> u32 \<times> u32) res" where
  "DtlsServer_process env inPkts inCount x = catch_abort
    (rbind (new_BufArray inPkts inCount True) (\<lambda>ba.
     rbind (runPktBatch env (x\<lparr>c_batch := ba\<rparr>)) (\<lambda>x.
     ret (x, getSendCount (c_batch x), getFreeCount (c_batch x)))))"

definition DtlsServer_getPkts :: "ptr bufArray \<Rightarrow> (ptr list \<times> ptr list) res" where
  "DtlsServer_getPkts ba =
    rbind (getSendBufs ba) (\<lambda>s. rbind (getFreeBufs ba) (\<lambda>f. ret (s, f)))"

end
