(* ===== verification/Dtls_Send.thy ===== *)
theory Dtls_Send
  imports Dtls_Server
begin

text \<open>
  How the DTLS server empties the output of a session.  The specification is that of a byte
  stream cut into UDP datagrams: the packets sent are datagrams for the peer, and
  their payloads, put together, are the bytes that were waiting.

  The locale \<open>packet_pool\<close> states what the code relies on when it takes a packet from the pool of
  DPDK: as long as the pool is not exhausted it gets one that is not in use.
\<close>

section \<open>Packet pools\<close>

locale packet_pool =
  fixes alloc :: "('o, 'l) ssl_world \<Rightarrow> ptr \<times> ('o, 'l) ssl_world" and avail :: "ptr set \<Rightarrow> nat"
  assumes alloc: "0 < avail (dom (w_pkts (sw w))) \<Longrightarrow> \<exists>p b.
      alloc w = (p, w\<lparr>sw := (sw w)\<lparr>w_pkts := (w_pkts (sw w))(p \<mapsto> b)\<rparr>\<rparr>) \<and> p \<noteq> 0 \<and> w_pkts (sw w) p = None \<and>
      Suc (avail (insert p (dom (w_pkts (sw w))))) = avail (dom (w_pkts (sw w)))"

text \<open>A pool of the addresses \<open>1\<close> to \<open>n\<close>; its packets hold 2048 bytes.\<close>

definition slab_alloc :: "nat \<Rightarrow> ('o, 'l) ssl_world \<Rightarrow> ptr \<times> ('o, 'l) ssl_world" where
  "slab_alloc n w =
    (case List.find (\<lambda>p. w_pkts (sw w) p = None) [1..<Suc n] of
       None \<Rightarrow> (0, w)
     | Some p \<Rightarrow> (p, w\<lparr>sw := (sw w)\<lparr>w_pkts := (w_pkts (sw w))
                        (p \<mapsto> \<lparr>m_data = (\<lambda>_. 0), m_dataLen = 0, m_bufLen = 2048\<rparr>)\<rparr>\<rparr>))"

lemma slab_alloc:
  assumes "0 < card ({1..n} - dom (w_pkts (sw w)))"
  shows "\<exists>p b. slab_alloc n w = (p, w\<lparr>sw := (sw w)\<lparr>w_pkts := (w_pkts (sw w))(p \<mapsto> b)\<rparr>\<rparr>) \<and> p \<noteq> 0 \<and>
    w_pkts (sw w) p = None \<and>
    Suc (card ({1..n} - insert p (dom (w_pkts (sw w))))) = card ({1..n} - dom (w_pkts (sw w)))"
proof -
  let ?D = "dom (w_pkts (sw w))" and ?f = "List.find (\<lambda>p. w_pkts (sw w) p = None) [1..<Suc n]"
  obtain q where q: "q \<in> {1..n} - ?D" using assms by (metis card.empty ex_in_conv less_irrefl)
  have "?f \<noteq> None" using q by (force simp: find_None_iff domIff)
  then obtain p where f: "?f = Some p" by blast
  then have p: "w_pkts (sw w) p = None" "p \<in> {1..n}"
    by (auto simp: find_Some_iff simp del: upt_Suc)
  then have "{1..n} - insert p ?D = ({1..n} - ?D) - {p}" and "p \<in> {1..n} - ?D" by auto
  then have "Suc (card ({1..n} - insert p ?D)) = card ({1..n} - ?D)"
    using card_Suc_Diff1 [of "{1..n} - ?D" p] by simp
  with p f show ?thesis
    by (intro exI [of _ p] exI [of _ "\<lparr>m_data = (\<lambda>_. 0), m_dataLen = 0, m_bufLen = 2048\<rparr>"])
      (simp add: slab_alloc_def)
qed

interpretation slab: packet_pool "slab_alloc n" "\<lambda>D. card ({1..n} - D)" for n
  by unfold_locales (rule slab_alloc)

text \<open>It never hands out a packet that is already in use.\<close>

lemma slab_alloc_fresh:
  assumes "slab_alloc n w = (p, w')" and "p \<noteq> 0"
  shows "p \<notin> dom (w_pkts (sw w)) \<and> dom (w_pkts (sw w')) = insert p (dom (w_pkts (sw w)))"
  using assms by (auto simp: slab_alloc_def find_Some_iff split: option.splits if_splits simp del: upt_Suc)

section \<open>Datagrams\<close>

text \<open>The five-tuple of the packets to the peer, and a datagram of the bytes \<open>bs\<close> with that five-tuple.\<close>

definition udp_tuple :: "u32 \<Rightarrow> u32 \<Rightarrow> u16 \<Rightarrow> u16 \<Rightarrow> ConnectionID" where
  "udp_tuple localIP remoteIP localPort remotePort =
     \<lparr>dstIP = htonl remoteIP, srcIP = htonl localIP, dstPort = htons remotePort, srcPort = htons localPort, proto = PROTO_UDP\<rparr>"

definition ds_peer :: "dtlsServer \<Rightarrow> ConnectionID" where
  "ds_peer s = udp_tuple (ds_localIP s) (ds_remoteIP s) (ds_localPort s) (ds_remotePort s)"

definition datagram :: "ConnectionID \<Rightarrow> u8 list \<Rightarrow> mbuf \<Rightarrow> bool" where
  "datagram k bs b \<longleftrightarrow> identify (m_data b) = Some k \<and> udp_payload (m_data b) = bs \<and>
     unat (m_dataLen b) = 42 + length bs \<and> ip_getPayloadLength 14 (m_data b) = of_nat (8 + length bs)"

lemma load_bytes_other_bytes [mem_simps]:
  "b + length bs \<le> a \<or> a + n \<le> b \<Longrightarrow> load_bytes a n (store_bytes b bs m) = load_bytes a n m"
  by (rule load_bytes_cong) (auto simp: store_bytes_apply)

text \<open>
  A memory with a 20-byte IP header, the fields of a datagram and its payload at offset 42, is one.
\<close>

lemma datagramI:
  assumes ihl: "m 14 AND 15 = 5" and pr: "m 23 = PROTO_UDP"
    and f: "load32 m 30 = dstIP k" "load32 m 26 = srcIP k" "load16 m 36 = dstPort k" "load16 m 34 = srcPort k"
    and k: "proto k = PROTO_UDP" and len: "load16 m 38 = htons (of_nat (8 + length bs))"
    and iplen: "load16 m 16 = htons (of_nat (28 + length bs))"
    and pay: "load_bytes 42 (length bs) m = bs" and small: "42 + length bs < 65536" and dl: "dl = of_nat (42 + length bs)"
  shows "datagram k bs \<lparr>m_data = m, m_dataLen = dl, m_bufLen = bl\<rparr>"
proof -
  have ip: "ip_getPayload 14 m = 34" using ihl by (simp add: ip_getPayload_def ip_ihl_def)
  have "identify m = Some k"
    by (subst identify_udp [OF _ ip]) (use pr f k in \<open>simp_all add: ip_proto_def PROTO_UDP_def\<close>)
  moreover have "udp_getPayloadLength 34 m = of_nat (length bs)"
    using len by (simp add: udp_getPayloadLength_def sizeof_Udp_def)
  then have "unat (udp_getPayloadLength 34 m) = length bs"
    using small by (simp add: unat_of_nat_less)
  then have "udp_payload m = bs"
    using pay ip by (simp add: udp_payload_def Let_def eth_getPayload_def sizeof_Ethernet_def udp_getPayload_def sizeof_Udp_def)
  moreover have "ip_getPayloadLength 14 m = of_nat (8 + length bs)"
    using iplen ihl by (simp add: ip_getPayloadLength_def ip_ihl_def)
  ultimately show ?thesis using small dl by (simp add: datagram_def unat_of_nat_less del: of_nat_add)
qed

text \<open>
  The setters that the client and the server call last, applied to a packet with a 20-byte IP
  header and the payload in place, make a datagram.
\<close>

lemma udp_headers_tail:
  assumes ihl: "m 14 AND 15 = 5" and pay: "load_bytes 42 (length bs) m = bs" and small: "42 + length bs < 65536"
    and dl: "dl = of_nat (42 + length bs)"
    and m': "m' = udp_setPayloadLength 34 (of_int (int (length bs))) (udp_setSrcPort 34 lport
      (udp_setDstPort 34 rport (ip_setTTL 14 64 (ip_setChecksum 14 0 (ip_setDstIP 14 rip (ip_setSrcIP 14 lip
      (ip_setProtoUDP 14 (ip_setPayloadLength 14 (of_int (int (length bs) + int sizeof_Udp)) m))))))))"
  shows "datagram (udp_tuple lip rip lport rport) bs \<lparr>m_data = m', m_dataLen = dl, m_bufLen = bl\<rparr>"
proof (rule datagramI [OF _ _ _ _ _ _ _ _ _ _ small dl])
  define m2 where "m2 = ip_setPayloadLength 14 (of_int (int (length bs) + int sizeof_Udp)) m"
  have i: "ip_ihl 14 m = 5" using ihl by (simp add: ip_ihl_def)
  have l: "ucast (5 :: u8) * 4 + of_int (int (length bs) + int sizeof_Udp) = (of_nat (28 + length bs) :: u16)"
    by (simp add: sizeof_Udp_def)
  have m2: "m2 14 = m 14" "load_bytes 42 (length bs) m2 = load_bytes 42 (length bs) m"
    "load16 m2 16 = htons (of_nat (28 + length bs))"
    unfolding m2_def ip_setPayloadLength_def i l by (simp_all add: mem_simps)
  note m' = m' [folded m2_def]
  show "m' 14 AND 15 = 5" using ihl m2(1) by (simp add: m' udp_defs ip_defs mem_simps)
  show "load16 m' 16 = htons (of_nat (28 + length bs))" using m2(3) by (simp add: m' udp_defs ip_defs mem_simps)
  show "load_bytes 42 (length bs) m' = bs" using m2(2) pay by (simp add: m' udp_defs ip_defs mem_simps)
  show "load16 m' 38 = htons (of_nat (8 + length bs))" by (simp add: m' udp_defs sizeof_Udp_def)
  let ?k = "udp_tuple lip rip lport rport"
  show "m' 23 = PROTO_UDP" "load32 m' 30 = dstIP ?k" "load32 m' 26 = srcIP ?k" "load16 m' 36 = dstPort ?k"
    "load16 m' 34 = srcPort ?k" "proto ?k = PROTO_UDP"
    by (simp_all add: m' udp_tuple_def udp_defs ip_defs mem_simps)
qed

lemma ds_headers_datagram:
  fixes bs m0
  defines "m \<equiv> store_bytes 42 bs (ip_setIHL 14 5 (ip_setVersion 14 m0))"
  assumes h: "headers = ds_headers_first \<or> headers = ds_headers_extra" and small: "42 + length bs < 65536"
    and dl: "dl = of_nat (42 + length bs)"
  shows "datagram (ds_peer s) bs \<lparr>m_data = headers s (int (length bs)) 34 m, m_dataLen = dl, m_bufLen = bl\<rparr>"
  using h
proof
  define m1 where "m1 = ip_setIHL 14 5 (ip_setVersion 14 (eth_setEthertype 0 ETHERTYPE_IPv4
    (eth_setSrcAddr 0 (ds_localMac s) (eth_setDstAddr 0 (ds_remoteMac s) m))))"
  assume h: "headers = ds_headers_first"
  show ?thesis unfolding ds_peer_def
  proof (rule udp_headers_tail [of m1, OF _ _ small dl])
    show "m1 14 AND 15 = 5" using ihl_setIHL [of 14 5] by (simp add: m1_def ip_ihl_def)
    show "load_bytes 42 (length bs) m1 = bs"
      by (simp add: m1_def m_def ip_setIHL_def ip_setVersion_def eth_setEthertype_def eth_setSrcAddr_def eth_setDstAddr_def mem_simps)
  qed (simp add: h m1_def ds_headers_first_def Let_def eth_getPayload_def sizeof_Ethernet_def)
next
  define m1 where "m1 = eth_setSrcAddr 0 (ds_localMac s) (eth_setDstAddr 0 (ds_remoteMac s)
    (eth_setEthertype 0 ETHERTYPE_IPv4 m))"
  assume h: "headers = ds_headers_extra"
  show ?thesis unfolding ds_peer_def
  proof (rule udp_headers_tail [of m1, OF _ _ small dl])
    have "m1 14 = ip_setIHL 14 5 (ip_setVersion 14 m0) 14"
      by (simp add: m1_def m_def eth_setEthertype_def eth_setSrcAddr_def eth_setDstAddr_def mem_simps)
    then show "m1 14 AND 15 = 5" using ihl_setIHL [of 14 5] by (simp add: ip_ihl_def)
    show "load_bytes 42 (length bs) m1 = bs"
      by (simp add: m1_def m_def eth_setEthertype_def eth_setSrcAddr_def eth_setDstAddr_def mem_simps)
  qed (simp add: h m1_def ds_headers_extra_def Let_def eth_getPayload_def sizeof_Ethernet_def)
qed

section \<open>Filling one packet\<close>

context output_bio
begin

lemma fill:
  assumes p: "w_pkts (sw w) p = Some b" and pkt: "w_pkts (sw w) pkt = Some b0" and room: "42 < unat (m_bufLen b0)"
    and h: "headers = ds_headers_first \<or> headers = ds_headers_extra" and ne: "pend (ds_wbio s) (lib w) \<noteq> []"
  obtains n l' b' where "0 < n" "42 + n \<le> unat (m_bufLen b0)" "42 + n \<le> 1500" "n \<le> length (pend (ds_wbio s) (lib w))"
    "ds_fill ops headers s pkt p w = ret (w\<lparr>sw := (sw w)\<lparr>w_pkts := (w_pkts (sw w))(p \<mapsto> b')\<rparr>, lib := l'\<rparr>)"
    "pend (ds_wbio s) l' = drop n (pend (ds_wbio s) (lib w))"
    "datagram (ds_peer s) (take n (pend (ds_wbio s) (lib w))) b'" "m_bufLen b' = m_bufLen b"
proof -
  let ?k = "int (unat (min (m_bufLen b0) 1500)) - allHeaderLength" and ?q = "pend (ds_wbio s) (lib w)"
  have "unat (min (m_bufLen b0) 1500) = min (unat (m_bufLen b0)) 1500" by (simp add: min_def word_le_nat_alt)
  then have k: "?k = int (min (unat (m_bufLen b0)) 1500) - 42"
    by (simp add: allHeaderLength_def sizeof_Ethernet_def sizeof_IPv4_def sizeof_Udp_def)
  have kp: "0 < ?k" unfolding k using room by simp
  obtain n l' where n: "0 < n" "int n \<le> ?k" "n \<le> length ?q"
    and r: "BIO_read ops (ds_wbio s) ?k (lib w) = (int n, take n ?q, l')" and l': "pend (ds_wbio s) l' = drop n ?q"
    using read [OF ne kp] by blast
  define m where "m = store_bytes 42 (take n ?q) (ip_setIHL 14 5 (ip_setVersion 14 (m_data b)))"
  define b' where "b' = \<lparr>m_data = headers s (int (length (take n ?q))) 34 m, m_dataLen = of_nat (42 + length (take n ?q)),
    m_bufLen = m_bufLen b\<rparr>"
  have b': "b' = b\<lparr>m_dataLen := of_nat n + 42, m_data := headers s (int n) 34 m\<rparr>"
    using n by (cases b) (simp add: b'_def min_absorb2)
  have small: "42 + n \<le> unat (m_bufLen b0)" "42 + n \<le> 1500" "42 + length (take n ?q) < 65536" using n k by auto
  have "ip_getPayload 14 (ip_setIHL 14 5 (ip_setVersion 14 (m_data b))) = 34" by (simp add: ip_getPayload_def)
  then have "ds_fill ops headers s pkt p w = ret (w\<lparr>sw := (sw w)\<lparr>w_pkts := (w_pkts (sw w))(p \<mapsto> b')\<rparr>, lib := l'\<rparr>)"
    using p pkt r n
    by (simp add: ds_fill_def pkt_defs Let_def eth_getPayload_def sizeof_Ethernet_def udp_getPayload_def sizeof_Udp_def
        m_def b' min_absorb1 min_absorb2 allHeaderLength_def sizeof_IPv4_def)
  moreover have "datagram (ds_peer s) (take n ?q) b'"
    unfolding b'_def m_def by (rule ds_headers_datagram [OF h small(3) refl])
  ultimately show ?thesis using that n small l' by (simp add: b'_def)
qed

end

section \<open>Emptying the output\<close>

text \<open>
  The bytes \<open>bs\<close> are sent in the packets \<open>ps\<close> to the peer of \<open>s\<close>, none larger than \<open>cap\<close>.
\<close>

definition sent_in :: "dtlsServer \<Rightarrow> nat \<Rightarrow> (ptr \<rightharpoonup> mbuf) \<Rightarrow> ptr list \<Rightarrow> u8 list \<Rightarrow> bool" where
  "sent_in s cap pk ps bs \<longleftrightarrow> distinct ps \<and>
     (\<forall>p \<in> set ps. \<exists>b. pk p = Some b \<and> datagram (ds_peer s) (udp_payload (m_data b)) b \<and>
        udp_payload (m_data b) \<noteq> [] \<and> unat (m_dataLen b) \<le> cap) \<and>
     concat (map (\<lambda>p. udp_payload (m_data (the (pk p)))) ps) = bs"

lemma sent_in_Nil: "sent_in s cap pk [] bs \<longleftrightarrow> bs = []"
  by (auto simp: sent_in_def)

lemma sent_in_Cons:
  assumes "pk p = Some b" and "datagram (ds_peer s) bs b" and "bs \<noteq> []" and "42 + length bs \<le> cap"
    and "sent_in s cap pk ps bs'" and "p \<notin> set ps"
  shows "sent_in s cap pk (p # ps) (bs @ bs')"
  using assms by (auto simp: sent_in_def datagram_def)

lemma sent_in_D:
  assumes "sent_in s cap pk ps bs"
  shows "p \<in> set ps \<Longrightarrow> identify (m_data (the (pk p))) = Some (ds_peer s)"
    and "concat (map (\<lambda>p. udp_payload (m_data (the (pk p)))) ps) = bs"
  using assms by (auto simp: sent_in_def datagram_def)

lemma ba_room_small: "ba_wf ba \<Longrightarrow> length (ba_list ba) < 2 ^ 31 \<Longrightarrow> ba_room ba"
  by (auto simp: ba_room_def ba_wf_def word_less_nat_alt word_le_nat_alt)

text \<open>One extra packet: it comes from the pool, is not in use, and is added to the batch.\<close>

context packet_pool
begin

lemma getPkt_fresh:
  fixes fi :: "('c, ptr, ('o, 'l) ssl_world, 'k) FunIface"
  defines "pk \<equiv> w_pkts (sw (world fi))"
  assumes cb: "getPktCB (fi_sm fi) = Some (pkt_callback alloc)" and ok: "fi_ok fi"
    and small: "length (ba_list (pktsBA fi)) < 2 ^ 31" and av: "0 < avail (dom pk)"
  obtains p b ba where
    "getPkt fi = ret (p, fi\<lparr>pktsBA := ba, world := (world fi)\<lparr>sw := (sw (world fi))\<lparr>w_pkts := pk(p \<mapsto> b)\<rparr>\<rparr>\<rparr>)"
    "p \<noteq> 0" "p \<notin> dom pk" "Suc (avail (insert p (dom pk))) = avail (dom pk)"
    "ba_wf ba" "ba_list ba = ba_list (pktsBA fi) @ [(p, True)]"
proof -
  obtain p b where a: "alloc (world fi) = (p, (world fi)\<lparr>sw := (sw (world fi))\<lparr>w_pkts := pk(p \<mapsto> b)\<rparr>\<rparr>)"
    and p: "p \<noteq> 0" "pk p = None" "Suc (avail (insert p (dom pk))) = avail (dom pk)"
    using alloc [of "world fi"] av by (auto simp: pk_def)
  have wf: "ba_wf (pktsBA fi)" using ok by (simp add: fi_ok_def)
  obtain ba where ba: "addPkt p (pktsBA fi) = ret ba" "ba_wf ba" "ba_list ba = ba_list (pktsBA fi) @ [(p, True)]"
    using addPkt_spec [OF wf ba_room_small [OF wf small], of p] by blast
  from that [of p b ba] a p ba cb show ?thesis by (simp add: getPkt_def pkt_callback_def domIff)
qed

end

text \<open>
  From \<open>fi\<close> to \<open>fi'\<close> the output of the session was emptied: its bytes went out in the packets
  \<open>ps\<close>, which came from the pool; nothing else changed.
\<close>

definition emptied ::
  "(ptr \<Rightarrow> 'l \<Rightarrow> u8 list) \<Rightarrow> dtlsServer \<Rightarrow> nat \<Rightarrow> ptr list \<Rightarrow> 'l ds_fi \<Rightarrow> 'l ds_fi \<Rightarrow> bool" where
  "emptied pend s cap ps fi fi' \<longleftrightarrow>
     pend (ds_wbio s) (lib (world fi')) = [] \<and>
     sent_in s cap (w_pkts (sw (world fi'))) ps (pend (ds_wbio s) (lib (world fi))) \<and>
     set ps \<inter> dom (w_pkts (sw (world fi))) = {} \<and>
     (\<forall>p \<in> dom (w_pkts (sw (world fi))). w_pkts (sw (world fi')) p = w_pkts (sw (world fi)) p) \<and>
     ba_wf (pktsBA fi') \<and> ba_list (pktsBA fi') = ba_list (pktsBA fi) @ map (\<lambda>p. (p, True)) ps \<and>
     w_heap (sw (world fi')) = w_heap (sw (world fi)) \<and> st fi' = st fi \<and> sendPkt fi' = sendPkt fi"

text \<open>One round of the loop in front of the others.\<close>

lemma emptied_Cons:
  assumes p: "p \<notin> dom pk" and b: "datagram (ds_peer s) (take n q) b" "0 < n" "n \<le> length q" "42 + n \<le> cap"
    and q: "pend (ds_wbio s) l' = drop n q" "q = pend (ds_wbio s) (lib (world fi))" and pk: "pk = w_pkts (sw (world fi))"
    and ba: "ba_list ba = ba_list (pktsBA fi) @ [(p, True)]"
    and e: "emptied pend s cap ps (fi\<lparr>pktsBA := ba, world := w\<rparr>) fi'"
    and w: "w = (world fi)\<lparr>sw := (sw (world fi))\<lparr>w_pkts := pk(p \<mapsto> b)\<rparr>, lib := l'\<rparr>"
  shows "emptied pend s cap (p # ps) fi fi'"
proof -
  have "w_pkts (sw (world fi')) p = Some b" and "p \<notin> set ps" using e by (auto simp: emptied_def w)
  then have "sent_in s cap (w_pkts (sw (world fi'))) (p # ps) (take n q @ drop n q)"
    using e b q by (intro sent_in_Cons) (auto simp: emptied_def w min_absorb2)
  then show ?thesis using e p ba q pk by (auto simp: emptied_def w)
qed

locale session_output = output_bio ops pend + packet_pool alloc avail
  for ops :: "'l ssl_ops" and pend and alloc :: "(dtlsServer, 'l) ssl_world \<Rightarrow> ptr \<times> (dtlsServer, 'l) ssl_world" and avail
begin

lemma extra_loop:
  assumes "getPktCB (fi_sm fi) = Some (pkt_callback alloc)" and "fi_ok fi"
    and "w_pkts (sw (world fi)) pkt = Some b0" and "42 < unat (m_bufLen b0)"
    and "length (ba_list (pktsBA fi)) + length (pend (ds_wbio s) (lib (world fi))) \<le> 2 ^ 31"
    and "length (pend (ds_wbio s) (lib (world fi))) \<le> avail (dom (w_pkts (sw (world fi))))"
  shows "\<exists>ps fi'. ds_extra_loop ops s pkt n fi = ret (n + length ps, fi') \<and>
    emptied pend s (min (unat (m_bufLen b0)) 1500) ps fi fi'"
  using assms
proof (induction "length (pend (ds_wbio s) (lib (world fi)))" arbitrary: fi n rule: less_induct)
  case less
  let ?q = "pend (ds_wbio s) (lib (world fi))" and ?pk = "w_pkts (sw (world fi))"
  show ?case
  proof (cases "?q = []")
    case True
    then show ?thesis using less.prems
      by (subst ds_extra_loop.simps) (auto simp: eof emptied_def sent_in_Nil fi_ok_def intro!: exI [of _ "[]"])
  next
    case False
    then have s: "length (ba_list (pktsBA fi)) < 2 ^ 31" "0 < avail (dom ?pk)"
      using less.prems(5,6) by (cases ?q; force)+
    obtain p b ba where g: "getPkt fi = ret (p, fi\<lparr>pktsBA := ba, world := (world fi)\<lparr>sw := (sw (world fi))\<lparr>w_pkts := ?pk(p \<mapsto> b)\<rparr>\<rparr>\<rparr>)"
      and p: "p \<noteq> 0" "p \<notin> dom ?pk" "Suc (avail (insert p (dom ?pk))) = avail (dom ?pk)"
      and ba: "ba_wf ba" "ba_list ba = ba_list (pktsBA fi) @ [(p, True)]"
      by (rule getPkt_fresh [OF less.prems(1,2) s])
    let ?w = "(world fi)\<lparr>sw := (sw (world fi))\<lparr>w_pkts := ?pk(p \<mapsto> b)\<rparr>\<rparr>"
    have w: "w_pkts (sw ?w) p = Some b" "w_pkts (sw ?w) pkt = Some b0" "pend (ds_wbio s) (lib ?w) \<noteq> []"
      using p less.prems(3) False by auto
    obtain k l' b' where k: "0 < k" "42 + k \<le> unat (m_bufLen b0)" "42 + k \<le> 1500" "k \<le> length (pend (ds_wbio s) (lib ?w))"
      and f: "ds_fill ops ds_headers_extra s pkt p ?w = ret (?w\<lparr>sw := (sw ?w)\<lparr>w_pkts := (w_pkts (sw ?w))(p \<mapsto> b')\<rparr>, lib := l'\<rparr>)"
      and l': "pend (ds_wbio s) l' = drop k (pend (ds_wbio s) (lib ?w))"
      and b': "datagram (ds_peer s) (take k (pend (ds_wbio s) (lib ?w))) b'"
      by (rule fill [OF w(1,2) less.prems(4) _ w(3), of ds_headers_extra]) auto
    define w' where "w' = (world fi)\<lparr>sw := (sw (world fi))\<lparr>w_pkts := ?pk(p \<mapsto> b')\<rparr>, lib := l'\<rparr>"
    let ?fi = "fi\<lparr>pktsBA := ba, world := w'\<rparr>"
    have "pend (ds_wbio s) (lib (world ?fi)) = drop k ?q" using l' by (simp add: w'_def)
    then have "\<exists>ps fi'. ds_extra_loop ops s pkt (n + 1) ?fi = ret (n + 1 + length ps, fi') \<and>
        emptied pend s (min (unat (m_bufLen b0)) 1500) ps ?fi fi'"
      using less.prems p ba k False
      by (intro less.hyps) (auto simp: fi_ok_def w'_def)
    then obtain ps fi' where r: "ds_extra_loop ops s pkt (n + 1) ?fi = ret (n + 1 + length ps, fi')"
      and e: "emptied pend s (min (unat (m_bufLen b0)) 1500) ps ?fi fi'" by blast
    have "emptied pend s (min (unat (m_bufLen b0)) 1500) (p # ps) fi fi'"
      using emptied_Cons [OF p(2) b' k(1,4) _ l' _ refl ba(2) e w'_def] k by simp
    moreover have "ds_extra_loop ops s pkt n fi = ret (n + length (p # ps), fi')"
      using False g f p(1) r by (subst ds_extra_loop.simps) (simp add: eof w'_def)
    ultimately show ?thesis by blast
  qed
qed

text \<open>The received packet first, then as many extra packets as it takes.\<close>

lemma writeAll:
  fixes fi s
  defines "q \<equiv> pend (ds_wbio s) (lib (world fi))" and "pk \<equiv> w_pkts (sw (world fi))"
  assumes cb: "getPktCB (fi_sm fi) = Some (pkt_callback alloc)" and ok: "fi_ok fi"
    and srv: "w_heap (sw (world fi)) server = Some s" and pkt: "pk pkt = Some b0" and room: "42 < unat (m_bufLen b0)"
    and small: "length (ba_list (pktsBA fi)) + length q \<le> 2 ^ 31" and av: "length q \<le> avail (dom pk)"
  shows "\<exists>ps fi'. ds_writeAllDataAvailable ops server pkt fi = ret (length ps, fi') \<and>
    pend (ds_wbio s) (lib (world fi')) = [] \<and>
    sent_in s (min (unat (m_bufLen b0)) 1500) (w_pkts (sw (world fi'))) ps q \<and>
    (if q = [] then ps = [] \<and> fi' = freePkt fi
     else sendPkt fi' = sendPkt fi \<and> hd ps = pkt \<and> set (tl ps) \<inter> dom pk = {} \<and>
       ba_wf (pktsBA fi') \<and> ba_list (pktsBA fi') = ba_list (pktsBA fi) @ map (\<lambda>p. (p, True)) (tl ps)) \<and>
    w_heap (sw (world fi')) = w_heap (sw (world fi)) \<and> st fi' = st fi"
proof (cases "q = []")
  case True
  then show ?thesis using srv
    by (intro exI [of _ "[]"])
      (simp add: ds_writeAllDataAvailable_def heap_get_def eof q_def ds_extra_loop.simps sent_in_Nil)
next
  case False
  obtain k l' b' where k: "0 < k" "42 + k \<le> unat (m_bufLen b0)" "42 + k \<le> 1500" "k \<le> length q"
    and f: "ds_fill ops ds_headers_first s pkt pkt (world fi) =
      ret ((world fi)\<lparr>sw := (sw (world fi))\<lparr>w_pkts := pk(pkt \<mapsto> b')\<rparr>, lib := l'\<rparr>)"
    and l': "pend (ds_wbio s) l' = drop k q" and b': "datagram (ds_peer s) (take k q) b'" "m_bufLen b' = m_bufLen b0"
    using fill [of "world fi" pkt b0 pkt b0 ds_headers_first s] pkt room False unfolding pk_def q_def by auto
  define w' where "w' = (world fi)\<lparr>sw := (sw (world fi))\<lparr>w_pkts := pk(pkt \<mapsto> b')\<rparr>, lib := l'\<rparr>"
  let ?fi = "fi\<lparr>world := w'\<rparr>"
  have d: "dom (pk(pkt \<mapsto> b')) = dom pk" using pkt by auto
  have "\<exists>ps fi'. ds_extra_loop ops s pkt 1 ?fi = ret (1 + length ps, fi') \<and>
      emptied pend s (min (unat (m_bufLen b')) 1500) ps ?fi fi'"
    using cb ok room small av b' l' d by (intro extra_loop) (auto simp: w'_def fi_ok_def pk_def)
  then obtain ps fi' where r: "ds_extra_loop ops s pkt 1 ?fi = ret (1 + length ps, fi')"
    and e: "emptied pend s (min (unat (m_bufLen b0)) 1500) ps ?fi fi'" using b' by auto
  have "w_pkts (sw (world fi')) pkt = Some b'" "pkt \<notin> set ps" using e by (auto simp: emptied_def w'_def)
  then have "sent_in s (min (unat (m_bufLen b0)) 1500) (w_pkts (sw (world fi'))) (pkt # ps) (take k q @ drop k q)"
    using e b' k l' by (intro sent_in_Cons) (auto simp: emptied_def w'_def min_absorb2)
  moreover have "ds_writeAllDataAvailable ops server pkt fi = ret (length (pkt # ps), fi')"
    using srv False f r by (simp add: ds_writeAllDataAvailable_def heap_get_def eof q_def w'_def)
  ultimately show ?thesis
    using e False pkt d by (intro exI [of _ "pkt # ps"] exI [of _ fi']) (auto simp: emptied_def w'_def)
qed

end

interpretation bio_slab: session_output bio_lib_ops "\<lambda>b l. l b" "slab_alloc n" "\<lambda>D. card ({1..n} - D)" for n
  by unfold_locales

end
