(* ===== verification/Dtls_Client.thy ===== *)
theory Dtls_Client
  imports Dtls_Server
begin

text \<open>
  The DTLS client of \<open>include/dtlsClient.hpp\<close> and \<open>src/dtlsClient.cpp\<close>: it opens a session with the
  first packet, runs the handshake, sends one text when the handshake is finished, and shuts the
  session down when it has received an answer.  As for the server, the creation of the SSL
  context and of the packet pool is not represented.
\<close>

section \<open>Objects\<close>

record dtlsClient =
  dc_ssl :: ptr
  dc_wbio :: ptr
  dc_rbio :: ptr
  dc_localIP :: u32
  dc_remoteIP :: u32
  dc_localPort :: u16
  dc_remotePort :: u16
  dc_counter :: u16

type_synonym 'l dc_world = "(dtlsClient, 'l) ssl_world"
type_synonym 'l dc_fi = "(ConnectionID, ptr, 'l dc_world, unit) FunIface"
type_synonym 'l dc_fun = "(ConnectionID, ptr, 'l dc_world, unit) stateFun"

definition DC_DOWN :: StateID where "DC_DOWN = 0"
definition DC_HANDSHAKE :: StateID where "DC_HANDSHAKE = 1"
definition DC_ESTABLISHED :: StateID where "DC_ESTABLISHED = 2"
definition DC_RUN_TEARDOWN :: StateID where "DC_RUN_TEARDOWN = 3"
definition DC_DELETED :: StateID where "DC_DELETED = 4"

definition dc_createStateData ::
  "'l ssl_ops \<Rightarrow> ptr \<Rightarrow> u32 \<Rightarrow> u32 \<Rightarrow> u16 \<Rightarrow> u16 \<Rightarrow> 'l dc_world \<Rightarrow> (State \<times> 'l dc_world) res" where
  "dc_createStateData ops ctx localIP remoteIP localPort remotePort w =
    (let (p, h) = heap_new \<lparr>dc_ssl = 0, dc_wbio = 0, dc_rbio = 0, dc_localIP = 0, dc_remoteIP = 0,
           dc_localPort = 0, dc_remotePort = 0, dc_counter = 0\<rparr> (sw w);
         s = State_of DC_DOWN p
     in rbind (heap_get p h) (\<lambda>c.
     let c = c\<lparr>dc_counter := 0, dc_localIP := localIP, dc_remoteIP := remoteIP,
               dc_localPort := localPort, dc_remotePort := remotePort\<rparr>;
         (ssl, l) = SSL_new ops ctx (lib w)
     in rbind (rassert (ssl \<noteq> 0)) (\<lambda>_.
     let (wbio, l) = BIO_new ops l in
     rbind (rassert (wbio \<noteq> 0)) (\<lambda>_.
     let (rbio, l) = BIO_new ops l in
     rbind (rassert (rbio \<noteq> 0)) (\<lambda>_.
     let l = SSL_set_connect_state ops ssl l;
         l = SSL_set_bio ops ssl rbio wbio l;
         l = SSL_set_mtu ops ssl 1280 l;
         c = c\<lparr>dc_ssl := ssl, dc_wbio := wbio, dc_rbio := rbio\<rparr>
     in ret (s, w\<lparr>sw := heap_put p c h, lib := l\<rparr>))))))"

section \<open>Sending what the session wants to write\<close>

definition dc_headers :: "dtlsClient \<Rightarrow> int \<Rightarrow> nat \<Rightarrow> mem \<Rightarrow> mem" where
  "dc_headers c dataLen udp m =
    (let ethernet = 0; ipv4 = eth_getPayload ethernet;
         m = eth_setEthertype ethernet ETHERTYPE_IPv4 m;
         m = ip_setVersion ipv4 m;
         m = ip_setIHL ipv4 5 m;
         m = ip_setPayloadLength ipv4 (of_int (dataLen + int sizeof_Udp)) m;
         m = ip_setProtoUDP ipv4 m;
         m = ip_setSrcIP ipv4 (dc_localIP c) m;
         m = ip_setDstIP ipv4 (dc_remoteIP c) m;
         m = ip_setChecksum ipv4 0 m;
         m = ip_setTTL ipv4 64 m;
         m = udp_setDstPort udp (dc_remotePort c) m;
         m = udp_setSrcPort udp (dc_localPort c) m
     in udp_setPayloadLength udp (of_int dataLen) m)"

text \<open>
  Unlike the server, the client looks for the UDP header in the packet as it is, before it sets
  the length of the IP header.
\<close>

definition dc_fill :: "'l ssl_ops \<Rightarrow> dtlsClient \<Rightarrow> ptr \<Rightarrow> 'l dc_world \<Rightarrow> 'l dc_world res" where
  "dc_fill ops c p w =
    rbind (getData p (sw w)) (\<lambda>m.
    rbind (getBufLen p (sw w)) (\<lambda>bufLen.
    let ipv4 = eth_getPayload 0;
        udp = ip_getPayload ipv4 m;
        udpMaxLen = int (unat bufLen) - allHeaderLength;
        (dataLen, bs, l) = BIO_read ops (dc_wbio c) udpMaxLen (lib w);
        m = store_bytes (udp_getPayload udp) bs m
    in rbind (rassert (0 < dataLen)) (\<lambda>_.
       rbind (setDataLen p (of_int (dataLen + allHeaderLength)) (sw w)) (\<lambda>h.
       rbind (writeData p (dc_headers c dataLen udp m) h) (\<lambda>h.
       ret (w\<lparr>sw := h, lib := l\<rparr>))))))"

partial_function (option) dc_extra_loop ::
  "'l ssl_ops \<Rightarrow> dtlsClient \<Rightarrow> nat \<Rightarrow> 'l dc_fi \<Rightarrow> (nat \<times> 'l dc_fi) res" where
  "dc_extra_loop ops c n fi =
    (if BIO_eof ops (dc_wbio c) (lib (world fi)) then ret (n, fi)
     else rbind (getPkt fi) (\<lambda>(xtra, fi).
          rbind (rassert (xtra \<noteq> 0)) (\<lambda>_.
          rbind (dc_fill ops c xtra (world fi)) (\<lambda>w.
          dc_extra_loop ops c (n + 1) (fi\<lparr>world := w\<rparr>)))))"

definition dc_writeAllDataAvailable ::
  "'l ssl_ops \<Rightarrow> ptr \<Rightarrow> ptr \<Rightarrow> 'l dc_fi \<Rightarrow> (nat \<times> 'l dc_fi) res" where
  "dc_writeAllDataAvailable ops client pkt fi =
    rbind (heap_get client (sw (world fi))) (\<lambda>c.
    rbind
      (if \<not> BIO_eof ops (dc_wbio c) (lib (world fi)) then
         rbind (dc_fill ops c pkt (world fi)) (\<lambda>w. ret (1, fi\<lparr>world := w\<rparr>))
       else ret (0, freePkt fi)) (\<lambda>(n, fi).
    dc_extra_loop ops c n fi))"

section \<open>State functions\<close>

definition dc_initHandshake :: "'l ssl_ops \<Rightarrow> 'l dc_fun" where
  "dc_initHandshake ops pkt fi =
    (let client = stateData (st fi) in
     rbind (heap_get client (sw (world fi))) (\<lambda>c.
     let fi = fi\<lparr>world := ds_upd (SSL_connect ops (dc_ssl c)) (world fi)\<rparr>
     in rbind (dc_writeAllDataAvailable ops client pkt fi) (\<lambda>(n, fi).
        rbind (rassert (1 \<le> n)) (\<lambda>_.
        ret (transition DC_HANDSHAKE fi)))))"

definition dc_payload :: "u8 list" where
  "dc_payload = map of_char ''FIRST PACKET'' @ [0]"

text \<open>The first packet of an established session.\<close>

definition dc_first_packet :: "'l ssl_ops \<Rightarrow> dtlsClient \<Rightarrow> 'l dc_fi \<Rightarrow> 'l dc_fi res" where
  "dc_first_packet ops c fi =
    rbind (getPkt fi) (\<lambda>(xtra, fi).
    rbind (rassert (xtra \<noteq> 0)) (\<lambda>_.
    rbind (getData xtra (sw (world fi))) (\<lambda>m.
    let ethernet = 0; ipv4 = eth_getPayload ethernet;
        m = eth_setEthertype ethernet ETHERTYPE_IPv4 m;
        m = ip_setVersion ipv4 m;
        m = ip_setIHL ipv4 5 m;
        m = ip_setProtoUDP ipv4 m;
        m = ip_setSrcIP ipv4 (dc_localIP c) m;
        m = ip_setDstIP ipv4 (dc_remoteIP c) m;
        m = ip_setChecksum ipv4 0 m;
        m = ip_setTTL ipv4 64 m;
        udp = ip_getPayload ipv4 m;
        (n, l) = SSL_write ops (dc_ssl c) dc_payload (lib (world fi))
    in if n \<noteq> int (length dc_payload) then fail Thrown
       else
         let (dataLen, bs, l) = BIO_read ops (dc_wbio c) 1280 l;
             m = store_bytes (udp_getPayload udp) bs m
         in rbind (rassert (0 < dataLen)) (\<lambda>_.
            rbind (setDataLen xtra (of_int (dataLen + allHeaderLength)) (sw (world fi))) (\<lambda>h.
            let m = ip_setPayloadLength ipv4 (of_int (dataLen + int sizeof_Udp)) m;
                m = udp_setDstPort udp (dc_remotePort c) m;
                m = udp_setSrcPort udp (dc_localPort c) m;
                m = udp_setPayloadLength udp (of_int dataLen) m
            in rbind (writeData xtra m h) (\<lambda>h.
               ret (fi\<lparr>world := (world fi)\<lparr>sw := h, lib := l\<rparr>\<rparr>)))))))"

definition dc_runHandshake :: "'l ssl_ops \<Rightarrow> 'l dc_fun" where
  "dc_runHandshake ops pkt fi =
    (let client = stateData (st fi) in
     rbind (heap_get client (sw (world fi))) (\<lambda>c.
     rbind (getData pkt (sw (world fi))) (\<lambda>m.
     rbind (bio_feed ops (dc_rbio c) m (world fi)) (\<lambda>w.
     let w = ds_upd (SSL_connect ops (dc_ssl c)) w
     in rbind (dc_writeAllDataAvailable ops client pkt (fi\<lparr>world := w\<rparr>)) (\<lambda>(_, fi).
        if SSL_is_init_finished ops (dc_ssl c) (lib (world fi))
        then dc_first_packet ops c (transition DC_ESTABLISHED fi)
        else ret fi)))))"

definition dc_sendData :: "'l ssl_ops \<Rightarrow> 'l dc_fun" where
  "dc_sendData ops pkt fi =
    (let client = stateData (st fi) in
     rbind (heap_get client (sw (world fi))) (\<lambda>c.
     rbind (getData pkt (sw (world fi))) (\<lambda>m.
     rbind (bio_feed ops (dc_rbio c) m (world fi)) (\<lambda>w.
     let (readLen, buf, l) = SSL_read ops (dc_ssl c) 20 (lib w)
     in rbind (rassert (0 < readLen)) (\<lambda>_.
        let l = snd (SSL_shutdown ops (dc_ssl c) l)
        in rbind (dc_writeAllDataAvailable ops client pkt (fi\<lparr>world := w\<lparr>lib := l\<rparr>\<rparr>)) (\<lambda>(_, fi). ret fi))))))"

definition dc_runTeardown :: "'l ssl_ops \<Rightarrow> 'l dc_fun" where
  "dc_runTeardown ops pkt fi =
    (let client = stateData (st fi) in
     rbind (heap_get client (sw (world fi))) (\<lambda>c.
     rbind (getData pkt (sw (world fi))) (\<lambda>m.
     rbind (bio_feed ops (dc_rbio c) m (world fi)) (\<lambda>w.
     let (r, l) = SSL_shutdown ops (dc_ssl c) (lib w);
         w = w\<lparr>lib := l\<rparr>
     in rbind
          (if r = 1 then
             let w = ds_upd (SSL_free ops (dc_ssl c)) w
             in rbind (heap_delete client (sw w)) (\<lambda>h. ret (freePkt (fi\<lparr>world := w\<lparr>sw := h\<rparr>\<rparr>)))
           else ret (fi\<lparr>world := w\<rparr>)) (\<lambda>fi.
        rbind (dc_writeAllDataAvailable ops client pkt fi) (\<lambda>(_, fi). ret fi))))))"

section \<open>Configuration and the C interface\<close>

type_synonym ('l, 'm) dc_sm = "(ConnectionID, ptr, 'l dc_world, unit, 'm) SM"
type_synonym ('l, 'm, 'n) dc_env = "(ConnectionID, ptr, 'l dc_world, unit, 'm, 'n) env"
type_synonym ('l, 'm, 'n) dc_ctx = "(ConnectionID, ptr, 'l dc_world, unit, 'm, 'n) ctx"

definition dc_configStateMachine ::
  "'l ssl_ops \<Rightarrow> ('l dc_world \<Rightarrow> ptr \<times> 'l dc_world) \<Rightarrow> ('l, 'm) dc_sm \<Rightarrow> ('l, 'm) dc_sm" where
  "dc_configStateMachine ops alloc sm =
    (let sm = registerFunction DC_DOWN (Some (dc_initHandshake ops)) sm;
         sm = registerFunction DC_HANDSHAKE (Some (dc_runHandshake ops)) sm;
         sm = registerFunction DC_ESTABLISHED (Some (dc_sendData ops)) sm;
         sm = registerFunction DC_RUN_TEARDOWN (Some (dc_runTeardown ops)) sm;
         sm = registerGetPktCB (Some (pkt_callback alloc)) sm
     in registerEndStateID DC_DELETED sm)"

record Dtls_C_config =
  cc_dstIP :: u32
  cc_dstPort :: u16
  cc_ctx :: ptr

definition dc_connect_cid :: "Dtls_C_config \<Rightarrow> u32 \<Rightarrow> u16 \<Rightarrow> ConnectionID" where
  "dc_connect_cid config sip sport =
    (let cid = new_ConnectionID;
         cid = cid\<lparr>dstIP := htonl sip\<rparr>;
         cid = cid\<lparr>srcIP := htonl (cc_dstIP config)\<rparr>;
         cid = cid\<lparr>dstPort := htons sport\<rparr>;
         cid = cid\<lparr>srcPort := htons (cc_dstPort config)\<rparr>;
         cid = cid\<lparr>proto := PROTO_UDP\<rparr>
     in cid)"

definition DtlsClient_connect ::
  "'l ssl_ops \<Rightarrow> ('l, 'm, 'n) dc_env \<Rightarrow> Dtls_C_config \<Rightarrow> ptr list \<Rightarrow> u32 \<Rightarrow> u32 \<Rightarrow> u16 \<Rightarrow> ('l, 'm, 'n) dc_ctx \<Rightarrow>
     (('l, 'm, 'n) dc_ctx \<times> u32 \<times> u32) res" where
  "DtlsClient_connect ops env config inPkts inCount sip sport x = catch_abort
    (rbind (new_BufArray inPkts inCount True) (\<lambda>ba.
     let cid = dc_connect_cid config sip sport
     in rbind (dc_createStateData ops (cc_ctx config) sip (cc_dstIP config) sport (cc_dstPort config) (c_world x)) (\<lambda>(s, w).
        rbind (addState env cid s (x\<lparr>c_batch := ba, c_world := w\<rparr>)) (\<lambda>x.
        ret (x, getSendCount (c_batch x), getFreeCount (c_batch x))))))"

definition DtlsClient_getPkts :: "ptr bufArray \<Rightarrow> (ptr list \<times> ptr list) res" where
  "DtlsClient_getPkts ba =
    rbind (getSendBufs ba) (\<lambda>s. rbind (getFreeBufs ba) (\<lambda>f. ret (s, f)))"

definition DtlsClient_process ::
  "('l, 'm, 'n) dc_env \<Rightarrow> ptr list \<Rightarrow> u32 \<Rightarrow> ('l, 'm, 'n) dc_ctx \<Rightarrow> (('l, 'm, 'n) dc_ctx \<times> u32 \<times> u32) res" where
  "DtlsClient_process env inPkts inCount x = catch_abort
    (rbind (new_BufArray inPkts inCount True) (\<lambda>ba.
     rbind (runPktBatch env (x\<lparr>c_batch := ba\<rparr>)) (\<lambda>x.
     ret (x, getSendCount (c_batch x), getFreeCount (c_batch x)))))"

end
