(* ===== verification/Dtls_Props.thy ===== *)
theory Dtls_Props
  imports Dtls_Send Dtls_Client
begin

text \<open>
  Properties of the DTLS client and server: what the server sends and to whom, and the inputs
  on which the handlers fail.
\<close>

section \<open>Everything the session wants to write is sent\<close>

text \<open>
  C21.  \<open>writeAllDataAvailable\<close> of the server.  With a library that lets the waiting bytes be read, a
  pool with enough packets and a received packet with room for more than the headers, the loop
  ends, no byte waits any longer, and the packets sent carry exactly the bytes that were
  waiting, in order, in UDP datagrams for the peer, none larger than 1500 bytes or the buffer.
  The first is the received packet, the others are fresh and added to the batch; the result is
  their number.  When no byte waits, the received packet is freed.
\<close>

theorem ds_output_all_sent:
  fixes fi :: "'l ds_fi"
  defines "pk \<equiv> w_pkts (sw (world fi))"
  assumes lib: "session_output ops pend alloc avail" and cb: "getPktCB (fi_sm fi) = Some (pkt_callback alloc)"
    and ok: "fi_ok fi" and srv: "w_heap (sw (world fi)) server = Some s" and pkt: "pk pkt = Some b0"
    and room: "42 < unat (m_bufLen b0)" and q: "q = pend (ds_wbio s) (lib (world fi))"
    and small: "length (ba_list (pktsBA fi)) + length q \<le> 2 ^ 31" and av: "length q \<le> avail (dom pk)"
  shows "\<exists>ps fi'. ds_writeAllDataAvailable ops server pkt fi = ret (length ps, fi') \<and>
    pend (ds_wbio s) (lib (world fi')) = [] \<and>
    sent_in s (min (unat (m_bufLen b0)) 1500) (w_pkts (sw (world fi'))) ps q \<and>
    (if q = [] then ps = [] \<and> fi' = freePkt fi
     else sendPkt fi' = sendPkt fi \<and> hd ps = pkt \<and> set (tl ps) \<inter> dom pk = {} \<and>
       ba_list (pktsBA fi') = ba_list (pktsBA fi) @ map (\<lambda>p. (p, True)) (tl ps))"
  using session_output.writeAll [OF lib cb ok srv, of pkt b0] pkt room small av unfolding pk_def q
  by (auto split: if_splits)

text \<open>A server whose session wants to write 2000 bytes, and the buffers around it.\<close>

definition example_server :: dtlsServer where
  "example_server = \<lparr>ds_ssl = 1, ds_wbio = 2, ds_rbio = 3, ds_localIP = 0x0a000001, ds_remoteIP = 0x0a000002,
     ds_localMac = replicate 6 0, ds_remoteMac = replicate 6 1, ds_remotePort = 4433, ds_localPort = 4000\<rparr>"

definition example_fi :: "u8 list \<Rightarrow> mem \<Rightarrow> bio_lib ds_fi" where
  "example_fi out m = new_FunIface \<lparr>getPktCB = Some (pkt_callback (slab_alloc 5000)), curTimeoutID = 0, timeoutsQ = [], timeoutFunctions = Map.empty\<rparr>
     0 \<lparr>pkts = [Some 9000], sendMask = [True], numBufs = 1, numSlots = 1, fromLua = True\<rparr> new_ConnectionID (State_of DS_HANDSHAKE 1)
     \<lparr>sw = \<lparr>w_pkts = [9000 \<mapsto> \<lparr>m_data = m, m_dataLen = 100, m_bufLen = 2048\<rparr>], w_heap = [1 \<mapsto> example_server],
            w_next = 2, w_rand = (\<lambda>_. 0), w_rnd = 0\<rparr>, lib = (\<lambda>_. [])(2 := out)\<rparr>"

lemma example_fi_simps:
  "getPktCB (fi_sm (example_fi out m)) = Some (pkt_callback (slab_alloc 5000))"
  "w_heap (sw (world (example_fi out m))) = [1 \<mapsto> example_server]"
  "w_pkts (sw (world (example_fi out m))) = [9000 \<mapsto> \<lparr>m_data = m, m_dataLen = 100, m_bufLen = 2048\<rparr>]"
  "lib (world (example_fi out m)) = (\<lambda>_. [])(2 := out)" "st (example_fi out m) = State_of DS_HANDSHAKE 1"
  "ba_list (pktsBA (example_fi out m)) = [(9000, True)]" "fi_ok (example_fi out m)"
  by (simp_all add: example_fi_def new_FunIface_def ba_list_def fi_ok_def ba_wf_def pq_inv_def)

lemma slab_5000: "card ({Suc 0..5000} - {9000 :: nat}) = 5000"
proof -
  have "{Suc 0..5000} - {9000} = {Suc 0..5000 :: nat}" by auto
  then show ?thesis by simp
qed

theorem ds_output_all_sent_witness:
  "\<exists>ps fi'. ds_writeAllDataAvailable bio_lib_ops 1 9000 (example_fi (replicate 2000 7) (\<lambda>_. 0)) = ret (length ps, fi') \<and>
     sent_in example_server 1500 (w_pkts (sw (world fi'))) ps (replicate 2000 7) \<and> hd ps = 9000"
  using ds_output_all_sent [OF bio_slab.session_output_axioms [of 5000], of "example_fi (replicate 2000 7) (\<lambda>_. 0)" 1
      example_server 9000 _ "replicate 2000 7"]
  by (simp add: example_fi_simps slab_5000) (auto simp: example_server_def)

section \<open>Handshake\<close>

lemma ds_peer_of_packet:
  assumes "identify m = Some k" and "ip_proto 14 m = PROTO_UDP"
  shows "ds_peer (s\<lparr>ds_localIP := ip_getDstIP 14 m, ds_remoteIP := ip_getSrcIP 14 m,
     ds_localPort := udp_getDstPort (ip_getPayload 14 m) m, ds_remotePort := udp_getSrcPort (ip_getPayload 14 m) m,
     ds_localMac := lm, ds_remoteMac := rm\<rparr>) = cid_mirror k"
  using assms by (auto simp: ds_peer_def udp_tuple_def identify_def Let_def PROTO_UDP_def cid_mirror_def new_ConnectionID_def
      ip_getSrcIP_def ip_getDstIP_def udp_getSrcPort_def udp_getDstPort_def udp_srcPort_def udp_dstPort_def)

lemma bio_feed_ok:
  assumes "BIO_write ops rbio (udp_payload m) (lib w) = (n, l)" and "0 < n"
  shows "bio_feed ops rbio m w = ret (w\<lparr>lib := l\<rparr>)"
  using assms by (simp add: bio_feed_def)

text \<open>
  C22.  The DTLS server answers the sender.  A UDP packet of a connection in the handshake is fed to
  the session, which runs its handshake; whatever the session then wants to write is sent, all
  of it and in order, in datagrams whose five-tuple is the mirror image of the packet's, the
  first of them in the packet itself.  The connection becomes established exactly when the session
  says that the handshake is finished (here with no data after it).
\<close>

theorem handshake_answers_sender:
  fixes fi :: "'l ds_fi"
  defines "pk \<equiv> w_pkts (sw (world fi))" and "server \<equiv> stateData (st fi)"
  assumes lib: "session_output ops pend alloc avail" and cb: "getPktCB (fi_sm fi) = Some (pkt_callback alloc)"
    and ok: "fi_ok fi" and srv: "w_heap (sw (world fi)) server = Some s" and pkt: "pk pkt = Some b0"
    and room: "42 < unat (m_bufLen b0)" and k: "identify (m_data b0) = Some k" "ip_proto 14 (m_data b0) = PROTO_UDP"
    and feed: "BIO_write ops (ds_rbio s) (udp_payload (m_data b0)) (lib (world fi)) = (n, l1)" "0 < n"
    and acc: "fin = SSL_is_init_finished ops (ds_ssl s) (SSL_accept ops (ds_ssl s) l1)"
    and rd: "SSL_read ops (ds_ssl s) 2048 (SSL_accept ops (ds_ssl s) l1) = (r, buf, l2)" "r \<le> 0"
    and q: "q = pend (ds_wbio s) (if fin then l2 else SSL_accept ops (ds_ssl s) l1)"
    and small: "length (ba_list (pktsBA fi)) + length q \<le> 2 ^ 31" and av: "length q \<le> avail (dom pk)"
  shows "\<exists>ps fi'. ds_runHandshake ops pkt fi = ret fi' \<and> stateData (st fi') = server \<and>
    state (st fi') = (if fin then DS_ESTABLISHED else state (st fi)) \<and> pend (ds_wbio s) (lib (world fi')) = [] \<and>
    (\<forall>p \<in> set ps. identify (m_data (the (w_pkts (sw (world fi')) p))) = Some (cid_mirror k)) \<and>
    concat (map (\<lambda>p. udp_payload (m_data (the (w_pkts (sw (world fi')) p)))) ps) = q \<and>
    (if q = [] then ps = [] \<and> \<not> sendPkt fi' else hd ps = pkt \<and> sendPkt fi' = sendPkt fi)"
proof -
  let ?m = "m_data b0"
  define s' where "s' = s\<lparr>ds_localIP := ip_getDstIP 14 ?m, ds_remoteIP := ip_getSrcIP 14 ?m,
     ds_localPort := udp_getDstPort (ip_getPayload 14 ?m) ?m, ds_remotePort := udp_getSrcPort (ip_getPayload 14 ?m) ?m,
     ds_localMac := load_bytes 0 6 ?m, ds_remoteMac := load_bytes 6 6 ?m\<rparr>"
  define w where "w = (world fi)\<lparr>sw := heap_put server s' (sw (world fi)),
     lib := (if fin then l2 else SSL_accept ops (ds_ssl s) l1)\<rparr>"
  define fi0 where "fi0 = (if fin then transition DS_ESTABLISHED fi else fi)\<lparr>world := w\<rparr>"
  have s': "ds_wbio s' = ds_wbio s" "ds_rbio s' = ds_rbio s" "ds_ssl s' = ds_ssl s" by (simp_all add: s'_def)
  have peer: "ds_peer s' = cid_mirror k" unfolding s'_def by (rule ds_peer_of_packet [OF k])
  have fi0: "w_heap (sw (world fi0)) server = Some s'" "w_pkts (sw (world fi0)) = pk" "pktsBA fi0 = pktsBA fi"
    "fi_sm fi0 = fi_sm fi" "lib (world fi0) = (if fin then l2 else SSL_accept ops (ds_ssl s) l1)"
    by (simp_all add: fi0_def w_def heap_put_def pk_def)
  have "ds_runHandshake ops pkt fi = rbind (ds_writeAllDataAvailable ops server pkt fi0) (\<lambda>(_, fi). ret fi)"
    using srv pkt rd acc
    by (simp add: ds_runHandshake_def Let_def server_def [symmetric] heap_get_def getData_def pk_def [symmetric]
        eth_getPayload_def sizeof_Ethernet_def s'_def [symmetric] s' bio_feed_def feed ds_upd_def ds_reflect_def fi0_def w_def transition_def)
  moreover have "fi_ok fi0" using ok fi0 by (simp add: fi_ok_def)
  moreover have "\<exists>ps fi'. ds_writeAllDataAvailable ops server pkt fi0 = ret (length ps, fi') \<and>
      pend (ds_wbio s) (lib (world fi')) = [] \<and> sent_in s' (min (unat (m_bufLen b0)) 1500) (w_pkts (sw (world fi'))) ps q \<and>
      (if q = [] then ps = [] \<and> \<not> sendPkt fi' else hd ps = pkt \<and> sendPkt fi' = sendPkt fi0) \<and> st fi' = st fi0"
    using session_output.writeAll [OF lib, of fi0 server s' pkt b0] cb fi0 pkt room small av q s' \<open>fi_ok fi0\<close>
    by (auto split: if_splits)
  then obtain ps fi' where "ds_writeAllDataAvailable ops server pkt fi0 = ret (length ps, fi')"
    "pend (ds_wbio s) (lib (world fi')) = []" "sent_in s' (min (unat (m_bufLen b0)) 1500) (w_pkts (sw (world fi'))) ps q"
    "if q = [] then ps = [] \<and> \<not> sendPkt fi' else hd ps = pkt \<and> sendPkt fi' = sendPkt fi0" "st fi' = st fi0"
    by blast
  ultimately show ?thesis
    by (intro exI [of _ ps] exI [of _ fi']) (simp add: sent_in_D peer fi0_def server_def)
qed

text \<open>A UDP packet from 10.0.0.2:4000 to 10.0.0.1:4433 with four bytes.\<close>

definition example_datagram :: mem where
  "example_datagram = (\<lambda>_. 0)(14 := 0x45, 23 := 17, 26 := 10, 29 := 2, 30 := 10, 33 := 1,
     34 := 0x0f, 35 := 0xa0, 36 := 0x11, 37 := 0x51, 39 := 12)"

definition example_key :: ConnectionID where
  "example_key = \<lparr>dstIP = htonl 0x0a000001, srcIP = htonl 0x0a000002, dstPort = htons 4433, srcPort = htons 4000, proto = 17\<rparr>"

lemma example_datagram_simps:
  "identify example_datagram = Some example_key" "ip_proto 14 example_datagram = PROTO_UDP"
  "udp_payload example_datagram = [0, 0, 0, 0]"
proof -
  have p: "ip_getPayload 14 example_datagram = 34"
    by (simp add: ip_getPayload_def ip_ihl_def example_datagram_def)
  show pr: "ip_proto 14 example_datagram = PROTO_UDP"
    by (simp add: ip_proto_def example_datagram_def PROTO_UDP_def)
  show "identify example_datagram = Some example_key"
    by (simp add: identify_udp [OF pr p] example_key_def)
      (simp add: example_datagram_def load32_def load16_def htonl_def htons_def ntohl_def ntohs_def word_cat_eq
        push_bit_eq_mult drop_bit_eq_div)
  have "udp_getPayloadLength 34 example_datagram = 4"
    by (simp add: udp_getPayloadLength_def example_datagram_def load16_def ntohs_def word_cat_eq sizeof_Udp_def)
  then show "udp_payload example_datagram = [0, 0, 0, 0]"
    by (simp add: udp_payload_def p eth_getPayload_def sizeof_Ethernet_def udp_getPayload_def sizeof_Udp_def)
      (simp add: load_bytes_def upt_rec example_datagram_def)
qed

theorem handshake_answers_sender_witness:
  "\<exists>ps fi'. ds_runHandshake bio_lib_ops 9000 (example_fi (replicate 2000 7) example_datagram) = ret fi' \<and>
     state (st fi') = DS_HANDSHAKE \<and> hd ps = 9000 \<and>
     (\<forall>p \<in> set ps. identify (m_data (the (w_pkts (sw (world fi')) p))) = Some (cid_mirror example_key)) \<and>
     concat (map (\<lambda>p. udp_payload (m_data (the (w_pkts (sw (world fi')) p)))) ps) = replicate 2000 7"
  using handshake_answers_sender [OF bio_slab.session_output_axioms [of 5000],
      of "example_fi (replicate 2000 7) example_datagram" example_server 9000 _ example_key 4
      "(\<lambda>_. [])(2 := replicate 2000 7)" False 0 "[]" "(\<lambda>_. [])(2 := replicate 2000 7)" "replicate 2000 7"]
  by (simp add: example_fi_simps slab_5000 State_of_def example_datagram_simps bio_lib_ops_def)
    (auto simp: example_server_def)

section \<open>An established session\<close>

text \<open>
  C23.  The DTLS server echoes.  A packet of an established session is fed to the session; the bytes
  it yields (\<open>r\<close> of them, at most 2048) are handed back to it whole, and whatever the session
  then wants to write is sent to the peer.  If the peer has closed the session, the
  session is shut down and the connection goes to the end state, but the server object stays
  allocated.
\<close>

theorem established_echoes:
  fixes fi :: "'l ds_fi"
  defines "pk \<equiv> w_pkts (sw (world fi))" and "server \<equiv> stateData (st fi)"
  assumes lib: "session_output ops pend alloc avail" and cb: "getPktCB (fi_sm fi) = Some (pkt_callback alloc)"
    and ok: "fi_ok fi" and srv: "w_heap (sw (world fi)) server = Some s" and pkt: "pk pkt = Some b0"
    and room: "42 < unat (m_bufLen b0)"
    and feed: "BIO_write ops (ds_rbio s) (udp_payload (m_data b0)) (lib (world fi)) = (n, l1)" "0 < n"
    and rd: "SSL_read ops (ds_ssl s) 2048 l1 = (r, buf, l2)"
    and echo: "if 0 < r then SSL_write ops (ds_ssl s) (take (nat r) buf) l2 = (r, l3) else l3 = l2"
    and sd: "closed = (SSL_get_shutdown ops (ds_ssl s) l3 \<noteq> 0)"
      "l4 = (if closed then snd (SSL_shutdown ops (ds_ssl s) l3) else l3)"
    and q: "q = pend (ds_wbio s) l4"
    and small: "length (ba_list (pktsBA fi)) + length q \<le> 2 ^ 31" and av: "length q \<le> avail (dom pk)"
  shows "\<exists>ps fi'. ds_sendData ops pkt fi = ret fi' \<and> pend (ds_wbio s) (lib (world fi')) = [] \<and>
    state (st fi') = (if closed then DS_DELETED else state (st fi)) \<and> w_heap (sw (world fi')) server = Some s \<and>
    (\<forall>p \<in> set ps. identify (m_data (the (w_pkts (sw (world fi')) p))) = Some (ds_peer s)) \<and>
    concat (map (\<lambda>p. udp_payload (m_data (the (w_pkts (sw (world fi')) p)))) ps) = q \<and>
    (if q = [] then ps = [] \<and> \<not> sendPkt fi' else hd ps = pkt \<and> sendPkt fi' = sendPkt fi)"
proof -
  define w where "w = (world fi)\<lparr>lib := l4\<rparr>"
  define fi0 where "fi0 = (if closed then transition DS_DELETED (fi\<lparr>world := w\<rparr>) else fi\<lparr>world := w\<rparr>)"
  have fi0: "w_heap (sw (world fi0)) server = Some s" "w_pkts (sw (world fi0)) = pk" "pktsBA fi0 = pktsBA fi"
    "fi_sm fi0 = fi_sm fi" "lib (world fi0) = l4"
    using srv by (simp_all add: fi0_def w_def pk_def)
  have r: "ds_reflect ops (ds_ssl s) r buf ((world fi)\<lparr>lib := l2\<rparr>) = ret ((world fi)\<lparr>lib := l3\<rparr>)"
    using echo by (auto simp: ds_reflect_def)
  have "ds_sendData ops pkt fi = rbind (ds_writeAllDataAvailable ops server pkt fi0) (\<lambda>(_, fi). ret fi)"
    using srv pkt rd r
    by (simp add: ds_sendData_def Let_def server_def [symmetric] heap_get_def getData_def pk_def [symmetric]
        bio_feed_def feed ds_upd_def fi0_def w_def transition_def sd)
  moreover have "fi_ok fi0" using ok fi0 by (simp add: fi_ok_def)
  moreover have "\<exists>ps fi'. ds_writeAllDataAvailable ops server pkt fi0 = ret (length ps, fi') \<and>
      pend (ds_wbio s) (lib (world fi')) = [] \<and> sent_in s (min (unat (m_bufLen b0)) 1500) (w_pkts (sw (world fi'))) ps q \<and>
      (if q = [] then ps = [] \<and> \<not> sendPkt fi' else hd ps = pkt \<and> sendPkt fi' = sendPkt fi0) \<and> st fi' = st fi0 \<and>
      w_heap (sw (world fi')) = w_heap (sw (world fi0))"
    using session_output.writeAll [OF lib, of fi0 server s pkt b0] cb fi0 pkt room small av q \<open>fi_ok fi0\<close>
    by (auto split: if_splits)
  then obtain ps fi' where "ds_writeAllDataAvailable ops server pkt fi0 = ret (length ps, fi')"
    "pend (ds_wbio s) (lib (world fi')) = []" "sent_in s (min (unat (m_bufLen b0)) 1500) (w_pkts (sw (world fi'))) ps q"
    "if q = [] then ps = [] \<and> \<not> sendPkt fi' else hd ps = pkt \<and> sendPkt fi' = sendPkt fi0" "st fi' = st fi0"
    "w_heap (sw (world fi')) = w_heap (sw (world fi0))"
    by blast
  ultimately show ?thesis
    by (intro exI [of _ ps] exI [of _ fi']) (simp add: sent_in_D fi0 srv, simp add: fi0_def)
qed

theorem established_echoes_witness:
  "\<exists>ps fi'. ds_sendData bio_lib_ops 9000 (example_fi [7, 8] example_datagram) = ret fi' \<and>
     state (st fi') = DS_HANDSHAKE \<and> hd ps = 9000 \<and>
     concat (map (\<lambda>p. udp_payload (m_data (the (w_pkts (sw (world fi')) p)))) ps) = [7, 8]"
  using established_echoes [OF bio_slab.session_output_axioms [of 5000],
      of "example_fi [7, 8] example_datagram" example_server 9000 _ 4 "(\<lambda>_. [])(2 := [7, 8])" 0 "[]"
      "(\<lambda>_. [])(2 := [7, 8])" "(\<lambda>_. [])(2 := [7, 8])" False "(\<lambda>_. [])(2 := [7, 8])" "[7, 8]"]
  by (simp add: example_fi_simps slab_5000 State_of_def example_datagram_simps bio_lib_ops_def)
    (auto simp: example_server_def)

section \<open>Inputs on which the handlers fail\<close>

lemma bio_feed_empty:
  assumes "udp_payload m = []" and "\<And>l. fst (BIO_write ops rbio [] l) \<le> 0"
  shows "bio_feed ops rbio m w = fail AssertFail"
  using assms(1) assms(2) [of "lib w"] by (simp add: bio_feed_def split_beta rassert_def)

text \<open>
  C26.  A UDP packet without payload stops the process.  In every state in which a DTLS connection
  reads packets, of the server and of the client, a datagram whose UDP header announces no
  payload makes the handler fail its assertion that the session took some bytes, whatever the
  state of the session, if the library reports that it wrote nothing when it is given nothing.
\<close>

theorem empty_datagram_asserts:
  fixes fi :: "'l ds_fi" and fi' :: "'l dc_fi"
  assumes none: "\<And>b l. fst (BIO_write ops b [] l) \<le> 0" and empty: "udp_payload (m_data b) = []"
    and s: "w_heap (sw (world fi)) (stateData (st fi)) = Some s" "w_pkts (sw (world fi)) pkt = Some b"
    and c: "w_heap (sw (world fi')) (stateData (st fi')) = Some c" "w_pkts (sw (world fi')) pkt = Some b"
  shows "(\<forall>f \<in> {ds_runHandshake ops, ds_sendData ops, ds_runTeardown ops}. f pkt fi = fail AssertFail) \<and>
    (\<forall>f \<in> {dc_runHandshake ops, dc_sendData ops, dc_runTeardown ops}. f pkt fi' = fail AssertFail)"
proof -
  have "bio_feed ops r (m_data b) w = fail AssertFail" for r and w :: "'l ds_world"
    by (rule bio_feed_empty [OF empty none])
  moreover have "bio_feed ops r (m_data b) w = fail AssertFail" for r and w :: "'l dc_world"
    by (rule bio_feed_empty [OF empty none])
  ultimately show ?thesis using s c
    by (simp add: ds_runHandshake_def ds_sendData_def ds_runTeardown_def dc_runHandshake_def dc_sendData_def
        dc_runTeardown_def Let_def heap_get_def getData_def)
qed

text \<open>A client whose state data is at address 1, in the same surroundings.\<close>

definition example_client :: dtlsClient where
  "example_client = \<lparr>dc_ssl = 1, dc_wbio = 2, dc_rbio = 3, dc_localIP = 0x0a000001, dc_remoteIP = 0x0a000002,
     dc_localPort = 4000, dc_remotePort = 4433, dc_counter = 0\<rparr>"

definition example_cfi :: "u8 list \<Rightarrow> mem \<Rightarrow> bio_lib dc_fi" where
  "example_cfi out m = new_FunIface \<lparr>getPktCB = None, curTimeoutID = 0, timeoutsQ = [], timeoutFunctions = Map.empty\<rparr>
     0 \<lparr>pkts = [Some 9000], sendMask = [True], numBufs = 1, numSlots = 1, fromLua = True\<rparr> new_ConnectionID (State_of DC_HANDSHAKE 1)
     \<lparr>sw = \<lparr>w_pkts = [9000 \<mapsto> \<lparr>m_data = m, m_dataLen = 100, m_bufLen = 2048\<rparr>], w_heap = [1 \<mapsto> example_client],
            w_next = 2, w_rand = (\<lambda>_. 0), w_rnd = 0\<rparr>, lib = (\<lambda>_. [])(2 := out)\<rparr>"

lemma example_cfi_simps:
  "w_heap (sw (world (example_cfi out m))) = [1 \<mapsto> example_client]"
  "w_pkts (sw (world (example_cfi out m))) = [9000 \<mapsto> \<lparr>m_data = m, m_dataLen = 100, m_bufLen = 2048\<rparr>]"
  "lib (world (example_cfi out m)) = (\<lambda>_. [])(2 := out)" "st (example_cfi out m) = State_of DC_HANDSHAKE 1"
  by (simp_all add: example_cfi_def new_FunIface_def)

lemma example_empty_payload: "udp_payload ((\<lambda>_. 0)(14 := 0x45, 23 := 17, 39 := 8)) = []"
  by (simp add: udp_payload_def ip_getPayload_def ip_ihl_def eth_getPayload_def sizeof_Ethernet_def udp_getPayloadLength_def
      sizeof_Udp_def load16_def ntohs_def word_cat_eq load_bytes_def)

theorem empty_datagram_asserts_witness:
  "ds_runHandshake bio_lib_ops 9000 (example_fi [] ((\<lambda>_. 0)(14 := 0x45, 23 := 17, 39 := 8))) = fail AssertFail \<and>
   dc_runHandshake bio_lib_ops 9000 (example_cfi [] ((\<lambda>_. 0)(14 := 0x45, 23 := 17, 39 := 8))) = fail AssertFail"
proof -
  have "fst (BIO_write bio_lib_ops b [] l) \<le> 0" for b l by (simp add: bio_lib_ops_def)
  from empty_datagram_asserts [of bio_lib_ops "\<lparr>m_data = (\<lambda>_. 0)(14 := 0x45, 23 := 17, 39 := 8), m_dataLen = 100, m_bufLen = 2048\<rparr>"
      "example_fi [] ((\<lambda>_. 0)(14 := 0x45, 23 := 17, 39 := 8))" example_server 9000
      "example_cfi [] ((\<lambda>_. 0)(14 := 0x45, 23 := 17, 39 := 8))" example_client, OF this]
  show ?thesis using example_empty_payload by (simp add: example_fi_simps example_cfi_simps State_of_def)
qed

text \<open>
  C27.  The last step of a teardown reads the object it has just deleted.  When \<open>SSL_shutdown\<close>
  reports that the session is shut down, \<open>runTeardown\<close>, of the server and of the client, deletes
  the object of the connection and then calls \<open>writeAllDataAvailable\<close>, which reads it.
\<close>

theorem teardown_uses_deleted_object:
  fixes fi :: "'l ds_fi" and fi' :: "'l dc_fi"
  assumes s: "w_heap (sw (world fi)) (stateData (st fi)) = Some s" "w_pkts (sw (world fi)) pkt = Some b" "stateData (st fi) \<noteq> 0"
    and c: "w_heap (sw (world fi')) (stateData (st fi')) = Some c" "w_pkts (sw (world fi')) pkt = Some b" "stateData (st fi') \<noteq> 0"
    and feed: "BIO_write ops (ds_rbio s) (udp_payload (m_data b)) (lib (world fi)) = (n, l1)" "0 < n"
      "BIO_write ops (dc_rbio c) (udp_payload (m_data b)) (lib (world fi')) = (n', l1')" "0 < n'"
    and down: "fst (SSL_shutdown ops (ds_ssl s) l1) = 1" "fst (SSL_shutdown ops (dc_ssl c) l1') = 1"
  shows "ds_runTeardown ops pkt fi = fail Dangling \<and> dc_runTeardown ops pkt fi' = fail Dangling"
  using s c down bio_feed_ok [where w = "world fi", OF feed(1,2)] bio_feed_ok [where w = "world fi'", OF feed(3,4)]
  by (simp add: ds_runTeardown_def dc_runTeardown_def Let_def heap_get_def getData_def split_beta ds_upd_def
      heap_delete_def ds_writeAllDataAvailable_def dc_writeAllDataAvailable_def)

theorem teardown_uses_deleted_object_witness:
  "ds_runTeardown bio_lib_ops 9000 (example_fi [] example_datagram) = fail Dangling \<and>
   dc_runTeardown bio_lib_ops 9000 (example_cfi [] example_datagram) = fail Dangling"
  using teardown_uses_deleted_object [of "example_fi [] example_datagram" example_server 9000 _ "example_cfi [] example_datagram"
      example_client bio_lib_ops 4 _ 4]
  by (simp add: example_fi_simps example_cfi_simps State_of_def example_datagram_simps bio_lib_ops_def)

section \<open>The packets of the client\<close>

definition dc_peer :: "dtlsClient \<Rightarrow> ConnectionID" where
  "dc_peer c = udp_tuple (dc_localIP c) (dc_remoteIP c) (dc_localPort c) (dc_remotePort c)"

lemma dc_headers_datagram:
  assumes ihl: "ip_ihl 14 m0 = 5" and small: "42 + length bs < 65536" and dl: "dl = of_nat (42 + length bs)"
  shows "datagram (dc_peer c) bs
    \<lparr>m_data = dc_headers c (int (length bs)) 34 (store_bytes 42 bs m0), m_dataLen = dl, m_bufLen = bl\<rparr>"
proof -
  define m1 where "m1 = ip_setIHL 14 5 (ip_setVersion 14 (eth_setEthertype 0 ETHERTYPE_IPv4 (store_bytes 42 bs m0)))"
  show ?thesis unfolding dc_peer_def
  proof (rule udp_headers_tail [of m1, OF _ _ small dl])
    show "m1 14 AND 15 = 5" using ihl_setIHL [of 14 5] by (simp add: m1_def ip_ihl_def)
    show "load_bytes 42 (length bs) m1 = bs"
      by (simp add: m1_def ip_setIHL_def ip_setVersion_def eth_setEthertype_def mem_simps)
  qed (simp add: m1_def dc_headers_def Let_def eth_getPayload_def sizeof_Ethernet_def)
qed

text \<open>With a header length of zero the UDP header is written over the start of the IP header.\<close>

lemma dc_headers_blank: "load16 (dc_headers c n 14 m) 14 = htons (dc_localPort c)"
proof -
  define m' where "m' = udp_setDstPort 14 (dc_remotePort c) (ip_setTTL 14 64 (ip_setChecksum 14 0 (ip_setDstIP 14 (dc_remoteIP c)
    (ip_setSrcIP 14 (dc_localIP c) (ip_setProtoUDP 14 (ip_setPayloadLength 14 (of_int (n + int sizeof_Udp))
    (ip_setIHL 14 5 (ip_setVersion 14 (eth_setEthertype 0 ETHERTYPE_IPv4 m)))))))))"
  have "dc_headers c n 14 m = udp_setPayloadLength 14 (of_int n) (udp_setSrcPort 14 (dc_localPort c) m')"
    by (simp add: m'_def dc_headers_def Let_def eth_getPayload_def sizeof_Ethernet_def)
  then show ?thesis by (simp add: udp_setPayloadLength_def udp_setSrcPort_def mem_simps)
qed

text \<open>
  The client looks for the UDP header before it sets the length of the IP header.  A packet it
  fills takes some of the waiting bytes; if the buffer already held an IP header of 20
  bytes, the packet is a datagram for the peer with these bytes, but if the field of the
  buffer was zero, as in a blank packet from the pool, the version and the header length that
  the packet is sent with have been overwritten with the port.
\<close>

theorem client_fill_needs_header:
  assumes lib: "output_bio ops pend" and p: "w_pkts (sw w) p = Some b" and room: "42 < unat (m_bufLen b)"
    and q: "q = pend (dc_wbio c) (lib w)" "q \<noteq> []"
  shows "\<exists>n l' b'. 0 < n \<and> n \<le> length q \<and> 42 + n \<le> unat (m_bufLen b) \<and>
    dc_fill ops c p w = ret (w\<lparr>sw := (sw w)\<lparr>w_pkts := (w_pkts (sw w))(p \<mapsto> b')\<rparr>, lib := l'\<rparr>) \<and>
    pend (dc_wbio c) l' = drop n q \<and>
    (ip_ihl 14 (m_data b) = 5 \<longrightarrow> datagram (dc_peer c) (take n q) b') \<and>
    (ip_ihl 14 (m_data b) = 0 \<longrightarrow> load16 (m_data b') 14 = htons (dc_localPort c))"
proof -
  let ?k = "int (unat (m_bufLen b)) - allHeaderLength" and ?u = "ip_getPayload 14 (m_data b)"
  have k: "?k = int (unat (m_bufLen b)) - 42"
    by (simp add: allHeaderLength_def sizeof_Ethernet_def sizeof_IPv4_def sizeof_Udp_def)
  have kp: "0 < ?k" unfolding k using room by linarith
  obtain n l' where n: "0 < n" "int n \<le> ?k" "n \<le> length q"
    and r: "BIO_read ops (dc_wbio c) ?k (lib w) = (int n, take n q, l')" and l': "pend (dc_wbio c) l' = drop n q"
    using output_bio.read [OF lib _ kp] q by blast
  define b' where "b' = b\<lparr>m_dataLen := of_nat n + 42, m_data := dc_headers c (int n) ?u (store_bytes (?u + 8) (take n q) (m_data b))\<rparr>"
  have "unat (m_bufLen b) < 65536" using unsigned_less [of "m_bufLen b"] by simp
  moreover have "42 + n \<le> unat (m_bufLen b)" using n(2) unfolding k by linarith
  ultimately have small: "42 + n \<le> unat (m_bufLen b)" "42 + length (take n q) < 65536" by simp_all
  have "dc_fill ops c p w = ret (w\<lparr>sw := (sw w)\<lparr>w_pkts := (w_pkts (sw w))(p \<mapsto> b')\<rparr>, lib := l'\<rparr>)"
    using p r n
    by (simp add: dc_fill_def pkt_defs Let_def eth_getPayload_def udp_getPayload_def sizeof_Ethernet_def b'_def
        allHeaderLength_def sizeof_IPv4_def sizeof_Udp_def)
  moreover have "datagram (dc_peer c) (take n q) b'" if "ip_ihl 14 (m_data b) = 5"
  proof -
    have "b' = \<lparr>m_data = dc_headers c (int (length (take n q))) 34 (store_bytes 42 (take n q) (m_data b)),
        m_dataLen = of_nat (42 + length (take n q)), m_bufLen = m_bufLen b\<rparr>"
      using n that by (cases b) (simp add: b'_def min_absorb2 ip_getPayload_def)
    then show ?thesis using dc_headers_datagram [OF that small(2) refl] by simp
  qed
  moreover have "load16 (m_data b') 14 = htons (dc_localPort c)" if "ip_ihl 14 (m_data b) = 0"
    using that by (simp add: b'_def ip_getPayload_def dc_headers_blank)
  ultimately show ?thesis using n small l' by blast
qed

theorem client_fill_needs_header_witness:
  "\<exists>w'. dc_fill bio_lib_ops example_client 9000 (world (example_cfi [7, 8] (\<lambda>_. 0))) = ret w' \<and>
     load16 (m_data (the (w_pkts (sw w') 9000))) 14 = htons 4000"
  using client_fill_needs_header [OF bio_lib.output_bio_axioms, of "world (example_cfi [7, 8] (\<lambda>_. 0))" 9000 _ "[7, 8]" example_client]
  by (simp add: example_cfi_simps example_client_def ip_ihl_def) auto

end
