(* ===== verification/Dtls_Frames.thy ===== *)
theory Dtls_Frames
  imports Dtls_Client
begin

text \<open>
  The handlers of the DTLS client and server reach the batch through their interface only: whatever the library does, a
  handler that returns has called \<open>getPkt\<close> some number of times and otherwise left the batch alone, and the packets
  that are out of the pool are those that were before and those \<open>getPkt\<close> returned.  So they meet the
  contract of state functions: the packets of the batch are where they were, and what has been appended is marked to be sent.
\<close>

section \<open>Packets that are out of the pool\<close>

definition out_pkts :: "'o hworld \<Rightarrow> ptr set" where
  "out_pkts h = dom (w_pkts h)"

abbreviation live_ledger :: "('o, 'l) ssl_world \<Rightarrow> ptr list \<Rightarrow> ('o, 'l) ssl_world \<Rightarrow> bool" where
  "live_ledger \<equiv> made_live (\<lambda>w. out_pkts (sw w))"

lemma setDataLen_dom: "setDataLen p n h = ret h' \<Longrightarrow> out_pkts h' = out_pkts h"
  by (auto simp: setDataLen_def out_pkts_def split: option.splits if_splits)

lemma writeData_dom: "writeData p m h = ret h' \<Longrightarrow> out_pkts h' = out_pkts h"
  by (auto simp: writeData_def out_pkts_def split: option.splits if_splits)

lemma heap_delete_pkts: "heap_delete p h = ret h' \<Longrightarrow> out_pkts h' = out_pkts h"
  by (auto simp: heap_delete_def out_pkts_def split: option.splits if_splits)

lemma heap_put_pkts [simp]: "out_pkts (heap_put p ob h) = out_pkts h"
  by (simp add: heap_put_def out_pkts_def)

lemma ds_upd_sw [simp]: "sw (ds_upd f w) = sw w"
  by (simp add: ds_upd_def)

lemma bio_feed_sw: "bio_feed ops b m w = ret w' \<Longrightarrow> sw w' = sw w"
  by (auto simp: bio_feed_def Let_def rbind_eq_ret split: prod.splits)

lemma ds_reflect_sw: "ds_reflect ops ssl n buf w = ret w' \<Longrightarrow> sw w' = sw w"
  by (auto simp: ds_reflect_def Let_def split: prod.splits if_splits)

lemma ds_fill_live: "ds_fill ops hs s pkt p w = ret w' \<Longrightarrow> out_pkts (sw w') = out_pkts (sw w)"
  by (auto simp: ds_fill_def Let_def rbind_eq_ret split_beta dest!: setDataLen_dom writeData_dom)

lemma dc_fill_live: "dc_fill ops c p w = ret w' \<Longrightarrow> out_pkts (sw w') = out_pkts (sw w)"
  by (auto simp: dc_fill_def Let_def rbind_eq_ret split_beta dest!: setDataLen_dom writeData_dom)

lemmas live_dests = setDataLen_dom writeData_dom heap_delete_pkts bio_feed_sw ds_reflect_sw

text \<open>The callback hands out a packet that was in the pool, if the pool keeps its contract.\<close>

definition fresh_alloc :: "(('o, 'l) ssl_world \<Rightarrow> ptr \<times> ('o, 'l) ssl_world) \<Rightarrow> bool" where
  "fresh_alloc alloc \<longleftrightarrow> (\<forall>w p w'. alloc w = (p, w') \<longrightarrow> p \<noteq> 0 \<longrightarrow>
     p \<notin> out_pkts (sw w) \<and> out_pkts (sw w') = insert p (out_pkts (sw w)))"

lemma pkt_callback_hands_out: "fresh_alloc alloc \<Longrightarrow> hands_out live_ledger (Some (pkt_callback alloc))"
  by (auto simp: hands_out_def fresh_alloc_def pkt_callback_def made_live_def Let_def rbind_eq_ret split: prod.splits)

section \<open>Sending the output\<close>

lemma ds_extra_loop_uses:
  assumes "ds_extra_loop ops s pkt n fi = ret x"
  shows "uses_iface live_ledger fi (snd x)"
proof -
  have "r = Inr x \<longrightarrow> uses_iface live_ledger fi (snd x)" if "ds_extra_loop ops s pkt n fi = Some r" for r
    using that
    apply (rule ds_extra_loop.raw_induct [where P = "\<lambda>ops s pkt n fi r. \<forall>x. r = Inr x \<longrightarrow> uses_iface live_ledger fi (snd x)", rotated, THEN spec])
    subgoal premises p for loop ops s pkt n fi r
    proof (intro allI impI)
      fix x assume r: "r = Inr x"
      show "uses_iface live_ledger fi (snd x)"
      proof (cases "BIO_eof ops (ds_wbio s) (lib (world fi))")
        case True
        then show ?thesis using p(2) r by (auto intro: uses_iface.start)
      next
        case False
        then obtain p1 fi1 w where g: "getPkt fi = ret (p1, fi1)" and w: "ds_fill ops ds_headers_extra s pkt p1 (world fi1) = ret w"
          and l: "loop ops s pkt (n + 1) (fi1\<lparr>world := w\<rparr>) = ret x"
          using p(2) r by (auto simp: rbind_eq_ret)
        have "uses_iface live_ledger fi (fi1\<lparr>world := w\<rparr>)"
          using uses_iface.own [OF uses_fetch [OF g]] ds_fill_live [OF w] by (simp add: own_step_def)
        then show ?thesis using p(1) [OF l] by (blast intro: uses_iface_trans)
      qed
    qed
    done
  with assms show ?thesis by simp
qed

lemma dc_extra_loop_uses:
  assumes "dc_extra_loop ops c n fi = ret x"
  shows "uses_iface live_ledger fi (snd x)"
proof -
  have "r = Inr x \<longrightarrow> uses_iface live_ledger fi (snd x)" if "dc_extra_loop ops c n fi = Some r" for r
    using that
    apply (rule dc_extra_loop.raw_induct [where P = "\<lambda>ops c n fi r. \<forall>x. r = Inr x \<longrightarrow> uses_iface live_ledger fi (snd x)", rotated, THEN spec])
    subgoal premises p for loop ops c n fi r
    proof (intro allI impI)
      fix x assume r: "r = Inr x"
      show "uses_iface live_ledger fi (snd x)"
      proof (cases "BIO_eof ops (dc_wbio c) (lib (world fi))")
        case True
        then show ?thesis using p(2) r by (auto intro: uses_iface.start)
      next
        case False
        then obtain p1 fi1 w where g: "getPkt fi = ret (p1, fi1)" and w: "dc_fill ops c p1 (world fi1) = ret w"
          and l: "loop ops c (n + 1) (fi1\<lparr>world := w\<rparr>) = ret x"
          using p(2) r by (auto simp: rbind_eq_ret)
        have "uses_iface live_ledger fi (fi1\<lparr>world := w\<rparr>)"
          using uses_iface.own [OF uses_fetch [OF g]] dc_fill_live [OF w] by (simp add: own_step_def)
        then show ?thesis using p(1) [OF l] by (blast intro: uses_iface_trans)
      qed
    qed
    done
  with assms show ?thesis by simp
qed

text \<open>
  A handler takes a step of its own, to the world, the state and the mark, before it calls \<open>writeAllDataAvailable\<close>.
\<close>

lemma own_steps:
  "own_step live_ledger a (freePkt a)"
  "out_pkts (sw w) = out_pkts (sw (world a)) \<Longrightarrow> own_step live_ledger a (a\<lparr>world := w\<rparr>)"
  by (simp_all add: own_step_def)

lemma own_step_trans:
  "\<lbrakk>own_step live_ledger a b; own_step live_ledger b c\<rbrakk> \<Longrightarrow> own_step live_ledger a c"
  by (auto simp: own_step_def)

lemma ds_writeAll_uses:
  assumes "ds_writeAllDataAvailable ops server pkt a = ret (n, fi')" and "own_step live_ledger fi a"
  shows "uses_iface live_ledger fi fi'"
proof -
  have "\<exists>s n1 fi1. own_step live_ledger a fi1 \<and> ds_extra_loop ops s pkt n1 fi1 = ret (n, fi')"
    using assms(1) unfolding ds_writeAllDataAvailable_def
    by (auto simp: rbind_eq_ret split: if_splits) (use own_steps ds_fill_live in metis)+
  then obtain s n1 fi1 where f: "own_step live_ledger a fi1" and l: "ds_extra_loop ops s pkt n1 fi1 = ret (n, fi')" by blast
  from uses_iface_trans [OF ds_extra_loop_uses [OF l] uses_own [OF own_step_trans [OF assms(2) f]]] show ?thesis by simp
qed

lemma dc_writeAll_uses:
  assumes "dc_writeAllDataAvailable ops client pkt a = ret (n, fi')" and "own_step live_ledger fi a"
  shows "uses_iface live_ledger fi fi'"
proof -
  have "\<exists>c n1 fi1. own_step live_ledger a fi1 \<and> dc_extra_loop ops c n1 fi1 = ret (n, fi')"
    using assms(1) unfolding dc_writeAllDataAvailable_def
    by (auto simp: rbind_eq_ret split: if_splits) (use own_steps dc_fill_live in metis)+
  then obtain c n1 fi1 where f: "own_step live_ledger a fi1" and l: "dc_extra_loop ops c n1 fi1 = ret (n, fi')" by blast
  from uses_iface_trans [OF dc_extra_loop_uses [OF l] uses_own [OF own_step_trans [OF assms(2) f]]] show ?thesis by simp
qed

section \<open>The handlers\<close>

lemma ds_runHandshake_iface: "interface_only live_ledger (ds_runHandshake ops)"
  unfolding interface_only_def ds_runHandshake_def
  by (auto simp: Let_def rbind_eq_ret own_step_def split_beta split: if_splits dest!: live_dests intro: ds_writeAll_uses)

lemma ds_sendData_iface: "interface_only live_ledger (ds_sendData ops)"
  unfolding interface_only_def ds_sendData_def
  by (auto simp: Let_def rbind_eq_ret own_step_def split_beta split: if_splits dest!: live_dests intro: ds_writeAll_uses)

lemma ds_runTeardown_iface: "interface_only live_ledger (ds_runTeardown ops)"
  unfolding interface_only_def ds_runTeardown_def
  by (auto simp: Let_def rbind_eq_ret own_step_def split_beta split: if_splits dest!: live_dests intro: ds_writeAll_uses)

lemma dc_initHandshake_iface: "interface_only live_ledger (dc_initHandshake ops)"
  unfolding interface_only_def
proof (intro allI impI)
  fix p fi fi' assume "dc_initHandshake ops p fi = ret fi'"
  then obtain a n fi1 where w: "dc_writeAllDataAvailable ops (stateData (st fi)) p a = ret (n, fi1)" "own_step live_ledger fi a"
    and fi': "fi' = transition DC_HANDSHAKE fi1"
    by (auto simp: dc_initHandshake_def Let_def rbind_eq_ret own_step_def split_beta)
  show "uses_iface live_ledger fi fi'"
    by (rule uses_iface.own [OF dc_writeAll_uses [OF w]]) (simp add: fi' own_step_def)
qed

lemma dc_first_packet_uses:
  assumes "dc_first_packet ops c fi = ret fi'"
  shows "uses_iface live_ledger fi fi'"
proof -
  obtain p fi1 w where g: "getPkt fi = ret (p, fi1)" and "fi' = fi1\<lparr>world := w\<rparr>" "out_pkts (sw w) = out_pkts (sw (world fi1))"
    using assms by (auto simp: dc_first_packet_def Let_def rbind_eq_ret split_beta split: if_splits dest!: live_dests)
  then show ?thesis using uses_iface.own [OF uses_fetch [OF g]] own_steps(2) by blast
qed

lemma dc_runHandshake_iface: "interface_only live_ledger (dc_runHandshake ops)"
  unfolding interface_only_def
proof (intro allI impI)
  fix p fi fi' assume "dc_runHandshake ops p fi = ret fi'"
  then obtain a n fi1 c where w: "dc_writeAllDataAvailable ops (stateData (st fi)) p a = ret (n, fi1)" "own_step live_ledger fi a"
    and fi': "fi' = fi1 \<or> dc_first_packet ops c (transition DC_ESTABLISHED fi1) = ret fi'"
    by (auto simp: dc_runHandshake_def Let_def rbind_eq_ret own_step_def split_beta split: if_splits dest!: live_dests) fastforce+
  note u = dc_writeAll_uses [OF w]
  have "uses_iface live_ledger fi (transition DC_ESTABLISHED fi1)"
    by (rule uses_iface.own [OF u]) (simp add: own_step_def)
  then show "uses_iface live_ledger fi fi'"
    using fi' u uses_iface_trans [OF dc_first_packet_uses] by blast
qed

lemma dc_sendData_iface: "interface_only live_ledger (dc_sendData ops)"
  unfolding interface_only_def dc_sendData_def
  by (auto simp: Let_def rbind_eq_ret own_step_def split_beta split: if_splits dest!: live_dests intro: dc_writeAll_uses)

lemma dc_runTeardown_iface: "interface_only live_ledger (dc_runTeardown ops)"
  unfolding interface_only_def dc_runTeardown_def
  by (auto simp: Let_def rbind_eq_ret own_step_def split_beta split: if_splits dest!: live_dests intro: dc_writeAll_uses)

section \<open>The contract of state functions\<close>

lemma state_functionI:
  assumes "interface_only live_ledger f"
  shows "state_function f"
  using interface_only_well_behaved [OF assms] by unfold_locales (simp add: well_behaved_def)

interpretation ds_runHandshake: state_function "ds_runHandshake ops" for ops
  by (rule state_functionI [OF ds_runHandshake_iface])

interpretation ds_sendData: state_function "ds_sendData ops" for ops
  by (rule state_functionI [OF ds_sendData_iface])

interpretation ds_runTeardown: state_function "ds_runTeardown ops" for ops
  by (rule state_functionI [OF ds_runTeardown_iface])

interpretation dc_initHandshake: state_function "dc_initHandshake ops" for ops
  by (rule state_functionI [OF dc_initHandshake_iface])

interpretation dc_runHandshake: state_function "dc_runHandshake ops" for ops
  by (rule state_functionI [OF dc_runHandshake_iface])

interpretation dc_sendData: state_function "dc_sendData ops" for ops
  by (rule state_functionI [OF dc_sendData_iface])

interpretation dc_runTeardown: state_function "dc_runTeardown ops" for ops
  by (rule state_functionI [OF dc_runTeardown_iface])

end
