(* ===== verification/Dtls_Process.thy ===== *)
theory Dtls_Process
  imports Dtls_Frames Dtls_Send Packet_Ledger
begin

text \<open>
  The DTLS handlers inside the state machine: the C functions \<open>DtlsServer_process\<close> and
  \<open>DtlsClient_process\<close>, followed by \<open>getPkts\<close>, return every packet they were given.
\<close>

definition five_tuple_ok :: "ConnectionID \<Rightarrow> bool" where
  "five_tuple_ok k \<longleftrightarrow> k \<noteq> getDelKey \<and> k \<noteq> getEmptyKey"

lemma dtls_machine:
  assumes "hash_map d tinv five_tuple_ok" and "hash_map n pinv (\<lambda>_. True)"
  shows "machine_env (dtls_env d n clk) tinv pinv five_tuple_ok"
proof (intro machine_env.intro machine_maps.intro machine_env_axioms.intro)
  fix w p c assume "ident (dtls_env d n clk) w p = Some c"
  then show "five_tuple_ok c"
    using five_tuple.ident_not_del five_tuple.ident_not_empty
    by (auto simp: dtls_env_def five_tuple_ok_def split: option.splits)
qed (use assms in \<open>auto simp: dtls_env_def\<close>)

lemma ds_config_well_behaved:
  assumes "Some f \<in> set (sm_functions (ds_configStateMachine ops cctx alloc (new_StateMachine env)))"
  shows "well_behaved f"
  using assms ds_runHandshake.well_behaved ds_sendData.well_behaved ds_runTeardown.well_behaved
  by (auto simp: ds_configStateMachine_def Let_def dest!: registered_functions)

lemma dc_config_well_behaved:
  assumes "Some f \<in> set (sm_functions (dc_configStateMachine ops alloc (new_StateMachine env)))"
  shows "well_behaved f"
  using assms dc_initHandshake.well_behaved dc_runHandshake.well_behaved dc_sendData.well_behaved dc_runTeardown.well_behaved
  by (auto simp: dc_configStateMachine_def Let_def dest!: registered_functions)

lemma dtls_client_process_conserves:
  fixes x :: "('l, 'm, 'n) dc_ctx"
  assumes maps: "hash_map d tinv five_tuple_ok" "hash_map n pinv (\<lambda>_. True)" and env: "env = dtls_env d n clk"
    and ok: "idle_ok tinv pinv x" and cfg: "sm_functions (c_sm x) = sm_functions (dc_configStateMachine ops alloc (new_StateMachine env))"
    and len: "length inPkts = unat inCount" and r: "DtlsClient_process env inPkts inCount x = ret (x', sc, fc)"
  shows "idle_ok tinv pinv x' \<and> sm_functions (c_sm x') = sm_functions (c_sm x) \<and>
    (\<exists>s f new. DtlsClient_getPkts (c_batch x') = ret (s, f) \<and> mset s + mset f = mset inPkts + mset new \<and>
       mset new \<subseteq># mset s \<and> unat sc = length s \<and> unat fc = length f)"
proof -
  obtain ba where b: "new_BufArray inPkts inCount True = ret ba" and run: "runPktBatch env (x\<lparr>c_batch := ba\<rparr>) = ret x'"
    and c: "sc = getSendCount (c_batch x')" "fc = getFreeCount (c_batch x')"
    using r by (auto simp: DtlsClient_process_def catch_abort_ret rbind_eq_ret)
  have wb: "\<forall>f. Some f \<in> set (sm_functions (c_sm x)) \<longrightarrow> well_behaved f"
    unfolding cfg using dc_config_well_behaved by blast
  from run_new_batch [OF dtls_machine [OF maps, of clk, folded env] ok wb len b run] c show ?thesis
    by (auto simp: DtlsClient_getPkts_def)
qed

section \<open>Where the packets come from\<close>

text \<open>The DTLS machine keeps the ledger of the packets that are out of the pool.\<close>

lemma dtls_ledger_machine:
  fixes clk :: "('o, 'l) ssl_world \<Rightarrow> int \<times> ('o, 'l) ssl_world"
  assumes "hash_map d tinv five_tuple_ok" and "hash_map n pinv (\<lambda>_. True)"
    and "\<And>w t w'. clk w = (t, w') \<Longrightarrow> w_pkts (sw w') = w_pkts (sw w)"
  shows "ledger_machine (dtls_env d n clk) tinv pinv five_tuple_ok live_ledger"
proof (intro ledger_machine.intro ledger_machine_axioms.intro)
  show "machine_env (dtls_env d n clk) tinv pinv five_tuple_ok" by (rule dtls_machine [OF assms(1,2)])
  show "packet_ledger live_ledger" by (rule live_ledger.packet_ledger_axioms)
  fix w t w' assume "clock (dtls_env d n clk) w = (t, w')"
  then show "live_ledger w [] w'" using assms(3) by (simp add: dtls_env_def out_pkts_def)
qed

interpretation dtls_lists: ledger_machine "dtls_env alist_ops alist_ops (\<lambda>w. (t, w))" "alist_inv five_tuple_ok"
  "alist_inv (\<lambda>_. True)" five_tuple_ok live_ledger for t
  by (rule dtls_ledger_machine [OF alist.hash_map_axioms alist.hash_map_axioms]) simp

lemma ds_factory_pkts: "ds_factory ops cctx c w = ret (p, w') \<Longrightarrow> out_pkts (sw w') = out_pkts (sw w)"
  by (auto simp: ds_factory_def Let_def rbind_eq_ret split_beta heap_new_def out_pkts_def heap_put_def split: if_splits)

lemma ds_config_tracked:
  assumes "fresh_alloc alloc"
  shows "tracked live_ledger (ds_configStateMachine ops cctx alloc (new_StateMachine env))"
proof -
  have "interface_only live_ledger f"
    if "Some f \<in> set (sm_functions (ds_configStateMachine ops cctx alloc (new_StateMachine env)))" for f
    using that ds_runHandshake_iface ds_sendData_iface ds_runTeardown_iface
    by (auto simp: ds_configStateMachine_def Let_def dest!: registered_functions)
  moreover have "live_ledger w [] w'" if "ds_factory ops cctx c w = ret (d, w')" for c w d w'
    using ds_factory_pkts [OF that] by simp
  ultimately show ?thesis
    using pkt_callback_hands_out [OF assms]
    by (simp add: tracked_def ds_configStateMachine_def Let_def registerStartStateID_def registerGetPktCB_def registerEndStateID_def)
qed

text \<open>
  C25.  The DTLS server returns every packet and makes up none.  Assume that the pool never hands out a packet that is already
  out, that reading the clock takes no packet, and that the machine is configured as \<open>DtlsServer_init\<close>
  does.  Whatever the packets hold and whatever OpenSSL does, if \<open>DtlsServer_process\<close> returns, then \<open>getPkts\<close> fills the
  array of packets to send with those packets of the call that are marked so, in their order, followed by \<open>new\<close>, and
  the array of packets to free with the other packets of the call, in their order.  \<open>new\<close> are the packets taken from the
  pool during the call: each occurs once in it, and together they are the packets that are out after the call
  and were not before, while no packet that was out has gone.  The two counts are the lengths of the
  arrays, and the machine is ready for the next call.
\<close>

theorem dtls_server_conserves:
  fixes x :: "('l, 'm, 'n) ds_ctx"
  assumes maps: "hash_map d tinv five_tuple_ok" "hash_map n pinv (\<lambda>_. True)" and env: "env = dtls_env d n clk"
    and clk: "\<And>w t w'. clk w = (t, w') \<Longrightarrow> w_pkts (sw w') = w_pkts (sw w)"
    and pool: "\<And>w p w'. \<lbrakk>alloc w = (p, w'); p \<noteq> 0\<rbrakk> \<Longrightarrow>
      p \<notin> dom (w_pkts (sw w)) \<and> dom (w_pkts (sw w')) = insert p (dom (w_pkts (sw w)))"
    and ok: "idle_ok tinv pinv x" and cfg: "same_config (ds_configStateMachine ops cctx alloc (new_StateMachine env)) (c_sm x)"
    and len: "length inPkts = unat inCount" and r: "DtlsServer_process env inPkts inCount x = ret (x', sc, fc)"
  shows "idle_ok tinv pinv x' \<and> same_config (c_sm x) (c_sm x') \<and>
    (\<exists>bs new. length bs = length inPkts \<and>
       DtlsServer_getPkts (c_batch x') =
         ret (map fst (filter snd (zip inPkts bs)) @ new, map fst (filter (Not \<circ> snd) (zip inPkts bs))) \<and>
       distinct new \<and> set new = dom (w_pkts (sw (c_world x'))) - dom (w_pkts (sw (c_world x))) \<and>
       dom (w_pkts (sw (c_world x))) \<subseteq> dom (w_pkts (sw (c_world x'))) \<and>
       unat sc = length (filter id bs) + length new \<and> unat fc = length (filter Not bs))"
proof -
  obtain ba where b: "new_BufArray inPkts inCount True = ret ba" and run: "runPktBatch env (x\<lparr>c_batch := ba\<rparr>) = ret x'"
    and c: "sc = getSendCount (c_batch x')" "fc = getFreeCount (c_batch x')"
    using r by (auto simp: DtlsServer_process_def catch_abort_ret rbind_eq_ret)
  let ?x = "x\<lparr>c_batch := ba\<rparr>"
  have "inCount \<noteq> 0" using b by (auto simp: new_BufArray_def split: if_splits)
  from new_BufArray_spec [OF this len, of True] b have ba: "ba_wf ba" "ba_list ba = map (\<lambda>p. (p, True)) inPkts" by auto
  have "fresh_alloc alloc" using pool by (simp add: fresh_alloc_def out_pkts_def)
  then have tr: "tracked live_ledger (c_sm ?x)" using tracked_config [OF ds_config_tracked cfg] by simp
  have wb: "well_behaved f" if "Some f \<in> set (sm_functions (c_sm x))" for f
    using tr that interface_only_well_behaved by (auto simp: tracked_def)
  have okx: "ctx_ok tinv pinv ?x" and p: "map fst (packets ?x) = inPkts"
    using ok wb ba by (auto simp: ctx_ok_def idle_ok_def packets_def o_def)
  note m = dtls_machine [OF maps, of clk, folded env]
  have l: "ledger_machine env tinv pinv five_tuple_ok live_ledger"
    unfolding env by (rule dtls_ledger_machine [OF maps]) (rule clk)
  note e = machine_env.runPktBatch_effect [OF m okx run]
  have wf: "ba_wf (c_batch x')" using e by (simp add: ctx_ok_def)
  have n: "length (packets ?x) = length inPkts" by (simp only: p [symmetric] length_map)
  have w: "c_world ?x = c_world x" by simp
  obtain bs new where bs: "length bs = length inPkts" and new: "live_ledger (c_world x) new (c_world x')"
    and s: "getSendBufs (c_batch x') = ret (map fst (filter snd (zip inPkts bs)) @ new)"
      "getFreeBufs (c_batch x') = ret (map fst (filter (Not \<circ> snd) (zip inPkts bs)))"
    using ledger_machine.batch_accounted [OF l okx tr run, unfolded p n w] by blast
  have "distinct new" "set new = dom (w_pkts (sw (c_world x'))) - dom (w_pkts (sw (c_world x)))"
    "dom (w_pkts (sw (c_world x))) \<subseteq> dom (w_pkts (sw (c_world x')))"
    using new unfolding made_live_def out_pkts_def by blast+
  moreover have "DtlsServer_getPkts (c_batch x') =
      ret (map fst (filter snd (zip inPkts bs)) @ new, map fst (filter (Not \<circ> snd) (zip inPkts bs)))"
    unfolding DtlsServer_getPkts_def s by simp
  moreover have "unat sc = length (filter id bs) + length new" "unat fc = length (filter Not bs)"
    using batch_counts [OF wf s bs] by (simp_all only: c)
  moreover have "idle_ok tinv pinv x'" "same_config (c_sm x) (c_sm x')" using e by (simp_all add: ctx_ok_def idle_ok_def)
  ultimately show ?thesis using bs by blast
qed

text \<open>A server that has just been configured, and a packet that is not UDP.\<close>

definition example_dtls_env ::
  "(ConnectionID, ptr, bio_lib ds_world, unit, (ConnectionID \<times> State) list, (ConnectionID \<times> State) list) env" where
  "example_dtls_env = dtls_env alist_ops alist_ops (\<lambda>w. (0, w))"

definition example_dtls_ctx :: "(bio_lib, (ConnectionID \<times> State) list, (ConnectionID \<times> State) list) ds_ctx" where
  "example_dtls_ctx = \<lparr>c_sm = ds_configStateMachine bio_lib_ops 0 (slab_alloc 5000) (new_StateMachine example_dtls_env),
     c_pools = (\<lambda>_. []), c_batch = \<lparr>pkts = [], sendMask = [], numBufs = 0, numSlots = 0, fromLua = True\<rparr>,
     c_world = \<lparr>sw = \<lparr>w_pkts = [9000 \<mapsto> \<lparr>m_data = (\<lambda>_. 0), m_dataLen = 60, m_bufLen = 2048\<rparr>], w_heap = Map.empty,
       w_next = 1, w_rand = (\<lambda>_. 0), w_rnd = 0\<rparr>, lib = (\<lambda>_. [])\<rparr>\<rparr>"

lemma example_dtls_idle: "idle_ok (alist_inv five_tuple_ok) (alist_inv (\<lambda>_. True)) example_dtls_ctx"
  by (simp add: idle_ok_def example_dtls_ctx_def ds_configStateMachine_def registerFunction_def registerStartStateID_def
      registerGetPktCB_def registerEndStateID_def new_StateMachine_def Let_def example_dtls_env_def dtls_env_def
      alist_ops_def alist_inv_def pq_inv_def)

lemma example_dtls_returns: "\<exists>x'. DtlsServer_process example_dtls_env [9000] 1 example_dtls_ctx = ret x'"
proof -
  let ?ba = "\<lparr>pkts = [Some 9000], sendMask = [True], numBufs = 1, numSlots = 1, fromLua = True\<rparr>"
  let ?x = "example_dtls_ctx\<lparr>c_batch := ?ba\<rparr>"
  have q: "timeoutsQ (smi (c_sm example_dtls_ctx)) = []"
    by (simp add: example_dtls_ctx_def ds_configStateMachine_def registerFunction_def registerStartStateID_def
        registerGetPktCB_def registerEndStateID_def new_StateMachine_def Let_def)
  have t: "run_timeouts example_dtls_env ?x = ret ?x"
    by (subst run_timeouts.simps) (simp add: pq_top_def q)
  have "identify (\<lambda>_. 0) = None" by (simp add: identify_def Let_def ip_proto_def)
  then have "ident example_dtls_env (c_world ?x) 9000 = None"
    by (simp add: example_dtls_env_def dtls_env_def) (simp add: example_dtls_ctx_def)
  then have "runPkt example_dtls_env 0 ?x = run_dropped 0 ?x"
    by (simp add: runPkt_eq ba_get_def)
  moreover have "\<exists>y. run_dropped 0 ?x = ret y"
    by (simp add: run_dropped_def markDropPkt_def ba_set_mask_def)
  ultimately obtain y where "runPkt example_dtls_env 0 ?x = ret y" by auto
  with t have "runPktBatch example_dtls_env ?x = ret y" by (simp add: runPktBatch_def getTotalCount_def)
  then show ?thesis by (simp add: DtlsServer_process_def new_BufArray_def catch_abort_def)
qed

theorem dtls_server_conserves_witness:
  "\<exists>x' sc fc bs new. DtlsServer_process example_dtls_env [9000] 1 example_dtls_ctx = ret (x', sc, fc) \<and>
     DtlsServer_getPkts (c_batch x') =
       ret (map fst (filter snd (zip [9000] bs)) @ new, map fst (filter (Not \<circ> snd) (zip [9000] bs))) \<and>
     set new = dom (w_pkts (sw (c_world x'))) - {9000} \<and> unat sc = length (filter id bs) + length new"
proof -
  obtain x' sc fc where r: "DtlsServer_process example_dtls_env [9000] 1 example_dtls_ctx = ret (x', sc, fc)"
    using example_dtls_returns by auto
  have cfg: "same_config (ds_configStateMachine bio_lib_ops 0 (slab_alloc 5000) (new_StateMachine example_dtls_env)) (c_sm example_dtls_ctx)"
    by (simp add: example_dtls_ctx_def)
  have "\<exists>bs new. length bs = length [9000 :: ptr] \<and>
       DtlsServer_getPkts (c_batch x') =
         ret (map fst (filter snd (zip [9000] bs)) @ new, map fst (filter (Not \<circ> snd) (zip [9000] bs))) \<and>
       distinct new \<and> set new = dom (w_pkts (sw (c_world x'))) - dom (w_pkts (sw (c_world example_dtls_ctx))) \<and>
       dom (w_pkts (sw (c_world example_dtls_ctx))) \<subseteq> dom (w_pkts (sw (c_world x'))) \<and>
       unat sc = length (filter id bs) + length new \<and> unat fc = length (filter Not bs)"
    by (rule dtls_server_conserves [OF alist.hash_map_axioms alist.hash_map_axioms example_dtls_env_def _ slab_alloc_fresh
        example_dtls_idle cfg _ r, THEN conjunct2, THEN conjunct2]) simp_all
  moreover have "dom (w_pkts (sw (c_world example_dtls_ctx))) = {9000}" by (simp add: example_dtls_ctx_def)
  ultimately show ?thesis using r by auto
qed

end
