(* ===== verification/Astraeus.thy ===== *)
theory Astraeus
  imports Dtls_Server
begin

text \<open>
  The Astraeus client and server (\<open>include/astraeusClient.hpp\<close>, \<open>src/astraeusClient.cpp\<close>,
  \<open>include/astraeusServer.hpp\<close>, \<open>src/astraeusServer.cpp\<close>): state functions that run a cryptographic
  handshake over UDP.  The protocol itself is a third-party library (\<open>AstraeusProto\<close>) and a parameter: a
  handle of it is a value of type \<open>'h\<close>, an identity one of type \<open>'i\<close>, and its functions are
  a record.  They read and write the packet at a fixed place; a function is given the
  bytes from there on, and returns how many bytes are to be sent and the bytes it wrote.  It
  may throw.

  The thread-local variables of both files are a record.  Pool creation and the freeing of
  the configuration objects are not represented, but for the check that the pool exists.
\<close>

section \<open>Objects\<close>

record ('h, 'i) astraeus_ops =
  zero_handle :: 'h
  generateHandleGivenKey :: "'i \<Rightarrow> 'h \<Rightarrow> u8 list \<Rightarrow> u8 list \<Rightarrow> 'h"
  generateInitGivenHandleAndNonce :: "'h \<Rightarrow> u8 list \<Rightarrow> (int \<times> 'h \<times> u8 list) res"
  handleHandshakeClient :: "'h \<Rightarrow> (nat \<Rightarrow> u8) \<Rightarrow> (int \<times> 'h \<times> u8 list) res"
  handleHandshakeServer :: "'h \<Rightarrow> (nat \<Rightarrow> u8) \<Rightarrow> (int \<times> 'h \<times> u8 list) res"
  handshakeOngoing :: "'h \<Rightarrow> bool"
  sodium_increment :: "u8 list \<Rightarrow> u8 list"

record 'i ast_static =
  ecdhPub :: "u8 list"
  ecdhSec :: "u8 list"
  nonce :: "u8 list"
  static_ident :: 'i

record 'h astraeusClient =
  a_handle :: 'h
  a_localIP :: u32
  a_remoteIP :: u32
  a_localPort :: u16
  a_remotePort :: u16

type_synonym ('h, 'i) ast_world = "('h astraeusClient, 'i ast_static) ssl_world"
type_synonym ('h, 'i) ast_fi = "(ConnectionID, ptr, ('h, 'i) ast_world, unit) FunIface"
type_synonym ('h, 'i) ast_fun = "(ConnectionID, ptr, ('h, 'i) ast_world, unit) stateFun"
type_synonym ('h, 'i, 'm) ast_sm = "(ConnectionID, ptr, ('h, 'i) ast_world, unit, 'm) SM"
type_synonym ('h, 'i, 'm, 'n) ast_env = "(ConnectionID, ptr, ('h, 'i) ast_world, unit, 'm, 'n) env"
type_synonym ('h, 'i, 'm, 'n) ast_ctx = "(ConnectionID, ptr, ('h, 'i) ast_world, unit, 'm, 'n) ctx"
type_synonym ('h, 'i) ast_alloc = "('h, 'i) ast_world \<Rightarrow> ptr \<times> ('h, 'i) ast_world"

definition AC_DOWN :: StateID where "AC_DOWN = 0"
definition AC_HANDSHAKE :: StateID where "AC_HANDSHAKE = 1"
definition AC_ESTABLISHED :: StateID where "AC_ESTABLISHED = 2"
definition AC_RUN_TEARDOWN :: StateID where "AC_RUN_TEARDOWN = 3"
definition AC_DELETED :: StateID where "AC_DELETED = 4"

definition AS_HANDSHAKE :: StateID where "AS_HANDSHAKE = 0"
definition AS_ESTABLISHED :: StateID where "AS_ESTABLISHED = 1"
definition AS_RUN_TEARDOWN :: StateID where "AS_RUN_TEARDOWN = 2"
definition AS_DELETED :: StateID where "AS_DELETED = 3"

definition ac_createStateData ::
  "('h, 'i) astraeus_ops \<Rightarrow> 'i \<Rightarrow> u32 \<Rightarrow> u32 \<Rightarrow> u16 \<Rightarrow> u16 \<Rightarrow> ('h, 'i) ast_world \<Rightarrow> State \<times> ('h, 'i) ast_world" where
  "ac_createStateData ops identity localIP remoteIP localPort remotePort w =
    (let h = generateHandleGivenKey ops identity (zero_handle ops) (ecdhPub (lib w)) (ecdhSec (lib w));
         (p, s) = heap_new \<lparr>a_handle = h, a_localIP = localIP, a_remoteIP = remoteIP,
                    a_localPort = localPort, a_remotePort = remotePort\<rparr> (sw w)
     in (State_of AC_DOWN p, w\<lparr>sw := s\<rparr>))"

text \<open>The server takes the addresses from the identifier of the connection.\<close>

definition as_factory ::
  "('h, 'i) astraeus_ops \<Rightarrow> ConnectionID \<Rightarrow> ('h, 'i) ast_world \<Rightarrow> (ptr \<times> ('h, 'i) ast_world) res" where
  "as_factory ops cid w =
    (let h = generateHandleGivenKey ops (static_ident (lib w)) (zero_handle ops) (ecdhPub (lib w)) (ecdhSec (lib w));
         (p, s) = heap_new \<lparr>a_handle = h, a_localIP = ntohl (dstIP cid), a_remoteIP = ntohl (srcIP cid),
                    a_localPort = ntohs (dstPort cid), a_remotePort = ntohs (srcPort cid)\<rparr> (sw w)
     in ret (p, w\<lparr>sw := s\<rparr>))"

section \<open>State functions\<close>

text \<open>
  The message is at a fixed offset; the UDP header is where the IP header says.  The version, the
  header length and the protocol of the IP header are left as they are.
\<close>

definition ast_message :: "mem \<Rightarrow> nat \<Rightarrow> u8" where
  "ast_message m = (\<lambda>i. m (nat allHeaderLength + i))"

definition ast_headers :: "'h astraeusClient \<Rightarrow> int \<Rightarrow> mem \<Rightarrow> mem" where
  "ast_headers c sendLen m =
    (let ethernet = 0; ipv4 = eth_getPayload ethernet; udp = ip_getPayload ipv4 m;
         m = ip_setChecksum ipv4 0 m;
         m = ip_setDstIP ipv4 (a_remoteIP c) m;
         m = ip_setSrcIP ipv4 (a_localIP c) m;
         m = ip_setPayloadLength ipv4 (of_int (int sizeof_Udp + sendLen)) m;
         m = udp_setChecksum udp 0 m;
         m = udp_setDstPort udp (a_remotePort c) m;
         m = udp_setSrcPort udp (a_localPort c) m
     in udp_setPayloadLength udp (of_int sendLen) m)"

text \<open>What the library wrote, the length of the packet and its headers.\<close>

definition ast_send :: "'h astraeusClient \<Rightarrow> ptr \<Rightarrow> int \<Rightarrow> u8 list \<Rightarrow> ('h, 'i) ast_world \<Rightarrow> ('h, 'i) ast_world res" where
  "ast_send c pkt sendLen bs w =
    rbind (getData pkt (sw w)) (\<lambda>m.
    let m = store_bytes (nat allHeaderLength) bs m in
    rbind (setDataLen pkt (of_int (sendLen + allHeaderLength)) (sw w)) (\<lambda>s.
    rbind (writeData pkt (ast_headers c sendLen m) s) (\<lambda>s.
    ret (w\<lparr>sw := s\<rparr>))))"

definition ac_initHandshakeNoTransition ::
  "('h, 'i) astraeus_ops \<Rightarrow> State \<Rightarrow> ptr \<Rightarrow> ('h, 'i) ast_world \<Rightarrow> ('h, 'i) ast_world res" where
  "ac_initHandshakeNoTransition ops s pkt w =
    (let client = stateData s in
     rbind (heap_get client (sw w)) (\<lambda>c.
     rbind (generateInitGivenHandleAndNonce ops (a_handle c) (nonce (lib w))) (\<lambda>(sendLen, h, bs).
     let w = w\<lparr>sw := heap_put client (c\<lparr>a_handle := h\<rparr>) (sw w)\<rparr>;
         w = w\<lparr>lib := (lib w)\<lparr>nonce := sodium_increment ops (nonce (lib w))\<rparr>\<rparr>
     in ast_send c pkt sendLen bs w)))"

definition ac_initHandshake :: "('h, 'i) astraeus_ops \<Rightarrow> ('h, 'i) ast_fun" where
  "ac_initHandshake ops pkt fi =
    rbind (ac_initHandshakeNoTransition ops (st fi) pkt (world fi)) (\<lambda>w.
    ret (transition AC_HANDSHAKE (fi\<lparr>world := w\<rparr>)))"

text \<open>One step of the handshake, with the library function and the end state of either side.\<close>

definition ast_runHandshake ::
  "('h, 'i) astraeus_ops \<Rightarrow> ('h \<Rightarrow> (nat \<Rightarrow> u8) \<Rightarrow> (int \<times> 'h \<times> u8 list) res) \<Rightarrow> StateID \<Rightarrow> ('h, 'i) ast_fun" where
  "ast_runHandshake ops handleHandshake DELETED pkt fi =
    (let client = stateData (st fi) in
     rbind (heap_get client (sw (world fi))) (\<lambda>c.
     rbind (getData pkt (sw (world fi))) (\<lambda>m.
     rbind (handleHandshake (a_handle c) (ast_message m)) (\<lambda>(sendLen, h, bs).
     let w = (world fi)\<lparr>sw := heap_put client (c\<lparr>a_handle := h\<rparr>) (sw (world fi))\<rparr>
     in rbind (ast_send c pkt sendLen bs w) (\<lambda>w.
        let fi = fi\<lparr>world := w\<rparr>;
            fi = (if sendLen \<le> 0 then freePkt fi else fi)
        in ret (if \<not> handshakeOngoing ops h then transition DELETED fi else fi))))))"

definition ac_runHandshake :: "('h, 'i) astraeus_ops \<Rightarrow> ('h, 'i) ast_fun" where
  "ac_runHandshake ops = ast_runHandshake ops (handleHandshakeClient ops) AC_DELETED"

definition ac_sendData :: "('h, 'i) ast_fun" where
  "ac_sendData pkt fi = ret (transition AC_DELETED fi)"

definition ac_runTeardown :: "('h, 'i) ast_fun" where
  "ac_runTeardown pkt fi = ret (transition AC_DELETED fi)"

definition as_runHandshake :: "('h, 'i) astraeus_ops \<Rightarrow> ('h, 'i) ast_fun" where
  "as_runHandshake ops = ast_runHandshake ops (handleHandshakeServer ops) AS_DELETED"

definition as_sendData :: "('h, 'i) ast_fun" where
  "as_sendData pkt fi = ret (transition AS_DELETED fi)"

definition as_runTeardown :: "('h, 'i) ast_fun" where
  "as_runTeardown pkt fi = ret (transition AS_DELETED fi)"

section \<open>Configuration and the C interface\<close>

text \<open>
  \<open>keys\<close> is what \<open>crypto_kx_keypair\<close> yields, \<open>nonceLen\<close> the library's \<open>ASTRAEUSPROTONONCELEN\<close>,
  \<open>mp\<close> the pool, if there is one.
\<close>

definition ast_keys :: "u8 list \<times> u8 list \<Rightarrow> nat \<Rightarrow> ('h, 'i) ast_world \<Rightarrow> ('h, 'i) ast_world" where
  "ast_keys keys nonceLen w =
    w\<lparr>lib := (lib w)\<lparr>ecdhPub := fst keys, ecdhSec := snd keys, nonce := replicate nonceLen 0\<rparr>\<rparr>"

definition ac_configStateMachine ::
  "('h, 'i) astraeus_ops \<Rightarrow> ('h, 'i) ast_alloc option \<Rightarrow> u8 list \<times> u8 list \<Rightarrow> nat \<Rightarrow> ('h, 'i, 'm) ast_sm \<Rightarrow> ('h, 'i) ast_world \<Rightarrow>
     ('h, 'i, 'm) ast_sm \<times> ('h, 'i) ast_world" where
  "ac_configStateMachine ops mp keys nonceLen sm w =
    (let sm = registerFunction AC_DOWN (Some (ac_initHandshake ops)) sm;
         sm = registerFunction AC_HANDSHAKE (Some (ac_runHandshake ops)) sm;
         sm = registerFunction AC_ESTABLISHED (Some ac_sendData) sm;
         sm = registerFunction AC_RUN_TEARDOWN (Some ac_runTeardown) sm;
         sm = (case mp of None \<Rightarrow> sm | Some alloc \<Rightarrow> registerGetPktCB (Some (pkt_callback alloc)) sm)
     in (registerEndStateID AC_DELETED sm, ast_keys keys nonceLen w))"

definition as_configStateMachine ::
  "('h, 'i) astraeus_ops \<Rightarrow> ('h, 'i) ast_alloc option \<Rightarrow> u8 list \<times> u8 list \<Rightarrow> nat \<Rightarrow> ('h, 'i, 'm) ast_sm \<Rightarrow> ('h, 'i) ast_world \<Rightarrow>
     ('h, 'i, 'm) ast_sm \<times> ('h, 'i) ast_world" where
  "as_configStateMachine ops mp keys nonceLen sm w =
    (let sm = registerFunction AS_HANDSHAKE (Some (as_runHandshake ops)) sm;
         sm = registerFunction AS_ESTABLISHED (Some as_sendData) sm;
         sm = registerFunction AS_RUN_TEARDOWN (Some as_runTeardown) sm;
         sm = (case mp of None \<Rightarrow> sm | Some alloc \<Rightarrow> registerGetPktCB (Some (pkt_callback alloc)) sm);
         sm = registerEndStateID AS_DELETED sm
     in (registerStartStateID AS_HANDSHAKE (Some (as_factory ops)) sm, ast_keys keys nonceLen w))"

record 'i astraeus_C_config =
  acc_dstIP :: u32
  acc_dstPort :: u16
  acc_ident :: 'i

definition AstraeusClient_init ::
  "('h, 'i) astraeus_ops \<Rightarrow> ('h, 'i, 'm, 'n) ast_env \<Rightarrow> 'i \<Rightarrow> ('h, 'i) ast_alloc option \<Rightarrow> u8 list \<times> u8 list \<Rightarrow> nat \<Rightarrow>
     u32 \<Rightarrow> u16 \<Rightarrow> ('h, 'i) ast_world \<Rightarrow> ('i astraeus_C_config \<times> ('h, 'i, 'm) ast_sm \<times> ('h, 'i) ast_world) res" where
  "AstraeusClient_init ops env identity mp keys nonceLen dip dport w =
    (if mp = None then fail Abort
     else ret (\<lparr>acc_dstIP = dip, acc_dstPort = dport, acc_ident = identity\<rparr>,
               ac_configStateMachine ops mp keys nonceLen (new_StateMachine env) w))"

definition AstraeusServer_init ::
  "('h, 'i) astraeus_ops \<Rightarrow> ('h, 'i, 'm, 'n) ast_env \<Rightarrow> 'i \<Rightarrow> ('h, 'i) ast_alloc option \<Rightarrow> u8 list \<times> u8 list \<Rightarrow> nat \<Rightarrow>
     ('h, 'i) ast_world \<Rightarrow> (('h, 'i, 'm) ast_sm \<times> ('h, 'i) ast_world) res" where
  "AstraeusServer_init ops env identity mp keys nonceLen w =
    (let w = w\<lparr>lib := (lib w)\<lparr>static_ident := identity\<rparr>\<rparr>
     in if mp = None then fail Abort
        else ret (as_configStateMachine ops mp keys nonceLen (new_StateMachine env) w))"

text \<open>\<open>srcPort + i\<close> is computed in 32 bits and cut to 16.\<close>

definition ac_connect_cid :: "'i astraeus_C_config \<Rightarrow> u32 \<Rightarrow> u16 \<Rightarrow> ConnectionID" where
  "ac_connect_cid config sip sport =
    (let cid = new_ConnectionID;
         cid = cid\<lparr>dstIP := htonl sip\<rparr>;
         cid = cid\<lparr>srcIP := htonl (acc_dstIP config)\<rparr>;
         cid = cid\<lparr>dstPort := htons sport\<rparr>;
         cid = cid\<lparr>srcPort := htons (acc_dstPort config)\<rparr>;
         cid = cid\<lparr>proto := PROTO_UDP\<rparr>
     in cid)"

fun ac_connect_loop ::
  "('h, 'i) astraeus_ops \<Rightarrow> ('h, 'i, 'm, 'n) ast_env \<Rightarrow> 'i astraeus_C_config \<Rightarrow> u32 \<Rightarrow> u16 \<Rightarrow> u32 \<Rightarrow> ptr list \<Rightarrow>
     ('h, 'i, 'm, 'n) ast_ctx \<Rightarrow> ('h, 'i, 'm, 'n) ast_ctx res" where
  "ac_connect_loop ops env config sip sport i [] x = ret x"
| "ac_connect_loop ops env config sip sport i (p # ps) x =
    (let port = ucast (ucast sport + i :: u32);
         cid = ac_connect_cid config sip port;
         (s, w) = ac_createStateData ops (acc_ident config) sip (acc_dstIP config) port (acc_dstPort config) (c_world x);
         s = s\<lparr>state := AC_HANDSHAKE\<rparr>
     in rbind (ac_initHandshakeNoTransition ops s p w) (\<lambda>w.
        ac_connect_loop ops env config sip sport (i + 1) ps (addStateNoFun env cid s (x\<lparr>c_world := w\<rparr>))))"

text \<open>The list is the array \<open>inPkts\<close>, \<open>inCount\<close> packets long.\<close>

definition AstraeusClient_connect ::
  "('h, 'i) astraeus_ops \<Rightarrow> ('h, 'i, 'm, 'n) ast_env \<Rightarrow> 'i astraeus_C_config \<Rightarrow> ptr list \<Rightarrow> u32 \<Rightarrow> u16 \<Rightarrow>
     ('h, 'i, 'm, 'n) ast_ctx \<Rightarrow> ('h, 'i, 'm, 'n) ast_ctx res" where
  "AstraeusClient_connect ops env config inPkts sip sport x =
    catch_abort (ac_connect_loop ops env config sip sport 0 inPkts x)"

definition AstraeusClient_getPkts :: "ptr bufArray \<Rightarrow> (ptr list \<times> ptr list) res" where
  "AstraeusClient_getPkts ba =
    rbind (getSendBufs ba) (\<lambda>s. rbind (getFreeBufs ba) (\<lambda>f. ret (s, f)))"

definition AstraeusClient_process ::
  "('h, 'i, 'm, 'n) ast_env \<Rightarrow> ptr list \<Rightarrow> u32 \<Rightarrow> ('h, 'i, 'm, 'n) ast_ctx \<Rightarrow> (('h, 'i, 'm, 'n) ast_ctx \<times> u32 \<times> u32) res" where
  "AstraeusClient_process env inPkts inCount x = catch_abort
    (rbind (new_BufArray inPkts inCount True) (\<lambda>ba.
     rbind (runPktBatch env (x\<lparr>c_batch := ba\<rparr>)) (\<lambda>x.
     ret (x, getSendCount (c_batch x), getFreeCount (c_batch x)))))"

definition AstraeusServer_getPkts :: "ptr bufArray \<Rightarrow> (ptr list \<times> ptr list) res" where
  "AstraeusServer_getPkts ba =
    rbind (getSendBufs ba) (\<lambda>s. rbind (getFreeBufs ba) (\<lambda>f. ret (s, f)))"

definition AstraeusServer_process ::
  "('h, 'i, 'm, 'n) ast_env \<Rightarrow> ptr list \<Rightarrow> u32 \<Rightarrow> ('h, 'i, 'm, 'n) ast_ctx \<Rightarrow> (('h, 'i, 'm, 'n) ast_ctx \<times> u32 \<times> u32) res" where
  "AstraeusServer_process env inPkts inCount x = catch_abort
    (rbind (new_BufArray inPkts inCount True) (\<lambda>ba.
     rbind (runPktBatch env (x\<lparr>c_batch := ba\<rparr>)) (\<lambda>x.
     ret (x, getSendCount (c_batch x), getFreeCount (c_batch x)))))"

end
