(* ===== verification/Astraeus_Props.thy ===== *)
theory Astraeus_Props
  imports Astraeus Dtls_Process
begin

text \<open>
  Properties of the Astraeus client and server: the contract of state functions, the datagrams that
  carry the messages of the library, a handshake between a client and a server, and the
  connections that one call opens.
\<close>

section \<open>Frames\<close>

lemma ast_send_frame: "ast_send c pkt n bs w = ret w' \<Longrightarrow> w_heap (sw w') = w_heap (sw w) \<and> lib w' = lib w"
  by (auto simp: ast_send_def Let_def rbind_eq_ret pkt_defs split: option.splits)

text \<open>These handlers never obtain a packet: they leave the batch and the state machine as they are.\<close>

definition fi_same :: "('c, 'p, 'w, 'k) FunIface \<Rightarrow> ('c, 'p, 'w, 'k) FunIface \<Rightarrow> bool" where
  "fi_same fi a \<longleftrightarrow> pktIdx a = pktIdx fi \<and> cID a = cID fi \<and> pktsBA a = pktsBA fi \<and> fi_sm a = fi_sm fi"

lemma fi_same_frame: "fi_same fi a \<Longrightarrow> fi_ok fi \<Longrightarrow> fi_frame fi a"
  by (rule fi_frame_same) (simp_all add: fi_same_def)

lemma ast_runHandshake_frame:
  assumes ok: "fi_ok fi" and r: "ast_runHandshake ops f d pkt fi = ret fi'"
  shows "fi_frame fi fi'"
proof -
  have "fi_same fi fi'" using r by (auto simp: ast_runHandshake_def fi_same_def Let_def rbind_eq_ret split: if_splits)
  then show ?thesis using ok by (rule fi_same_frame)
qed

interpretation ac_initHandshake: state_function "ac_initHandshake ops" for ops
  by unfold_locales (auto simp: ac_initHandshake_def rbind_eq_ret fi_same_def intro!: fi_same_frame)

interpretation ac_runHandshake: state_function "ac_runHandshake ops" for ops
  by unfold_locales (auto simp: ac_runHandshake_def intro: ast_runHandshake_frame)

interpretation as_runHandshake: state_function "as_runHandshake ops" for ops
  by unfold_locales (auto simp: as_runHandshake_def intro: ast_runHandshake_frame)

interpretation ac_sendData: state_function ac_sendData
  by unfold_locales (auto simp: ac_sendData_def intro: fi_frame_step)

interpretation ac_runTeardown: state_function ac_runTeardown
  by unfold_locales (auto simp: ac_runTeardown_def intro: fi_frame_step)

interpretation as_sendData: state_function as_sendData
  by unfold_locales (auto simp: as_sendData_def intro: fi_frame_step)

interpretation as_runTeardown: state_function as_runTeardown
  by unfold_locales (auto simp: as_runTeardown_def intro: fi_frame_step)

section \<open>Datagrams\<close>

text \<open>A UDP packet with an IP header of 20 bytes.\<close>

definition plain_udp :: "mem \<Rightarrow> bool" where
  "plain_udp m \<longleftrightarrow> ip_ihl 14 m = 5 \<and> ip_proto 14 m = PROTO_UDP"

definition ast_peer :: "'h astraeusClient \<Rightarrow> ConnectionID" where
  "ast_peer c = udp_tuple (a_localIP c) (a_remoteIP c) (a_localPort c) (a_remotePort c)"

lemma ast_headers_datagram:
  assumes u: "plain_udp m0" and small: "42 + length bs < 65536" and dl: "dl = of_nat (42 + length bs)"
    and m': "m' = ast_headers c (int (length bs)) (store_bytes 42 bs m0)"
  shows "datagram (ast_peer c) bs \<lparr>m_data = m', m_dataLen = dl, m_bufLen = bl\<rparr>" and "plain_udp m'"
proof -
  let ?m = "store_bytes 42 bs m0"
  define m1 where "m1 = ip_setSrcIP 14 (a_localIP c) (ip_setDstIP 14 (a_remoteIP c) (ip_setChecksum 14 0 ?m))"
  define m2 where "m2 = ip_setPayloadLength 14 (of_int (int sizeof_Udp + int (length bs))) m1"
  have i0: "m0 14 AND 15 = 5" "m0 23 = PROTO_UDP" using u by (simp_all add: plain_udp_def ip_ihl_def ip_proto_def)
  have m1: "m1 14 = m0 14" "m1 23 = m0 23" "load_bytes 42 (length bs) m1 = bs"
    by (simp_all add: m1_def ip_defs mem_simps)
  have i1: "ip_ihl 14 m1 = 5" and im: "ip_ihl 14 ?m = 5" using i0 m1 by (simp_all add: ip_ihl_def mem_simps)
  have l: "ucast (5 :: u8) * 4 + of_int (int sizeof_Udp + int (length bs)) = (of_nat (28 + length bs) :: u16)"
    by (simp add: sizeof_Udp_def)
  have m2: "m2 14 = m0 14" "m2 23 = m0 23" "load_bytes 42 (length bs) m2 = bs" "load16 m2 16 = htons (of_nat (28 + length bs))"
    "load32 m2 30 = load32 m1 30" "load32 m2 26 = load32 m1 26"
    using m1 unfolding m2_def ip_setPayloadLength_def i1 l by (simp_all add: mem_simps)
  have ips: "load32 m1 30 = htonl (a_remoteIP c)" "load32 m1 26 = htonl (a_localIP c)"
    by (simp_all add: m1_def ip_defs mem_simps)
  have "ip_getPayload 14 ?m = 34" using im by (simp add: ip_getPayload_def)
  then have m3: "m' = udp_setPayloadLength 34 (of_int (int (length bs))) (udp_setSrcPort 34 (a_localPort c)
      (udp_setDstPort 34 (a_remotePort c) (udp_setChecksum 34 0 m2)))"
    by (simp add: m' ast_headers_def Let_def eth_getPayload_def sizeof_Ethernet_def m2_def m1_def)
  have f: "m' 14 = m0 14" "m' 23 = m0 23" "load_bytes 42 (length bs) m' = bs" "load16 m' 16 = htons (of_nat (28 + length bs))"
    "load32 m' 30 = htonl (a_remoteIP c)" "load32 m' 26 = htonl (a_localIP c)"
    using m2 ips by (simp_all add: m3 udp_defs mem_simps)
  have p: "load16 m' 38 = htons (of_nat (8 + length bs))" "load16 m' 36 = htons (a_remotePort c)" "load16 m' 34 = htons (a_localPort c)"
    by (simp_all add: m3 udp_defs mem_simps sizeof_Udp_def)
  show "plain_udp m'" using f i0 by (simp add: plain_udp_def ip_ihl_def ip_proto_def)
  show "datagram (ast_peer c) bs \<lparr>m_data = m', m_dataLen = dl, m_bufLen = bl\<rparr>"
    by (rule datagramI [OF _ _ _ _ _ _ _ _ _ _ small dl]) (use f p i0 in \<open>simp_all add: ast_peer_def udp_tuple_def\<close>)
qed

lemma ast_send_datagram:
  assumes pkt: "w_pkts (sw w) pkt = Some b" and u: "plain_udp (m_data b)" and small: "42 + length bs < 65536"
  obtains b' where "ast_send c pkt (int (length bs)) bs w = ret (w\<lparr>sw := (sw w)\<lparr>w_pkts := (w_pkts (sw w))(pkt \<mapsto> b')\<rparr>\<rparr>)"
    "datagram (ast_peer c) bs b'" "plain_udp (m_data b')"
proof -
  define b' where "b' = \<lparr>m_data = ast_headers c (int (length bs)) (store_bytes 42 bs (m_data b)),
    m_dataLen = of_nat (42 + length bs), m_bufLen = m_bufLen b\<rparr>"
  have b': "b' = b\<lparr>m_dataLen := of_nat (length bs) + 42, m_data := ast_headers c (int (length bs)) (store_bytes 42 bs (m_data b))\<rparr>"
    by (cases b) (simp add: b'_def)
  have h: "allHeaderLength = 42" by (simp add: allHeaderLength_def sizeof_Ethernet_def sizeof_IPv4_def sizeof_Udp_def)
  have "ast_send c pkt (int (length bs)) bs w = ret (w\<lparr>sw := (sw w)\<lparr>w_pkts := (w_pkts (sw w))(pkt \<mapsto> b')\<rparr>\<rparr>)"
    using pkt by (simp add: ast_send_def pkt_defs h b')
  moreover have "datagram (ast_peer c) bs b'"
    unfolding b'_def by (rule ast_headers_datagram(1) [OF u small refl refl])
  moreover have "plain_udp (m_data b')" using ast_headers_datagram(2) [OF u small refl refl] by (simp add: b'_def)
  ultimately show ?thesis by (rule that)
qed

section \<open>The handshake\<close>

lemma ast_peer_handle [simp]: "ast_peer (c\<lparr>a_handle := h\<rparr>) = ast_peer c"
  by (simp add: ast_peer_def)

text \<open>One step of either side: the message is answered with what the library wrote.\<close>

lemma ast_step:
  assumes c: "w_heap (sw (world fi)) (stateData (st fi)) = Some c" and b: "w_pkts (sw (world fi)) pkt = Some b"
    and u: "plain_udp (m_data b)" and f: "f (a_handle c) (ast_message (m_data b)) = ret (int (length bs), h, bs)"
    and small: "0 < length bs" "42 + length bs < 65536"
  obtains fi' b' where "ast_runHandshake ops f d pkt fi = ret fi'" "datagram (ast_peer c) bs b'" "plain_udp (m_data b')"
    "sw (world fi') = (heap_put (stateData (st fi)) (c\<lparr>a_handle := h\<rparr>) (sw (world fi)))
       \<lparr>w_pkts := (w_pkts (sw (world fi)))(pkt \<mapsto> b')\<rparr>"
    "stateData (st fi') = stateData (st fi)" "state (st fi') = (if handshakeOngoing ops h then state (st fi) else d)"
    "sendPkt fi' = sendPkt fi"
proof -
  define w where "w = (world fi)\<lparr>sw := heap_put (stateData (st fi)) (c\<lparr>a_handle := h\<rparr>) (sw (world fi))\<rparr>"
  have "w_pkts (sw w) pkt = Some b" using b by (simp add: w_def heap_put_def)
  from ast_send_datagram [OF this u small(2)]
  obtain b' where s: "ast_send c pkt (int (length bs)) bs w = ret (w\<lparr>sw := (sw w)\<lparr>w_pkts := (w_pkts (sw w))(pkt \<mapsto> b')\<rparr>\<rparr>)"
    and d: "datagram (ast_peer c) bs b'" "plain_udp (m_data b')" by blast
  have "ast_runHandshake ops f d pkt fi = ret (if handshakeOngoing ops h then fi\<lparr>world := w\<lparr>sw := (sw w)\<lparr>w_pkts := (w_pkts (sw w))(pkt \<mapsto> b')\<rparr>\<rparr>\<rparr>
      else transition d (fi\<lparr>world := w\<lparr>sw := (sw w)\<lparr>w_pkts := (w_pkts (sw w))(pkt \<mapsto> b')\<rparr>\<rparr>\<rparr>))"
    using c b f s small(1) by (simp add: ast_runHandshake_def Let_def heap_get_def getData_def w_def)
  then show ?thesis by (rule that) (use d in \<open>simp_all add: w_def heap_put_def\<close>)
qed

text \<open>The object the factory makes for an identifier answers to its mirror image.\<close>

definition factory_object :: "('h, 'i) astraeus_ops \<Rightarrow> ConnectionID \<Rightarrow> 'i ast_static \<Rightarrow> 'h astraeusClient" where
  "factory_object ops k l =
    \<lparr>a_handle = generateHandleGivenKey ops (static_ident l) (zero_handle ops) (ecdhPub l) (ecdhSec l),
     a_localIP = ntohl (dstIP k), a_remoteIP = ntohl (srcIP k), a_localPort = ntohs (dstPort k), a_remotePort = ntohs (srcPort k)\<rparr>"

lemma as_factory_object:
  "as_factory ops k w = ret (w_next (sw w), w\<lparr>sw := (sw w)
     \<lparr>w_heap := (w_heap (sw w))(w_next (sw w) \<mapsto> factory_object ops k (lib w)), w_next := w_next (sw w) + 1\<rparr>\<rparr>)"
  by (simp add: as_factory_def Let_def heap_new_def factory_object_def)

lemma factory_object_peer: "proto k = PROTO_UDP \<Longrightarrow> ast_peer (factory_object ops k l) = cid_mirror k"
  by (simp add: factory_object_def ast_peer_def udp_tuple_def cid_mirror_def)

lemma datagram_message:
  assumes "datagram k bs b" and "plain_udp (m_data b)" and "i < length bs"
  shows "ast_message (m_data b) i = bs ! i"
proof -
  let ?m = "m_data b"
  have p: "ip_getPayload 14 ?m = 34" using assms(2) by (simp add: plain_udp_def ip_getPayload_def)
  define n where "n = unat (udp_getPayloadLength 34 ?m)"
  have e: "load_bytes 42 n ?m = bs"
    using assms(1) p by (simp add: datagram_def udp_payload_def Let_def eth_getPayload_def sizeof_Ethernet_def
        udp_getPayload_def sizeof_Udp_def n_def)
  then have "length bs = n" by (metis length_load_bytes)
  then have "load_bytes 42 n ?m ! i = ?m (42 + i)" using assms(3) by (simp add: load_bytes_def)
  then have "bs ! i = ?m (42 + i)" unfolding e by simp
  then show ?thesis
    by (simp add: ast_message_def allHeaderLength_def sizeof_Ethernet_def sizeof_IPv4_def sizeof_Udp_def)
qed

text \<open>The bytes of a packet arrive in the buffer of another, and where they are read back.\<close>

definition deliver :: "ptr \<Rightarrow> mem \<Rightarrow> ('o, 'l) ssl_world \<Rightarrow> ('o, 'l) ssl_world" where
  "deliver q m w = w\<lparr>sw := (sw w)\<lparr>w_pkts := (w_pkts (sw w))(q \<mapsto> (the (w_pkts (sw w) q))\<lparr>m_data := m\<rparr>)\<rparr>\<rparr>"

definition packet_is :: "ptr \<Rightarrow> mem \<Rightarrow> ('o, 'l) ssl_world \<Rightarrow> bool" where
  "packet_is p m w \<longleftrightarrow> (\<exists>b. w_pkts (sw w) p = Some b \<and> m_data b = m)"

lemma deliver_simps [simp]:
  "w_pkts (sw (deliver q m w)) q = Some ((the (w_pkts (sw w) q))\<lparr>m_data := m\<rparr>)"
  "w_heap (sw (deliver q m w)) = w_heap (sw w)" "w_next (sw (deliver q m w)) = w_next (sw w)" "lib (deliver q m w) = lib w"
  by (simp_all add: deliver_def)

lemma ac_init_step:
  assumes c: "w_heap (sw w) (stateData s) = Some c" and b: "w_pkts (sw w) pkt = Some b" and u: "plain_udp (m_data b)"
    and f: "generateInitGivenHandleAndNonce ops (a_handle c) (nonce (lib w)) = ret (int (length bs), h, bs)"
    and small: "42 + length bs < 65536"
  obtains w1 b' where "ac_initHandshakeNoTransition ops s pkt w = ret w1" "datagram (ast_peer c) bs b'" "plain_udp (m_data b')"
    "w_pkts (sw w1) = (w_pkts (sw w))(pkt \<mapsto> b')" "w_heap (sw w1) = (w_heap (sw w))(stateData s \<mapsto> c\<lparr>a_handle := h\<rparr>)"
    "w_next (sw w1) = w_next (sw w)" "lib w1 = (lib w)\<lparr>nonce := sodium_increment ops (nonce (lib w))\<rparr>"
proof -
  define w0 where "w0 = (w\<lparr>sw := heap_put (stateData s) (c\<lparr>a_handle := h\<rparr>) (sw w)\<rparr>)
    \<lparr>lib := (lib w)\<lparr>nonce := sodium_increment ops (nonce (lib w))\<rparr>\<rparr>"
  have "w_pkts (sw w0) pkt = Some b" using b by (simp add: w0_def heap_put_def)
  from ast_send_datagram [OF this u small]
  obtain b' where s: "ast_send c pkt (int (length bs)) bs w0 = ret (w0\<lparr>sw := (sw w0)\<lparr>w_pkts := (w_pkts (sw w0))(pkt \<mapsto> b')\<rparr>\<rparr>)"
    and d: "datagram (ast_peer c) bs b'" "plain_udp (m_data b')" by blast
  have "ac_initHandshakeNoTransition ops s pkt w = ret (w0\<lparr>sw := (sw w0)\<lparr>w_pkts := (w_pkts (sw w0))(pkt \<mapsto> b')\<rparr>\<rparr>)"
    using c f s by (simp add: ac_initHandshakeNoTransition_def Let_def heap_get_def w0_def)
  then show ?thesis by (rule that) (use d in \<open>simp_all add: w0_def heap_put_def\<close>)
qed

text \<open>A message that is delivered to either side, and its answer.\<close>

lemma as_first_message:
  fixes ops :: "('h, 'i) astraeus_ops" and fs :: "('h, 'i) ast_fi"
  assumes m: "datagram k b1 b" "plain_udp (m_data b)" "proto k = PROTO_UDP"
    and two: "\<And>f. \<forall>i < length b1. f i = b1 ! i \<Longrightarrow>
      handleHandshakeServer ops (a_handle (factory_object ops k (lib ws))) f = ret (int (length b2), h2, b2)"
    and small: "0 < length b2" "42 + length b2 < 65536"
  obtains p ws1 fs' b' where "as_factory ops k (deliver q (m_data b) ws) = ret (p, ws1)"
    "as_runHandshake ops q (fs\<lparr>st := State_of AS_HANDSHAKE p, world := ws1\<rparr>) = ret fs'" "packet_is q (m_data b') (world fs')"
    "datagram (cid_mirror k) b2 b'" "plain_udp (m_data b')"
    "state (st fs') = (if handshakeOngoing ops h2 then AS_HANDSHAKE else AS_DELETED)" "w_heap (sw (world fs')) p \<noteq> None"
proof -
  define wd where "wd = deliver q (m_data b) ws"
  define so where "so = factory_object ops k (lib ws)"
  define p where "p = w_next (sw wd)"
  define ws1 where "ws1 = wd\<lparr>sw := (sw wd)\<lparr>w_heap := (w_heap (sw wd))(p \<mapsto> so), w_next := p + 1\<rparr>\<rparr>"
  have fact: "as_factory ops k wd = ret (p, ws1)" by (simp add: as_factory_object ws1_def p_def so_def wd_def)
  let ?fs = "fs\<lparr>st := State_of AS_HANDSHAKE p, world := ws1\<rparr>"
  have s1: "w_heap (sw (world ?fs)) (stateData (st ?fs)) = Some so"
    "w_pkts (sw (world ?fs)) q = Some ((the (w_pkts (sw ws) q))\<lparr>m_data := m_data b\<rparr>)"
    by (simp_all add: ws1_def State_of_def wd_def)
  have srv: "handleHandshakeServer ops (a_handle so) (ast_message (m_data ((the (w_pkts (sw ws) q))\<lparr>m_data := m_data b\<rparr>)))
      = ret (int (length b2), h2, b2)"
    unfolding so_def using datagram_message [OF m(1,2)] by (intro two) simp
  have u2: "plain_udp (m_data ((the (w_pkts (sw ws) q))\<lparr>m_data := m_data b\<rparr>))" using m(2) by simp
  obtain fs' b' where r2: "ast_runHandshake ops (handleHandshakeServer ops) AS_DELETED q ?fs = ret fs'"
      "datagram (ast_peer so) b2 b'" "plain_udp (m_data b')"
    and fs0: "sw (world fs') = (heap_put (stateData (st ?fs)) (so\<lparr>a_handle := h2\<rparr>) (sw (world ?fs)))\<lparr>w_pkts := (w_pkts (sw (world ?fs)))(q \<mapsto> b')\<rparr>"
      "state (st fs') = (if handshakeOngoing ops h2 then state (st ?fs) else AS_DELETED)"
    by (rule ast_step [where fi = ?fs and f = "handleHandshakeServer ops", OF s1 u2 srv small])
  show ?thesis
    by (rule that [OF fact [unfolded wd_def] r2(1) [folded as_runHandshake_def]])
      (use r2 fs0 m(3) in \<open>simp_all add: packet_is_def heap_put_def State_of_def so_def factory_object_peer\<close>)
qed

lemma ac_next_message:
  fixes ops :: "('h, 'i) astraeus_ops" and fc :: "('h, 'i) ast_fi"
  assumes m: "datagram k b2 b" "plain_udp (m_data b)" and c: "w_heap (sw w) (stateData s) = Some c"
    and three: "\<And>f. \<forall>i < length b2. f i = b2 ! i \<Longrightarrow> handleHandshakeClient ops (a_handle c) f = ret (int (length b3), h3, b3)"
    and small: "0 < length b3" "42 + length b3 < 65536"
  obtains fc' b' where "ac_runHandshake ops pkt (fc\<lparr>st := s, world := deliver pkt (m_data b) w\<rparr>) = ret fc'"
    "packet_is pkt (m_data b') (world fc')" "datagram (ast_peer c) b3 b'"
    "state (st fc') = (if handshakeOngoing ops h3 then state s else AC_DELETED)"
    "w_heap (sw (world fc')) (stateData s) = Some (c\<lparr>a_handle := h3\<rparr>)"
proof -
  let ?fc = "fc\<lparr>st := s, world := deliver pkt (m_data b) w\<rparr>" and ?b = "(the (w_pkts (sw w) pkt))\<lparr>m_data := m_data b\<rparr>"
  have c1: "w_heap (sw (world ?fc)) (stateData (st ?fc)) = Some c" "w_pkts (sw (world ?fc)) pkt = Some ?b"
    using c by simp_all
  have cli: "handleHandshakeClient ops (a_handle c) (ast_message (m_data ?b)) = ret (int (length b3), h3, b3)"
    using datagram_message [OF m] by (simp add: three)
  have u: "plain_udp (m_data ?b)" using m(2) by simp
  obtain fc' b' where r: "ast_runHandshake ops (handleHandshakeClient ops) AC_DELETED pkt ?fc = ret fc'"
      "datagram (ast_peer c) b3 b'"
    and fc0: "sw (world fc') = (heap_put (stateData (st ?fc)) (c\<lparr>a_handle := h3\<rparr>) (sw (world ?fc)))\<lparr>w_pkts := (w_pkts (sw (world ?fc)))(pkt \<mapsto> b')\<rparr>"
      "state (st fc') = (if handshakeOngoing ops h3 then state (st ?fc) else AC_DELETED)"
    by (rule ast_step [where fi = ?fc and f = "handleHandshakeClient ops", OF c1 u cli small])
  show ?thesis
    by (rule that [OF r(1) [folded ac_runHandshake_def]]) (use r fc0 in \<open>simp_all add: packet_is_def heap_put_def\<close>)
qed

text \<open>
  C28.  A client and a server of Astraeus find each other.  The client writes the first message of the
  library into a packet that was prepared as a UDP packet; the server identifies it, makes an
  object for it and answers to the mirrored five-tuple, which is the one the client
  listens to; the client answers in turn.  Each side passes the bytes of the library on
  unchanged.  A side whose handshake is over goes to its end state, but its object stays on the heap.
\<close>

theorem astraeus_exchange:
  fixes ops :: "('h, 'i) astraeus_ops" and fs fc :: "('h, 'i) ast_fi" and c
  defines "k \<equiv> ast_peer c"
  assumes c: "w_heap (sw w) (stateData s) = Some c" and b: "w_pkts (sw w) pkt = Some b" "plain_udp (m_data b)"
    and one: "generateInitGivenHandleAndNonce ops (a_handle c) (nonce (lib w)) = ret (int (length b1), h1, b1)"
    and two: "\<And>f. \<forall>i < length b1. f i = b1 ! i \<Longrightarrow>
      handleHandshakeServer ops (a_handle (factory_object ops k (lib ws))) f = ret (int (length b2), h2, b2)"
    and three: "\<And>f. \<forall>i < length b2. f i = b2 ! i \<Longrightarrow> handleHandshakeClient ops h1 f = ret (int (length b3), h3, b3)"
    and small: "42 + length b1 < 65536" "0 < length b2" "42 + length b2 < 65536" "0 < length b3" "42 + length b3 < 65536"
  shows "\<exists>w1 m1 p ws1 fs' m2 fc' m3.
    ac_initHandshakeNoTransition ops s pkt w = ret w1 \<and> packet_is pkt m1 w1 \<and> identify m1 = Some k \<and> udp_payload m1 = b1 \<and>
    as_factory ops k (deliver q m1 ws) = ret (p, ws1) \<and>
    as_runHandshake ops q (fs\<lparr>st := State_of AS_HANDSHAKE p, world := ws1\<rparr>) = ret fs' \<and>
    packet_is q m2 (world fs') \<and> identify m2 = Some (cid_mirror k) \<and> udp_payload m2 = b2 \<and>
    state (st fs') = (if handshakeOngoing ops h2 then AS_HANDSHAKE else AS_DELETED) \<and> w_heap (sw (world fs')) p \<noteq> None \<and>
    ac_runHandshake ops pkt (fc\<lparr>st := s\<lparr>state := AC_HANDSHAKE\<rparr>, world := deliver pkt m2 w1\<rparr>) = ret fc' \<and>
    packet_is pkt m3 (world fc') \<and> identify m3 = Some k \<and> udp_payload m3 = b3 \<and>
    state (st fc') = (if handshakeOngoing ops h3 then AC_HANDSHAKE else AC_DELETED) \<and>
    w_heap (sw (world fc')) (stateData s) = Some (c\<lparr>a_handle := h3\<rparr>)"
proof -
  obtain w1 b1' where r1: "ac_initHandshakeNoTransition ops s pkt w = ret w1" "datagram k b1 b1'" "plain_udp (m_data b1')"
    and w1: "w_pkts (sw w1) = (w_pkts (sw w))(pkt \<mapsto> b1')" "w_heap (sw w1) = (w_heap (sw w))(stateData s \<mapsto> c\<lparr>a_handle := h1\<rparr>)"
    using ac_init_step [OF c b one small(1)] unfolding k_def by blast
  have pr: "proto k = PROTO_UDP" by (simp add: k_def ast_peer_def udp_tuple_def)
  obtain p ws1 fs' b2' where r2: "as_factory ops k (deliver q (m_data b1') ws) = ret (p, ws1)"
    "as_runHandshake ops q (fs\<lparr>st := State_of AS_HANDSHAKE p, world := ws1\<rparr>) = ret fs'" "packet_is q (m_data b2') (world fs')"
    "datagram (cid_mirror k) b2 b2'" "plain_udp (m_data b2')"
    "state (st fs') = (if handshakeOngoing ops h2 then AS_HANDSHAKE else AS_DELETED)" "w_heap (sw (world fs')) p \<noteq> None"
    by (rule as_first_message [OF r1(2,3) pr two small(2,3), of q fs])
  have c1: "w_heap (sw w1) (stateData (s\<lparr>state := AC_HANDSHAKE\<rparr>)) = Some (c\<lparr>a_handle := h1\<rparr>)" by (simp add: w1)
  have three': "handleHandshakeClient ops (a_handle (c\<lparr>a_handle := h1\<rparr>)) f = ret (int (length b3), h3, b3)"
    if "\<forall>i < length b2. f i = b2 ! i" for f using three [OF that] by simp
  obtain fc' b3' where r3: "ac_runHandshake ops pkt (fc\<lparr>st := s\<lparr>state := AC_HANDSHAKE\<rparr>, world := deliver pkt (m_data b2') w1\<rparr>) = ret fc'"
    "packet_is pkt (m_data b3') (world fc')" "datagram (ast_peer (c\<lparr>a_handle := h1\<rparr>)) b3 b3'"
    "state (st fc') = (if handshakeOngoing ops h3 then state (s\<lparr>state := AC_HANDSHAKE\<rparr>) else AC_DELETED)"
    "w_heap (sw (world fc')) (stateData (s\<lparr>state := AC_HANDSHAKE\<rparr>)) = Some (c\<lparr>a_handle := h1, a_handle := h3\<rparr>)"
    by (rule ac_next_message [OF r2(4,5) c1 three' small(4,5), of pkt fc])
  have "packet_is pkt (m_data b1') w1" by (simp add: packet_is_def w1)
  with r1 r2 r3 show ?thesis
    by (intro exI [of _ w1] exI [of _ "m_data b1'"] exI [of _ p] exI [of _ ws1] exI [of _ fs'] exI [of _ "m_data b2'"]
        exI [of _ fc'] exI [of _ "m_data b3'"]) (simp add: datagram_def k_def)
qed

text \<open>A library whose handshake is three messages, a client and a prepared packet.\<close>

definition toy_astraeus :: "(nat, unit) astraeus_ops" where
  "toy_astraeus = \<lparr>zero_handle = 0, generateHandleGivenKey = \<lambda>i h pub sec. 1,
     generateInitGivenHandleAndNonce = \<lambda>h n. ret (4, 2, [1, 2, 3, 4]),
     handleHandshakeClient = \<lambda>h f. ret (1, 9, [f 0]), handleHandshakeServer = \<lambda>h f. ret (2, 9, [f 3, 6]),
     handshakeOngoing = \<lambda>h. h < 9, sodium_increment = \<lambda>n. n\<rparr>"

definition example_ast_client :: "nat astraeusClient" where
  "example_ast_client = \<lparr>a_handle = 1, a_localIP = 0x0a000001, a_remoteIP = 0x0a000002, a_localPort = 4000, a_remotePort = 4433\<rparr>"

definition example_ast_world :: "(nat, unit) ast_world" where
  "example_ast_world = \<lparr>sw = \<lparr>w_pkts = [5 \<mapsto> \<lparr>m_data = (\<lambda>_. 0)(14 := 0x45, 23 := 17), m_dataLen = 60, m_bufLen = 2048\<rparr>],
       w_heap = [1 \<mapsto> example_ast_client], w_next = 2, w_rand = (\<lambda>_. 0), w_rnd = 0\<rparr>,
     lib = \<lparr>ecdhPub = [], ecdhSec = [], nonce = [0], static_ident = ()\<rparr>\<rparr>"

definition example_ast_fi :: "(nat, unit) ast_fi" where
  "example_ast_fi = new_FunIface \<lparr>getPktCB = None, curTimeoutID = 0, timeoutsQ = [], timeoutFunctions = Map.empty\<rparr>
     0 \<lparr>pkts = [Some 5], sendMask = [True], numBufs = 1, numSlots = 1, fromLua = True\<rparr> new_ConnectionID
     (State_of AC_HANDSHAKE 1) example_ast_world"

theorem astraeus_exchange_witness:
  "\<exists>w1 fs' m2 fc' m3 p ws1. ac_initHandshakeNoTransition toy_astraeus (State_of AC_DOWN 1) 5 example_ast_world = ret w1 \<and>
     as_runHandshake toy_astraeus 5 (example_ast_fi\<lparr>st := State_of AS_HANDSHAKE p, world := ws1\<rparr>) = ret fs' \<and>
     packet_is 5 m2 (world fs') \<and> udp_payload m2 = [4, 6] \<and> state (st fs') = AS_DELETED \<and>
     ac_runHandshake toy_astraeus 5 (example_ast_fi\<lparr>st := (State_of AC_DOWN 1)\<lparr>state := AC_HANDSHAKE\<rparr>, world := deliver 5 m2 w1\<rparr>) = ret fc' \<and>
     packet_is 5 m3 (world fc') \<and> udp_payload m3 = [4] \<and> state (st fc') = AC_DELETED"
proof -
  let ?w = example_ast_world and ?s = "State_of AC_DOWN 1"
  have c: "w_heap (sw ?w) (stateData ?s) = Some example_ast_client" by (simp add: example_ast_world_def State_of_def)
  have b: "w_pkts (sw ?w) 5 = Some \<lparr>m_data = (\<lambda>_. 0)(14 := 0x45, 23 := 17), m_dataLen = 60, m_bufLen = 2048\<rparr>"
    by (simp add: example_ast_world_def)
  have u: "plain_udp (m_data \<lparr>m_data = (\<lambda>_. 0)(14 := 0x45, 23 := 17), m_dataLen = 60, m_bufLen = 2048\<rparr>)"
    by (simp add: plain_udp_def ip_ihl_def ip_proto_def PROTO_UDP_def)
  have one: "generateInitGivenHandleAndNonce toy_astraeus (a_handle example_ast_client) (nonce (lib ?w)) = ret (int (length [1, 2, 3, 4 :: u8]), 2, [1, 2, 3, 4])"
    by (simp add: toy_astraeus_def)
  have two: "handleHandshakeServer toy_astraeus h f = ret (int (length [4, 6 :: u8]), 9, [4, 6])"
    if "\<forall>i < length [1, 2, 3, 4 :: u8]. f i = [1, 2, 3, 4] ! i" for h f
    using that by (simp add: toy_astraeus_def)
  have three: "handleHandshakeClient toy_astraeus 2 f = ret (int (length [4 :: u8]), 9, [4])"
    if "\<forall>i < length [4, 6 :: u8]. f i = [4, 6] ! i" for f
    using spec [OF that, of 0] by (simp add: toy_astraeus_def)
  show ?thesis
    using astraeus_exchange [where ws = example_ast_world and q = 5 and fs = example_ast_fi and fc = example_ast_fi,
      OF c b u one two three]
    by (simp add: toy_astraeus_def) blast
qed

section \<open>Opening connections\<close>

lemma port_cut: "ucast (ucast (a :: u16) + of_nat n :: u32) = (a + of_nat n :: u16)"
  by transfer (simp add: take_bit_eq_mod mod_mod_cancel mod_simps)

lemma port_inj: "m < 65536 \<Longrightarrow> n < 65536 \<Longrightarrow> (a :: u16) + of_nat m = a + of_nat n \<longleftrightarrow> m = n"
  by (simp add: word_of_nat_eq_iff take_bit_eq_mod)

text \<open>The identifier of the \<open>n\<close>-th connection of a call.\<close>

definition nth_cid :: "'i astraeus_C_config \<Rightarrow> u32 \<Rightarrow> u16 \<Rightarrow> nat \<Rightarrow> ConnectionID" where
  "nth_cid config sip sport n = ac_connect_cid config sip (sport + of_nat n)"

lemma nth_cid_eq_iff: "m < 65536 \<Longrightarrow> n < 65536 \<Longrightarrow> nth_cid cfg sip sport m = nth_cid cfg sip sport n \<longleftrightarrow> m = n"
proof -
  have "dstPort (nth_cid cfg sip sport n) = htons (sport + of_nat n)" for n
    by (simp add: nth_cid_def ac_connect_cid_def Let_def)
  then show "m < 65536 \<Longrightarrow> n < 65536 \<Longrightarrow> nth_cid cfg sip sport m = nth_cid cfg sip sport n \<longleftrightarrow> m = n"
    by (metis htons_eq_iff port_inj)
qed

text \<open>
  From \<open>x\<close> to \<open>x'\<close> the connections \<open>j, j + 1, \<dots>\<close> were opened with the packets \<open>ps\<close>: each waits in
  the pool with an object of its own, and its packet is addressed so that the answer will
  carry its identifier; nothing else changed.
\<close>

definition opened ::
  "('h, 'i, 'm, 'n) ast_env \<Rightarrow> (nat \<Rightarrow> ConnectionID) \<Rightarrow> nat \<Rightarrow> ptr list \<Rightarrow> ('h, 'i, 'm, 'n) ast_ctx \<Rightarrow> ('h, 'i, 'm, 'n) ast_ctx \<Rightarrow> bool" where
  "opened env cid j ps x x' \<longleftrightarrow>
     (let q = w_next (sw (c_world x)); n = length ps in
      c_sm x' = c_sm x \<and> w_next (sw (c_world x')) = q + n \<and>
      (\<forall>i < n. my_pool env x' (cid (j + i)) = Some (State_of AC_HANDSHAKE (q + i))) \<and>
      (\<forall>k. (\<forall>i < n. k \<noteq> cid (j + i)) \<longrightarrow> my_pool env x' k = my_pool env x k) \<and>
      (\<forall>i < n. \<exists>c. w_heap (sw (c_world x')) (q + i) = Some c \<and> ast_peer c = cid_mirror (cid (j + i))) \<and>
      (\<forall>a < q. w_heap (sw (c_world x')) a = w_heap (sw (c_world x)) a) \<and>
      (\<forall>i < n. \<exists>b. w_pkts (sw (c_world x')) (ps ! i) = Some b \<and> identify (m_data b) = Some (cid_mirror (cid (j + i)))) \<and>
      (\<forall>p. p \<notin> set ps \<longrightarrow> w_pkts (sw (c_world x')) p = w_pkts (sw (c_world x)) p))"

lemma less_Suc_split: "(\<forall>i < Suc n. P i) \<longleftrightarrow> P 0 \<and> (\<forall>i < n. P (Suc i))"
  using less_Suc_eq_0_disj by auto

lemma opened_Nil: "opened env cid j [] x x"
  by (simp add: opened_def)

lemma opened_Cons:
  assumes "opened env cid (Suc j) ps x1 x'" and "p \<notin> set ps" and "\<And>i. i < length ps \<Longrightarrow> cid (Suc j + i) \<noteq> cid j"
    and "c_sm x1 = c_sm x" and "w_next (sw (c_world x1)) = Suc (w_next (sw (c_world x)))"
    and "my_pool env x1 = (my_pool env x)(cid j \<mapsto> State_of AC_HANDSHAKE (w_next (sw (c_world x))))"
    and "w_heap (sw (c_world x1)) = (w_heap (sw (c_world x)))(w_next (sw (c_world x)) \<mapsto> c)" and "ast_peer c = cid_mirror (cid j)"
    and "w_pkts (sw (c_world x1)) = (w_pkts (sw (c_world x)))(p \<mapsto> b)" and "identify (m_data b) = Some (cid_mirror (cid j))"
  shows "opened env cid j (p # ps) x x'"
proof -
  let ?q = "w_next (sw (c_world x))"
  note o = assms(1) [unfolded opened_def Let_def assms(4-7,9)]
  have pool: "my_pool env x' (cid j) = Some (State_of AC_HANDSHAKE ?q)"
  proof -
    have "\<forall>i < length ps. cid j \<noteq> cid (Suc j + i)" using assms(3) by metis
    then show ?thesis using o by simp
  qed
  moreover have "\<forall>k. (\<forall>i < length (p # ps). k \<noteq> cid (j + i)) \<longrightarrow> my_pool env x' k = my_pool env x k"
    using o by (simp add: less_Suc_split)
  moreover have "w_heap (sw (c_world x')) ?q = Some c" "\<forall>a < ?q. w_heap (sw (c_world x')) a = w_heap (sw (c_world x)) a"
    using o by (simp_all add: less_Suc_eq)
  moreover have "w_pkts (sw (c_world x')) p = Some b" "\<forall>a. a \<notin> set (p # ps) \<longrightarrow> w_pkts (sw (c_world x')) a = w_pkts (sw (c_world x)) a"
    using o assms(2) by simp_all
  ultimately show ?thesis
    using o assms(8,10) unfolding opened_def Let_def by (simp add: less_Suc_split [of "length ps"])
qed

lemma connect_peer:
  "ast_peer \<lparr>a_handle = h, a_localIP = sip, a_remoteIP = acc_dstIP cfg, a_localPort = port, a_remotePort = acc_dstPort cfg\<rparr>
     = cid_mirror (ac_connect_cid cfg sip port)"
  by (simp add: ast_peer_def udp_tuple_def ac_connect_cid_def Let_def cid_mirror_def new_ConnectionID_def)

text \<open>Opening one connection.\<close>

lemma connect_one:
  fixes ops :: "('h, 'i) astraeus_ops" and x :: "('h, 'i, 'm, 'n) ast_ctx"
  defines "q \<equiv> w_next (sw (c_world x))"
  assumes pool: "hash_map (poolOps env) pinv (\<lambda>_. True)"
    and lib: "\<And>h nc. \<exists>bs h'. generateInitGivenHandleAndNonce ops h nc = ret (int (length bs), h', bs) \<and> 42 + length bs < 65536"
    and ok: "pinv (c_pools x (connPool (c_sm x)))" "AC_HANDSHAKE \<noteq> endStateID (c_sm x)"
    and fresh: "my_pool env x (nth_cid cfg sip sport j) = None"
    and b: "w_pkts (sw (c_world x)) p = Some b" "plain_udp (m_data b)"
  obtains x1 c b' where
    "ac_connect_loop ops env cfg sip sport (of_nat j) (p # ps) x = ac_connect_loop ops env cfg sip sport (of_nat (Suc j)) ps x1"
    "c_sm x1 = c_sm x" "pinv (c_pools x1 (connPool (c_sm x1)))" "w_next (sw (c_world x1)) = Suc q"
    "my_pool env x1 = (my_pool env x)(nth_cid cfg sip sport j \<mapsto> State_of AC_HANDSHAKE q)"
    "w_heap (sw (c_world x1)) = (w_heap (sw (c_world x)))(q \<mapsto> c)" "ast_peer c = cid_mirror (nth_cid cfg sip sport j)"
    "w_pkts (sw (c_world x1)) = (w_pkts (sw (c_world x)))(p \<mapsto> b')" "identify (m_data b') = Some (cid_mirror (nth_cid cfg sip sport j))"
proof -
  let ?cid = "nth_cid cfg sip sport j" and ?w = "c_world x"
  define c where "c = \<lparr>a_handle = generateHandleGivenKey ops (acc_ident cfg) (zero_handle ops) (ecdhPub (lib ?w)) (ecdhSec (lib ?w)),
    a_localIP = sip, a_remoteIP = acc_dstIP cfg, a_localPort = sport + of_nat j, a_remotePort = acc_dstPort cfg\<rparr>"
  define w0 where "w0 = ?w\<lparr>sw := (sw ?w)\<lparr>w_heap := (w_heap (sw ?w))(q \<mapsto> c), w_next := Suc q\<rparr>\<rparr>"
  define s where "s = State_of AC_HANDSHAKE q"
  have create: "ac_createStateData ops (acc_ident cfg) sip (acc_dstIP cfg) (sport + of_nat j) (acc_dstPort cfg) ?w = (State_of AC_DOWN q, w0)"
    by (simp add: ac_createStateData_def Let_def heap_new_def c_def w0_def q_def)
  have peer: "ast_peer c = cid_mirror ?cid" unfolding c_def nth_cid_def by (rule connect_peer)
  obtain bs h' where msg: "generateInitGivenHandleAndNonce ops (a_handle c) (nonce (lib w0)) = ret (int (length bs), h', bs)"
    and len: "42 + length bs < 65536" using lib by blast
  have "w_heap (sw w0) (stateData s) = Some c" "w_pkts (sw w0) p = Some b" by (simp_all add: w0_def s_def State_of_def b)
  from ac_init_step [OF this b(2) msg len]
  obtain w1 b' where r: "ac_initHandshakeNoTransition ops s p w0 = ret w1" "datagram (ast_peer c) bs b'"
    and w1: "w_pkts (sw w1) = (w_pkts (sw w0))(p \<mapsto> b')" "w_heap (sw w1) = (w_heap (sw w0))(stateData s \<mapsto> c\<lparr>a_handle := h'\<rparr>)"
      "w_next (sw w1) = w_next (sw w0)" by blast
  define x1 where "x1 = addStateNoFun env ?cid s (x\<lparr>c_world := w1\<rparr>)"
  have s: "state s = AC_HANDSHAKE" "(State_of AC_DOWN q)\<lparr>state := AC_HANDSHAKE\<rparr> = s" by (simp_all add: s_def State_of_def)
  have suc: "of_nat j + 1 = (of_nat (Suc j) :: u32)" by simp
  have loop: "ac_connect_loop ops env cfg sip sport (of_nat j) (p # ps) x = ac_connect_loop ops env cfg sip sport (of_nat (Suc j)) ps x1"
    using r(1) suc by (simp add: Let_def port_cut create s x1_def nth_cid_def del: of_nat_Suc)
  note ins = hash_map.find_insert [OF pool ok(1), of ?cid s, simplified]
  have x1: "c_sm x1 = c_sm x" "c_world x1 = w1" "pinv (c_pools x1 (connPool (c_sm x1)))"
    "my_pool env x1 = (my_pool env x)(?cid \<mapsto> s)"
    using ins fresh ok s(1) by (simp_all add: x1_def addStateNoFun_def Let_def pool_add_def my_pool_def pool_at_def)
  show ?thesis
  proof (rule that [OF loop x1(1,3)])
    show "ast_peer (c\<lparr>a_handle := h'\<rparr>) = cid_mirror ?cid" using peer by simp
    show "identify (m_data b') = Some (cid_mirror ?cid)" using r(2) peer by (simp add: datagram_def)
  qed (simp_all add: x1 w1 w0_def s_def State_of_def)
qed

lemma connect_all:
  assumes pool: "hash_map (poolOps env) pinv (\<lambda>_. True)"
    and lib: "\<And>h nc. \<exists>bs h'. generateInitGivenHandleAndNonce ops h nc = ret (int (length bs), h', bs) \<and> 42 + length bs < 65536"
  shows "\<lbrakk>pinv (c_pools x (connPool (c_sm x))); AC_HANDSHAKE \<noteq> endStateID (c_sm x); distinct ps; j + length ps \<le> 65536;
     \<forall>i < length ps. my_pool env x (nth_cid cfg sip sport (j + i)) = None;
     \<forall>p \<in> set ps. \<exists>b. w_pkts (sw (c_world x)) p = Some b \<and> plain_udp (m_data b)\<rbrakk> \<Longrightarrow>
   \<exists>x'. ac_connect_loop ops env cfg sip sport (of_nat j) ps x = ret x' \<and> opened env (nth_cid cfg sip sport) j ps x x'"
proof (induction ps arbitrary: j x)
  case Nil
  then show ?case by (auto intro: opened_Nil)
next
  case (Cons p ps)
  obtain b where b: "w_pkts (sw (c_world x)) p = Some b" "plain_udp (m_data b)" using Cons.prems(6) by auto
  have "my_pool env x (nth_cid cfg sip sport j) = None" using Cons.prems(5) by auto
  from connect_one [OF pool lib Cons.prems(1,2) this b, of ps]
  obtain x1 c b' where l: "ac_connect_loop ops env cfg sip sport (of_nat j) (p # ps) x = ac_connect_loop ops env cfg sip sport (of_nat (Suc j)) ps x1"
    and x1: "c_sm x1 = c_sm x" "pinv (c_pools x1 (connPool (c_sm x1)))" "w_next (sw (c_world x1)) = Suc (w_next (sw (c_world x)))"
      "my_pool env x1 = (my_pool env x)(nth_cid cfg sip sport j \<mapsto> State_of AC_HANDSHAKE (w_next (sw (c_world x))))"
      "w_heap (sw (c_world x1)) = (w_heap (sw (c_world x)))(w_next (sw (c_world x)) \<mapsto> c)" "ast_peer c = cid_mirror (nth_cid cfg sip sport j)"
      "w_pkts (sw (c_world x1)) = (w_pkts (sw (c_world x)))(p \<mapsto> b')" "identify (m_data b') = Some (cid_mirror (nth_cid cfg sip sport j))"
    by blast
  have ne: "nth_cid cfg sip sport (Suc j + i) \<noteq> nth_cid cfg sip sport j" if "i < length ps" for i
    using that Cons.prems(4) by (simp add: nth_cid_eq_iff)
  have "\<forall>i < length ps. my_pool env x1 (nth_cid cfg sip sport (Suc j + i)) = None"
    using Cons.prems(5) ne by (auto simp: x1(4) less_Suc_split)
  then obtain x' where "ac_connect_loop ops env cfg sip sport (of_nat (Suc j)) ps x1 = ret x'"
    "opened env (nth_cid cfg sip sport) (Suc j) ps x1 x'"
    using Cons.IH [of x1 "Suc j"] x1 Cons.prems by fastforce
  with opened_Cons [of env "nth_cid cfg sip sport" j ps x1 x' p x c b'] ne x1 l Cons.prems(3) show ?case by simp
qed

text \<open>
  C29.  \<open>AstraeusClient_connect\<close> opens as many connections as it is given packets, up to 65536.  The
  ports count up from the given one and wrap around at 16 bits, so the identifiers are all
  different up to that number and repeat from there on.  If the library writes its first
  message and the packets are prepared UDP packets, each connection waits in the pool, in the
  state of the handshake and with an object of its own, and its packet is addressed so that the
  answer carries its identifier; other connections, objects and packets are left alone.
\<close>

theorem astraeus_connect_opens:
  assumes pool: "hash_map (poolOps env) pinv (\<lambda>_. True)" "pinv (c_pools x (connPool (c_sm x)))"
    and lib: "\<And>h nc. \<exists>bs h'. generateInitGivenHandleAndNonce ops h nc = ret (int (length bs), h', bs) \<and> 42 + length bs < 65536"
    and cfg: "AC_HANDSHAKE \<noteq> endStateID (c_sm x)" and n: "distinct ps" "length ps \<le> 65536"
    and fresh: "\<forall>i < length ps. my_pool env x (nth_cid cfg sip sport i) = None"
    and bufs: "\<forall>p \<in> set ps. \<exists>b. w_pkts (sw (c_world x)) p = Some b \<and> plain_udp (m_data b)"
  shows "\<exists>x'. AstraeusClient_connect ops env cfg ps sip sport x = ret x' \<and> opened env (nth_cid cfg sip sport) 0 ps x x' \<and>
    inj_on (nth_cid cfg sip sport) {..<length ps} \<and> (\<forall>i. nth_cid cfg sip sport (i + 65536) = nth_cid cfg sip sport i)"
proof -
  have "inj_on (nth_cid cfg sip sport) {..<length ps}" using n(2) by (auto simp: inj_on_def nth_cid_eq_iff)
  moreover have "(of_nat (i + 65536) :: u16) = of_nat i" for i by (simp add: word_of_nat_eq_iff take_bit_eq_mod)
  then have "\<forall>i. nth_cid cfg sip sport (i + 65536) = nth_cid cfg sip sport i"
    by (simp add: nth_cid_def del: of_nat_add)
  ultimately show ?thesis
    using connect_all [OF pool(1) lib pool(2) cfg n(1), of 0] n(2) fresh bufs
    by (auto simp: AstraeusClient_connect_def catch_abort_ret)
qed

definition example_ast_env ::
  "(nat, unit, (ConnectionID \<times> State) list, (ConnectionID \<times> State) list) ast_env" where
  "example_ast_env = dtls_env alist_ops alist_ops (\<lambda>w. (0, w))"

definition example_ast_ctx :: "(nat, unit, (ConnectionID \<times> State) list, (ConnectionID \<times> State) list) ast_ctx" where
  "example_ast_ctx = \<lparr>c_sm = fst (ac_configStateMachine toy_astraeus None ([], []) 1 (new_StateMachine example_ast_env) example_ast_world),
     c_pools = (\<lambda>_. []), c_batch = \<lparr>pkts = [], sendMask = [], numBufs = 0, numSlots = 0, fromLua = True\<rparr>,
     c_world = example_ast_world\<rparr>"

lemma example_ast_sm: "endStateID (c_sm example_ast_ctx) = AC_DELETED" "connPool (c_sm example_ast_ctx) = 0"
  by (simp_all add: example_ast_ctx_def ac_configStateMachine_def registerFunction_def registerEndStateID_def
      new_StateMachine_def Let_def)

theorem astraeus_connect_opens_witness:
  "\<exists>x'. AstraeusClient_connect toy_astraeus example_ast_env \<lparr>acc_dstIP = 0x0a000002, acc_dstPort = 4433, acc_ident = ()\<rparr> [5]
      0x0a000001 65535 example_ast_ctx = ret x' \<and>
    my_pool example_ast_env x' (nth_cid \<lparr>acc_dstIP = 0x0a000002, acc_dstPort = 4433, acc_ident = ()\<rparr> 0x0a000001 65535 0)
      = Some (State_of AC_HANDSHAKE 2)"
proof -
  let ?c = "\<lparr>acc_dstIP = 0x0a000002, acc_dstPort = 4433, acc_ident = ()\<rparr>"
  have pool: "hash_map (poolOps example_ast_env) (alist_inv (\<lambda>_. True)) (\<lambda>_. True)"
    using alist.hash_map_axioms by (simp add: example_ast_env_def dtls_env_def)
  have inv: "alist_inv (\<lambda>_. True) (c_pools example_ast_ctx (connPool (c_sm example_ast_ctx)))"
    by (simp add: example_ast_sm) (simp add: example_ast_ctx_def alist_inv_def)
  have lib: "\<exists>bs h'. generateInitGivenHandleAndNonce toy_astraeus h nc = ret (int (length bs), h', bs) \<and> 42 + length bs < 65536" for h nc
    by (intro exI [of _ "[1, 2, 3, 4]"] exI [of _ 2]) (simp add: toy_astraeus_def)
  have fresh: "my_pool example_ast_env example_ast_ctx k = None" for k
    by (simp add: my_pool_def pool_at_def example_ast_sm) (simp add: example_ast_ctx_def example_ast_env_def dtls_env_def alist_ops_def)
  have "AC_HANDSHAKE \<noteq> endStateID (c_sm example_ast_ctx)" by (simp add: example_ast_sm AC_HANDSHAKE_def AC_DELETED_def)
  moreover have "\<forall>p \<in> set [5]. \<exists>b. w_pkts (sw (c_world example_ast_ctx)) p = Some b \<and> plain_udp (m_data b)"
    by (simp add: example_ast_ctx_def example_ast_world_def plain_udp_def ip_ihl_def ip_proto_def PROTO_UDP_def)
  moreover have "w_next (sw (c_world example_ast_ctx)) = 2" by (simp add: example_ast_ctx_def example_ast_world_def)
  ultimately show ?thesis
    using astraeus_connect_opens [where ps = "[5]" and cfg = ?c and sip = "0x0a000001" and sport = 65535, OF pool inv lib] fresh
    by (auto simp: opened_def)
qed

lemma as_config_well_behaved:
  assumes "Some f \<in> set (sm_functions (fst (as_configStateMachine ops mp keys n (new_StateMachine env) w)))"
  shows "well_behaved f"
  using assms as_runHandshake.well_behaved as_sendData.well_behaved as_runTeardown.well_behaved
  by (auto simp: as_configStateMachine_def Let_def dest!: registered_functions split: option.splits)

lemma ac_config_well_behaved:
  assumes "Some f \<in> set (sm_functions (fst (ac_configStateMachine ops mp keys n (new_StateMachine env) w)))"
  shows "well_behaved f"
  using assms ac_initHandshake.well_behaved ac_runHandshake.well_behaved ac_sendData.well_behaved ac_runTeardown.well_behaved
  by (auto simp: ac_configStateMachine_def Let_def dest!: registered_functions split: option.splits)

end
