(* ===== verification/C_Handles.thy ===== *)
theory C_Handles
  imports Dtls_Client Astraeus
begin

text \<open>
  The objects behind the C interface of DTLS and Astraeus (\<open>src/dtlsServer.cpp\<close>, \<open>src/dtlsClient.cpp\<close>,
  \<open>src/astraeusServer.cpp\<close>, \<open>src/astraeusClient.cpp\<close>): how the SSL contexts are made, what
  the init functions build and what the free functions take apart.

  The calls of OpenSSL and DPDK are recorded in the order they are made.  Their results are
  a parameter, the answer \<open>ans\<close> to a call after the calls made before (\<open>0\<close> is
  a null pointer or a failure).  A configuration and a state machine live at addresses of the heap.
  Time stamps and console output are not represented.
\<close>

section \<open>The calls and the heap\<close>

datatype lib_call =
    SSL_CTX_new
  | DH_new
  | BN_bin2bn "u8 list"
  | DH_set0_pqg ptr ptr ptr ptr
  | DH_free ptr
  | BN_free ptr
  | SSL_CTX_set_tmp_dh ptr ptr
  | SSL_CTX_set_cipher_list ptr string
  | SSL_CTX_use_certificate_file ptr string
  | SSL_CTX_use_PrivateKey_file ptr string
  | SSL_CTX_check_private_key ptr
  | SSL_CTX_set_verify ptr "int \<Rightarrow> int"
  | SSL_CTX_set_options_NO_QUERY_MTU ptr
  | Rte_pktmbuf_pool_create
  | OPENSSL_free ptr
  | Delete_identity ptr
  | Rte_mempool_free ptr

record ('c, 's) handles =
  calls :: "lib_call list"
  configs :: "ptr \<rightharpoonup> 'c"
  machines :: "ptr \<rightharpoonup> 's"
  next_obj :: ptr

type_synonym answers = "lib_call list \<Rightarrow> lib_call \<Rightarrow> ptr"

definition lib_call :: "answers \<Rightarrow> lib_call \<Rightarrow> ('c, 's) handles \<Rightarrow> ptr \<times> ('c, 's) handles" where
  "lib_call ans c s = (ans (calls s) c, s\<lparr>calls := calls s @ [c]\<rparr>)"

definition lib_do :: "answers \<Rightarrow> lib_call \<Rightarrow> ('c, 's) handles \<Rightarrow> ('c, 's) handles" where
  "lib_do ans c s = snd (lib_call ans c s)"

definition machine_new :: "'s \<Rightarrow> ('c, 's) handles \<Rightarrow> ptr \<times> ('c, 's) handles" where
  "machine_new sm s = (next_obj s, s\<lparr>machines := (machines s)(next_obj s \<mapsto> sm), next_obj := next_obj s + 1\<rparr>)"

definition config_new :: "'c \<Rightarrow> ('c, 's) handles \<Rightarrow> ptr \<times> ('c, 's) handles" where
  "config_new c s = (next_obj s, s\<lparr>configs := (configs s)(next_obj s \<mapsto> c), next_obj := next_obj s + 1\<rparr>)"

definition config_get :: "ptr \<Rightarrow> ('c, 's) handles \<Rightarrow> 'c res" where
  "config_get p s = (case configs s p of None \<Rightarrow> fail Dangling | Some c \<Rightarrow> ret c)"

definition config_delete :: "ptr \<Rightarrow> ('c, 's) handles \<Rightarrow> ('c, 's) handles" where
  "config_delete p s = s\<lparr>configs := (configs s)(p := None)\<rparr>"

definition machine_delete :: "ptr \<Rightarrow> ('c, 's) handles \<Rightarrow> ('c, 's) handles res" where
  "machine_delete p s =
    (case machines s p of None \<Rightarrow> fail Dangling | Some _ \<Rightarrow> ret (s\<lparr>machines := (machines s)(p := None)\<rparr>))"

section \<open>The contexts\<close>

definition dhp_2048 :: "u8 list" where
  "dhp_2048 =
    [0x88, 0xd8, 0xa0, 0x31, 0x4b, 0x45, 0x4a, 0xa3, 0x0d, 0x07, 0xd3, 0x6e, 0x68, 0xda, 0x74, 0xe7,
     0xef, 0x69, 0x2b, 0x9c, 0x61, 0xc1, 0xde, 0x36, 0x58, 0x68, 0x85, 0x80, 0x04, 0x2a, 0xd1, 0x93,
     0x52, 0xea, 0xb6, 0x21, 0x9b, 0x03, 0x59, 0x8e, 0x3a, 0x72, 0x41, 0x5b, 0x85, 0xdc, 0x46, 0xe6,
     0x32, 0x2e, 0xf9, 0x50, 0x20, 0xe3, 0x63, 0xfb, 0x0b, 0x14, 0xe9, 0x72, 0x8e, 0x6d, 0xbd, 0x69,
     0xf5, 0x65, 0x9f, 0x22, 0x65, 0x65, 0x16, 0x12, 0x13, 0x74, 0x46, 0x99, 0x37, 0x5e, 0x3b, 0x68,
     0x20, 0x8c, 0x61, 0x1b, 0xce, 0xeb, 0xcd, 0xfa, 0x61, 0xee, 0x7d, 0x52, 0x00, 0x5f, 0x1c, 0xdc,
     0xce, 0x74, 0xbb, 0x09, 0x2a, 0xa9, 0xec, 0xd2, 0x0c, 0xe9, 0x7a, 0x15, 0x31, 0x1e, 0xd6, 0x37,
     0x28, 0x11, 0x93, 0x82, 0x64, 0xd0, 0xf2, 0xf9, 0x93, 0x51, 0xd9, 0xb5, 0x92, 0xef, 0xb8, 0xac,
     0x01, 0xb7, 0x80, 0xe6, 0xcb, 0xb6, 0x23, 0x92, 0xaf, 0x58, 0x79, 0xf9, 0xbb, 0x42, 0x7f, 0x42,
     0x93, 0xf9, 0x04, 0x9a, 0xc1, 0x24, 0x7b, 0x6b, 0xf4, 0x4c, 0xe5, 0x19, 0xef, 0x64, 0x36, 0x0d,
     0xce, 0x6f, 0x77, 0xf8, 0x65, 0x32, 0xb6, 0x2d, 0xb7, 0xa2, 0xd0, 0x93, 0x07, 0xec, 0xfb, 0x62,
     0xf3, 0x01, 0xeb, 0x4f, 0x4e, 0x2b, 0x6a, 0x30, 0xf5, 0x09, 0x17, 0x3a, 0x92, 0x1b, 0x0b, 0xa9,
     0x13, 0x6e, 0x76, 0xdb, 0x39, 0x4d, 0x2f, 0x1a, 0x15, 0x27, 0x7a, 0xe8, 0xee, 0x6c, 0xfa, 0x91,
     0xc6, 0xf0, 0x51, 0x25, 0xa6, 0x5b, 0x77, 0xc9, 0x14, 0xf1, 0x04, 0xf0, 0x99, 0x30, 0x13, 0x60,
     0xaa, 0x4a, 0x73, 0xf2, 0x7b, 0x2d, 0xaa, 0x7f, 0x02, 0xb5, 0xd4, 0x86, 0xf0, 0x25, 0x7d, 0x80,
     0x9e, 0xaf, 0x3a, 0x90, 0x93, 0x03, 0xdc, 0xa1, 0xb9, 0x76, 0xb3, 0x6b, 0x8c, 0xdc, 0x83, 0xe3]"

definition dhg_2048 :: "u8 list" where
  "dhg_2048 = [0x02]"

definition get_dh2048 :: "answers \<Rightarrow> ('c, 's) handles \<Rightarrow> ptr \<times> ('c, 's) handles" where
  "get_dh2048 ans s =
    (let (dh, s) = lib_call ans DH_new s
     in if dh = 0 then (0, s)
        else let (p, s) = lib_call ans (BN_bin2bn dhp_2048) s;
                 (g, s) = lib_call ans (BN_bin2bn dhg_2048) s;
                 (bad, s) = (if p = 0 \<or> g = 0 then (True, s)
                             else let (r, s) = lib_call ans (DH_set0_pqg dh p 0 g) s in (r = 0, s))
             in if bad then (0, lib_do ans (BN_free g) (lib_do ans (BN_free p) (lib_do ans (DH_free dh) s)))
                else (dh, s))"

text \<open>The callback that judges the certificate of the peer accepts every one.\<close>

definition verifyFun :: "int \<Rightarrow> int" where
  "verifyFun ok = 1"

definition ds_createCTX :: "answers \<Rightarrow> ('c, 's) handles \<Rightarrow> (ptr \<times> ('c, 's) handles) res" where
  "ds_createCTX ans s =
    (let (ctx, s) = lib_call ans SSL_CTX_new s in
     if ctx = 0 then ret (0, s)
     else let (dh, s) = get_dh2048 ans s;
              (r, s) = lib_call ans (SSL_CTX_set_tmp_dh ctx dh) s in
     if r \<noteq> 1 then ret (0, s)
     else let s = lib_do ans (DH_free dh) s;
              (r, s) = lib_call ans (SSL_CTX_set_cipher_list ctx ''ALL'') s in
     if r \<noteq> 1 then ret (0, s)
     else let (r, s) = lib_call ans (SSL_CTX_use_certificate_file ctx ''./server-cert.pem'') s in
     if r \<noteq> 1 then fail Thrown
     else let (r, s) = lib_call ans (SSL_CTX_use_PrivateKey_file ctx ''./server-key.pem'') s in
     if r \<noteq> 1 then fail Thrown
     else let (r, s) = lib_call ans (SSL_CTX_check_private_key ctx) s in
     if r \<noteq> 1 then fail Thrown
     else ret (ctx, lib_do ans (SSL_CTX_set_options_NO_QUERY_MTU ctx) (lib_do ans (SSL_CTX_set_verify ctx verifyFun) s)))"

definition dc_createCTX :: "answers \<Rightarrow> ('c, 's) handles \<Rightarrow> ptr \<times> ('c, 's) handles" where
  "dc_createCTX ans s =
    (let (ctx, s) = lib_call ans SSL_CTX_new s in
     if ctx = 0 then (0, s)
     else let (r, s) = lib_call ans (SSL_CTX_set_cipher_list ctx ''ALL:!ADH:!LOW:!EXP:!MD5:@STRENGTH'') s in
     if r \<noteq> 1 then (0, s)
     else (ctx, lib_do ans (SSL_CTX_set_options_NO_QUERY_MTU ctx) (lib_do ans (SSL_CTX_set_verify ctx verifyFun) s)))"

section \<open>The servers\<close>

record ds_C_config =
  f_ctx :: ptr
  f_sm :: ptr
  f_mp :: ptr

text \<open>
  The static variables \<open>ctx\<close> and \<open>mp\<close> are read by the functions of the machine; here the machine is
  configured with their values, which are those of the last server made.
\<close>

definition DtlsServer_init ::
  "answers \<Rightarrow> 'l ssl_ops \<Rightarrow> (ptr \<Rightarrow> 'l ds_world \<Rightarrow> ptr \<times> 'l ds_world) \<Rightarrow> ('l, 'm, 'n) ds_env \<Rightarrow> ptr \<Rightarrow>
     (ds_C_config, ('l, 'm) ds_sm) handles \<Rightarrow> (ptr \<times> (ds_C_config, ('l, 'm) ds_sm) handles) res" where
  "DtlsServer_init ans ops alloc env memp s = catch_abort
    (let (obj, s) = machine_new (new_StateMachine env) s;
         (r, s) = config_new \<lparr>f_ctx = 0, f_sm = 0, f_mp = 0\<rparr> s
     in rbind (ds_createCTX ans s) (\<lambda>(ctx, s).
        if memp = 0 then fail Abort
        else ret (r, s\<lparr>configs := (configs s)(r \<mapsto> \<lparr>f_ctx = ctx, f_sm = obj, f_mp = memp\<rparr>),
                       machines := (machines s)(obj \<mapsto> ds_configStateMachine ops ctx (alloc memp) (new_StateMachine env))\<rparr>)))"

definition DtlsServer_free :: "answers \<Rightarrow> ptr \<Rightarrow> (ds_C_config, 's) handles \<Rightarrow> (ds_C_config, 's) handles res" where
  "DtlsServer_free ans obj s = catch_abort
    (rbind (config_get obj s) (\<lambda>config.
     rbind (machine_delete (f_sm config) s) (\<lambda>s.
     let s = lib_do ans (OPENSSL_free (f_ctx config)) s;
         s = config_delete obj s
     in rbind (config_get obj s) (\<lambda>config. ret (lib_do ans (Rte_mempool_free (f_mp config)) s)))))"

section \<open>The clients\<close>

record dc_C_config = Dtls_C_config +
  cc_sm :: ptr
  cc_mp :: ptr

definition DtlsClient_init ::
  "answers \<Rightarrow> 'l ssl_ops \<Rightarrow> (ptr \<Rightarrow> 'l dc_world \<Rightarrow> ptr \<times> 'l dc_world) \<Rightarrow> ('l, 'm, 'n) dc_env \<Rightarrow> u32 \<Rightarrow> u16 \<Rightarrow>
     (dc_C_config, ('l, 'm) dc_sm) handles \<Rightarrow> (ptr \<times> (dc_C_config, ('l, 'm) dc_sm) handles) res" where
  "DtlsClient_init ans ops alloc env dip dport s = catch_abort
    (let (obj, s) = machine_new (new_StateMachine env) s;
         config = \<lparr>cc_dstIP = dip, cc_dstPort = dport, cc_ctx = 0, cc_sm = 0, cc_mp = 0\<rparr>;
         (r, s) = config_new config s;
         (ctx, s) = dc_createCTX ans s;
         (memp, s) = lib_call ans Rte_pktmbuf_pool_create s
     in if memp = 0 then fail Abort
        else ret (r, s\<lparr>configs := (configs s)(r \<mapsto> config\<lparr>cc_ctx := ctx, cc_sm := obj, cc_mp := memp\<rparr>),
                       machines := (machines s)(obj \<mapsto> dc_configStateMachine ops (alloc memp) (new_StateMachine env))\<rparr>))"

definition DtlsClient_free :: "answers \<Rightarrow> ptr \<Rightarrow> (dc_C_config, 's) handles \<Rightarrow> (dc_C_config, 's) handles res" where
  "DtlsClient_free ans obj s = catch_abort
    (rbind (config_get obj s) (\<lambda>config.
     rbind (machine_delete (cc_sm config) s) (\<lambda>s.
     let s = lib_do ans (OPENSSL_free (cc_ctx config)) s;
         s = config_delete obj s
     in rbind (config_get obj s) (\<lambda>config. ret (lib_do ans (Rte_mempool_free (cc_mp config)) s)))))"

section \<open>Taking Astraeus apart\<close>

record as_C_config =
  as_sm :: ptr
  as_mp :: ptr

definition AstraeusServer_free :: "answers \<Rightarrow> ptr \<Rightarrow> ptr \<Rightarrow> (as_C_config, 's) handles \<Rightarrow> (as_C_config, 's) handles res" where
  "AstraeusServer_free ans ident_ptr obj s = catch_abort
    (rbind (config_get obj s) (\<lambda>config.
     let s = lib_do ans (Delete_identity ident_ptr) s
     in rbind (machine_delete (as_sm config) s) (\<lambda>s.
        let s = config_delete obj s
        in rbind (config_get obj s) (\<lambda>config. ret (lib_do ans (Rte_mempool_free (as_mp config)) s)))))"

record ac_C_config = "ptr astraeus_C_config" +
  ac_sm :: ptr
  ac_mp :: ptr

definition AstraeusClient_free :: "answers \<Rightarrow> ptr \<Rightarrow> (ac_C_config, 's) handles \<Rightarrow> (ac_C_config, 's) handles res" where
  "AstraeusClient_free ans obj s = catch_abort
    (rbind (config_get obj s) (\<lambda>config.
     rbind (machine_delete (ac_sm config) s) (\<lambda>s.
     let s = lib_do ans (Delete_identity (acc_ident config)) s;
         s = config_delete obj s
     in rbind (config_get obj s) (\<lambda>config. ret (lib_do ans (Rte_mempool_free (ac_mp config)) s)))))"

section \<open>What the recorded calls show\<close>

lemma lib_call_simps [simp]:
  "calls (snd (lib_call ans c s)) = calls s @ [c]" "fst (lib_call ans c s) = ans (calls s) c"
  "configs (snd (lib_call ans c s)) = configs s" "machines (snd (lib_call ans c s)) = machines s"
  "next_obj (snd (lib_call ans c s)) = next_obj s"
  by (simp_all add: lib_call_def)

lemma lib_do_simps [simp]:
  "calls (lib_do ans c s) = calls s @ [c]" "configs (lib_do ans c s) = configs s"
  "machines (lib_do ans c s) = machines s" "next_obj (lib_do ans c s) = next_obj s"
  by (simp_all add: lib_do_def)

text \<open>The objects of the heap are not touched by the making of a context.\<close>

definition same_objects :: "('c, 's) handles \<Rightarrow> ('c, 's) handles \<Rightarrow> bool" where
  "same_objects s s' \<longleftrightarrow> configs s' = configs s \<and> machines s' = machines s \<and> next_obj s' = next_obj s"

lemma same_objects_refl [simp]: "same_objects s s"
  by (simp add: same_objects_def)

lemma same_objects_lib [simp]:
  "same_objects s (lib_do ans c s') = same_objects s s'"
  "same_objects s (s'\<lparr>calls := cs\<rparr>) = same_objects s s'"
  by (simp_all add: same_objects_def)

lemma get_dh2048_same: "get_dh2048 ans s = (dh, s') \<Longrightarrow> same_objects s s'"
  by (auto simp: get_dh2048_def lib_call_def Let_def split: if_splits)

lemma same_objects_trans: "same_objects s s' \<Longrightarrow> same_objects s' s'' \<Longrightarrow> same_objects s s''"
  by (simp add: same_objects_def)

lemma ds_createCTX_same: "ds_createCTX ans s = ret (ctx, s') \<Longrightarrow> same_objects s s'"
  by (auto simp: ds_createCTX_def lib_call_def Let_def split: if_splits prod.splits
      dest!: get_dh2048_same elim!: same_objects_trans [rotated])

lemma dc_createCTX_same: "dc_createCTX ans s = (ctx, s') \<Longrightarrow> same_objects s s'"
  by (auto simp: dc_createCTX_def lib_call_def Let_def split: if_splits)

lemma DtlsServer_init_ret:
  assumes "DtlsServer_init ans ops alloc env memp s = ret (r, s')"
  shows "\<exists>ctx. configs s' r = Some \<lparr>f_ctx = ctx, f_sm = next_obj s, f_mp = memp\<rparr> \<and>
    machines s' (next_obj s) = Some (ds_configStateMachine ops ctx (alloc memp) (new_StateMachine env))"
  using assms
  by (auto simp: DtlsServer_init_def catch_abort_ret rbind_eq_ret machine_new_def config_new_def Let_def
      split: if_splits prod.splits)

lemma DtlsClient_init_ret:
  assumes "DtlsClient_init ans ops alloc env dip dport s = ret (r, s')"
  shows "\<exists>ctx memp. configs s' r = Some \<lparr>cc_dstIP = dip, cc_dstPort = dport, cc_ctx = ctx, cc_sm = next_obj s, cc_mp = memp\<rparr> \<and>
    machines s' (next_obj s) = Some (dc_configStateMachine ops (alloc memp) (new_StateMachine env))"
  using assms
  by (auto simp: DtlsClient_init_def catch_abort_ret machine_new_def config_new_def Let_def
      split: if_splits prod.splits)

section \<open>Properties\<close>

lemma ds_createCTX_gives_up:
  assumes "(\<forall>cs. ans cs SSL_CTX_new = 0) \<or> (\<forall>cs ctx dh. ans cs (SSL_CTX_set_tmp_dh ctx dh) \<noteq> 1) \<or>
    (\<forall>cs ctx l. ans cs (SSL_CTX_set_cipher_list ctx l) \<noteq> 1)"
  shows "\<exists>s'. ds_createCTX ans s = ret (0, s')"
proof -
  obtain ctx s1 where c: "lib_call ans SSL_CTX_new s = (ctx, s1)" by fastforce
  obtain dh s2 where d: "get_dh2048 ans s1 = (dh, s2)" by fastforce
  show ?thesis using assms c by (auto simp: ds_createCTX_def d Let_def lib_call_def)
qed

text \<open>
  C24.  A DTLS server without a context.  When OpenSSL makes no context, or refuses the parameters of the key exchange or the
  list of ciphers, \<open>createCTX\<close> returns a null context and \<open>DtlsServer_init\<close> returns a server all the same, with
  that context in its configuration.  Its machine listens, and the first packet of any new connection fails an assertion,
  provided \<open>SSL_new\<close> returns null for a null context, as OpenSSL documents.
\<close>

theorem server_without_context:
  assumes gives_up: "(\<forall>cs. ans cs SSL_CTX_new = 0) \<or> (\<forall>cs ctx dh. ans cs (SSL_CTX_set_tmp_dh ctx dh) \<noteq> 1) \<or>
      (\<forall>cs ctx l. ans cs (SSL_CTX_set_cipher_list ctx l) \<noteq> 1)"
    and pool: "memp \<noteq> 0" and null: "\<And>l. fst (SSL_new ops 0 l) = 0"
  shows "\<exists>r s' config sm. DtlsServer_init ans ops alloc env memp s = ret (r, s') \<and> configs s' r = Some config \<and> f_ctx config = 0 \<and>
    machines s' (f_sm config) = Some sm \<and> listenToConnections sm \<and>
    (\<forall>x cur p cid. startStateFun (c_sm x) = startStateFun sm \<and> listenToConnections (c_sm x) \<and>
       ba_get (c_batch x) cur = ret p \<and> ident env (c_world x) p = Some cid \<and>
       hm_find (dense env) (stateTable (c_sm x)) cid = None \<and> hm_find (poolOps env) (c_pools x (connPool (c_sm x))) cid = None \<longrightarrow>
       runPkt env cur x = fail AssertFail)"
proof -
  let ?sm = "ds_configStateMachine ops 0 (alloc memp) (new_StateMachine env)"
  obtain obj s1 where m: "machine_new (new_StateMachine env) s = (obj, s1)" by fastforce
  obtain r s2 where c: "config_new \<lparr>f_ctx = 0, f_sm = 0, f_mp = 0\<rparr> s1 = (r, s2)" by fastforce
  obtain s3 where x: "ds_createCTX ans s2 = ret (0, s3)" using ds_createCTX_gives_up [OF gives_up] by blast
  let ?config = "\<lparr>f_ctx = 0, f_sm = obj, f_mp = memp\<rparr>"
  let ?s = "s3\<lparr>configs := (configs s3)(r \<mapsto> ?config), machines := (machines s3)(obj \<mapsto> ?sm)\<rparr>"
  have init: "DtlsServer_init ans ops alloc env memp s = ret (r, ?s)"
    using pool by (simp add: DtlsServer_init_def m c x catch_abort_def)
  have sm: "startStateFun ?sm = Some (ds_factory ops 0)" "listenToConnections ?sm"
    by (simp_all add: ds_configStateMachine_def registerEndStateID_def registerGetPktCB_def registerStartStateID_def Let_def)
  have "ds_factory ops 0 cid w = fail AssertFail" for cid w
    using null [of "lib w"] by (auto simp: ds_factory_def Let_def split: prod.splits)
  then have "findState env cid x = fail AssertFail"
    if "startStateFun (c_sm x) = startStateFun ?sm" "listenToConnections (c_sm x)" "hm_find (dense env) (stateTable (c_sm x)) cid = None"
      "hm_find (poolOps env) (c_pools x (connPool (c_sm x))) cid = None" for x cid
    using that sm(1) by (subst findState.simps) (simp add: findAndErase_def)
  then have "runPkt env cur x = fail AssertFail"
    if "startStateFun (c_sm x) = startStateFun ?sm \<and> listenToConnections (c_sm x) \<and> ba_get (c_batch x) cur = ret p \<and>
      ident env (c_world x) p = Some cid \<and> hm_find (dense env) (stateTable (c_sm x)) cid = None \<and>
      hm_find (poolOps env) (c_pools x (connPool (c_sm x))) cid = None" for x cur p cid
    using that by (simp add: runPkt_def)
  then show ?thesis using init sm(2) by (intro exI [of _ r] exI [of _ ?s] exI [of _ ?config] exI [of _ ?sm]) auto
qed

text \<open>
  Every free function reads a deleted object.  A DTLS server or client that was made by its init function is
  never freed properly: its free function deletes the configuration and then reads the pool to be freed from it.
\<close>

theorem free_reads_deleted_config:
  "(DtlsServer_init ans ops alloc env memp s = ret (r, s') \<longrightarrow> DtlsServer_free ans r s' = fail Dangling) \<and>
   (DtlsClient_init ans ops' alloc' env' dip dport t = ret (q, t') \<longrightarrow> DtlsClient_free ans q t' = fail Dangling)"
  by (auto dest!: DtlsServer_init_ret DtlsClient_init_ret
      simp: DtlsServer_free_def DtlsClient_free_def config_get_def machine_delete_def config_delete_def catch_abort_def Let_def)

text \<open>OpenSSL cannot make a context; a packet of a first connection arrives.\<close>

definition ex_ssl_ops :: "bio_lib ssl_ops" where
  "ex_ssl_ops = bio_lib_ops\<lparr>SSL_new := \<lambda>ctx l. (ctx, l)\<rparr>"

definition ex_handles :: "(ds_C_config, (bio_lib, (ConnectionID \<times> State) list) ds_sm) handles" where
  "ex_handles = \<lparr>calls = [], configs = Map.empty, machines = Map.empty, next_obj = 1\<rparr>"

definition ex_ds_env :: "(bio_lib, (ConnectionID \<times> State) list, (ConnectionID \<times> State) list) ds_env" where
  "ex_ds_env = dtls_env alist_ops alist_ops (\<lambda>w. (0, w))"

definition ex_ds_ctx :: "(bio_lib, (ConnectionID \<times> State) list) ds_sm \<Rightarrow>
    (bio_lib, (ConnectionID \<times> State) list, (ConnectionID \<times> State) list) ds_ctx" where
  "ex_ds_ctx sm = \<lparr>c_sm = sm\<lparr>stateTable := []\<rparr>, c_pools = (\<lambda>_. []),
     c_batch = \<lparr>pkts = [Some 9], sendMask = [True], numBufs = 1, numSlots = 1, fromLua = True\<rparr>,
     c_world = \<lparr>sw = \<lparr>w_pkts = [9 \<mapsto> \<lparr>m_data = (\<lambda>i. if i = 12 then 8 else if i = 14 then 0x45 else if i = 23 then 17 else 0),
       m_dataLen = 60, m_bufLen = 2048\<rparr>], w_heap = Map.empty, w_next = 1, w_rand = (\<lambda>_. 0), w_rnd = 0\<rparr>, lib = (\<lambda>_. [])\<rparr>\<rparr>"

lemma ex_ds_identified: "\<exists>cid. ident ex_ds_env (c_world (ex_ds_ctx sm)) 9 = Some cid"
proof -
  have "identify (\<lambda>i. if i = 12 then 8 else if i = 14 then 0x45 else if i = 23 then 17 else 0) \<noteq> None" by code_simp
  then show ?thesis by (auto simp: ex_ds_env_def dtls_env_def ex_ds_ctx_def)
qed

lemma ex_ssl_null: "fst (SSL_new ex_ssl_ops 0 l) = 0"
  by (simp add: ex_ssl_ops_def)

theorem server_without_context_witness:
  "\<exists>r s' sm. DtlsServer_init (\<lambda>_ _. 0) ex_ssl_ops (\<lambda>_ w. (0, w)) ex_ds_env 7 ex_handles = ret (r, s') \<and>
     runPkt ex_ds_env 0 (ex_ds_ctx sm) = fail AssertFail"
proof -
  obtain cid where c: "ident ex_ds_env (c_world (ex_ds_ctx sm)) 9 = Some cid" for sm
    using ex_ds_identified by (simp add: ex_ds_ctx_def) blast
  have x: "startStateFun (c_sm (ex_ds_ctx sm)) = startStateFun sm \<and> listenToConnections (c_sm (ex_ds_ctx sm)) \<and>
      ba_get (c_batch (ex_ds_ctx sm)) 0 = ret 9 \<and> ident ex_ds_env (c_world (ex_ds_ctx sm)) 9 = Some cid \<and>
      hm_find (dense ex_ds_env) (stateTable (c_sm (ex_ds_ctx sm))) cid = None \<and>
      hm_find (poolOps ex_ds_env) (c_pools (ex_ds_ctx sm) (connPool (c_sm (ex_ds_ctx sm)))) cid = None" if "listenToConnections sm" for sm
    using that c by (simp add: ex_ds_ctx_def ba_get_def) (simp add: ex_ds_env_def dtls_env_def alist_ops_def)
  have "\<forall>cs. (\<lambda>_ _. 0 :: ptr) cs SSL_CTX_new = 0" "(7 :: ptr) \<noteq> 0" by simp_all
  from server_without_context [where ans = "\<lambda>_ _. 0" and alloc = "\<lambda>_ w. (0, w)" and env = ex_ds_env and s = ex_handles,
      OF disjI1 [OF this(1)] this(2) ex_ssl_null]
  show ?thesis using x by (elim exE conjE) blast
qed

theorem free_reads_deleted_config_witness:
  "\<exists>r s'. DtlsServer_init (\<lambda>_ _. 0) ex_ssl_ops (\<lambda>_ w. (0, w)) ex_ds_env 7 ex_handles = ret (r, s') \<and>
     DtlsServer_free (\<lambda>_ _. 0) r s' = fail Dangling"
proof -
  obtain r s' where "DtlsServer_init (\<lambda>_ _. 0) ex_ssl_ops (\<lambda>_ w. (0, w)) ex_ds_env 7 ex_handles = ret (r, s')"
    by (simp add: DtlsServer_init_def catch_abort_def ex_handles_def machine_new_def config_new_def ds_createCTX_def
        lib_call_def Let_def)
  with free_reads_deleted_config show ?thesis by blast
qed

end
