(* ===== verification/Pcap_Backend.thy ===== *)
theory Pcap_Backend
  imports Packet_World Headers
begin

text \<open>
  The backend of \<open>include/pcapBackend.hpp\<close> and \<open>src/pcapBackend.cpp\<close>, which receives and sends batches of
  packets on a network device, with the buffers of \<open>include/samplePacket.hpp\<close> in a pool of its own.
  The library libpcap is a parameter: the frames that wait to be received, each with its length, and
  the result of injecting a frame.  The frames injected are recorded.  Of the opening of the
  device only its success is represented, and console output is not.  The class is compiled with
  \<open>WITH_PCAP\<close> only.

  A fresh buffer comes from \<open>malloc\<close>: its contents are given by \<open>junk\<close>.
\<close>

section \<open>The object\<close>

definition bufSize :: u32 where "bufSize = 2048"

record pcapBackend =
  packetPool :: "ptr list"
  srcMac :: "u8 list"

record 'o pcap_world =
  pw :: "'o hworld"
  rx :: "(u32 \<times> mem) list"
  tx :: "u8 list list"

text \<open>\<open>opened\<close> and \<open>nonblocking\<close> are the successes of \<open>pcap_open_live\<close> and \<open>pcap_setnonblock\<close>.\<close>

definition new_PcapBackend :: "bool \<Rightarrow> bool \<Rightarrow> u8 list \<Rightarrow> pcapBackend res" where
  "new_PcapBackend opened nonblocking mac =
    (if \<not> opened then fail Abort else if \<not> nonblocking then fail Abort
     else ret \<lparr>packetPool = [], srcMac = mac\<rparr>)"

text \<open>The destructor deletes every packet of the pool, with its buffer.\<close>

fun pb_delete_all :: "ptr list \<Rightarrow> 'o hworld \<Rightarrow> 'o hworld res" where
  "pb_delete_all [] h = ret h"
| "pb_delete_all (p # ps) h =
    (if w_pkts h p = None then fail Dangling else pb_delete_all ps (h\<lparr>w_pkts := (w_pkts h)(p := None)\<rparr>))"

definition delete_PcapBackend :: "pcapBackend \<Rightarrow> 'o pcap_world \<Rightarrow> 'o pcap_world res" where
  "delete_PcapBackend pb w = rbind (pb_delete_all (packetPool pb) (pw w)) (\<lambda>h. ret (w\<lparr>pw := h\<rparr>))"

definition pb_getPkt ::
  "(ptr \<Rightarrow> mem) \<Rightarrow> pcapBackend \<Rightarrow> 'o pcap_world \<Rightarrow> (ptr \<times> pcapBackend \<times> 'o pcap_world) res" where
  "pb_getPkt junk pb w =
    (if packetPool pb = [] then
       let p = w_next (pw w);
           b = \<lparr>m_data = junk p, m_dataLen = 0, m_bufLen = ucast bufSize\<rparr>
       in ret (p, pb, w\<lparr>pw := (pw w)\<lparr>w_pkts := (w_pkts (pw w))(p \<mapsto> b), w_next := p + 1\<rparr>\<rparr>)
     else
       let sp = last (packetPool pb);
           pb = pb\<lparr>packetPool := butlast (packetPool pb)\<rparr>
       in rbind (setDataLen sp 0 (pw w)) (\<lambda>h. ret (sp, pb, w\<lparr>pw := h\<rparr>)))"

section \<open>Receiving\<close>

text \<open>
  The loop takes a frame before it looks at the number received, so the frame that finds 64 packets
  received is lost.  The packets are filled but never stored in \<open>spArray\<close>.
\<close>

fun pb_recv_loop ::
  "(ptr \<Rightarrow> mem) \<Rightarrow> nat \<Rightarrow> (u32 \<times> mem) list \<Rightarrow> pcapBackend \<Rightarrow> 'o pcap_world \<Rightarrow> (nat \<times> pcapBackend \<times> 'o pcap_world) res" where
  "pb_recv_loop junk cnt [] pb w = ret (cnt, pb, w\<lparr>rx := []\<rparr>)"
| "pb_recv_loop junk cnt ((len, frame) # fs) pb w =
    (if 64 \<le> cnt then ret (cnt, pb, w\<lparr>rx := fs\<rparr>)
     else if bufSize < len then pb_recv_loop junk cnt fs pb w
     else rbind (pb_getPkt junk pb w) (\<lambda>(p, pb, w).
          rbind (getData p (pw w)) (\<lambda>m.
          rbind (writeData p (store_bytes 0 (load_bytes 0 (unat len) frame) m) (pw w)) (\<lambda>h.
          rbind (setDataLen p (ucast len) h) (\<lambda>h.
          pb_recv_loop junk (cnt + 1) fs pb (w\<lparr>pw := h\<rparr>))))))"

text \<open>\<open>spArray\<close> has 64 slots that nothing is written to; the batch is made of the first \<open>cnt\<close>.\<close>

definition pb_recvBatch ::
  "(ptr \<Rightarrow> mem) \<Rightarrow> pcapBackend \<Rightarrow> 'o pcap_world \<Rightarrow> (ptr bufArray \<times> pcapBackend \<times> 'o pcap_world) res" where
  "pb_recvBatch junk pb w =
    (let spArray = replicate 64 None in
     rbind (pb_recv_loop junk 0 (rx w) pb w) (\<lambda>(cnt, pb, w).
     rbind (new_BufArray [] (of_nat cnt) False) (\<lambda>ba.
     ret (ba\<lparr>pkts := take cnt spArray\<rparr>, pb, w))))"

section \<open>Sending and freeing\<close>

text \<open>The destination, source and type of the Ethernet header.\<close>

definition pb_ethernet :: "u8 list \<Rightarrow> mem \<Rightarrow> mem" where
  "pb_ethernet mac m =
    eth_setEthertype 0 ETHERTYPE_IPv4 (store_bytes 6 (take 6 mac) (store_bytes 0 (replicate 6 0xff) m))"

fun pb_send_loop ::
  "(u8 list \<Rightarrow> int) \<Rightarrow> ptr list \<Rightarrow> pcapBackend \<Rightarrow> 'o pcap_world \<Rightarrow> (pcapBackend \<times> 'o pcap_world) res" where
  "pb_send_loop inject [] pb w = ret (pb, w)"
| "pb_send_loop inject (p # ps) pb w =
    rbind (getData p (pw w)) (\<lambda>m.
    rbind (getDataLen p (pw w)) (\<lambda>len.
    let m = pb_ethernet (srcMac pb) m; frame = load_bytes 0 (unat len) m in
    rbind (writeData p m (pw w)) (\<lambda>h.
    if inject frame \<noteq> int (unat len) then fail Abort
    else pb_send_loop inject ps (pb\<lparr>packetPool := packetPool pb @ [p]\<rparr>) (w\<lparr>pw := h, tx := tx w @ [frame]\<rparr>))))"

text \<open>The array the packets are copied to has 64 slots.\<close>

definition pb_fits :: "ptr list \<Rightarrow> ptr list res" where
  "pb_fits ps = rbind (if 64 < length ps then fail OutOfBounds else ret ()) (\<lambda>_. ret ps)"

definition pb_sendBatch ::
  "(u8 list \<Rightarrow> int) \<Rightarrow> ptr bufArray \<Rightarrow> pcapBackend \<Rightarrow> 'o pcap_world \<Rightarrow> (pcapBackend \<times> 'o pcap_world) res" where
  "pb_sendBatch inject ba pb w =
    rbind (getSendBufs ba) (\<lambda>ps. rbind (pb_fits ps) (\<lambda>ps. pb_send_loop inject ps pb w))"

definition pb_freeBatch :: "ptr bufArray \<Rightarrow> pcapBackend \<Rightarrow> pcapBackend res" where
  "pb_freeBatch ba pb =
    rbind (getFreeBufs ba) (\<lambda>ps. rbind (pb_fits ps) (\<lambda>ps. ret (pb\<lparr>packetPool := packetPool pb @ ps\<rparr>)))"

section \<open>What the operations do\<close>

definition receivable :: "(u32 \<times> mem) list \<Rightarrow> (u32 \<times> mem) list" where
  "receivable fs = filter (\<lambda>(len, _). len \<le> bufSize) fs"

definition pool_live :: "pcapBackend \<Rightarrow> 'o hworld \<Rightarrow> bool" where
  "pool_live pb h \<longleftrightarrow> (\<forall>p \<in> set (packetPool pb). p \<in> dom (w_pkts h))"

lemma pb_delete_all_dead: "q \<in> set ps \<Longrightarrow> w_pkts h q = None \<Longrightarrow> pb_delete_all ps h = fail Dangling"
  by (induction ps arbitrary: h) auto

text \<open>Destroying a backend is safe exactly when no packet is in its pool twice.\<close>

lemma pb_delete_all_ret:
  "\<forall>p \<in> set ps. p \<in> dom (w_pkts h) \<Longrightarrow> (if distinct ps then \<exists>h'. pb_delete_all ps h = ret h' \<and> dom (w_pkts h') = dom (w_pkts h) - set ps
     else pb_delete_all ps h = fail Dangling)"
proof (induction ps arbitrary: h)
  case (Cons p ps)
  let ?h = "h\<lparr>w_pkts := (w_pkts h)(p := None)\<rparr>"
  from Cons.prems have p: "w_pkts h p \<noteq> None" by auto
  show ?case
  proof (cases "p \<in> set ps")
    case True
    with p show ?thesis by (simp add: pb_delete_all_dead [OF True])
  next
    case False
    with Cons.prems have "\<forall>q \<in> set ps. q \<in> dom (w_pkts ?h)" by auto
    from Cons.IH [OF this] False p show ?thesis by auto
  qed
qed simp

lemma pb_getPkt_ret:
  assumes "pool_live pb (pw w)"
  obtains p pb' w' where "pb_getPkt junk pb w = ret (p, pb', w')" and "pool_live pb' (pw w')"
    and "p \<in> dom (w_pkts (pw w'))"
proof (cases "packetPool pb = []")
  case True
  with that show thesis by (auto simp: pb_getPkt_def pool_live_def Let_def)
next
  case False
  then have "last (packetPool pb) \<in> dom (w_pkts (pw w))"
    using assms by (simp add: pool_live_def)
  then obtain b where b: "w_pkts (pw w) (last (packetPool pb)) = Some b" by blast
  let ?w = "w\<lparr>pw := (pw w)\<lparr>w_pkts := (w_pkts (pw w))(last (packetPool pb) \<mapsto> b\<lparr>m_dataLen := 0\<rparr>)\<rparr>\<rparr>"
  have "pb_getPkt junk pb w = ret (last (packetPool pb), pb\<lparr>packetPool := butlast (packetPool pb)\<rparr>, ?w)"
    using False b by (simp add: pb_getPkt_def Let_def setDataLen_def)
  moreover have "pool_live (pb\<lparr>packetPool := butlast (packetPool pb)\<rparr>) (pw ?w)"
    using assms by (auto simp: pool_live_def dest: in_set_butlastD)
  ultimately show thesis by (rule that) simp
qed

lemma pb_recv_loop_ret:
  assumes "pool_live pb (pw w)" and "cnt \<le> 64"
  shows "\<exists>pb' w'. pb_recv_loop junk cnt fs pb w = ret (min 64 (cnt + length (receivable fs)), pb', w')"
  using assms
proof (induction junk cnt fs pb w rule: pb_recv_loop.induct)
  case (1 junk cnt pb w)
  then show ?case by (simp add: receivable_def)
next
  case (2 junk cnt len frame fs pb w)
  consider "64 \<le> cnt" | "cnt < 64" "bufSize < len" | "cnt < 64" "len \<le> bufSize" by fastforce
  then show ?case
  proof cases
    case 1
    with 2(4) show ?thesis by (simp add: receivable_def)
  next
    case 2
    with "2.IH"(1) "2.prems" show ?thesis by (simp add: receivable_def not_le [symmetric])
  next
    case 3
    obtain p pb1 w1 where get: "pb_getPkt junk pb w = ret (p, pb1, w1)" "pool_live pb1 (pw w1)"
      "p \<in> dom (w_pkts (pw w1))"
      using pb_getPkt_ret [OF "2.prems"(1)] .
    then obtain b where b: "w_pkts (pw w1) p = Some b" by blast
    define w2 where "w2 = w1\<lparr>pw := (pw w1)\<lparr>w_pkts := (w_pkts (pw w1))(p \<mapsto>
      b\<lparr>m_data := store_bytes 0 (load_bytes 0 (unat len) frame) (m_data b), m_dataLen := ucast len\<rparr>)\<rparr>\<rparr>"
    have loop: "pb_recv_loop junk cnt ((len, frame) # fs) pb w = pb_recv_loop junk (cnt + 1) fs pb1 w2"
      using 3 by (simp add: get(1) b pkt_defs w2_def leD)
    have "pool_live pb1 (pw (w2\<lparr>pw := pw w2\<rparr>))"
      using get(2) by (simp add: pool_live_def w2_def)
    from "2.IH"(2) [OF _ _ this] 3 show ?thesis
      unfolding loop by (simp add: receivable_def not_less)
  qed
qed

text \<open>The frame as it is sent: the buffer with the link layer addresses and type filled in.\<close>

definition pb_frame :: "u8 list \<Rightarrow> mbuf \<Rightarrow> u8 list" where
  "pb_frame mac b = load_bytes 0 (unat (m_dataLen b)) (pb_ethernet mac (m_data b))"

lemma length_pb_frame [simp]: "length (pb_frame mac b) = unat (m_dataLen b)"
  by (simp add: pb_frame_def)

lemma ntohs_IPv4: "htons ETHERTYPE_IPv4 = 0x0008"
  by code_simp

lemma pb_frame_header:
  assumes "length mac = 6" and "14 \<le> unat (m_dataLen b)"
  shows "take 14 (pb_frame mac b) = replicate 6 0xff @ mac @ [8, 0]"
proof (rule nth_equalityI)
  show "length (take 14 (pb_frame mac b)) = length (replicate 6 0xff @ mac @ [8, 0])"
    using assms by simp
  fix i assume "i < length (take 14 (pb_frame mac b))"
  then have i: "i < 14" using assms by simp
  have "pb_frame mac b ! i = pb_ethernet mac (m_data b) i"
    using i assms by (simp add: pb_frame_def load_bytes_def)
  also have "\<dots> = (replicate 6 0xff @ mac @ [8, 0]) ! i"
    using i assms by (auto simp: pb_ethernet_def eth_setEthertype_def ntohs_IPv4 store16_apply store_bytes_apply
        nth_append nth_Cons' less_Suc_eq)
  finally show "take 14 (pb_frame mac b) ! i = (replicate 6 0xff @ mac @ [8, 0]) ! i" using i by simp
qed

lemma pb_ethernet_twice: "pb_ethernet mac (pb_ethernet mac m) = pb_ethernet mac m"
  by (rule ext) (simp add: pb_ethernet_def eth_setEthertype_def store16_apply store_bytes_apply)

lemma pb_send_loop_ret:
  assumes "\<forall>f. inject f = int (length f)" and "\<forall>p \<in> set ps. p \<in> dom (w_pkts (pw w))"
  shows "\<exists>w'. pb_send_loop inject ps pb w = ret (pb\<lparr>packetPool := packetPool pb @ ps\<rparr>, w') \<and>
    tx w' = tx w @ map (\<lambda>p. pb_frame (srcMac pb) (the (w_pkts (pw w) p))) ps"
  using assms(2)
proof (induction ps arbitrary: pb w)
  case Nil
  then show ?case by simp
next
  case (Cons p ps)
  then obtain b where b: "w_pkts (pw w) p = Some b" by auto
  define b' where "b' = b\<lparr>m_data := pb_ethernet (srcMac pb) (m_data b)\<rparr>"
  define w1 where "w1 = w\<lparr>pw := (pw w)\<lparr>w_pkts := (w_pkts (pw w))(p \<mapsto> b')\<rparr>, tx := tx w @ [pb_frame (srcMac pb) b]\<rparr>"
  let ?pb = "pb\<lparr>packetPool := packetPool pb @ [p]\<rparr>"
  have loop: "pb_send_loop inject (p # ps) pb w = pb_send_loop inject ps ?pb w1"
    using assms(1) by (simp add: b pkt_defs w1_def b'_def pb_frame_def Let_def)
  have frames: "pb_frame (srcMac pb) (the (w_pkts (pw w1) q)) = pb_frame (srcMac pb) (the (w_pkts (pw w) q))" for q
    by (simp add: w1_def b'_def b pb_frame_def pb_ethernet_twice)
  have "\<exists>w'. pb_send_loop inject ps ?pb w1 = ret (?pb\<lparr>packetPool := packetPool ?pb @ ps\<rparr>, w') \<and>
    tx w' = tx w1 @ map (\<lambda>p. pb_frame (srcMac ?pb) (the (w_pkts (pw w1) p))) ps"
    by (rule Cons.IH) (use Cons.prems in \<open>auto simp: w1_def\<close>)
  moreover have "tx w1 = tx w @ [pb_frame (srcMac pb) b]" by (simp add: w1_def)
  moreover have "srcMac ?pb = srcMac pb" by simp
  ultimately show ?case unfolding loop by (simp add: frames b)
qed

lemma pb_fits_ret: "length ps \<le> 64 \<Longrightarrow> pb_fits ps = ret ps"
  by (simp add: pb_fits_def)

section \<open>Properties\<close>

text \<open>
  C38.  A batch that was received cannot be used.  When at least one frame of at most \<open>bufSize\<close>
  bytes waits, \<open>recvBatch\<close> returns a batch of as many packets as there are such frames, 64 at
  most, and no packet of it can be read; when none waits, it aborts.  The frames
  were copied to packets, but the packets were not stored in the array of the batch.
\<close>

theorem received_batch_unusable:
  assumes "pool_live pb (pw w)"
  shows "if receivable (rx w) = [] then pb_recvBatch junk pb w = fail Abort
    else \<exists>ba pb' w'. pb_recvBatch junk pb w = ret (ba, pb', w') \<and>
      unat (numBufs ba) = min 64 (length (receivable (rx w))) \<and>
      length (pkts ba) = unat (numBufs ba) \<and> (\<forall>i. ba_get ba i = fail OutOfBounds)"
proof -
  define n where "n = min 64 (length (receivable (rx w)))"
  have n: "unat (of_nat n :: u32) = n" by (intro unat_of_nat_less) (simp add: n_def)
  obtain pb' w' where loop: "pb_recv_loop junk 0 (rx w) pb w = ret (n, pb', w')"
    using pb_recv_loop_ret [OF assms, of 0 junk "rx w"] by (auto simp: n_def)
  show ?thesis
  proof (cases "receivable (rx w) = []")
    case True
    with loop show ?thesis by (simp add: pb_recvBatch_def new_BufArray_def n_def)
  next
    case False
    then have "0 < n" by (simp add: n_def)
    then have "(of_nat n :: u32) \<noteq> 0" using n by auto
    with False loop n show ?thesis
      by (simp add: pb_recvBatch_def new_BufArray_def ba_get_def) (simp add: n_def)
  qed
qed

text \<open>A frame on the wire for a packet: the bytes of the packet, the first 14 of them replaced by the header.\<close>

definition frame_of :: "u8 list \<Rightarrow> mbuf \<Rightarrow> u8 list \<Rightarrow> bool" where
  "frame_of mac b f \<longleftrightarrow> length f = unat (m_dataLen b) \<and>
     take 14 f = take (length f) (replicate 6 0xff @ mac @ [8, 0]) \<and>
     (\<forall>i. 14 \<le> i \<and> i < length f \<longrightarrow> f ! i = m_data b i)"

lemma pb_frame_of:
  assumes "length mac = 6"
  shows "frame_of mac b (pb_frame mac b)"
proof -
  define hdr where "hdr = replicate 6 0xff @ mac @ [8, 0 :: u8]"
  have l: "length hdr = 14" using assms by (simp add: hdr_def)
  have h: "pb_ethernet mac (m_data b) i = hdr ! i" if "i < 14" for i
    unfolding hdr_def using that assms by (auto simp: pb_ethernet_def eth_setEthertype_def ntohs_IPv4 store16_apply store_bytes_apply
        nth_append nth_Cons' less_Suc_eq)
  have "take 14 (pb_frame mac b) = take (length (pb_frame mac b)) hdr"
    using l h by (intro nth_equalityI) (simp_all add: pb_frame_def load_bytes_def)
  moreover have "pb_frame mac b ! i = m_data b i" if "14 \<le> i" "i < length (pb_frame mac b)" for i
    using that assms by (simp add: pb_frame_def load_bytes_def pb_ethernet_def eth_setEthertype_def store16_apply store_bytes_apply)
  ultimately show ?thesis unfolding frame_of_def hdr_def by simp
qed

lemma list_all2_map_self: "(\<And>x. x \<in> set xs \<Longrightarrow> P x (g x)) \<Longrightarrow> list_all2 P xs (map g xs)"
  by (induction xs) simp_all

text \<open>
  C37.  The backend recycles a batch.  When a well-formed batch of at most 64 packets is sent and freed and
  the device takes every frame, each packet of the batch is in the pool exactly once more than before, and the frames injected
  are those of the packets marked for sending, one for each, in the order of the batch: as long as the data of
  the packet, starting with the broadcast address, the address of the device and the type of IPv4 (or as much of these 14 bytes
  as it is long), and with the bytes of the packet from there on.
\<close>

theorem backend_recycles_batch:
  assumes "ba_wf ba" and "numBufs ba \<le> 64" and "length (srcMac pb) = 6"
    and "\<forall>p \<in> fst ` set (ba_list ba). p \<in> dom (w_pkts (pw w))" and "\<forall>f. inject f = int (length f)"
  shows "\<exists>pb1 w1 pb2 frames. pb_sendBatch inject ba pb w = ret (pb1, w1) \<and> pb_freeBatch ba pb1 = ret pb2 \<and>
    mset (packetPool pb2) = mset (packetPool pb) + mset (map fst (ba_list ba)) \<and>
    tx w1 = tx w @ frames \<and> length frames = unat (getSendCount ba) \<and>
    list_all2 (\<lambda>p f. \<exists>b. w_pkts (pw w) p = Some b \<and> frame_of (srcMac pb) b f) (map fst (filter snd (ba_list ba))) frames"
proof -
  let ?s = "map fst (filter snd (ba_list ba))" and ?f = "map fst (filter (Not \<circ> snd) (ba_list ba))"
  let ?frames = "map (\<lambda>p. pb_frame (srcMac pb) (the (w_pkts (pw w) p))) ?s"
  have "length (ba_list ba) \<le> 64" using assms(2) by (simp add: word_le_nat_alt)
  then have fits: "length ?s \<le> 64" "length ?f \<le> 64"
    using length_filter_le le_trans by (metis length_map)+
  obtain w1 where sent: "pb_send_loop inject ?s pb w = ret (pb\<lparr>packetPool := packetPool pb @ ?s\<rparr>, w1)"
    "tx w1 = tx w @ ?frames"
    using pb_send_loop_ret [of inject ?s w pb] assms(4,5) by auto
  have "mset ?s + mset ?f = mset (map fst (ba_list ba))"
    using ba.partition [OF assms(1)] by (simp add: getSendBufs_spec [OF assms(1)] getFreeBufs_spec [OF assms(1)])
  moreover have "length ?frames = unat (getSendCount ba)"
    by (simp add: getSendCount_spec [OF assms(1)])
  moreover have "\<exists>b. w_pkts (pw w) p = Some b \<and> frame_of (srcMac pb) b (pb_frame (srcMac pb) (the (w_pkts (pw w) p)))"
    if "p \<in> set ?s" for p
    using that assms(4) pb_frame_of [OF assms(3)] by fastforce
  then have "list_all2 (\<lambda>p f. \<exists>b. w_pkts (pw w) p = Some b \<and> frame_of (srcMac pb) b f) ?s ?frames"
    by (rule list_all2_map_self)
  ultimately show ?thesis
    using sent fits
    by (intro exI [of _ "pb\<lparr>packetPool := packetPool pb @ ?s\<rparr>"] exI [of _ w1] exI [of _ ?frames]
        exI [of _ "pb\<lparr>packetPool := (packetPool pb @ ?s) @ ?f\<rparr>"])
      (simp add: pb_sendBatch_def pb_freeBatch_def getSendBufs_spec [OF assms(1)] getFreeBufs_spec [OF assms(1)] pb_fits_ret)
qed

text \<open>Two frames wait, one of them too long.\<close>

definition ex_backend :: pcapBackend where
  "ex_backend = \<lparr>packetPool = [], srcMac = [2, 0, 0, 0, 0, 1]\<rparr>"

definition ex_pw :: "unit pcap_world" where
  "ex_pw = \<lparr>pw = \<lparr>w_pkts = (\<lambda>p. if p < 10 then Some \<lparr>m_data = (\<lambda>_. 0), m_dataLen = 60, m_bufLen = 2048\<rparr> else None),
      w_heap = Map.empty, w_next = 10, w_rand = (\<lambda>_. 0), w_rnd = 0\<rparr>,
    rx = [(60, \<lambda>_. 7), (4000, \<lambda>_. 7)], tx = []\<rparr>"

theorem received_batch_unusable_witness:
  "\<exists>ba pb' w'. pb_recvBatch (\<lambda>_ _. 0) ex_backend ex_pw = ret (ba, pb', w') \<and> unat (numBufs ba) = 1 \<and>
     ba_get ba 0 = fail OutOfBounds"
proof -
  have r: "length (receivable (rx ex_pw)) = 1"
    by (simp add: receivable_def ex_pw_def bufSize_def word_le_nat_alt)
  then have "receivable (rx ex_pw) \<noteq> []" by auto
  with received_batch_unusable [of ex_backend ex_pw "\<lambda>_ _. 0"] r show ?thesis
    by (auto simp: pool_live_def ex_backend_def)
qed

theorem backend_recycles_batch_witness:
  "\<exists>pb1 w1 pb2 frames. pb_sendBatch (\<lambda>f. int (length f)) example_batch ex_backend ex_pw = ret (pb1, w1) \<and>
     pb_freeBatch example_batch pb1 = ret pb2 \<and> mset (packetPool pb2) = {#7, 8, 9#} \<and> length frames = 2 \<and>
     tx w1 = frames"
proof -
  have c: "getSendCount example_batch = 2" by (simp add: example_batch_def getSendCount_def)
  have e: "packetPool ex_backend = []" "length (srcMac ex_backend) = 6" "numBufs example_batch \<le> 64"
    by (simp_all add: ex_backend_def example_batch_def)
  have d: "{7, 8, 9} \<subseteq> dom (w_pkts (pw ex_pw))" and t: "tx ex_pw = []" by (auto simp: ex_pw_def)
  from backend_recycles_batch [OF example_batch_wf e(3,2), of ex_pw "\<lambda>f. int (length f)"] d
  show ?thesis by (simp add: example_batch_list e c t) blast
qed

end
