(* ===== verification/Hexdump.thy ===== *)
theory Hexdump
  imports Memory
begin

text \<open>
  The dumps of \<open>src/hexdump.cpp\<close>.  What is written to the console is a string; the text that the
  stream makes of the address \<open>data\<close> is a parameter.  \<open>dataLen\<close> is an \<open>int\<close>, and
  nothing is dumped when it is negative.  Characters are printed as in the C locale.

  The two dumps are related to each other and to the bytes: \<open>read_dump\<close> reads the bytes back from
  a dump, and cutting the first columns off a dump leaves the dump of the bytes alone.
\<close>

section \<open>Numbers and characters\<close>

definition nibble :: "bool \<Rightarrow> nat \<Rightarrow> char" where
  "nibble upper d = (if upper then ''0123456789ABCDEF'' else ''0123456789abcdef'') ! d"

fun show_hex :: "bool \<Rightarrow> nat \<Rightarrow> string" where
  "show_hex upper n = (if n < 16 then [nibble upper n] else show_hex upper (n div 16) @ [nibble upper (n mod 16)])"

declare show_hex.simps [simp del]

text \<open>\<open>setfill('0') << setw(w)\<close>: at least \<open>w\<close> characters.\<close>

definition setw :: "nat \<Rightarrow> string \<Rightarrow> string" where
  "setw w s = replicate (w - length s) (CHR ''0'') @ s"

definition newline :: char where
  "newline = CHR 0x0A"

definition isprint :: "u8 \<Rightarrow> bool" where
  "isprint c \<longleftrightarrow> 0x20 \<le> c \<and> c \<le> 0x7E"

definition dump_byte :: "u8 \<Rightarrow> string" where
  "dump_byte b = CHR '' '' # setw 2 (show_hex True (unat b))"

section \<open>The dumps\<close>

definition dump_line :: "nat \<Rightarrow> u8 list \<Rightarrow> string" where
  "dump_line it line =
    (let ascii = ''0x'' @ setw 4 (show_hex False it) @ '' : '';
         ascii = ascii @ map (\<lambda>c. if isprint c then char_of (unat c) else CHR ''.'') line;
         hexDump = concat (map dump_byte line);
         ascii = ascii @ replicate (16 - length line) (CHR '' '')
     in ascii @ hexDump @ [newline])"

function hexdump_loop :: "mem \<Rightarrow> int \<Rightarrow> nat \<Rightarrow> string \<Rightarrow> string" where
  "hexdump_loop start dataLen it all =
    (if 0 < dataLen then
       let lineLength = nat (min 16 dataLen);
           line = load_bytes it lineLength start
       in hexdump_loop start (dataLen - 16) (it + lineLength) (all @ dump_line it line)
     else all)"
  by pat_completeness auto
termination by (relation "measure (\<lambda>(_, n, _). nat n)") auto

declare hexdump_loop.simps [simp del]

definition hexdump :: "string \<Rightarrow> mem \<Rightarrow> int \<Rightarrow> string" where
  "hexdump address data dataLen =
    ''Hexdump of: '' @ address @ [newline] @ hexdump_loop data dataLen 0 ''''"

function hexdumpHexOnly_loop :: "mem \<Rightarrow> int \<Rightarrow> nat \<Rightarrow> string \<Rightarrow> string" where
  "hexdumpHexOnly_loop start dataLen it all =
    (if 0 < dataLen then
       let lineLength = nat (min 16 dataLen);
           line = load_bytes it lineLength start
       in hexdumpHexOnly_loop start (dataLen - 16) (it + lineLength) (all @ concat (map dump_byte line) @ [newline])
     else all)"
  by pat_completeness auto
termination by (relation "measure (\<lambda>(_, n, _). nat n)") auto

declare hexdumpHexOnly_loop.simps [simp del]

definition hexdumpHexOnly :: "string \<Rightarrow> mem \<Rightarrow> int \<Rightarrow> string" where
  "hexdumpHexOnly address data dataLen =
    ''Hexdump of: '' @ address @ [newline] @ hexdumpHexOnly_loop data dataLen 0 ''''"

section \<open>Reading a dump\<close>

definition nibble_value :: "char \<Rightarrow> nat" where
  "nibble_value c = (let n = of_char c in if n < 65 then n - 48 else n - 55)"

fun read_dump :: "string \<Rightarrow> u8 list" where
  "read_dump (c # a # b # cs) =
    (if c = CHR '' '' then of_nat (nibble_value a * 16 + nibble_value b) # read_dump cs else read_dump (a # b # cs))"
| "read_dump _ = []"

text \<open>The lines of a text, and the lines without their first \<open>n\<close> characters.\<close>

fun cut_columns :: "nat \<Rightarrow> nat \<Rightarrow> string \<Rightarrow> string" where
  "cut_columns n k [] = []"
| "cut_columns n k (c # cs) =
    (if c = newline then newline # cut_columns n n cs
     else case k of 0 \<Rightarrow> c # cut_columns n 0 cs | Suc k \<Rightarrow> cut_columns n k cs)"

lemma less_16: "n < 16 \<Longrightarrow> n \<in> {0, 1, 2, 3, 4, 5, 6, 7, 8, 9, 10, 11, 12, 13, 14, 15}" for n :: nat
  by simp arith

lemma nibble_value [simp]: "n < 16 \<Longrightarrow> nibble_value (nibble True n) = n"
  by (drule less_16) (auto simp: nibble_def nibble_value_def)

lemma nibble_not_newline [simp]: "n < 16 \<Longrightarrow> nibble u n \<noteq> newline"
  by (drule less_16) (auto simp: nibble_def newline_def)

lemma dump_byte_eq: "dump_byte b = [CHR '' '', nibble True (unat b div 16), nibble True (unat b mod 16)]"
proof (cases "unat b < 16")
  case True
  then show ?thesis by (simp add: dump_byte_def setw_def show_hex.simps nibble_def [of _ 0])
next
  case False
  moreover have "unat b div 16 < 16" using unat_u8_less [of b] by (simp add: less_mult_imp_div_less)
  ultimately show ?thesis by (simp add: dump_byte_def setw_def show_hex.simps)
qed

lemma read_dump_byte [simp]: "read_dump (dump_byte b @ cs) = b # read_dump cs"
proof -
  have "unat b div 16 < 16" using unat_u8_less [of b] by (simp add: less_mult_imp_div_less)
  then show ?thesis by (simp add: dump_byte_eq)
qed

lemma read_dump_line: "read_dump (concat (map dump_byte bs) @ newline # cs) = bs @ read_dump (newline # cs)"
  by (induction bs) simp_all
section \<open>The loops\<close>

text \<open>The accumulator only grows; the first line of a dump that is not empty.\<close>

lemma hexdump_loop_acc: "hexdump_loop m n it all = all @ hexdump_loop m n it ''''"
proof (induction "nat n" arbitrary: n it all rule: less_induct)
  case less
  show ?case
  proof (cases "0 < n")
    case True
    let ?k = "it + nat (min 16 n)" and ?l = "dump_line it (load_bytes it (nat (min 16 n)) m)"
    have step: "hexdump_loop m n it xs = hexdump_loop m (n - 16) ?k (xs @ ?l)" for xs
      using True by (subst hexdump_loop.simps) (simp add: Let_def)
    have tail: "hexdump_loop m (n - 16) ?k xs = xs @ hexdump_loop m (n - 16) ?k ''''" for xs
      using True by (intro less) simp
    show ?thesis unfolding step tail [of "_ @ _"] by simp
  qed (simp add: hexdump_loop.simps)
qed

lemma hexdumpHexOnly_loop_acc: "hexdumpHexOnly_loop m n it all = all @ hexdumpHexOnly_loop m n it ''''"
proof (induction "nat n" arbitrary: n it all rule: less_induct)
  case less
  show ?case
  proof (cases "0 < n")
    case True
    let ?k = "it + nat (min 16 n)" and ?l = "concat (map dump_byte (load_bytes it (nat (min 16 n)) m)) @ [newline]"
    have step: "hexdumpHexOnly_loop m n it xs = hexdumpHexOnly_loop m (n - 16) ?k (xs @ ?l)" for xs
      using True by (subst hexdumpHexOnly_loop.simps) (simp add: Let_def)
    have tail: "hexdumpHexOnly_loop m (n - 16) ?k xs = xs @ hexdumpHexOnly_loop m (n - 16) ?k ''''" for xs
      using True by (intro less) simp
    show ?thesis unfolding step tail [of "_ @ _"] by simp
  qed (simp add: hexdumpHexOnly_loop.simps)
qed

lemma hexdump_loop_step:
  "0 < n \<Longrightarrow> hexdump_loop m n it '''' = dump_line it (load_bytes it (nat (min 16 n)) m) @
     hexdump_loop m (n - 16) (it + nat (min 16 n)) ''''"
  by (subst hexdump_loop.simps) (simp add: Let_def, subst hexdump_loop_acc, simp)

lemma hexdumpHexOnly_loop_step:
  "0 < n \<Longrightarrow> hexdumpHexOnly_loop m n it '''' = concat (map dump_byte (load_bytes it (nat (min 16 n)) m)) @ newline #
     hexdumpHexOnly_loop m (n - 16) (it + nat (min 16 n)) ''''"
  by (subst hexdumpHexOnly_loop.simps) (simp add: Let_def, subst hexdumpHexOnly_loop_acc, simp)

lemma dump_loops_end [simp]:
  "n \<le> 0 \<Longrightarrow> hexdump_loop m n it '''' = ''''" "n \<le> 0 \<Longrightarrow> hexdumpHexOnly_loop m n it '''' = ''''"
  by (simp_all add: hexdump_loop.simps hexdumpHexOnly_loop.simps)

lemma read_dump_newline: "cs = [] \<or> 2 \<le> length cs \<Longrightarrow> read_dump (newline # cs) = read_dump cs"
  by (cases cs rule: read_dump.cases) (auto simp: newline_def)

lemma hexOnly_loop_length: "hexdumpHexOnly_loop m n it '''' = '''' \<or> 2 \<le> length (hexdumpHexOnly_loop m n it '''')"
proof (cases "0 < n")
  case True
  then have "load_bytes it (nat (min 16 n)) m \<noteq> []" by (simp add: load_bytes_def)
  then obtain b bs where "load_bytes it (nat (min 16 n)) m = b # bs" by (cases "load_bytes it (nat (min 16 n)) m") auto
  with True show ?thesis by (simp add: hexdumpHexOnly_loop_step dump_byte_eq)
qed simp

lemma load_bytes_append: "load_bytes a k m @ load_bytes (a + k) l m = load_bytes a (k + l) m"
  by (intro nth_equalityI) (auto simp: load_bytes_def nth_append)

lemma read_hexOnly_loop: "read_dump (hexdumpHexOnly_loop m n it '''') = load_bytes it (nat n) m"
proof (induction "nat n" arbitrary: n it rule: less_induct)
  case less
  show ?case
  proof (cases "0 < n")
    case True
    let ?k = "nat (min 16 n)"
    from True have "read_dump (hexdumpHexOnly_loop m (n - 16) (it + ?k) '''') = load_bytes (it + ?k) (nat (n - 16)) m"
      by (intro less) simp
    moreover have "?k + nat (n - 16) = nat n" using True by linarith
    ultimately show ?thesis
      using True by (simp add: hexdumpHexOnly_loop_step read_dump_line read_dump_newline [OF hexOnly_loop_length] load_bytes_append)
  qed (simp add: load_bytes_def)
qed

section \<open>Columns\<close>

lemma cut_columns_prefix: "newline \<notin> set xs \<Longrightarrow> cut_columns n (length xs) (xs @ ys) = cut_columns n 0 ys"
  by (induction xs) auto

lemma cut_columns_rest: "newline \<notin> set xs \<Longrightarrow> cut_columns n 0 (xs @ newline # ys) = xs @ newline # cut_columns n n ys"
  by (induction xs) auto

lemma length_show_hex: "0 < k \<Longrightarrow> n < 16 ^ k \<Longrightarrow> length (show_hex u n) \<le> k"
proof (induction u n arbitrary: k rule: show_hex.induct)
  case (1 u n)
  then obtain j where k: "k = Suc j" by (cases k) auto
  show ?case
  proof (cases "n < 16")
    case False
    then have "0 < j" using 1(3) k by (cases j) auto
    moreover have "n div 16 < 16 ^ j" using 1(3) k by (simp add: less_mult_imp_div_less)
    ultimately have "length (show_hex u (n div 16)) \<le> j" using 1(1) False by blast
    with False k show ?thesis by (subst show_hex.simps) simp
  qed (use k in \<open>simp add: show_hex.simps\<close>)
qed

lemma show_hex_one_line: "newline \<notin> set (show_hex u n)"
proof (induction u n rule: show_hex.induct)
  case (1 u n)
  then show ?case
    by (subst show_hex.simps) (use nibble_not_newline [of n u, symmetric] nibble_not_newline [of "n mod 16" u, symmetric] in auto)
qed

lemma concat_one_line: "newline \<notin> set (concat (map dump_byte bs))"
proof -
  have "newline \<notin> set (dump_byte b)" for b
    using show_hex_one_line [of True "unat b"] by (auto simp: dump_byte_def setw_def newline_def)
  then show ?thesis by auto
qed

lemma printed_not_newline: "isprint c \<Longrightarrow> char_of (unat c) \<noteq> newline"
proof
  assume p: "isprint c" and "char_of (unat c) = newline"
  then have "unat c = of_char newline" by (metis of_char_of mod_less unat_u8_less)
  with p show False by (simp add: isprint_def newline_def word_le_nat_alt)
qed

lemma cut_dump_line:
  assumes "it < 65536" and "length line \<le> 16"
  shows "cut_columns 25 25 (dump_line it line @ rest) = concat (map dump_byte line) @ newline # cut_columns 25 25 rest"
proof -
  define pre where "pre = ''0x'' @ setw 4 (show_hex False it) @ '' : '' @
    map (\<lambda>c. if isprint c then char_of (unat c) else CHR ''.'') line @ replicate (16 - length line) (CHR '' '')"
  have len: "length pre = 25" using length_show_hex [of 4 it False] assms by (simp add: pre_def setw_def)
  have nl: "newline \<notin> set pre"
    using show_hex_one_line printed_not_newline by (auto simp: pre_def setw_def) (auto simp: newline_def)
  have "dump_line it line @ rest = pre @ concat (map dump_byte line) @ newline # rest"
    by (simp add: dump_line_def pre_def Let_def)
  then show ?thesis
    using cut_columns_prefix [OF nl, of 25] by (simp only: len cut_columns_rest [OF concat_one_line])
qed

lemma cut_hexdump_loop:
  "int it + n \<le> 65536 \<Longrightarrow> cut_columns 25 25 (hexdump_loop m n it '''') = hexdumpHexOnly_loop m n it ''''"
proof (induction "nat n" arbitrary: n it rule: less_induct)
  case less
  show ?case
  proof (cases "0 < n")
    case True
    let ?k = "nat (min 16 n)"
    have "cut_columns 25 25 (hexdump_loop m (n - 16) (it + ?k) '''') = hexdumpHexOnly_loop m (n - 16) (it + ?k) ''''"
    proof (cases "n \<le> 16")
      case False
      with less.prems show ?thesis by (intro less) auto
    qed simp
    moreover have "it < 65536" "length (load_bytes it ?k m) \<le> 16" using True less.prems by auto
    ultimately show ?thesis
      using True by (simp add: hexdump_loop_step hexdumpHexOnly_loop_step cut_dump_line)
  qed simp
qed

section \<open>Properties\<close>

text \<open>
  C39.  Dumps can be read back.  Below the first line \<open>hexdumpHexOnly\<close> prints exactly the \<open>dataLen\<close> bytes of the
  memory, in order, so that reading the text gives them back; and for a memory of at most 65536
  bytes, whose offsets have four digits, \<open>hexdump\<close> prints the same with 25 more columns on each line: the
  offset and sixteen characters.
\<close>

theorem dumps_read_back:
  "\<exists>hexes full. hexdumpHexOnly address m n = ''Hexdump of: '' @ address @ [newline] @ hexes \<and>
     hexdump address m n = ''Hexdump of: '' @ address @ [newline] @ full \<and>
     read_dump hexes = load_bytes 0 (nat n) m \<and>
     (n \<le> 65536 \<longrightarrow> cut_columns 25 25 full = hexes)"
  by (simp add: hexdump_def hexdumpHexOnly_def read_hexOnly_loop cut_hexdump_loop)

text \<open>A memory of 20 bytes.\<close>

theorem dumps_read_back_witness:
  "\<exists>hexes full. hexdump ''0x1000'' (\<lambda>i. of_nat i) 20 = ''Hexdump of: '' @ ''0x1000'' @ [newline] @ full \<and>
     cut_columns 25 25 full = hexes \<and> length (read_dump hexes) = 20"
proof -
  obtain hexes full where "hexdump ''0x1000'' (\<lambda>i. of_nat i) 20 = ''Hexdump of: '' @ ''0x1000'' @ [newline] @ full"
    "read_dump hexes = load_bytes 0 (nat 20) (\<lambda>i. of_nat i)" "cut_columns 25 25 full = hexes"
    using dumps_read_back [of "''0x1000''" "\<lambda>i. of_nat i" 20] by auto
  then show ?thesis by (intro exI [of _ hexes] exI [of _ full]) simp
qed

end
