(* ===== verification/Spin_Lock.thy ===== *)
theory Spin_Lock
  imports Prelude
begin

text \<open>
  The spin locks of \<open>include/spinlock.hpp\<close>.  The atomic flag is a boolean, and every operation on it is one
  step; threads run their steps in any order.  \<open>SpinLockCLSize\<close> differs from \<open>SpinLock\<close> in its
  padding only.
\<close>

section \<open>The operations\<close>

text \<open>The result of \<open>trylock\<close> and the new value of the flag: \<open>test_and_set\<close> sets it and returns the old one.\<close>

definition trylock :: "bool \<Rightarrow> bool \<times> bool" where
  "trylock latch = (\<not> latch, True)"

definition unlock :: "bool \<Rightarrow> bool" where
  "unlock latch = False"

section \<open>Threads\<close>

text \<open>
  A thread is outside, in the loop of \<open>lock\<close>, or holds the lock.  It may call \<open>lock\<close>, or
  \<open>trylock\<close> and go on without the lock if it fails; \<open>unlock\<close> is called by a holder only.
\<close>

datatype place = Outside | Spinning | Holding

record 't spin_system =
  latch :: bool
  place_of :: "'t \<Rightarrow> place"

definition spin_init :: "'t spin_system" where
  "spin_init = \<lparr>latch = False, place_of = (\<lambda>_. Outside)\<rparr>"

inductive spin_step :: "'t \<Rightarrow> 't spin_system \<Rightarrow> 't spin_system \<Rightarrow> bool" where
  lock_called: "place_of s t = Outside \<Longrightarrow> spin_step t s (s\<lparr>place_of := (place_of s)(t := Spinning)\<rparr>)"
| lock_taken: "place_of s t = Spinning \<Longrightarrow> trylock (latch s) = (True, l) \<Longrightarrow>
    spin_step t s (s\<lparr>latch := l, place_of := (place_of s)(t := Holding)\<rparr>)"
| lock_paused: "place_of s t = Spinning \<Longrightarrow> trylock (latch s) = (False, l) \<Longrightarrow> spin_step t s (s\<lparr>latch := l\<rparr>)"
| try_taken: "place_of s t = Outside \<Longrightarrow> trylock (latch s) = (True, l) \<Longrightarrow>
    spin_step t s (s\<lparr>latch := l, place_of := (place_of s)(t := Holding)\<rparr>)"
| try_failed: "place_of s t = Outside \<Longrightarrow> trylock (latch s) = (False, l) \<Longrightarrow> spin_step t s (s\<lparr>latch := l\<rparr>)"
| unlocked: "place_of s t = Holding \<Longrightarrow>
    spin_step t s (s\<lparr>latch := unlock (latch s), place_of := (place_of s)(t := Outside)\<rparr>)"

inductive spin_reachable :: "'t spin_system \<Rightarrow> bool" where
  start: "spin_reachable spin_init"
| step: "spin_reachable s \<Longrightarrow> spin_step t s s' \<Longrightarrow> spin_reachable s'"

inductive_cases spin_stepE: "spin_step t s s'"

section \<open>Mutual exclusion\<close>

text \<open>The flag is set exactly when a thread holds the lock, and at most one does.\<close>

definition holders :: "'t spin_system \<Rightarrow> 't set" where
  "holders s = {t. place_of s t = Holding}"

lemma holders_simps [simp]:
  "holders (s\<lparr>latch := l\<rparr>) = holders s"
  "holders (s\<lparr>place_of := (place_of s)(t := p)\<rparr>) = (if p = Holding then insert t (holders s) else holders s - {t})"
  "holders (s\<lparr>latch := l, place_of := (place_of s)(t := p)\<rparr>) = (if p = Holding then insert t (holders s) else holders s - {t})"
  by (auto simp: holders_def)

definition spin_inv :: "'t spin_system \<Rightarrow> bool" where
  "spin_inv s \<longleftrightarrow> (if latch s then \<exists>t. holders s = {t} else holders s = {})"

lemma spin_step_inv:
  assumes "spin_step t s s'" and "spin_inv s"
  shows "spin_inv s'"
proof -
  have "t \<in> holders s \<longleftrightarrow> place_of s t = Holding" by (simp add: holders_def)
  with assms show ?thesis
    by (cases rule: spin_step.cases) (auto simp: spin_inv_def trylock_def unlock_def split: if_splits)
qed

lemma spin_reachable_inv: "spin_reachable s \<Longrightarrow> spin_inv s"
proof (induction rule: spin_reachable.induct)
  case start
  show ?case by (simp add: spin_inv_def spin_init_def holders_def)
next
  case (step s t s')
  then show ?case by (blast intro: spin_step_inv)
qed

text \<open>
  C36.  The spin lock excludes, whatever threads there are and however their steps are interleaved: two threads
  never hold the lock at once; the flag is set exactly while one holds it; and a thread in
  the loop of \<open>lock\<close> gets the lock with its next step exactly when no other thread
  holds it.
\<close>

theorem spin_lock_excludes:
  assumes "spin_reachable s"
  shows "(place_of s t = Holding \<and> place_of s u = Holding \<longrightarrow> t = u) \<and>
    (latch s \<longleftrightarrow> (\<exists>v. place_of s v = Holding)) \<and>
    (place_of s t = Spinning \<longrightarrow>
       (\<exists>s'. spin_step t s s' \<and> place_of s' t = Holding) \<longleftrightarrow> (\<forall>v. place_of s v \<noteq> Holding))"
proof -
  note inv = spin_reachable_inv [OF assms, unfolded spin_inv_def]
  have taken: "(\<exists>s'. spin_step t s s' \<and> place_of s' t = Holding) \<longleftrightarrow> \<not> latch s" if "place_of s t = Spinning"
  proof
    assume "\<exists>s'. spin_step t s s' \<and> place_of s' t = Holding"
    with that show "\<not> latch s" by (auto simp: trylock_def elim!: spin_stepE)
  next
    assume "\<not> latch s"
    with that have "spin_step t s (s\<lparr>latch := True, place_of := (place_of s)(t := Holding)\<rparr>)"
      by (intro lock_taken) (simp_all add: trylock_def)
    then show "\<exists>s'. spin_step t s s' \<and> place_of s' t = Holding" by force
  qed
  have mem: "place_of s v = Holding \<longleftrightarrow> v \<in> holders s" for v by (simp add: holders_def)
  show ?thesis using inv taken unfolding mem by (auto split: if_splits)
qed

text \<open>Thread 0 holds the lock and thread 1 spins.\<close>

theorem spin_lock_excludes_witness:
  "\<exists>s :: nat spin_system. spin_reachable s \<and> place_of s 0 = Holding \<and> place_of s 1 = Spinning \<and>
     \<not> (\<exists>s'. spin_step 1 s s' \<and> place_of s' 1 = Holding)"
proof -
  define s1 :: "nat spin_system" where "s1 = spin_init\<lparr>latch := True, place_of := (\<lambda>_. Outside)(0 := Holding)\<rparr>"
  define s2 where "s2 = s1\<lparr>place_of := (place_of s1)(1 := Spinning)\<rparr>"
  have "spin_step 0 spin_init s1"
    using try_taken [of spin_init "0 :: nat" True] by (simp add: s1_def spin_init_def trylock_def)
  moreover have "spin_step 1 s1 s2"
    unfolding s2_def by (rule lock_called) (simp add: s1_def)
  ultimately have r: "spin_reachable s2" by (blast intro: spin_reachable.intros)
  have p: "place_of s2 0 = Holding" "place_of s2 1 = Spinning" by (simp_all add: s1_def s2_def)
  with spin_lock_excludes [OF r, of 1 0] r show ?thesis by blast
qed

end
