(* ===== verification/Spec2Isabelle.thy ===== *)
theory Spec2Isabelle
  imports Prelude Buf_Array Headers Common_Types Ident Hash_Map Timers Fun_Iface State_Machine_Props Machine_Run Packet_Ledger Machine_Spec Pool_Sharing Ownership Hello_Bye3_Props Conn_Spec Hello_Bye_Spec Hello_Bye_Service Hello_Bye_Client Hello_Bye_Net Tcp_Queue Hello_Bye2_Props Mem_Pool_Props Mem_Pool_Service Hello_Bye1_Props Dtls_Props Dtls_Process Astraeus_Props C_Handles Pcap_Backend Hexdump Spin_Lock
begin

text \<open>
  MoonState tracks protocol connections for packet-processing programs.  A program hands the
  packets it received to a state machine as a batch; the state machine finds the connection each packet
  belongs to and calls the function registered for the connection's state.  That function
  rewrites the packet into an answer or marks it to be freed, and moves the connection on.
  The program then sends one part of the batch and frees the other.

  The parts, the theories that model them, and the sources:

  \<^item> \<open>Prelude\<close>: the integer types, and the result type \<open>'a res\<close> of everything that can fail
    (a failing assertion, an index out of range, a dead object, an exception nobody catches);
    \<open>None\<close> is a call that never returns.
  \<^item> \<open>Buf_Array\<close> (\<open>include/bufArray.hpp\<close>): the batch.  A \<open>bufArray\<close> record holds the packets
    and the send marks; \<open>ba_list\<close> is the list it stands for.
  \<^item> \<open>Memory\<close>, \<open>Headers\<close> (\<open>include/headers.hpp\<close>): a packet is a function from offsets to bytes, and
    the header classes are loads and stores in it, in the byte order of the target.
  \<^item> \<open>Common_Types\<close> (\<open>include/common.hpp\<close>), \<open>Ident\<close> (\<open>include/IPv4_5TupleL2Ident.hpp\<close>): the
    odd integer types, and the five-tuple that identifies a connection.
  \<^item> \<open>Hash_Map\<close>, \<open>Timers\<close>: the interfaces of the hash maps and of the priority queue the state machine uses.
  \<^item> \<open>Fun_Iface\<close>, \<open>State_Machine\<close> (\<open>include/stateMachine.hpp\<close>): the state machine.  \<open>SM\<close> is the
    object, \<open>ctx\<close> what one call acts on (object, connection pools, batch, world), \<open>FunIface\<close>
    the interface a state function gets.  \<open>runPktBatch\<close>, \<open>addState\<close> and the registration functions
    are the operations.
  \<^item> \<open>Machine_Run\<close>: a program around a machine.  \<open>serve\<close> is what the C functions of a protocol do for the batches
    of a whole session, and the reports it returns (counts, packets sent with their contents, packets freed) are
    what can be observed of a machine.  \<open>Machine_Spec\<close>: the abstract \<open>service\<close> a machine implements.
  \<^item> \<open>Packet_Ledger\<close>: where the packets of a batch come from.  \<open>uses_iface\<close> (in \<open>Fun_Iface\<close>) describes a state
    function by its calls of \<open>getPkt\<close> and its own steps; a ledger on the world says which packets were handed out.
  \<^item> \<open>Pool_Sharing\<close>: machines in several threads on one connection pool, as an inductive step relation.
  \<^item> \<open>Packet_World\<close> (\<open>include/mbuf.hpp\<close>): the packet buffers, the heap of connection objects
    and the values of \<open>rand()\<close>, on which the protocols act; \<open>Ownership\<close>: which connection an object belongs to.
  \<^item> \<open>Hello_Bye1\<close> (\<open>helloByeProto\<close>, \<open>helloBye_C\<close>), \<open>Hello_Bye2\<close> (\<open>helloBye2Proto\<close>,
    \<open>helloBye2_C\<close>), \<open>Hello_Bye3\<close> (\<open>helloBye3\<close>), \<open>Hello_Bye3_Mem_Pool\<close> (\<open>helloBye3MemPool\<close>): the
    four versions of a small protocol, as state functions with their C interfaces.
  \<^item> \<open>Tcp\<close> (\<open>include/tcp.hpp\<close>, \<open>src/tcp.cpp\<close>, \<open>include/tcpConCtlSimple.hpp\<close>,
    \<open>include/tcpProtoJoke.hpp\<close>, \<open>src/tcpJoke.cpp\<close>): a TCP server over the state machine, its
    congestion control, and an echo protocol on top of it.
  \<^item> \<open>Dtls_Server\<close>, \<open>Dtls_Client\<close> (\<open>dtlsServer\<close>, \<open>dtlsClient\<close>): state functions that
    feed the packets of a connection to an OpenSSL session and send what the session wants to write;
    \<open>Openssl\<close> is the record of the library functions they call, a parameter.
  \<^item> \<open>Astraeus\<close> (\<open>astraeusClient\<close>, \<open>astraeusServer\<close>): state functions around a cryptographic handshake
    whose library is a parameter too.
  \<^item> \<open>C_Handles\<close> (the same four sources): the SSL contexts, and the objects that the init functions of the C
    interface make and the free functions take apart; library calls are recorded, their results a parameter.
  \<^item> \<open>Pcap_Backend\<close> (\<open>pcapBackend\<close>, \<open>include/samplePacket.hpp\<close>): receiving and sending batches on a network
    device; \<open>Hexdump\<close> (\<open>src/hexdump.cpp\<close>): dumps of memory as text; \<open>Spin_Lock\<close> (\<open>include/spinlock.hpp\<close>): the
    lock as an atomic flag, with threads as an inductive step relation.

  The interfaces are locales, each interpreted on the definitions that provide it: \<open>hash_map\<close> (the
  third-party maps) and \<open>machine_env\<close>, in which the facts about the state machine are proved;
  \<open>state_function\<close>, what the state machine needs of a state function, met by every handler of every
  protocol; \<open>packet_ledger\<close>, an account of the packets handed out, met by a log, by the set of packets that are out of
  the pool and by the trivial account, and \<open>ledger_machine\<close>, a machine whose surroundings keep such an account, met by the DTLS
  machine; \<open>machine_spec\<close>, what state functions and a factory have to do for the machine to implement a
  service, and \<open>service_spec\<close>, which adds a program around it; \<open>conn_version\<close>, what one side of the binary protocol has to
  do for both, a sublocale of \<open>service_spec\<close> met by the client, and \<open>hb_version\<close>, the case of a server, a
  sublocale of \<open>conn_version\<close> and interpreted on three versions; \<open>hb_pair\<close>, a server and a client together, whose two sublocales are the services of both;
  \<open>packet_ident\<close>, what the connection table needs of an identifier, met by the five-tuple and by no identifier that a sender chooses freely (\<open>reserved_keys_reachable\<close>
  below); \<open>tcp_protocol\<close>, what the TCP server needs of the protocol above it; \<open>mempool\<close> and
  \<open>packet_pool\<close>, the memory and packet pools of DPDK; \<open>output_bio\<close>, how OpenSSL hands out the bytes
  it wants to send, joined with \<open>packet_pool\<close> in \<open>session_output\<close>.

  The groups of lemmas:

  \<^item> the state machine (\<open>State_Machine_Spec\<close>, \<open>State_Machine_Props\<close>): the effect of each operation on
    the table, the pools and the batch, whatever the state functions do: a packet touches its own connection
    only, no ended connection is kept, a connection opened on one machine is found by the next;
    the timeouts, of which none can complete;
  \<^item> \<open>Machine_Run\<close>: no public operation leaves a machine that is not well-formed; \<open>Machine_Spec\<close>: by induction over the
    packets of a batch and the batches of a session, a machine implements the service its functions implement;
    \<open>Packet_Ledger\<close>: a batch gives back its own packets and precisely those \<open>getPkt\<close> obtained;
    \<open>Pool_Sharing\<close>: a connection object is handed over to one machine only, by rule induction;
  \<^item> the batch: the packets to send and to free partition it; growing keeps it;
  \<^item> \<open>Hello_Bye3_Props\<close>: a server never fails and never leaks an object, whatever packets it gets;
    each step answers as specified; a client and a server complete the exchange;
  \<^item> \<open>Hello_Bye_Spec\<close>, \<open>Hello_Bye_Service\<close>, \<open>Mem_Pool_Service\<close>: the service of the binary protocol, a map from
    connections to phases and cookies, and that the servers of the second and third version and of the pooled one
    implement it: whatever batches a server gets, it reports what the service reports, and its objects
    are one for each connection of the service.  The service of the pooled version is full at 8192 connections;
    they rest on \<open>Conn_Spec\<close>, connections and their objects on the heap in general.  \<open>Hello_Bye_Client\<close>: the client of
    the third version implements a service too.  \<open>Hello_Bye_Net\<close>: the two programs on a network that loses, duplicates,
    delays and reorders packets, an inductive step relation over their calls; what the two sides agree on, an invariant
    of their two services, and that an exchange under a fresh identifier can complete in every reachable state;
  \<^item> \<open>Hello_Bye2_Sim\<close>, \<open>Hello_Bye2_Props\<close>: a simulation between the second version, which allocates an
    object per state, and the third, which keeps one;
  \<^item> \<open>Mem_Pool_Props\<close>: the pooled version refines the third, keeps its pool balanced, and throws
    when the pool is exhausted; freeing it leaves a dangling pool;
  \<^item> \<open>Hello_Bye1_Props\<close>: the text version completes the exchange too, but keeps its objects;
  \<^item> \<open>Tcp_Spec\<close>, \<open>Tcp_Send\<close>, \<open>Tcp_Props\<close>, \<open>Tcp_Queue\<close>: an invariant of TCP connections that every
    handler keeps, the answer of each handler, the sending loop against its specification \<open>drain\<close>;
  \<^item> \<open>Dtls_Send\<close>, \<open>Dtls_Props\<close>: the DTLS server sends exactly the bytes its session wants to write, in
    datagrams for the peer; its handshake answers the sender, an established session echoes; the
    inputs on which the handlers fail; \<open>Dtls_Frames\<close>, \<open>Dtls_Process\<close>: the handlers use
    their interface only, so they meet the contract of state functions, and a call returns its packets and those it took
    from the pool;
  \<^item> \<open>Astraeus_Props\<close>: a client and a server complete the handshake of the library; the
    connections that one call of \<open>AstraeusClient_connect\<close> opens, and how many it can open;
  \<^item> \<open>C_Handles\<close>: what becomes of a server without a context, and of every object that is freed;
  \<^item> \<open>Pcap_Backend\<close>: a sent batch returns to the pool, a received one cannot be read; \<open>Hexdump\<close>: a dump can be read
    back; \<open>Spin_Lock\<close>: mutual exclusion, by rule induction over the reachable states;
  \<^item> headers and identifiers: what the setters write the getters read; the checksum; the bytes that are hashed.

  Loops: the copy loops of the batch, the connection lookup, the timeout loop and the sending loop of
  the DTLS server are \<^theory_text>\<open>partial_function\<close>s over \<^typ>\<open>'a option\<close>, and each is proved to return (the last
  one if every read takes some of the waiting bytes and the pool has enough packets); the loops over segments and
  over packets recurse on their lists or on a measure, those of the dumps on the length left.  No fuel is used.

  Third-party code is a parameter everywhere: the hash maps of sparsehash and TBB, the keyed hash of
  libsodium, OpenSSL, the Astraeus library, libpcap, the memory and packet pools of DPDK, the clock.  The TCP congestion control and the protocol above
  TCP are template parameters of the code and parameters of the model.

  Not modelled: \<open>measure\<close> and the counters of the state machine (time stamps that nothing reads, and the file
  \<open>DtlsServer_free\<close> writes them to); the mutexes of \<open>Hello_Bye3_Mem_Pool\<close> and of the state machine (the
  operations of a machine run one at a time here; threads occur in \<open>Pool_Sharing\<close> and \<open>Spin_Lock\<close> only);
  the programs under \<open>tests\<close> and \<open>benchmarks\<close>, and the Lua scripts that drive the library.
  Of the modelled classes, output to the console, debug code, the seeding of \<open>rand()\<close> and
  the deletion of a whole state machine are left out.  The TCP client and \<open>runFin\<close> are
  declared in the sources and never defined.
\<close>

section \<open>Reserved identifiers\<close>

text \<open>
  The identifier of HelloBye3 does not meet what the connection table needs: a packet may
  carry any 64-bit identifier, and the two greatest ones are the keys the table reserves for
  deleted and empty slots (inserting them is forbidden).  Such packets exist, so the contract
  that the five-tuple identifier satisfies cannot be established for this one.
\<close>

theorem reserved_keys_reachable:
  "(\<forall>k. \<exists>m. hb3_identify m = Some k) \<and>
   \<not> packet_ident hb3_identify hb3_getDelKey hb3_getEmptyKey"
proof -
  have ex: "\<exists>m. hb3_identify m = Some k" for k
  proof -
    let ?m = "store64 42 k (hb_ex_mem 0)"
    have "load16 ?m 12 = load16 (hb_ex_mem 0) 12" "?m 14 = hb_ex_mem 0 14" "?m 23 = hb_ex_mem 0 23" "load64 ?m 42 = k"
      by (simp_all add: mem_simps)
    moreover have "ntohs (load16 (hb_ex_mem 0) 12) = 0x0800"
      by (simp add: hb_ex_mem_def load16_def ntohs_def) (simp add: word_cat_eq)
    ultimately have "hb3_identify ?m = Some k"
      by (simp add: hb3_identify_def Let_def eth_getEthertype_def ETHERTYPE_IPv4_def ip_proto_def
          eth_getPayload_def PROTO_UDP_def hdr_offsets ip_getPayload_def ip_ihl_def msg_ident_def hb_ex_mem_def)
    then show ?thesis by blast
  qed
  have "\<not> packet_ident hb3_identify hb3_getDelKey hb3_getEmptyKey"
  proof
    assume p: "packet_ident hb3_identify hb3_getDelKey hb3_getEmptyKey"
    obtain m where "hb3_identify m = Some hb3_getDelKey" using ex by blast
    with packet_ident.ident_not_del [OF p, of m] show False by simp
  qed
  with ex show ?thesis by simp
qed

end
